(* ===== verification/Prelude.thy ===== *)
theory Prelude
  imports Main "HOL-Library.Sublist" "HOL-Library.Multiset" "HOL-Library.List_Lexorder"
    "HOL-Library.Product_Lexorder"
begin

text \<open>
  What every component shares: Python text as lists of code points, results of operations that
  may raise, loops over tuples that may raise, dictionaries built from generator expressions,
  the StrEnum interface, and the list lemmas the component proofs rest on.
\<close>

section \<open>Text\<close>

text \<open>
  A Python \<open>str\<close> is a sequence of Unicode code points, here a list of natural numbers; \<open>len\<close>
  is \<open>length\<close>, comparison is lexicographic by code point (the order of
  \<open>HOL-Library.List_Lexorder\<close>), \<open>s.startswith(p)\<close> is \<open>prefix p s\<close>. A string literal of the
  source is written \<open>lit ''...''\<close>; the NUL character of \<open>"\0"\<close> is the singleton \<open>[0]\<close>.
\<close>

type_synonym ustr = "nat list"

definition lit :: "string \<Rightarrow> ustr" where
  "lit s = map of_char s"

lemma lit_inject [simp]: "lit a = lit b \<longleftrightarrow> a = b"
  by (simp add: lit_def inj_map_eq_map inj_def)

lemma lit_eq_Nil [simp]: "lit s = [] \<longleftrightarrow> s = []"
  by (simp add: lit_def)

lemma lit_Nil [simp]: "lit [] = []"
  by (simp add: lit_def)

lemma length_lit [simp]: "length (lit s) = length s"
  by (simp add: lit_def)

lemma prefix_lit [simp]: "prefix (lit a) (lit b) \<longleftrightarrow> prefix a b"
proof
  assume "prefix (lit a) (lit b)"
  then obtain zs where zs: "lit b = lit a @ zs" by (auto simp: prefix_def)
  have "lit (take (length a) b) = take (length a) (lit b)"
    by (simp add: lit_def take_map)
  also have "\<dots> = lit a" by (simp add: zs)
  finally have "take (length a) b = a" by simp
  then show "prefix a b" by (metis take_is_prefix)
next
  assume "prefix a b"
  then show "prefix (lit a) (lit b)" by (auto simp: lit_def prefix_def)
qed

lemma zero_in_lit: "0 \<in> set (lit s) \<longleftrightarrow> CHR 0x00 \<in> set s"
proof -
  have "of_char c = (0::nat) \<longleftrightarrow> c = CHR 0x00" for c
    using of_char_eq_iff [where ?'a = nat, of c "CHR 0x00"] by simp
  then show ?thesis by (force simp: lit_def)
qed

text \<open>\<open>str(n)\<close> on integers: decimal, with a minus sign in front of a negative number.\<close>

fun str_nat :: "nat \<Rightarrow> ustr" where
  "str_nat n = (if n < 10 then [48 + n] else str_nat (n div 10) @ [48 + n mod 10])"

declare str_nat.simps [simp del]

definition str_int :: "int \<Rightarrow> ustr" where
  "str_int i = (if i < 0 then lit ''-'' @ str_nat (nat (- i)) else str_nat (nat i))"

text \<open>\<open>int(s)\<close> on a string of ASCII digits.\<close>

definition int_of_digits :: "ustr \<Rightarrow> int" where
  "int_of_digits s = foldl (\<lambda>a c. a * 10 + (int c - 48)) 0 s"

definition is_digit :: "nat \<Rightarrow> bool" where
  "is_digit c \<longleftrightarrow> 48 \<le> c \<and> c \<le> 57"

definition is_ascii :: "ustr \<Rightarrow> bool" where
  "is_ascii s \<longleftrightarrow> list_all (\<lambda>c. c < 128) s"

lemma str_nat_not_Nil [simp]: "str_nat n \<noteq> []"
  by (subst str_nat.simps) simp

lemma str_nat_digits: "list_all is_digit (str_nat n)"
proof (induction n rule: str_nat.induct)
  case (1 n)
  have "is_digit (48 + n mod 10)"
    using mod_less_divisor [of 10 n] by (simp add: is_digit_def)
  moreover have "n < 10 \<Longrightarrow> is_digit (48 + n)" by (simp add: is_digit_def)
  ultimately show ?case using 1 by (subst str_nat.simps) simp
qed

lemma length_str_nat: "n < 10 ^ Suc k \<Longrightarrow> length (str_nat n) \<le> Suc k"
proof (induction k arbitrary: n)
  case (Suc k)
  show ?case
  proof (cases "n < 10")
    case False
    have "n div 10 < 10 ^ Suc k" using Suc.prems by (simp add: less_mult_imp_div_less mult.commute)
    from Suc.IH [OF this] False show ?thesis by (simp add: str_nat.simps [of n])
  qed (simp add: str_nat.simps [of n])
next
  case 0
  then show ?case by (simp add: str_nat.simps [of n])
qed

lemma int_of_digits_snoc: "int_of_digits (s @ [c]) = int_of_digits s * 10 + (int c - 48)"
  by (simp add: int_of_digits_def)

lemma int_of_digits_str_nat: "int_of_digits (str_nat n) = int n"
proof (induction n rule: str_nat.induct)
  case (1 n)
  show ?case
  proof (cases "n < 10")
    case True
    then show ?thesis by (subst str_nat.simps) (simp add: int_of_digits_def)
  next
    case False
    with 1 have "int_of_digits (str_nat (n div 10)) = int (n div 10)" by simp
    moreover have "int n = int (n div 10) * 10 + int (n mod 10)" by presburger
    ultimately show ?thesis
      using False by (subst str_nat.simps) (simp add: int_of_digits_snoc)
  qed
qed

lemma int_of_digits_nonneg: "list_all is_digit s \<Longrightarrow> 0 \<le> int_of_digits s"
  by (induction s rule: rev_induct)
    (auto simp: int_of_digits_snoc is_digit_def, simp add: int_of_digits_def)

text \<open>\<open>sep.join(parts)\<close>.\<close>

fun join :: "ustr \<Rightarrow> ustr list \<Rightarrow> ustr" where
  "join sep [] = []"
| "join sep [x] = x"
| "join sep (x # y # ys) = x @ sep @ join sep (y # ys)"

text \<open>
  \<open>s.split(c)\<close> for a one-character separator: the pieces between the separators, so one piece more
  than there are separators.
\<close>

fun split_on :: "nat \<Rightarrow> ustr \<Rightarrow> ustr list" where
  "split_on c [] = [[]]"
| "split_on c (x # xs) =
     (if x = c then [] # split_on c xs
      else (case split_on c xs of [] \<Rightarrow> [[x]] | y # ys \<Rightarrow> (x # y) # ys))"

lemma split_on_not_Nil [simp]: "split_on c s \<noteq> []"
  by (induction s) (auto split: list.splits)

lemma join_split_on: "join [c] (split_on c s) = s"
proof (induction s)
  case Nil
  then show ?case by simp
next
  case (Cons x xs)
  then show ?case
    by (cases "split_on c xs") (auto split: list.splits, (cases "tl (split_on c xs)"; auto)+)
qed

lemma split_on_no_sep: "c \<notin> set s \<Longrightarrow> split_on c s = [s]"
  by (induction s) auto

lemma split_on_append: "c \<notin> set s \<Longrightarrow> split_on c (s @ c # t) = s # split_on c t"
  by (induction s) auto

lemma split_on_join:
  "xs \<noteq> [] \<Longrightarrow> \<forall>x \<in> set xs. c \<notin> set x \<Longrightarrow> split_on c (join [c] xs) = xs"
  by (induction "[c]" xs rule: join.induct) (auto simp: split_on_no_sep split_on_append)

section \<open>Results of operations that may raise\<close>

text \<open>
  A call that may raise returns \<open>Inl e\<close> for the exception and \<open>Inr v\<close> for the value. \<open>bindE\<close> is
  sequential composition, \<open>checkE\<close> is \<open>if not b: raise e\<close>, \<open>forE\<close> a for loop whose body returns
  nothing, and \<open>mapE\<close> the generator expression \<open>tuple(f(x) for x in xs)\<close>; both stop at the first
  exception.
\<close>

definition bindE :: "'e + 'a \<Rightarrow> ('a \<Rightarrow> 'e + 'b) \<Rightarrow> 'e + 'b" where
  "bindE r f = (case r of Inl e \<Rightarrow> Inl e | Inr v \<Rightarrow> f v)"

definition checkE :: "bool \<Rightarrow> 'e \<Rightarrow> 'e + unit" where
  "checkE b e = (if b then Inr () else Inl e)"

abbreviation thenE :: "'e + unit \<Rightarrow> 'e + 'b \<Rightarrow> 'e + 'b" where
  "thenE r s \<equiv> bindE r (\<lambda>_. s)"

fun forE :: "('a \<Rightarrow> 'e + unit) \<Rightarrow> 'a list \<Rightarrow> 'e + unit" where
  "forE f [] = Inr ()"
| "forE f (x # xs) = thenE (f x) (forE f xs)"

fun mapE :: "('a \<Rightarrow> 'e + 'b) \<Rightarrow> 'a list \<Rightarrow> 'e + 'b list" where
  "mapE f [] = Inr []"
| "mapE f (x # xs) = bindE (f x) (\<lambda>y. bindE (mapE f xs) (\<lambda>ys. Inr (y # ys)))"

fun seqE :: "('e + unit) list \<Rightarrow> 'e + unit" where
  "seqE [] = Inr ()"
| "seqE (r # rs) = thenE r (seqE rs)"

lemma bindE_simps [simp]: "bindE (Inl e) f = Inl e" "bindE (Inr v) f = f v"
  by (simp_all add: bindE_def)

lemma bindE_eq_Inr [simp]: "bindE r f = Inr w \<longleftrightarrow> (\<exists>v. r = Inr v \<and> f v = Inr w)"
  by (cases r) auto

lemma bindE_eq_Inl: "bindE r f = Inl e \<longleftrightarrow> r = Inl e \<or> (\<exists>v. r = Inr v \<and> f v = Inl e)"
  by (cases r) auto

lemma bindE_assoc: "bindE (bindE r f) g = bindE r (\<lambda>x. bindE (f x) g)"
  by (cases r) auto

lemma checkE_eq_Inr [simp]: "checkE b e = Inr u \<longleftrightarrow> b"
  by (simp add: checkE_def)

lemma checkE_eq_Inl [simp]: "checkE b e = Inl e' \<longleftrightarrow> \<not> b \<and> e = e'"
  by (auto simp: checkE_def)

lemma checkE_True [simp]: "checkE True e = Inr ()"
  by (simp add: checkE_def)

lemma forE_eq_Inr [simp]: "forE f xs = Inr u \<longleftrightarrow> (\<forall>x \<in> set xs. f x = Inr ())"
  by (induction xs) auto

lemma seqE_eq_Inr [simp]: "seqE rs = Inr u \<longleftrightarrow> (\<forall>r \<in> set rs. r = Inr ())"
  by (induction rs) auto

lemma mapE_eq_Inr: "mapE f xs = Inr ys \<longleftrightarrow> list_all2 (\<lambda>x y. f x = Inr y) xs ys"
  by (induction xs arbitrary: ys) (auto simp: list_all2_Cons1)

lemma mapE_map_Inr:
  "(\<And>x. x \<in> set xs \<Longrightarrow> f (g x) = Inr (h x)) \<Longrightarrow> mapE f (map g xs) = Inr (map h xs)"
  by (induction xs) auto

lemma mapE_length: "mapE f xs = Inr ys \<Longrightarrow> length ys = length xs"
  by (auto simp: mapE_eq_Inr list_all2_lengthD)

section \<open>Dictionaries, sets and sorting\<close>

text \<open>
  \<open>{k(x): v(x) for x in xs}\<close>: a later entry replaces an earlier one with the same key.
\<close>

definition dict_of :: "('a \<Rightarrow> 'k) \<Rightarrow> ('a \<Rightarrow> 'v) \<Rightarrow> 'a list \<Rightarrow> 'k \<Rightarrow> 'v option" where
  "dict_of k v xs = map_of (rev (map (\<lambda>x. (k x, v x)) xs))"

lemma dict_of_None_iff: "dict_of k v xs q = None \<longleftrightarrow> q \<notin> k ` set xs"
  by (auto simp: dict_of_def map_of_eq_None_iff image_iff)

lemma dict_of_SomeD: "dict_of k v xs q = Some y \<Longrightarrow> \<exists>x \<in> set xs. k x = q \<and> v x = y"
  by (auto simp: dict_of_def dest!: map_of_SomeD)

lemma dict_of_distinct:
  assumes "distinct (map k xs)" and "x \<in> set xs"
  shows "dict_of k v xs (k x) = Some (v x)"
proof -
  have "distinct (map fst (rev (map (\<lambda>x. (k x, v x)) xs)))"
    using assms(1) by (simp add: rev_map [symmetric] comp_def)
  moreover have "(k x, v x) \<in> set (rev (map (\<lambda>x. (k x, v x)) xs))"
    using assms(2) by auto
  ultimately show ?thesis by (simp add: dict_of_def)
qed

lemma find_dict_of:
  assumes d: "distinct (map k xs)"
  shows "dict_of k (\<lambda>x. x) xs q = find (\<lambda>x. k x = q) xs"
proof (cases "find (\<lambda>x. k x = q) xs")
  case None
  then have "dict_of k (\<lambda>x. x) xs q = None"
    by (auto simp: find_None_iff dict_of_None_iff)
  with None show ?thesis by simp
next
  case (Some x)
  from Some have "x \<in> set xs" "k x = q" by (auto simp: find_Some_iff)
  with d Some show ?thesis using dict_of_distinct [of k xs x "\<lambda>x. x"] by simp
qed

text \<open>
  \<open>sorted(xs, key=k)\<close> is \<open>sort_key k xs\<close> (both are stable); with \<open>reverse=True\<close> equal elements
  still keep their order, which is \<open>sorted_reverse\<close>.
\<close>

definition sorted_reverse :: "('a \<Rightarrow> 'k::linorder) \<Rightarrow> 'a list \<Rightarrow> 'a list" where
  "sorted_reverse k xs = rev (sort_key k (rev xs))"

lemma set_sorted_reverse [simp]: "set (sorted_reverse k xs) = set xs"
  by (simp add: sorted_reverse_def)

lemma length_sorted_reverse [simp]: "length (sorted_reverse k xs) = length xs"
  by (simp add: sorted_reverse_def)

lemma distinct_map_sort_key [simp]: "distinct (map f (sort_key k xs)) \<longleftrightarrow> distinct (map f xs)"
proof -
  have "mset (map f (sort_key k xs)) = mset (map f xs)" by (simp only: mset_map mset_sort)
  then show ?thesis by (metis mset_eq_imp_distinct_iff)
qed

lemma distinct_map_sorted_reverse [simp]:
  "distinct (map f (sorted_reverse k xs)) \<longleftrightarrow> distinct (map f xs)"
  by (simp add: sorted_reverse_def rev_map [symmetric])

lemma sorted_reverse_desc: "sorted_wrt (\<lambda>x y. k y \<le> k x) (sorted_reverse k xs)"
  using sorted_sort_key [of k "rev xs"]
  by (simp add: sorted_reverse_def sorted_wrt_rev sorted_map)

lemma sorted_reverse_idem:
  assumes "sorted_wrt (\<lambda>x y. k y \<le> k x) xs"
  shows "sorted_reverse k xs = xs"
proof -
  have "sorted (map k (rev xs))" using assms by (simp add: sorted_map sorted_wrt_rev)
  then show ?thesis by (simp add: sorted_reverse_def sort_key_id_if_sorted)
qed

section \<open>The StrEnum interface\<close>

text \<open>
  A \<open>StrEnum\<close> is given by its members and their values; \<open>Enum(value)\<close> looks a member up by its
  value and raises \<open>ValueError\<close> when there is none. The laws are that every member is listed and
  that \<open>@unique\<close> holds; what the parsers and printers of the components need follows from them.
\<close>

definition enum_of :: "('e \<Rightarrow> ustr) \<Rightarrow> 'e list \<Rightarrow> ustr \<Rightarrow> 'e option" where
  "enum_of val members s = find (\<lambda>e. val e = s) members"

locale str_enum =
  fixes val :: "'e \<Rightarrow> ustr" and members :: "'e list"
  assumes complete: "set members = UNIV"
    and unique: "val a = val b \<Longrightarrow> a = b"
begin

lemma of_val: "enum_of val members (val e) = Some e"
proof -
  have "find (\<lambda>x. val x = val e) members \<noteq> None"
    using complete by (auto simp: find_None_iff)
  then obtain x where "find (\<lambda>x. val x = val e) members = Some x" by auto
  moreover from this have "val x = val e" by (auto simp: find_Some_iff)
  ultimately show ?thesis using unique by (auto simp: enum_of_def)
qed

lemma of_Some_iff: "enum_of val members s = Some e \<longleftrightarrow> s = val e"
  using of_val unique by (auto simp: enum_of_def find_Some_iff)

lemma of_None_iff: "enum_of val members s = None \<longleftrightarrow> s \<notin> range val"
  using complete by (auto simp: enum_of_def find_None_iff)

lemma val_eq_iff: "val a = val b \<longleftrightarrow> a = b"
  using unique by auto

end

section \<open>Lists\<close>

lemma find_map_id:
  assumes "\<And>x. k (f x) = k x"
  shows "find (\<lambda>x. k x = q) (map f xs) = map_option f (find (\<lambda>x. k x = q) xs)"
  by (induction xs) (auto simp: assms)

lemma find_distinct:
  assumes "distinct (map k xs)" and "x \<in> set xs"
  shows "find (\<lambda>y. k y = k x) xs = Some x"
  using assms by (induction xs) auto

lemma find_SomeD: "find P xs = Some x \<Longrightarrow> x \<in> set xs \<and> P x"
  by (auto simp: find_Some_iff)

lemma find_NoneD: "find P xs = None \<Longrightarrow> \<forall>x \<in> set xs. \<not> P x"
  by (simp add: find_None_iff)

lemma distinct_map_filter [intro]: "distinct (map f xs) \<Longrightarrow> distinct (map f (filter P xs))"
  by (induction xs) auto

lemma map_map_key: "(\<And>x. x \<in> set xs \<Longrightarrow> k (f x) = k x) \<Longrightarrow> map k (map f xs) = map k xs"
  by simp

text \<open>\<open>tuple(y for x in xs if (y := f(x)) is not None)\<close>.\<close>

fun collect_some :: "('a \<Rightarrow> 'b option) \<Rightarrow> 'a list \<Rightarrow> 'b list" where
  "collect_some f [] = []"
| "collect_some f (x # xs) =
     (case f x of None \<Rightarrow> collect_some f xs | Some y \<Rightarrow> y # collect_some f xs)"

lemma in_set_collect_some:
  "y \<in> set (collect_some f xs) \<longleftrightarrow> (\<exists>x \<in> set xs. f x = Some y)"
  by (induction xs) (auto split: option.splits)

lemma distinct_collect_some:
  assumes "\<And>x y. x \<in> set xs \<Longrightarrow> f x = Some y \<Longrightarrow> k y = k x" and "distinct (map k xs)"
  shows "distinct (map k (collect_some f xs))"
  using assms
proof (induction xs)
  case Nil
  then show ?case by simp
next
  case (Cons a xs)
  have IH: "distinct (map k (collect_some f xs))"
    using Cons.prems by (intro Cons.IH) auto
  show ?case
  proof (cases "f a")
    case None
    with IH show ?thesis by simp
  next
    case (Some y)
    have "k z \<noteq> k y" if "z \<in> set (collect_some f xs)" for z
    proof -
      from that obtain x where x: "x \<in> set xs" "f x = Some z"
        by (auto simp: in_set_collect_some)
      with Cons.prems(1) have "k z = k x" by simp
      moreover from Some Cons.prems(1) have "k y = k a" by simp
      ultimately show ?thesis using Cons.prems(2) x(1) by force
    qed
    with Some IH show ?thesis by (simp add: image_iff) metis
  qed
qed

lemma find_key_None: "find (\<lambda>x. k x = q) xs = None \<longleftrightarrow> q \<notin> k ` set xs"
  by (auto simp: find_None_iff)

lemma find_collect_some:
  assumes "\<And>x y. x \<in> set xs \<Longrightarrow> f x = Some y \<Longrightarrow> k y = k x" and "distinct (map k xs)"
  shows "find (\<lambda>y. k y = q) (collect_some f xs) = Option.bind (find (\<lambda>x. k x = q) xs) f"
  using assms
proof (induction xs)
  case Nil
  then show ?case by simp
next
  case (Cons a xs)
  have IH: "find (\<lambda>y. k y = q) (collect_some f xs) = Option.bind (find (\<lambda>x. k x = q) xs) f"
    using Cons.prems by (intro Cons.IH) auto
  show ?case
  proof (cases "k a = q")
    case True
    with Cons.prems(2) have "find (\<lambda>x. k x = q) xs = None" by (auto simp: find_key_None)
    with IH True Cons.prems(1) [of a] show ?thesis by (auto split: option.split)
  next
    case False
    with IH Cons.prems(1) [of a] show ?thesis by (auto split: option.split)
  qed
qed

lemma collect_some_map: "collect_some f (map g xs) = collect_some (\<lambda>x. f (g x)) xs"
  by (induction xs) (auto split: option.splits)

lemma collect_some_cong:
  "(\<And>x. x \<in> set xs \<Longrightarrow> f x = g x) \<Longrightarrow> collect_some f xs = collect_some g xs"
  by (induction xs) (auto split: option.splits)

lemma find_map_const:
  assumes "\<And>x. x \<in> set xs \<Longrightarrow> k (f x) = k x"
  shows "find (\<lambda>x. k x = q) (map f xs) = map_option f (find (\<lambda>x. k x = q) xs)"
  using assms by (induction xs) auto

lemma find_filter_key:
  assumes "distinct (map k xs)"
  shows "find (\<lambda>x. k x = q) (filter P xs) =
    (case find (\<lambda>x. k x = q) xs of Some x \<Rightarrow> if P x then Some x else None | None \<Rightarrow> None)"
  using assms
proof (induction xs)
  case Nil
  then show ?case by simp
next
  case (Cons a xs)
  then have "k a = q \<Longrightarrow> find (\<lambda>x. k x = q) xs = None" by (auto simp: find_key_None)
  with Cons show ?case by auto
qed

lemma find_append: "find P (xs @ ys) = (case find P xs of None \<Rightarrow> find P ys | Some x \<Rightarrow> Some x)"
  by (induction xs) auto

end
