(* ===== verification/Models.thy ===== *)
theory Models
  imports Prelude
begin

text \<open>
  The data of \<open>models.py\<close>: the StrEnums as datatypes with their values, the frozen dataclasses
  as records, the response union as a datatype, and the exceptions of the helper as one error
  type. A \<open>datetime\<close> is an instant in microseconds: every datetime the helper builds is
  timezone-aware UTC (\<open>utc_now\<close>, or an ISO text that ends in \<open>+00:00\<close>), so comparison and
  \<open>timedelta\<close> arithmetic are comparison and addition of instants.
\<close>

type_synonym datetime = int
type_synonym timedelta = int

definition seconds :: "int \<Rightarrow> timedelta" where
  "seconds n = n * 1000000"

definition minutes :: "int \<Rightarrow> timedelta" where
  "minutes n = n * 60000000"

definition hours :: "int \<Rightarrow> timedelta" where
  "hours n = n * 3600000000"

definition days :: "int \<Rightarrow> timedelta" where
  "days n = n * 86400000000"

lemmas timedelta_defs = seconds_def minutes_def hours_def days_def

section \<open>Enumerations\<close>

datatype SourceStatus = Status_OK | Status_NOT_APPLICABLE | Status_MISSING_DEPENDENCY
  | Status_OFFLINE | Status_TIMEOUT | Status_ERROR | Status_INVALID | Status_STALE

fun status_value :: "SourceStatus \<Rightarrow> ustr" where
  "status_value Status_OK = lit ''ok''"
| "status_value Status_NOT_APPLICABLE = lit ''not_applicable''"
| "status_value Status_MISSING_DEPENDENCY = lit ''missing_dependency''"
| "status_value Status_OFFLINE = lit ''offline''"
| "status_value Status_TIMEOUT = lit ''timeout''"
| "status_value Status_ERROR = lit ''error''"
| "status_value Status_INVALID = lit ''invalid''"
| "status_value Status_STALE = lit ''stale''"

definition status_members :: "SourceStatus list" where
  "status_members = [Status_OK, Status_NOT_APPLICABLE, Status_MISSING_DEPENDENCY, Status_OFFLINE,
     Status_TIMEOUT, Status_ERROR, Status_INVALID, Status_STALE]"

datatype ScanState = Scan_COMPLETE | Scan_PARTIAL | Scan_FAILED

fun scan_state_value :: "ScanState \<Rightarrow> ustr" where
  "scan_state_value Scan_COMPLETE = lit ''complete''"
| "scan_state_value Scan_PARTIAL = lit ''partial''"
| "scan_state_value Scan_FAILED = lit ''failed''"

definition scan_state_members :: "ScanState list" where
  "scan_state_members = [Scan_COMPLETE, Scan_PARTIAL, Scan_FAILED]"

datatype SourceName = Src_SECURITY | Src_CISA_KEV | Src_OMARCHY | Src_ARCH | Src_AUR
  | Src_FLATPAK | Src_MISE

fun source_name_value :: "SourceName \<Rightarrow> ustr" where
  "source_name_value Src_SECURITY = lit ''security''"
| "source_name_value Src_CISA_KEV = lit ''cisa-kev''"
| "source_name_value Src_OMARCHY = lit ''omarchy''"
| "source_name_value Src_ARCH = lit ''arch''"
| "source_name_value Src_AUR = lit ''aur''"
| "source_name_value Src_FLATPAK = lit ''flatpak''"
| "source_name_value Src_MISE = lit ''mise''"

definition source_name_members :: "SourceName list" where
  "source_name_members = [Src_SECURITY, Src_CISA_KEV, Src_OMARCHY, Src_ARCH, Src_AUR,
     Src_FLATPAK, Src_MISE]"

datatype SourceScope = Scope_USER | Scope_SYSTEM

fun scope_value :: "SourceScope \<Rightarrow> ustr" where
  "scope_value Scope_USER = lit ''user''"
| "scope_value Scope_SYSTEM = lit ''system''"

definition scope_members :: "SourceScope list" where
  "scope_members = [Scope_USER, Scope_SYSTEM]"

datatype ItemSource = Item_OMARCHY | Item_ARCH | Item_AUR | Item_FLATPAK | Item_MISE

fun item_source_value :: "ItemSource \<Rightarrow> ustr" where
  "item_source_value Item_OMARCHY = lit ''omarchy''"
| "item_source_value Item_ARCH = lit ''arch''"
| "item_source_value Item_AUR = lit ''aur''"
| "item_source_value Item_FLATPAK = lit ''flatpak''"
| "item_source_value Item_MISE = lit ''mise''"

definition item_source_members :: "ItemSource list" where
  "item_source_members = [Item_OMARCHY, Item_ARCH, Item_AUR, Item_FLATPAK, Item_MISE]"

datatype WatchMode = Watch_OFF | Watch_TEMPORARY | Watch_PERMANENT

fun watch_mode_value :: "WatchMode \<Rightarrow> ustr" where
  "watch_mode_value Watch_OFF = lit ''off''"
| "watch_mode_value Watch_TEMPORARY = lit ''temporary''"
| "watch_mode_value Watch_PERMANENT = lit ''permanent''"

definition watch_mode_members :: "WatchMode list" where
  "watch_mode_members = [Watch_OFF, Watch_TEMPORARY, Watch_PERMANENT]"

datatype Severity = Sev_UNKNOWN | Sev_LOW | Sev_MEDIUM | Sev_HIGH | Sev_CRITICAL

fun severity_value :: "Severity \<Rightarrow> ustr" where
  "severity_value Sev_UNKNOWN = lit ''unknown''"
| "severity_value Sev_LOW = lit ''low''"
| "severity_value Sev_MEDIUM = lit ''medium''"
| "severity_value Sev_HIGH = lit ''high''"
| "severity_value Sev_CRITICAL = lit ''critical''"

definition severity_members :: "Severity list" where
  "severity_members = [Sev_UNKNOWN, Sev_LOW, Sev_MEDIUM, Sev_HIGH, Sev_CRITICAL]"

datatype ArchStatus = Arch_UNKNOWN | Arch_VULNERABLE | Arch_TESTING | Arch_FIXED
  | Arch_NOT_AFFECTED

fun arch_status_value :: "ArchStatus \<Rightarrow> ustr" where
  "arch_status_value Arch_UNKNOWN = lit ''Unknown''"
| "arch_status_value Arch_VULNERABLE = lit ''Vulnerable''"
| "arch_status_value Arch_TESTING = lit ''Testing''"
| "arch_status_value Arch_FIXED = lit ''Fixed''"
| "arch_status_value Arch_NOT_AFFECTED = lit ''Not affected''"

definition arch_status_members :: "ArchStatus list" where
  "arch_status_members = [Arch_UNKNOWN, Arch_VULNERABLE, Arch_TESTING, Arch_FIXED,
     Arch_NOT_AFFECTED]"

datatype KevStatus = Kev_LISTED | Kev_NOT_LISTED | Kev_UNAVAILABLE

fun kev_status_value :: "KevStatus \<Rightarrow> ustr" where
  "kev_status_value Kev_LISTED = lit ''listed''"
| "kev_status_value Kev_NOT_LISTED = lit ''not_listed''"
| "kev_status_value Kev_UNAVAILABLE = lit ''unavailable''"

definition kev_status_members :: "KevStatus list" where
  "kev_status_members = [Kev_LISTED, Kev_NOT_LISTED, Kev_UNAVAILABLE]"

datatype Provenance = Prov_LIVE | Prov_CACHE | Prov_LAST_GOOD | Prov_FALLBACK

fun provenance_value :: "Provenance \<Rightarrow> ustr" where
  "provenance_value Prov_LIVE = lit ''live''"
| "provenance_value Prov_CACHE = lit ''cache''"
| "provenance_value Prov_LAST_GOOD = lit ''last_good''"
| "provenance_value Prov_FALLBACK = lit ''fallback''"

definition provenance_members :: "Provenance list" where
  "provenance_members = [Prov_LIVE, Prov_CACHE, Prov_LAST_GOOD, Prov_FALLBACK]"

datatype NotificationStatus = Notif_DELIVERED | Notif_PENDING | Notif_SUPPRESSED | Notif_FAILED

fun notification_status_value :: "NotificationStatus \<Rightarrow> ustr" where
  "notification_status_value Notif_DELIVERED = lit ''delivered''"
| "notification_status_value Notif_PENDING = lit ''pending''"
| "notification_status_value Notif_SUPPRESSED = lit ''suppressed''"
| "notification_status_value Notif_FAILED = lit ''failed''"

definition notification_status_members :: "NotificationStatus list" where
  "notification_status_members = [Notif_DELIVERED, Notif_PENDING, Notif_SUPPRESSED, Notif_FAILED]"

datatype ResponseKind = Kind_SNAPSHOT | Kind_INVENTORY | Kind_STAR_RESULT | Kind_ERROR

fun response_kind_value :: "ResponseKind \<Rightarrow> ustr" where
  "response_kind_value Kind_SNAPSHOT = lit ''snapshot''"
| "response_kind_value Kind_INVENTORY = lit ''inventory''"
| "response_kind_value Kind_STAR_RESULT = lit ''star-result''"
| "response_kind_value Kind_ERROR = lit ''error''"

definition response_kind_members :: "ResponseKind list" where
  "response_kind_members = [Kind_SNAPSHOT, Kind_INVENTORY, Kind_STAR_RESULT, Kind_ERROR]"

datatype ErrorCode = CLI_USAGE | STATE_UNAVAILABLE | INVALID_UTF8 | PAYLOAD_TOO_LARGE
  | MALFORMED_JSON | INVALID_TYPE | MISSING_FIELD | UNKNOWN_FIELD | PROTOCOL_VERSION_MISSING
  | PROTOCOL_VERSION_INVALID | PROTOCOL_VERSION_FUTURE | UNKNOWN_ENUM | INVALID_TIMESTAMP
  | INVALID_ENVELOPE | DUPLICATE_ITEM_ID | DUPLICATE_FINDING_ID | OUTPUT_TOO_LARGE
  | SOURCE_INVALID | SOURCE_UNAVAILABLE

fun error_code_value :: "ErrorCode \<Rightarrow> ustr" where
  "error_code_value CLI_USAGE = lit ''CLI_USAGE''"
| "error_code_value STATE_UNAVAILABLE = lit ''STATE_UNAVAILABLE''"
| "error_code_value INVALID_UTF8 = lit ''INVALID_UTF8''"
| "error_code_value PAYLOAD_TOO_LARGE = lit ''PAYLOAD_TOO_LARGE''"
| "error_code_value MALFORMED_JSON = lit ''MALFORMED_JSON''"
| "error_code_value INVALID_TYPE = lit ''INVALID_TYPE''"
| "error_code_value MISSING_FIELD = lit ''MISSING_FIELD''"
| "error_code_value UNKNOWN_FIELD = lit ''UNKNOWN_FIELD''"
| "error_code_value PROTOCOL_VERSION_MISSING = lit ''PROTOCOL_VERSION_MISSING''"
| "error_code_value PROTOCOL_VERSION_INVALID = lit ''PROTOCOL_VERSION_INVALID''"
| "error_code_value PROTOCOL_VERSION_FUTURE = lit ''PROTOCOL_VERSION_FUTURE''"
| "error_code_value UNKNOWN_ENUM = lit ''UNKNOWN_ENUM''"
| "error_code_value INVALID_TIMESTAMP = lit ''INVALID_TIMESTAMP''"
| "error_code_value INVALID_ENVELOPE = lit ''INVALID_ENVELOPE''"
| "error_code_value DUPLICATE_ITEM_ID = lit ''DUPLICATE_ITEM_ID''"
| "error_code_value DUPLICATE_FINDING_ID = lit ''DUPLICATE_FINDING_ID''"
| "error_code_value OUTPUT_TOO_LARGE = lit ''OUTPUT_TOO_LARGE''"
| "error_code_value SOURCE_INVALID = lit ''SOURCE_INVALID''"
| "error_code_value SOURCE_UNAVAILABLE = lit ''SOURCE_UNAVAILABLE''"

definition error_code_members :: "ErrorCode list" where
  "error_code_members = [CLI_USAGE, STATE_UNAVAILABLE, INVALID_UTF8, PAYLOAD_TOO_LARGE,
     MALFORMED_JSON, INVALID_TYPE, MISSING_FIELD, UNKNOWN_FIELD, PROTOCOL_VERSION_MISSING,
     PROTOCOL_VERSION_INVALID, PROTOCOL_VERSION_FUTURE, UNKNOWN_ENUM, INVALID_TIMESTAMP,
     INVALID_ENVELOPE, DUPLICATE_ITEM_ID, DUPLICATE_FINDING_ID, OUTPUT_TOO_LARGE,
     SOURCE_INVALID, SOURCE_UNAVAILABLE]"

text \<open>Every StrEnum of the module satisfies the interface of the prelude.\<close>

interpretation status_enum: str_enum status_value status_members
proof
  show "set status_members = UNIV"
    by (auto simp: status_members_def) (metis SourceStatus.exhaust)
  show "status_value a = status_value b \<Longrightarrow> a = b" for a b
    by (cases a; cases b; simp)
qed

interpretation scan_state_enum: str_enum scan_state_value scan_state_members
proof
  show "set scan_state_members = UNIV"
    by (auto simp: scan_state_members_def) (metis ScanState.exhaust)
  show "scan_state_value a = scan_state_value b \<Longrightarrow> a = b" for a b
    by (cases a; cases b; simp)
qed

interpretation source_name_enum: str_enum source_name_value source_name_members
proof
  show "set source_name_members = UNIV"
    by (auto simp: source_name_members_def) (metis SourceName.exhaust)
  show "source_name_value a = source_name_value b \<Longrightarrow> a = b" for a b
    by (cases a; cases b; simp)
qed

interpretation scope_enum: str_enum scope_value scope_members
proof
  show "set scope_members = UNIV"
    by (auto simp: scope_members_def) (metis SourceScope.exhaust)
  show "scope_value a = scope_value b \<Longrightarrow> a = b" for a b
    by (cases a; cases b; simp)
qed

interpretation item_source_enum: str_enum item_source_value item_source_members
proof
  show "set item_source_members = UNIV"
    by (auto simp: item_source_members_def) (metis ItemSource.exhaust)
  show "item_source_value a = item_source_value b \<Longrightarrow> a = b" for a b
    by (cases a; cases b; simp)
qed

interpretation watch_mode_enum: str_enum watch_mode_value watch_mode_members
proof
  show "set watch_mode_members = UNIV"
    by (auto simp: watch_mode_members_def) (metis WatchMode.exhaust)
  show "watch_mode_value a = watch_mode_value b \<Longrightarrow> a = b" for a b
    by (cases a; cases b; simp)
qed

interpretation severity_enum: str_enum severity_value severity_members
proof
  show "set severity_members = UNIV"
    by (auto simp: severity_members_def) (metis Severity.exhaust)
  show "severity_value a = severity_value b \<Longrightarrow> a = b" for a b
    by (cases a; cases b; simp)
qed

interpretation arch_status_enum: str_enum arch_status_value arch_status_members
proof
  show "set arch_status_members = UNIV"
    by (auto simp: arch_status_members_def) (metis ArchStatus.exhaust)
  show "arch_status_value a = arch_status_value b \<Longrightarrow> a = b" for a b
    by (cases a; cases b; simp)
qed

interpretation kev_status_enum: str_enum kev_status_value kev_status_members
proof
  show "set kev_status_members = UNIV"
    by (auto simp: kev_status_members_def) (metis KevStatus.exhaust)
  show "kev_status_value a = kev_status_value b \<Longrightarrow> a = b" for a b
    by (cases a; cases b; simp)
qed

interpretation provenance_enum: str_enum provenance_value provenance_members
proof
  show "set provenance_members = UNIV"
    by (auto simp: provenance_members_def) (metis Provenance.exhaust)
  show "provenance_value a = provenance_value b \<Longrightarrow> a = b" for a b
    by (cases a; cases b; simp)
qed

interpretation notification_status_enum:
  str_enum notification_status_value notification_status_members
proof
  show "set notification_status_members = UNIV"
    by (auto simp: notification_status_members_def) (metis NotificationStatus.exhaust)
  show "notification_status_value a = notification_status_value b \<Longrightarrow> a = b" for a b
    by (cases a; cases b; simp)
qed

interpretation response_kind_enum: str_enum response_kind_value response_kind_members
proof
  show "set response_kind_members = UNIV"
    by (auto simp: response_kind_members_def) (metis ResponseKind.exhaust)
  show "response_kind_value a = response_kind_value b \<Longrightarrow> a = b" for a b
    by (cases a; cases b; simp)
qed

interpretation error_code_enum: str_enum error_code_value error_code_members
proof
  show "set error_code_members = UNIV"
    by (auto simp: error_code_members_def) (metis ErrorCode.exhaust)
  show "error_code_value a = error_code_value b \<Longrightarrow> a = b" for a b
    by (cases a; cases b; simp)
qed

lemma status_value_not_Nil [simp]: "status_value s \<noteq> []"
  by (cases s) simp_all

section \<open>Dataclasses\<close>

record ErrorInfo =
  ei_code :: ErrorCode
  ei_message :: ustr

record ScopeHealth =
  sc_scope :: SourceScope
  sc_status :: SourceStatus
  sc_provenance :: Provenance
  sc_observed_at :: datetime
  sc_fresh_until :: datetime
  sc_cause :: "ErrorInfo option"

record SourceHealth =
  sh_source :: SourceName
  sh_status :: SourceStatus
  sh_provenance :: Provenance
  sh_observed_at :: datetime
  sh_fresh_until :: datetime
  sh_cause :: "ErrorInfo option"
  sh_scopes :: "ScopeHealth list"

record Summary =
  su_total_updates :: int
  su_watched_updates :: int
  su_security_findings :: int
  su_degraded_sources :: int

record NormalizedItem =
  ni_item_id :: ustr
  ni_source :: ItemSource
  ni_label :: ustr
  ni_installed :: "ustr option"
  ni_candidate :: "ustr option"
  ni_watch_mode :: WatchMode
  ni_watchable :: bool
  ni_provenance :: Provenance
  ni_installed_fingerprint :: "ustr option"
  ni_candidate_fingerprint :: "ustr option"
  ni_watch_armed :: bool

record SecurityFinding =
  sf_finding_id :: ustr
  sf_item_id :: ustr
  sf_advisory_id :: ustr
  sf_cve_ids :: "ustr list"
  sf_severity :: Severity
  sf_fixed_version :: "ustr option"
  sf_known_exploited :: bool
  sf_provenance :: Provenance
  sf_status :: ArchStatus
  sf_advisory_type :: ustr
  sf_installed_version :: "ustr option"
  sf_kev_status :: KevStatus
  sf_kev_provenance :: "Provenance option"

record SecurityFindingGroup =
  sg_item_id :: ustr
  sg_findings :: "SecurityFinding list"

record NotificationOutcome =
  no_fingerprint :: ustr
  no_status :: NotificationStatus

record SnapshotPayload =
  sp_scan_state :: ScanState
  sp_sources :: "SourceHealth list"
  sp_summary :: Summary
  sp_items :: "NormalizedItem list"
  sp_findings :: "SecurityFindingGroup list"
  sp_notifications :: "NotificationOutcome list"

record InventoryPayload =
  ip_source :: ItemSource
  ip_total :: int
  ip_items :: "NormalizedItem list"

record StarResultPayload =
  rp_item_id :: ustr
  rp_mode :: WatchMode
  rp_watch_armed :: bool

definition PROTOCOL_VERSION :: int where
  "PROTOCOL_VERSION = 1"

record SnapshotResponse =
  sr_generated_at :: datetime
  sr_generation_id :: ustr
  sr_payload :: SnapshotPayload
  sr_protocol_version :: int

record InventoryResponse =
  ir_generated_at :: datetime
  ir_generation_id :: ustr
  ir_payload :: InventoryPayload
  ir_protocol_version :: int

record StarResultResponse =
  rr_generated_at :: datetime
  rr_generation_id :: ustr
  rr_payload :: StarResultPayload
  rr_protocol_version :: int

record ErrorResponse =
  er_generated_at :: datetime
  er_generation_id :: ustr
  er_error :: ErrorInfo
  er_protocol_version :: int

datatype Response =
    SnapshotResp SnapshotResponse
  | InventoryResp InventoryResponse
  | StarResultResp StarResultResponse
  | ErrorResp ErrorResponse

section \<open>Exceptions\<close>

text \<open>
  One value per exception class of the helper: \<open>ProtocolError\<close> (\<open>models.py\<close>),
  \<open>StateCorruptError\<close> and \<open>StateSchemaIncompatible\<close> (\<open>storage_types.py\<close>),
  \<open>WatchTransitionError\<close> (\<open>stars.py\<close>), \<open>CliUsageError\<close> and \<open>CliUnavailableError\<close>
  (\<open>cli_requests.py\<close>), and \<open>PythonError\<close> for what the language itself raises
  (\<open>StopIteration\<close>, an unpacking \<open>ValueError\<close>).
\<close>

datatype exn =
    ProtocolError ErrorInfo
  | StateCorruptError ustr
  | StateSchemaIncompatible int
  | WatchTransitionError ustr
  | CliUsageError ustr
  | CliUnavailableError ustr
  | StoragePathError ustr
  | PythonError ustr

type_synonym 'a result = "exn + 'a"

definition protocol_fail :: "ErrorCode \<Rightarrow> ustr \<Rightarrow> exn" where
  "protocol_fail code message = ProtocolError \<lparr>ei_code = code, ei_message = message\<rparr>"

end
