(* ===== verification/Digest.thy ===== *)
theory Digest
  imports Prelude "HOL-Library.Word"
begin

text \<open>
  The two pieces of the standard library behind every fingerprint: \<open>str.encode()\<close> (UTF-8) and
  \<open>hashlib.sha256(data).hexdigest()\<close> (FIPS 180-4, on 32-bit words). The components use the
  digest as an opaque function; what they need of it is its shape, 64 lowercase hexadecimal
  digits.
\<close>

type_synonym bytes = "8 word list"

section \<open>UTF-8\<close>

text \<open>
  The code points of a Python string are below \<open>0x110000\<close>. A surrogate makes \<open>encode\<close> raise; the
  strings that reach a digest have passed \<open>decode_json\<close>, the UTF-8 decoder or the command line,
  which yield no surrogates except through \<open>sys.argv\<close> on undecodable bytes, and such an argument
  never matches a cached item.
\<close>

definition byte :: "nat \<Rightarrow> 8 word" where
  "byte n = word_of_nat n"

definition utf8_char :: "nat \<Rightarrow> bytes" where
  "utf8_char c =
     (if c < 0x80 then [byte c]
      else if c < 0x800 then
        [byte (0xC0 + c div 0x40), byte (0x80 + c mod 0x40)]
      else if c < 0x10000 then
        [byte (0xE0 + c div 0x1000), byte (0x80 + (c div 0x40) mod 0x40),
         byte (0x80 + c mod 0x40)]
      else
        [byte (0xF0 + c div 0x40000), byte (0x80 + (c div 0x1000) mod 0x40),
         byte (0x80 + (c div 0x40) mod 0x40), byte (0x80 + c mod 0x40)])"

definition utf8_encode :: "ustr \<Rightarrow> bytes" where
  "utf8_encode s = concat (map utf8_char s)"

section \<open>SHA-256\<close>

unbundle bit_operations_syntax

text \<open>
  The round constants are the first 32 bits of the fractional parts of the cube roots of the
  first 64 primes, the initial values those of the square roots of the first eight. \<open>root_bits\<close>
  finds the integer \<open>k\<close>-th root bit by bit from the top.
\<close>

fun root_bits :: "nat \<Rightarrow> nat \<Rightarrow> nat \<Rightarrow> nat \<Rightarrow> nat" where
  "root_bits k n 0 acc = acc"
| "root_bits k n (Suc b) acc =
     root_bits k n b (if (acc + 2 ^ b) ^ k \<le> n then acc + 2 ^ b else acc)"

definition fractional_root :: "nat \<Rightarrow> nat \<Rightarrow> 32 word" where
  "fractional_root k p = word_of_nat (root_bits k (p * 2 ^ (32 * k)) 38 0)"

definition primes_below :: "nat \<Rightarrow> nat list" where
  "primes_below n = filter (\<lambda>p. \<forall>d \<in> set [2..<p]. p mod d \<noteq> 0) [2..<n]"

definition sha256_k :: "32 word list" where
  "sha256_k = map (fractional_root 3) (primes_below 312)"

definition sha256_init :: "32 word list" where
  "sha256_init = map (fractional_root 2) (primes_below 20)"

definition be_word32 :: "bytes \<Rightarrow> 32 word" where
  "be_word32 bs = foldl (\<lambda>a b. push_bit 8 a OR ucast b) 0 bs"

definition be_bytes :: "nat \<Rightarrow> nat \<Rightarrow> bytes" where
  "be_bytes n x = map (\<lambda>i. word_of_nat (x div 256 ^ (n - 1 - i))) [0..<n]"

definition sha256_pad :: "bytes \<Rightarrow> bytes" where
  "sha256_pad m =
     m @ [0x80] @ replicate ((119 - length m mod 64) mod 64) 0 @ be_bytes 8 (8 * length m)"

fun chunks :: "nat \<Rightarrow> 'a list \<Rightarrow> 'a list list" where
  "chunks n xs = (if n = 0 \<or> xs = [] then [] else take n xs # chunks n (drop n xs))"

declare chunks.simps [simp del]

definition small_sigma0 :: "32 word \<Rightarrow> 32 word" where
  "small_sigma0 x = word_rotr 7 x XOR word_rotr 18 x XOR drop_bit 3 x"

definition small_sigma1 :: "32 word \<Rightarrow> 32 word" where
  "small_sigma1 x = word_rotr 17 x XOR word_rotr 19 x XOR drop_bit 10 x"

definition big_sigma0 :: "32 word \<Rightarrow> 32 word" where
  "big_sigma0 x = word_rotr 2 x XOR word_rotr 13 x XOR word_rotr 22 x"

definition big_sigma1 :: "32 word \<Rightarrow> 32 word" where
  "big_sigma1 x = word_rotr 6 x XOR word_rotr 11 x XOR word_rotr 25 x"

text \<open>The message schedule, extended one word at a time to 64 words.\<close>

fun schedule :: "nat \<Rightarrow> 32 word list \<Rightarrow> 32 word list" where
  "schedule 0 w = w"
| "schedule (Suc n) w =
     (let t = length w
      in schedule n (w @ [small_sigma1 (w ! (t - 2)) + w ! (t - 7)
                          + small_sigma0 (w ! (t - 15)) + w ! (t - 16)]))"

type_synonym sha_state =
  "32 word \<times> 32 word \<times> 32 word \<times> 32 word \<times> 32 word \<times> 32 word \<times> 32 word \<times> 32 word"

fun sha_round :: "sha_state \<Rightarrow> 32 word \<times> 32 word \<Rightarrow> sha_state" where
  "sha_round (a, b, c, d, e, f, g, h) (k, w) =
     (let t1 = h + big_sigma1 e + ((e AND f) XOR ((NOT e) AND g)) + k + w;
          t2 = big_sigma0 a + ((a AND b) XOR (a AND c) XOR (b AND c))
      in (t1 + t2, a, b, c, d + t1, e, f, g))"

fun sha_add :: "sha_state \<Rightarrow> sha_state \<Rightarrow> sha_state" where
  "sha_add (a, b, c, d, e, f, g, h) (a', b', c', d', e', f', g', h') =
     (a + a', b + b', c + c', d + d', e + e', f + f', g + g', h + h')"

definition sha_block :: "sha_state \<Rightarrow> bytes \<Rightarrow> sha_state" where
  "sha_block s blk =
     (let w = schedule 48 (map be_word32 (chunks 4 blk))
      in sha_add s (foldl sha_round s (zip sha256_k w)))"

fun sha_words :: "sha_state \<Rightarrow> 32 word list" where
  "sha_words (a, b, c, d, e, f, g, h) = [a, b, c, d, e, f, g, h]"

definition sha_start :: sha_state where
  "sha_start = (sha256_init ! 0, sha256_init ! 1, sha256_init ! 2, sha256_init ! 3,
     sha256_init ! 4, sha256_init ! 5, sha256_init ! 6, sha256_init ! 7)"

definition sha256 :: "bytes \<Rightarrow> 32 word list" where
  "sha256 m = sha_words (foldl sha_block sha_start (chunks 64 (sha256_pad m)))"

definition hex_digit :: "nat \<Rightarrow> nat" where
  "hex_digit n = (if n < 10 then 48 + n else 87 + n)"

definition hex_word32 :: "32 word \<Rightarrow> ustr" where
  "hex_word32 w = map (\<lambda>i. hex_digit (unat w div 16 ^ (7 - i) mod 16)) [0..<8]"

definition sha256_hexdigest :: "bytes \<Rightarrow> ustr" where
  "sha256_hexdigest m = concat (map hex_word32 (sha256 m))"

section \<open>The shape of a digest\<close>

definition is_lower_hex :: "nat \<Rightarrow> bool" where
  "is_lower_hex c \<longleftrightarrow> (48 \<le> c \<and> c \<le> 57) \<or> (97 \<le> c \<and> c \<le> 102)"

lemma length_sha_words: "length (sha_words s) = 8"
  by (cases s rule: sha_words.cases) simp

lemma length_sha256 [simp]: "length (sha256 m) = 8"
  by (simp add: sha256_def length_sha_words)

lemma length_hexdigest [simp]: "length (sha256_hexdigest m) = 64"
proof -
  have "length (concat (map hex_word32 ws)) = 8 * length ws" for ws
    by (induction ws) (simp_all add: hex_word32_def)
  then show ?thesis by (simp add: sha256_hexdigest_def)
qed

lemma hexdigest_lower_hex: "list_all is_lower_hex (sha256_hexdigest m)"
proof -
  have "is_lower_hex (hex_digit (n mod 16))" for n
    by (simp add: is_lower_hex_def hex_digit_def) presburger
  then show ?thesis
    by (auto simp: sha256_hexdigest_def hex_word32_def list_all_iff)
qed

lemma hexdigest_not_Nil [simp]: "sha256_hexdigest m \<noteq> []"
  using length_hexdigest [of m] by (metis list.size(3) zero_neq_numeral)

lemma hexdigest_no_colon: "58 \<notin> set (sha256_hexdigest m)"
  using hexdigest_lower_hex [of m] by (auto simp: list_all_iff is_lower_hex_def)

lemma hexdigest_no_NUL: "0 \<notin> set (sha256_hexdigest m)"
  using hexdigest_lower_hex [of m] by (auto simp: list_all_iff is_lower_hex_def)

end
