(* ===== verification/Runner_Types.thy ===== *)
theory Runner_Types
  imports Models Digest
begin

text \<open>
  The data of \<open>runner_types.py\<close>: the closed registries of command and endpoint names, the
  argument policies with the guard \<open>arguments_allowed\<close> that every child process passes, the
  specifications with the checks of their \<open>__post_init__\<close>, and the result unions of the command
  runner and of the endpoint fetcher.
\<close>

datatype CommandName = OMARCHY_UPDATE_AVAILABLE | PACMAN_NATIVE | CHECKUPDATES | VERCMP
  | PACMAN_FOREIGN | YAY_UPDATES | PARU_UPDATES | FLATPAK_USER_APP_LIST
  | FLATPAK_USER_RUNTIME_LIST | FLATPAK_SYSTEM_APP_LIST | FLATPAK_SYSTEM_RUNTIME_LIST
  | FLATPAK_USER_UPDATES | FLATPAK_SYSTEM_UPDATES | MISE_OUTDATED | ARCH_AUDIT | NOTIFY

fun command_name_value :: "CommandName \<Rightarrow> ustr" where
  "command_name_value OMARCHY_UPDATE_AVAILABLE = lit ''omarchy-update-available''"
| "command_name_value PACMAN_NATIVE = lit ''pacman-native''"
| "command_name_value CHECKUPDATES = lit ''checkupdates''"
| "command_name_value VERCMP = lit ''vercmp''"
| "command_name_value PACMAN_FOREIGN = lit ''pacman-foreign''"
| "command_name_value YAY_UPDATES = lit ''yay-updates''"
| "command_name_value PARU_UPDATES = lit ''paru-updates''"
| "command_name_value FLATPAK_USER_APP_LIST = lit ''flatpak-user-app-list''"
| "command_name_value FLATPAK_USER_RUNTIME_LIST = lit ''flatpak-user-runtime-list''"
| "command_name_value FLATPAK_SYSTEM_APP_LIST = lit ''flatpak-system-app-list''"
| "command_name_value FLATPAK_SYSTEM_RUNTIME_LIST = lit ''flatpak-system-runtime-list''"
| "command_name_value FLATPAK_USER_UPDATES = lit ''flatpak-user-updates''"
| "command_name_value FLATPAK_SYSTEM_UPDATES = lit ''flatpak-system-updates''"
| "command_name_value MISE_OUTDATED = lit ''mise-outdated''"
| "command_name_value ARCH_AUDIT = lit ''arch-audit''"
| "command_name_value NOTIFY = lit ''notify''"

definition command_name_members :: "CommandName list" where
  "command_name_members = [OMARCHY_UPDATE_AVAILABLE, PACMAN_NATIVE, CHECKUPDATES, VERCMP,
     PACMAN_FOREIGN, YAY_UPDATES, PARU_UPDATES, FLATPAK_USER_APP_LIST,
     FLATPAK_USER_RUNTIME_LIST, FLATPAK_SYSTEM_APP_LIST, FLATPAK_SYSTEM_RUNTIME_LIST,
     FLATPAK_USER_UPDATES, FLATPAK_SYSTEM_UPDATES, MISE_OUTDATED, ARCH_AUDIT, NOTIFY]"

interpretation command_name_enum: str_enum command_name_value command_name_members
proof
  show "set command_name_members = UNIV"
    by (auto simp: command_name_members_def) (metis CommandName.exhaust)
  show "command_name_value a = command_name_value b \<Longrightarrow> a = b" for a b
    by (cases a; cases b; simp)
qed

datatype EndpointName = Endpoint_ARCH_SECURITY | Endpoint_CISA_KEV

datatype ArgumentPolicy = Policy_NONE | Policy_VERSION_PAIR | Policy_NOTIFICATION_TEXT

text \<open>
  A specification names an absolute executable. Paths are texts; \<open>is_absolute\<close> of a POSIX path
  is that it starts with a slash. Timeouts are \<open>float\<close> seconds in the source, all of them small
  integers in the registry, and are integers here.
\<close>

record CommandSpec =
  cs_executable :: ustr
  cs_base_argv :: "ustr list"
  cs_argument_policy :: ArgumentPolicy
  cs_timeout_seconds :: int
  cs_stdout_limit :: int
  cs_stderr_limit :: int
  cs_cwd :: "ustr option"

definition command_spec_check :: "CommandSpec \<Rightarrow> unit result" where
  "command_spec_check s =
     thenE (checkE (prefix (lit ''/'') (cs_executable s))
              (PythonError (lit ''command executable must be absolute'')))
       (checkE (\<not> (cs_timeout_seconds s \<le> 0 \<or> cs_stdout_limit s \<le> 0 \<or> cs_stderr_limit s \<le> 0))
          (PythonError (lit ''command limits must be positive'')))"

record EndpointSpec =
  es_url :: ustr
  es_allowed_hosts :: "ustr list"
  es_allowed_paths :: "ustr list"
  es_redirect_limit :: int
  es_body_limit :: int
  es_timeout_seconds :: int

definition endpoint_spec_check :: "EndpointSpec \<Rightarrow> unit result" where
  "endpoint_spec_check s =
     thenE (checkE (\<not> (es_allowed_hosts s = [] \<or> es_allowed_paths s = []))
              (PythonError (lit ''endpoint policy must name hosts and paths'')))
       (checkE (\<not> (es_redirect_limit s < 0 \<or> es_body_limit s \<le> 0 \<or> es_timeout_seconds s \<le> 0))
          (PythonError (lit ''endpoint limits must be positive'')))"

datatype CommandResult =
    CommandSucceeded (cr_stdout: bytes) (cr_stderr: bytes)
  | CommandExited (cr_returncode: int) (cr_stdout: bytes) (cr_stderr: bytes)
  | CommandTimedOut (cr_stdout: bytes) (cr_stderr: bytes)
  | CommandOutputExceeded (cr_stream: ustr) (cr_stdout: bytes) (cr_stderr: bytes)
  | CommandMissing (cr_diagnostic: ustr)
  | CommandRejected (cr_diagnostic: ustr)

datatype EndpointResult =
    EndpointDownloaded (ep_body: bytes) (ep_etag: "ustr option") (ep_last_modified: "ustr option")
  | EndpointNotModified
  | EndpointRejected (ep_diagnostic: ustr)
  | EndpointTlsFailed (ep_diagnostic: ustr)
  | EndpointTimedOut (ep_diagnostic: ustr)
  | EndpointOversized (ep_diagnostic: ustr)
  | EndpointFailed (ep_diagnostic: ustr)

definition arguments_allowed :: "ArgumentPolicy \<Rightarrow> ustr list \<Rightarrow> bool" where
  "arguments_allowed policy arguments =
     (case policy of
        Policy_NONE \<Rightarrow> arguments = []
      | Policy_VERSION_PAIR \<Rightarrow>
          length arguments = 2 \<and> list_all (\<lambda>a. 0 \<notin> set a \<and> length a \<le> 4096) arguments
      | Policy_NOTIFICATION_TEXT \<Rightarrow>
          length arguments = 2 \<and> list_all (\<lambda>a. 0 \<notin> set a \<and> length a \<le> 4096) arguments)"

end
