(* ===== verification/Python_Text.thy ===== *)
theory Python_Text
  imports Prelude Digest
begin

text \<open>
  The text operations of the standard library that the adapters apply to command output:
  strict UTF-8 decoding, \<open>str.splitlines\<close>, \<open>str.split\<close> with and without a separator, and
  \<open>str.strip\<close>, on code points.
\<close>

section \<open>Strict UTF-8 decoding\<close>

text \<open>
  \<open>bytes.decode("utf-8")\<close>: \<open>None\<close> stands for \<open>UnicodeDecodeError\<close>. Overlong forms, surrogates
  and values above \<open>0x10FFFF\<close> are rejected by the bounds on the decoded value.
\<close>

definition continuation :: "8 word \<Rightarrow> bool" where
  "continuation b \<longleftrightarrow> unat b div 64 = 2"

fun utf8_decode :: "bytes \<Rightarrow> ustr option" where
  "utf8_decode [] = Some []"
| "utf8_decode (a # rest) =
     (if unat a < 0x80 then map_option ((#) (unat a)) (utf8_decode rest)
      else if 0xC2 \<le> unat a \<and> unat a < 0xE0 then
        (case rest of
           b # rest' \<Rightarrow>
             if continuation b
             then map_option ((#) ((unat a - 0xC0) * 64 + unat b mod 64)) (utf8_decode rest')
             else None
         | _ \<Rightarrow> None)
      else if 0xE0 \<le> unat a \<and> unat a < 0xF0 then
        (case rest of
           b # c # rest' \<Rightarrow>
             let v = ((unat a - 0xE0) * 64 + unat b mod 64) * 64 + unat c mod 64
             in if continuation b \<and> continuation c \<and> 0x800 \<le> v \<and> \<not> (0xD800 \<le> v \<and> v \<le> 0xDFFF)
                then map_option ((#) v) (utf8_decode rest') else None
         | _ \<Rightarrow> None)
      else if 0xF0 \<le> unat a \<and> unat a < 0xF5 then
        (case rest of
           b # c # d # rest' \<Rightarrow>
             let v = (((unat a - 0xF0) * 64 + unat b mod 64) * 64 + unat c mod 64) * 64
                     + unat d mod 64
             in if continuation b \<and> continuation c \<and> continuation d \<and> 0x10000 \<le> v \<and> v < 0x110000
                then map_option ((#) v) (utf8_decode rest') else None
         | _ \<Rightarrow> None)
      else None)"

text \<open>
  \<open>bytes.decode("utf-8", errors="replace")\<close>: a maximal prefix of a well-formed sequence that does not
  go on as it should becomes one U+FFFD, as does a byte that begins none. \<open>second_ok\<close> is the range of
  the second byte after each leading byte.
\<close>

definition second_ok :: "8 word \<Rightarrow> 8 word \<Rightarrow> bool" where
  "second_ok a b \<longleftrightarrow> continuation b \<and>
     (unat a = 0xE0 \<longrightarrow> 0xA0 \<le> unat b) \<and> (unat a = 0xED \<longrightarrow> unat b < 0xA0) \<and>
     (unat a = 0xF0 \<longrightarrow> 0x90 \<le> unat b) \<and> (unat a = 0xF4 \<longrightarrow> unat b < 0x90)"

fun utf8_replace :: "bytes \<Rightarrow> ustr" where
  "utf8_replace [] = []"
| "utf8_replace (a # rest) =
     (if unat a < 0x80 then unat a # utf8_replace rest
      else if 0xC2 \<le> unat a \<and> unat a < 0xE0 then
        (case rest of
           b # rest' \<Rightarrow>
             if continuation b then ((unat a - 0xC0) * 64 + unat b mod 64) # utf8_replace rest'
             else 0xFFFD # utf8_replace rest
         | [] \<Rightarrow> [0xFFFD])
      else if 0xE0 \<le> unat a \<and> unat a < 0xF0 then
        (case rest of
           b # c # rest' \<Rightarrow>
             if \<not> second_ok a b then 0xFFFD # utf8_replace rest
             else if continuation c
             then (((unat a - 0xE0) * 64 + unat b mod 64) * 64 + unat c mod 64) # utf8_replace rest'
             else 0xFFFD # utf8_replace (c # rest')
         | [b] \<Rightarrow> if second_ok a b then [0xFFFD] else 0xFFFD # utf8_replace rest
         | [] \<Rightarrow> [0xFFFD])
      else if 0xF0 \<le> unat a \<and> unat a < 0xF5 then
        (case rest of
           b # c # d # rest' \<Rightarrow>
             if \<not> second_ok a b then 0xFFFD # utf8_replace rest
             else if \<not> continuation c then 0xFFFD # utf8_replace (c # d # rest')
             else if continuation d
             then ((((unat a - 0xF0) * 64 + unat b mod 64) * 64 + unat c mod 64) * 64 + unat d mod 64)
                    # utf8_replace rest'
             else 0xFFFD # utf8_replace (d # rest')
         | [b, c] \<Rightarrow>
             if \<not> second_ok a b then 0xFFFD # utf8_replace rest
             else if continuation c then [0xFFFD] else 0xFFFD # utf8_replace [c]
         | [b] \<Rightarrow> if second_ok a b then [0xFFFD] else 0xFFFD # utf8_replace rest
         | [] \<Rightarrow> [0xFFFD])
      else 0xFFFD # utf8_replace rest)"

section \<open>Lines and fields\<close>

definition is_line_break :: "nat \<Rightarrow> bool" where
  "is_line_break c \<longleftrightarrow> c \<in> {10, 11, 12, 13, 28, 29, 30, 0x85, 0x2028, 0x2029}"

text \<open>\<open>s.splitlines()\<close>: a carriage return and a following line feed are one break.\<close>

fun splitlines_acc :: "ustr \<Rightarrow> ustr \<Rightarrow> ustr list" where
  "splitlines_acc acc [] = (if acc = [] then [] else [rev acc])"
| "splitlines_acc acc (c # cs) =
     (if is_line_break c then
        rev acc # splitlines_acc [] (if c = 13 \<and> take 1 cs = [10] then drop 1 cs else cs)
      else splitlines_acc (c # acc) cs)"

definition splitlines :: "ustr \<Rightarrow> ustr list" where
  "splitlines s = splitlines_acc [] s"

text \<open>The characters of \<open>str.isspace\<close>.\<close>

definition is_space :: "nat \<Rightarrow> bool" where
  "is_space c \<longleftrightarrow> (9 \<le> c \<and> c \<le> 13) \<or> (28 \<le> c \<and> c \<le> 32) \<or> c = 0x85 \<or> c = 0xA0 \<or> c = 0x1680
     \<or> (0x2000 \<le> c \<and> c \<le> 0x200A) \<or> c = 0x2028 \<or> c = 0x2029 \<or> c = 0x202F \<or> c = 0x205F
     \<or> c = 0x3000"

fun split_ws_acc :: "ustr \<Rightarrow> ustr \<Rightarrow> ustr list" where
  "split_ws_acc acc [] = (if acc = [] then [] else [rev acc])"
| "split_ws_acc acc (c # cs) =
     (if is_space c then (if acc = [] then split_ws_acc [] cs else rev acc # split_ws_acc [] cs)
      else split_ws_acc (c # acc) cs)"

text \<open>\<open>s.split()\<close>.\<close>

definition split_ws :: "ustr \<Rightarrow> ustr list" where
  "split_ws s = split_ws_acc [] s"

definition strip :: "ustr \<Rightarrow> ustr" where
  "strip s = rev (dropWhile is_space (rev (dropWhile is_space s)))"

text \<open>\<open>s.split(sep)\<close> for a non-empty separator of several characters.\<close>

function (sequential) split_sep_acc :: "ustr \<Rightarrow> ustr \<Rightarrow> ustr \<Rightarrow> ustr list" where
  "split_sep_acc sep acc [] = [rev acc]"
| "split_sep_acc sep acc (c # cs) =
     (if sep \<noteq> [] \<and> prefix sep (c # cs)
      then rev acc # split_sep_acc sep [] (drop (length sep) (c # cs))
      else split_sep_acc sep (c # acc) cs)"
  by pat_completeness auto
termination
  by (relation "measure (\<lambda>(sep, acc, s). length s)") (auto simp: length_greater_0_conv)

definition split_sep :: "ustr \<Rightarrow> ustr \<Rightarrow> ustr list" where
  "split_sep sep s = split_sep_acc sep [] s"

section \<open>Facts\<close>

lemma split_ws_acc_nonempty: "x \<in> set (split_ws_acc acc s) \<Longrightarrow> x \<noteq> []"
  by (induction acc s rule: split_ws_acc.induct) (auto split: if_splits)

lemma split_ws_nonempty: "x \<in> set (split_ws s) \<Longrightarrow> x \<noteq> []"
  unfolding split_ws_def by (rule split_ws_acc_nonempty)

lemma list_all_rev: "list_all P (rev xs) = list_all P xs"
  by (simp add: list_all_iff)

lemma split_ws_acc_chars:
  "list_all (\<lambda>c. \<not> is_space c) acc \<Longrightarrow> x \<in> set (split_ws_acc acc s) \<Longrightarrow> list_all (\<lambda>c. \<not> is_space c) x"
proof (induction acc s rule: split_ws_acc.induct)
  case (1 acc)
  then show ?case by (cases "acc = []") (simp_all add: list_all_rev)
next
  case (2 acc c cs)
  then show ?case by (cases "is_space c"; cases "acc = []") (auto simp: list_all_rev)
qed

lemma split_ws_chars: "x \<in> set (split_ws s) \<Longrightarrow> list_all (\<lambda>c. \<not> is_space c) x"
  unfolding split_ws_def by (rule split_ws_acc_chars) simp_all

lemma split_ws_acc_word:
  assumes "list_all (\<lambda>c. \<not> is_space c) w"
  shows "split_ws_acc acc (w @ s) = split_ws_acc (rev w @ acc) s"
  using assms by (induction w arbitrary: acc) simp_all

lemma split_ws_acc_space: "is_space c \<Longrightarrow> acc \<noteq> [] \<Longrightarrow> split_ws_acc acc (c # s) = rev acc # split_ws_acc [] s"
  by simp

lemma split_ws_single: "list_all (\<lambda>c. \<not> is_space c) w \<Longrightarrow> w \<noteq> [] \<Longrightarrow> split_ws w = [w]"
  using split_ws_acc_word [of w "[]" "[]"] by (simp add: split_ws_def)

lemma split_ws_pair:
  assumes "list_all (\<lambda>c. \<not> is_space c) v" "v \<noteq> []" "list_all (\<lambda>c. \<not> is_space c) w" "w \<noteq> []"
  shows "split_ws (v @ lit '' '' @ w) = [v, w]"
proof -
  have "split_ws (v @ lit '' '' @ w) = split_ws_acc (rev v) (lit '' '' @ w)"
    using split_ws_acc_word [OF assms(1), of "[]"] by (simp add: split_ws_def)
  also have "\<dots> = v # split_ws_acc [] w"
    using assms(2) by (simp add: lit_def is_space_def)
  finally show ?thesis
    using split_ws_acc_word [OF assms(3), of "[]" "[]"] assms(4) by simp
qed

lemma splitlines_acc_line:
  "list_all (\<lambda>c. \<not> is_line_break c) l \<Longrightarrow> splitlines_acc acc (l @ s) = splitlines_acc (rev l @ acc) s"
  by (induction l arbitrary: acc) simp_all

lemma splitlines_unlines:
  assumes "\<forall>l \<in> set ls. list_all (\<lambda>c. \<not> is_line_break c) l"
  shows "splitlines (concat (map (\<lambda>l. l @ [10]) ls)) = ls"
  using assms
  by (induction ls) (simp_all add: splitlines_def splitlines_acc_line is_line_break_def)

lemma line_break_is_space: "is_line_break c \<Longrightarrow> is_space c"
  by (auto simp: is_line_break_def is_space_def)

section \<open>Decoding inverts encoding\<close>

definition scalar_value :: "nat \<Rightarrow> bool" where
  "scalar_value c \<longleftrightarrow> c < 0x110000 \<and> \<not> (0xD800 \<le> c \<and> c \<le> 0xDFFF)"

lemma unat_byte: "n < 256 \<Longrightarrow> unat (byte n) = n"
  by (simp add: byte_def unat_of_nat)

lemma unat_tail: "unat (byte (0x80 + c mod 64)) = 0x80 + c mod 64"
  by (rule unat_byte) (use mod_less_divisor [of 64 c] in linarith)

lemma continuation_tail: "continuation (byte (0x80 + c mod 64))"
proof -
  have "(0x80 + c mod 64) div 64 = 2"
    using div_mult_self2 [of 64 "c mod 64" 2] by simp
  then show ?thesis by (simp add: continuation_def unat_tail)
qed

lemma tail_mod: "(0x80 + c mod 64) mod 64 = c mod (64::nat)"
  using mod_mult_self1 [of "c mod 64" 2 64] by (simp add: add.commute)

lemma utf8_decode_char:
  assumes "scalar_value c"
  shows "utf8_decode (utf8_char c @ rest) = map_option ((#) c) (utf8_decode rest)"
proof -
  consider "c < 0x80" | "0x80 \<le> c" "c < 0x800" | "0x800 \<le> c" "c < 0x10000" | "0x10000 \<le> c"
    by linarith
  then show ?thesis
  proof cases
    case 1
    then show ?thesis by (simp add: utf8_char_def unat_byte)
  next
    case 2
    define q where "q = c div 64"
    have q: "2 \<le> q" "q < 32" "q * 64 + c mod 64 = c"
      using 2 by (simp_all add: q_def)
    then have "unat (byte (0xC0 + q)) = 0xC0 + q" by (simp add: unat_byte)
    moreover have "utf8_char c = [byte (0xC0 + q), byte (0x80 + c mod 64)]"
      using 2 by (simp add: utf8_char_def q_def)
    ultimately show ?thesis
      using q by (simp add: unat_tail continuation_tail tail_mod)
  next
    case 3
    define q where "q = c div 64"
    define p where "p = q div 64"
    have pq: "c div 4096 = p" by (simp add: p_def q_def flip: div_mult2_eq)
    have v: "(p * 64 + q mod 64) * 64 + c mod 64 = c" by (simp add: p_def q_def)
    have p: "p < 16" using 3 by (simp flip: pq)
    then have "unat (byte (0xE0 + p)) = 0xE0 + p" by (simp add: unat_byte)
    moreover have "utf8_char c = [byte (0xE0 + p), byte (0x80 + q mod 64), byte (0x80 + c mod 64)]"
      using 3 by (simp add: utf8_char_def q_def flip: pq)
    ultimately show ?thesis
      using p v 3 assms
      by (simp add: unat_tail continuation_tail tail_mod scalar_value_def)
  next
    case 4
    define q where "q = c div 64"
    define p where "p = q div 64"
    define r where "r = p div 64"
    have pq: "c div 4096 = p" by (simp add: p_def q_def flip: div_mult2_eq)
    have rq: "c div 262144 = r" by (simp add: r_def p_def q_def flip: div_mult2_eq)
    have v: "((r * 64 + p mod 64) * 64 + q mod 64) * 64 + c mod 64 = c"
      by (simp add: r_def p_def q_def)
    have r: "r < 5"
      using assms unfolding rq [symmetric] scalar_value_def by (simp add: div_less_iff_less_mult)
    then have "unat (byte (0xF0 + r)) = 0xF0 + r" by (simp add: unat_byte)
    moreover have "utf8_char c = [byte (0xF0 + r), byte (0x80 + p mod 64), byte (0x80 + q mod 64),
        byte (0x80 + c mod 64)]"
      using 4 by (simp add: utf8_char_def q_def flip: pq rq)
    ultimately show ?thesis
      using r v 4 assms
      by (simp add: unat_tail continuation_tail tail_mod scalar_value_def)
  qed
qed

lemma utf8_decode_encode: "list_all scalar_value s \<Longrightarrow> utf8_decode (utf8_encode s) = Some s"
  by (induction s) (simp_all add: utf8_encode_def utf8_decode_char del: utf8_decode.simps(2))

section \<open>Decoding with replacement\<close>

lemma continuation_split: "continuation b \<Longrightarrow> unat b = 0x80 + unat b mod 64"
  using div_mult_mod_eq [of "unat b" 64] by (simp add: continuation_def)

lemma three_byte_range:
  fixes a b x y :: nat
  assumes "b = 0x80 + x" and "x < 64" and "y < 64" and "a < 0xF0"
    and "0x800 \<le> ((a - 0xE0) * 64 + x) * 64 + y"
    and "\<not> (0xD800 \<le> ((a - 0xE0) * 64 + x) * 64 + y \<and> ((a - 0xE0) * 64 + x) * 64 + y \<le> 0xDFFF)"
  shows "(a = 0xE0 \<longrightarrow> 0xA0 \<le> b) \<and> (a = 0xED \<longrightarrow> b < 0xA0)"
  using assms by auto

lemma four_byte_range:
  fixes a b x y z :: nat
  assumes "b = 0x80 + x" and "x < 64" and "y < 64" and "z < 64" and "0xF0 \<le> a"
    and "0x10000 \<le> (((a - 0xF0) * 64 + x) * 64 + y) * 64 + z" and "(((a - 0xF0) * 64 + x) * 64 + y) * 64 + z < 0x110000"
  shows "(a = 0xF0 \<longrightarrow> 0x90 \<le> b) \<and> (a = 0xF4 \<longrightarrow> b < 0x90)"
  using assms by auto

lemma second_ok_three:
  assumes "0xE0 \<le> unat a" and "unat a < 0xF0" and "continuation b"
    and "0x800 \<le> ((unat a - 0xE0) * 64 + unat b mod 64) * 64 + unat c mod 64"
    and "\<not> (0xD800 \<le> ((unat a - 0xE0) * 64 + unat b mod 64) * 64 + unat c mod 64 \<and>
            ((unat a - 0xE0) * 64 + unat b mod 64) * 64 + unat c mod 64 \<le> 0xDFFF)"
  shows "second_ok a b"
  using three_byte_range [OF continuation_split [OF assms(3)] _ _ assms(2, 4, 5)] assms(2, 3)
  unfolding second_ok_def by simp

lemma second_ok_four:
  assumes "0xF0 \<le> unat a" and "unat a < 0xF5" and "continuation b"
    and "0x10000 \<le> (((unat a - 0xF0) * 64 + unat b mod 64) * 64 + unat c mod 64) * 64 + unat d mod 64"
    and "(((unat a - 0xF0) * 64 + unat b mod 64) * 64 + unat c mod 64) * 64 + unat d mod 64 < 0x110000"
  shows "second_ok a b"
  using four_byte_range [OF continuation_split [OF assms(3)] _ _ _ assms(1, 4, 5)] assms(1, 3)
  unfolding second_ok_def by simp

text \<open>On well-formed bytes both decoders agree.\<close>

lemma utf8_replace_decode: "utf8_decode bs = Some s \<Longrightarrow> utf8_replace bs = s"
proof (induction bs arbitrary: s rule: utf8_decode.induct)
  case (2 a rest)
  consider "unat a < 0x80" | "0xC2 \<le> unat a" "unat a < 0xE0" | "0xE0 \<le> unat a" "unat a < 0xF0"
    | "0xF0 \<le> unat a" "unat a < 0xF5" | "\<not> unat a < 0x80" "unat a < 0xC2 \<or> 0xF5 \<le> unat a"
    by linarith
  then show ?case
  proof cases
    case 1
    with 2 show ?thesis by auto
  next
    case c: 2
    with 2(5) obtain b rest' t where "rest = b # rest'" "continuation b" "utf8_decode rest' = Some t"
      "s = ((unat a - 0xC0) * 64 + unat b mod 64) # t"
      by (auto split: list.splits if_splits)
    with c 2(2) show ?thesis by auto
  next
    case c: 3
    with 2(5) obtain b d rest' where r: "rest = b # d # rest'" by (auto split: list.splits)
    let ?v = "((unat a - 0xE0) * 64 + unat b mod 64) * 64 + unat d mod 64"
    have ok: "continuation b \<and> continuation d \<and> 0x800 \<le> ?v \<and> \<not> (0xD800 \<le> ?v \<and> ?v \<le> 0xDFFF)"
      using 2(5) c by (simp add: r Let_def split: if_splits)
    then have "second_ok a b" using c by (intro second_ok_three [of a b d]) simp_all
    moreover from ok 2(5) c obtain t where "utf8_decode rest' = Some t" "s = ?v # t"
      by (auto simp: r Let_def simp del: distrib_right_numeral)
    ultimately show ?thesis using ok c 2(3) by (simp add: r Let_def)
  next
    case c: 4
    with 2(5) obtain b d e rest' where r: "rest = b # d # e # rest'" by (auto split: list.splits)
    let ?v = "(((unat a - 0xF0) * 64 + unat b mod 64) * 64 + unat d mod 64) * 64 + unat e mod 64"
    have ok: "continuation b \<and> continuation d \<and> continuation e \<and> 0x10000 \<le> ?v \<and> ?v < 0x110000"
      using 2(5) c by (simp add: r Let_def split: if_splits)
    then have "second_ok a b" using c by (intro second_ok_four [of a b d e]) simp_all
    moreover from ok 2(5) c obtain t where "utf8_decode rest' = Some t" "s = ?v # t"
      by (auto simp: r Let_def simp del: distrib_right_numeral)
    ultimately show ?thesis using ok c 2(4) by (simp add: r Let_def)
  next
    case 5
    with 2(5) show ?thesis by (auto split: if_splits)
  qed
qed simp

end
