(* ===== verification/Adapter_Arch.thy ===== *)
theory Adapter_Arch
  imports Runner_Types Python_Text
begin

text \<open>
  The pacman adapter of \<open>adapters/arch.py\<close> and the AUR adapter of \<open>adapters/aur.py\<close>. The command
  runner, which starts child processes, is the argument \<open>run\<close> of every collector: the result of
  each registered command on its arguments. A degraded result is the left value of a sum.
\<close>

type_synonym runner = "CommandName \<Rightarrow> ustr list \<Rightarrow> CommandResult"

section \<open>Package inventories\<close>

datatype ArchFailure = COMMAND_EXITED | COMMAND_MISSING | COMMAND_OUTPUT_EXCEEDED
  | COMMAND_REJECTED | COMMAND_TIMED_OUT | DUPLICATE_PACKAGE | INVALID_VERCMP_OUTPUT
  | MALFORMED_ROW | MISSING_NATIVE_PACKAGE | UNEXPECTED_COMMAND_RESULT

record PackageRecord =
  pr_name :: ustr
  pr_installed :: ustr

record UpdateRecord =
  ur_name :: ustr
  ur_installed :: ustr
  ur_candidate :: ustr

record ArchDegraded =
  ad_failure :: ArchFailure
  ad_detail :: ustr

type_synonym 'a arch_result = "ArchDegraded + 'a"

definition arch_degraded :: "ArchFailure \<Rightarrow> ustr \<Rightarrow> ArchDegraded" where
  "arch_degraded failure detail = \<lparr>ad_failure = failure, ad_detail = detail\<rparr>"

definition command_degraded :: "CommandResult \<Rightarrow> ustr \<Rightarrow> ArchDegraded" where
  "command_degraded result command =
     (case result of
        CommandExited returncode _ _ \<Rightarrow>
          arch_degraded COMMAND_EXITED (command @ lit '': exit '' @ str_int returncode)
      | CommandMissing diagnostic \<Rightarrow> arch_degraded COMMAND_MISSING diagnostic
      | CommandOutputExceeded stream _ _ \<Rightarrow>
          arch_degraded COMMAND_OUTPUT_EXCEEDED (command @ lit '': '' @ stream)
      | CommandRejected diagnostic \<Rightarrow> arch_degraded COMMAND_REJECTED diagnostic
      | CommandTimedOut _ _ \<Rightarrow> arch_degraded COMMAND_TIMED_OUT command
      | CommandSucceeded _ _ \<Rightarrow> arch_degraded UNEXPECTED_COMMAND_RESULT command)"

text \<open>The row loops carry the set of names seen so far.\<close>

fun package_rows :: "ustr set \<Rightarrow> ustr list \<Rightarrow> PackageRecord list arch_result" where
  "package_rows names [] = Inr []"
| "package_rows names (line # rows) =
     (case split_ws line of
        [name, installed] \<Rightarrow>
          if name \<in> names then Inl (arch_degraded DUPLICATE_PACKAGE name)
          else bindE (package_rows (insert name names) rows)
            (\<lambda>records. Inr (\<lparr>pr_name = name, pr_installed = installed\<rparr> # records))
      | _ \<Rightarrow> Inl (arch_degraded MALFORMED_ROW line))"

definition parse_package_rows :: "bytes \<Rightarrow> PackageRecord list arch_result" where
  "parse_package_rows out =
     (case utf8_decode out of
        None \<Rightarrow> Inl (arch_degraded MALFORMED_ROW (lit ''non-UTF-8 output''))
      | Some text \<Rightarrow> package_rows {} (splitlines text))"

fun update_rows :: "ustr set \<Rightarrow> ustr list \<Rightarrow> UpdateRecord list arch_result" where
  "update_rows names [] = Inr []"
| "update_rows names (line # rows) =
     (case split_sep (lit '' -> '') line of
        [left, right] \<Rightarrow>
          (case (split_ws left, split_ws right) of
             ([name, installed], [candidate]) \<Rightarrow>
               if name \<in> names then Inl (arch_degraded DUPLICATE_PACKAGE name)
               else bindE (update_rows (insert name names) rows)
                 (\<lambda>records. Inr (\<lparr>ur_name = name, ur_installed = installed,
                                  ur_candidate = candidate\<rparr> # records))
           | _ \<Rightarrow> Inl (arch_degraded MALFORMED_ROW line))
      | _ \<Rightarrow> Inl (arch_degraded MALFORMED_ROW line))"

definition parse_update_rows :: "bytes \<Rightarrow> UpdateRecord list arch_result" where
  "parse_update_rows out =
     (case utf8_decode out of
        None \<Rightarrow> Inl (arch_degraded MALFORMED_ROW (lit ''non-UTF-8 output''))
      | Some text \<Rightarrow> update_rows {} (splitlines text))"

definition collect_inventory :: "CommandName \<Rightarrow> ustr \<Rightarrow> runner \<Rightarrow> PackageRecord list arch_result" where
  "collect_inventory name label run =
     (case run name [] of
        CommandSucceeded stdout _ \<Rightarrow> parse_package_rows stdout
      | result \<Rightarrow> Inl (command_degraded result label))"

definition collect_official_inventory :: "runner \<Rightarrow> PackageRecord list arch_result" where
  "collect_official_inventory run = collect_inventory PACMAN_NATIVE (lit ''pacman -Qn'') run"

definition collect_foreign_inventory :: "runner \<Rightarrow> PackageRecord list arch_result" where
  "collect_foreign_inventory run = collect_inventory PACMAN_FOREIGN (lit ''pacman -Qm'') run"

definition compare_versions :: "runner \<Rightarrow> ustr \<Rightarrow> ustr \<Rightarrow> int arch_result" where
  "compare_versions run left right =
     (case run VERCMP [left, right] of
        CommandSucceeded stdout _ \<Rightarrow>
          (case utf8_decode stdout of
             None \<Rightarrow> Inl (arch_degraded INVALID_VERCMP_OUTPUT (lit ''non-UTF-8 output''))
           | Some text \<Rightarrow>
               let out = strip text
               in if out = lit ''-1'' then Inr (-1)
                  else if out = lit ''0'' then Inr 0
                  else if out = lit ''1'' then Inr 1
                  else Inl (arch_degraded INVALID_VERCMP_OUTPUT out))
      | result \<Rightarrow> Inl (command_degraded result (lit ''vercmp'')))"

section \<open>Official updates\<close>

definition OMARCHY_DUPLICATE_FILTER :: "ustr set" where
  "OMARCHY_DUPLICATE_FILTER = {lit ''omarchy'', lit ''omarchy-dev''}"

text \<open>\<open>NormalizedItem\<close> with the defaults of its last three fields.\<close>

definition new_item ::
  "ustr \<Rightarrow> ItemSource \<Rightarrow> ustr \<Rightarrow> ustr option \<Rightarrow> ustr option \<Rightarrow> bool \<Rightarrow> NormalizedItem" where
  "new_item item_id source label installed candidate watchable =
     \<lparr>ni_item_id = item_id, ni_source = source, ni_label = label, ni_installed = installed,
      ni_candidate = candidate, ni_watch_mode = Watch_OFF, ni_watchable = watchable,
      ni_provenance = Prov_LIVE, ni_installed_fingerprint = None,
      ni_candidate_fingerprint = None, ni_watch_armed = False\<rparr>"

fun join_official_updates ::
  "(ustr \<Rightarrow> PackageRecord option) \<Rightarrow> UpdateRecord list \<Rightarrow> NormalizedItem list arch_result" where
  "join_official_updates inventory_by_name [] = Inr []"
| "join_official_updates inventory_by_name (update # updates) =
     (if inventory_by_name (ur_name update) = None
      then Inl (arch_degraded MISSING_NATIVE_PACKAGE (ur_name update))
      else bindE (join_official_updates inventory_by_name updates)
        (\<lambda>items. Inr
           (if ur_name update \<in> OMARCHY_DUPLICATE_FILTER then items
            else new_item (lit ''arch:'' @ ur_name update) Item_ARCH (ur_name update)
                   (Some (ur_installed update)) (Some (ur_candidate update)) True # items)))"

definition collect_official_updates :: "runner \<Rightarrow> NormalizedItem list arch_result" where
  "collect_official_updates run =
     bindE (collect_official_inventory run) (\<lambda>records.
       case run CHECKUPDATES [] of
         CommandSucceeded stdout _ \<Rightarrow>
           bindE (parse_update_rows stdout) (\<lambda>updates.
             if updates = [] then Inl (arch_degraded MALFORMED_ROW (lit ''empty checkupdates output''))
             else join_official_updates (dict_of pr_name (\<lambda>r. r) records) updates)
       | result \<Rightarrow>
           (case result of
              CommandExited returncode _ _ \<Rightarrow>
                if returncode = 2 then Inr []
                else Inl (command_degraded result (lit ''checkupdates''))
            | _ \<Rightarrow> Inl (command_degraded result (lit ''checkupdates''))))"

section \<open>AUR updates\<close>

datatype AurHelper = YAY | PARU

fun aur_helper_value :: "AurHelper \<Rightarrow> ustr" where
  "aur_helper_value YAY = lit ''yay''"
| "aur_helper_value PARU = lit ''paru''"

datatype AurResult =
    AurCollected AurHelper "NormalizedItem list"
  | AurNotApplicable
  | AurMissingDependency
  | AurInvalid ustr
  | AurTimedOut AurHelper
  | AurOutputExceeded AurHelper ustr
  | AurCommandFailed AurHelper int
  | AurCommandRejected AurHelper ustr
  | AurForeignInventoryDegraded ArchFailure ustr

text \<open>The pattern \<open>^\[(?:[0-9]+[smhdw])+\]$\<close> of the age that yay appends to a candidate.\<close>

fun age_groups :: "bool \<Rightarrow> ustr \<Rightarrow> bool" where
  "age_groups digits [] = False"
| "age_groups digits (c # cs) =
     (if is_digit c then age_groups True cs
      else digits \<and> c \<in> set (lit ''smhdw'') \<and> (cs = [] \<or> age_groups False cs))"

definition yay_age_matches :: "ustr \<Rightarrow> bool" where
  "yay_age_matches s \<longleftrightarrow>
     2 \<le> length s \<and> hd s = 91 \<and> last s = 93 \<and> age_groups False (butlast (tl s))"

fun helper_rows ::
  "(ustr \<Rightarrow> PackageRecord option) \<Rightarrow> ustr set \<Rightarrow> ustr list \<Rightarrow> ustr + NormalizedItem list" where
  "helper_rows inventory_by_name names [] = Inr []"
| "helper_rows inventory_by_name names (line # rows) =
     (case split_sep (lit '' -> '') line of
        [left, right] \<Rightarrow>
          (let candidate_fields = split_ws right;
               has_yay_age = length candidate_fields = 2 \<and> yay_age_matches (candidate_fields ! 1)
           in case split_ws left of
                [name, installed] \<Rightarrow>
                  if \<not> (length candidate_fields = 1 \<or> has_yay_age) then Inl line
                  else if name \<in> names then Inl (lit ''duplicate package: '' @ name)
                  else if inventory_by_name name = None
                  then Inl (lit ''missing foreign package: '' @ name)
                  else bindE (helper_rows inventory_by_name (insert name names) rows)
                    (\<lambda>items. Inr (new_item (lit ''aur:'' @ name) Item_AUR name (Some installed)
                                   (Some (hd candidate_fields)) True # items))
              | _ \<Rightarrow> Inl line)
      | _ \<Rightarrow> Inl line)"

definition parse_helper_output :: "AurHelper \<Rightarrow> bytes \<Rightarrow> PackageRecord list \<Rightarrow> AurResult" where
  "parse_helper_output helper out inventory =
     (case utf8_decode out of
        None \<Rightarrow> AurInvalid (lit ''non-UTF-8 output'')
      | Some text \<Rightarrow>
          (case helper_rows (dict_of pr_name (\<lambda>r. r) inventory) {} (splitlines text) of
             Inl diagnostic \<Rightarrow> AurInvalid diagnostic
           | Inr items \<Rightarrow> AurCollected helper items))"

definition collect_from_result :: "AurHelper \<Rightarrow> CommandResult \<Rightarrow> PackageRecord list \<Rightarrow> AurResult" where
  "collect_from_result helper result inventory =
     (case result of
        CommandSucceeded stdout _ \<Rightarrow> parse_helper_output helper stdout inventory
      | CommandMissing _ \<Rightarrow> AurMissingDependency
      | CommandTimedOut _ _ \<Rightarrow> AurTimedOut helper
      | CommandOutputExceeded stream _ _ \<Rightarrow> AurOutputExceeded helper stream
      | CommandExited returncode _ _ \<Rightarrow> AurCommandFailed helper returncode
      | CommandRejected diagnostic \<Rightarrow> AurCommandRejected helper diagnostic)"

definition collect_from_paru :: "runner \<Rightarrow> PackageRecord list \<Rightarrow> AurResult" where
  "collect_from_paru run inventory = collect_from_result PARU (run PARU_UPDATES []) inventory"

definition collect_with_yay_or_paru :: "runner \<Rightarrow> PackageRecord list \<Rightarrow> AurResult" where
  "collect_with_yay_or_paru run inventory =
     (case run YAY_UPDATES [] of
        CommandMissing _ \<Rightarrow> collect_from_paru run inventory
      | yay_result \<Rightarrow> collect_from_result YAY yay_result inventory)"

definition collect_aur_updates :: "runner \<Rightarrow> AurResult" where
  "collect_aur_updates run =
     (case collect_foreign_inventory run of
        Inr [] \<Rightarrow> AurNotApplicable
      | Inr (r # rs) \<Rightarrow> collect_with_yay_or_paru run (r # rs)
      | Inl d \<Rightarrow> AurForeignInventoryDegraded (ad_failure d) (ad_detail d))"

section \<open>What the parsers accept\<close>

definition field_ok :: "ustr \<Rightarrow> bool" where
  "field_ok s \<longleftrightarrow> s \<noteq> [] \<and> list_all (\<lambda>c. \<not> is_space c) s"

lemma split_ws_field_ok: "x \<in> set (split_ws s) \<Longrightarrow> field_ok x"
  by (simp add: field_ok_def split_ws_nonempty split_ws_chars)

lemma field_ok_no_break: "field_ok x \<Longrightarrow> list_all (\<lambda>c. \<not> is_line_break c) x"
  using line_break_is_space by (auto simp: field_ok_def list_all_iff)

lemma package_rows_ok:
  "package_rows names rows = Inr records \<Longrightarrow>
   distinct (map pr_name records) \<and> set (map pr_name records) \<inter> names = {} \<and>
   length records = length rows \<and>
   (\<forall>r \<in> set records. field_ok (pr_name r) \<and> field_ok (pr_installed r))"
proof (induction rows arbitrary: names records)
  case (Cons line rows)
  then obtain name installed rest where
    l: "split_ws line = [name, installed]" and n: "name \<notin> names"
    and r: "package_rows (insert name names) rows = Inr rest"
      "records = \<lparr>pr_name = name, pr_installed = installed\<rparr> # rest"
    by (auto split: list.splits if_splits)
  have "field_ok name" "field_ok installed"
    using split_ws_field_ok [of _ line] l by simp_all
  with Cons.IH [OF r(1)] n r(2) show ?case by auto
qed simp

lemma update_rows_ok:
  "update_rows names rows = Inr records \<Longrightarrow>
   distinct (map ur_name records) \<and> set (map ur_name records) \<inter> names = {} \<and>
   (\<forall>r \<in> set records. field_ok (ur_name r) \<and> field_ok (ur_installed r) \<and> field_ok (ur_candidate r))"
proof (induction rows arbitrary: names records)
  case (Cons line rows)
  then obtain left right name installed candidate rest where
    l: "split_ws left = [name, installed]" and c: "split_ws right = [candidate]"
    and n: "name \<notin> names" and r: "update_rows (insert name names) rows = Inr rest"
      "records = \<lparr>ur_name = name, ur_installed = installed, ur_candidate = candidate\<rparr> # rest"
    by (auto split: list.splits if_splits)
  have "field_ok name" "field_ok installed" "field_ok candidate"
    using split_ws_field_ok [of _ left] split_ws_field_ok [of _ right] l c by simp_all
  with Cons.IH [OF r(1)] n r(2) show ?case by auto
qed simp

text \<open>What every collected item of a package source satisfies.\<close>

definition package_item :: "ItemSource \<Rightarrow> NormalizedItem \<Rightarrow> bool" where
  "package_item source i \<longleftrightarrow>
     ni_source i = source \<and> ni_item_id i = item_source_value source @ lit '':'' @ ni_label i \<and>
     field_ok (ni_label i) \<and> ni_installed i \<noteq> None \<and> ni_candidate i \<noteq> None \<and>
     ni_watch_mode i = Watch_OFF \<and> ni_watchable i \<and> \<not> ni_watch_armed i"

lemma new_item_select [simp]:
  "ni_item_id (new_item i src l a b w) = i" "ni_source (new_item i src l a b w) = src"
  "ni_label (new_item i src l a b w) = l" "ni_installed (new_item i src l a b w) = a"
  "ni_candidate (new_item i src l a b w) = b" "ni_watchable (new_item i src l a b w) = w"
  "ni_watch_mode (new_item i src l a b w) = Watch_OFF" "\<not> ni_watch_armed (new_item i src l a b w)"
  by (simp_all add: new_item_def)

lemma lit_append: "lit (a @ b) = lit a @ lit b"
  by (simp add: lit_def)

lemma item_source_colon:
  "item_source_value Item_ARCH @ lit '':'' = lit ''arch:''"
  "item_source_value Item_AUR @ lit '':'' = lit ''aur:''"
  "item_source_value Item_MISE @ lit '':'' = lit ''mise:''"
  "item_source_value Item_FLATPAK @ lit '':'' = lit ''flatpak:''"
  "item_source_value Item_OMARCHY @ lit '':'' = lit ''omarchy:''"
  by (simp_all flip: lit_append)

lemma package_item_new:
  "field_ok name \<Longrightarrow> item_source_value source @ lit '':'' = p \<Longrightarrow>
   package_item source (new_item (p @ name) source name (Some a) (Some b) True)"
  by (auto simp: package_item_def)

lemma join_official_updates_ok:
  assumes "join_official_updates known updates = Inr items" and "distinct (map ur_name updates)"
    and "\<forall>u \<in> set updates. field_ok (ur_name u)"
  shows "distinct (map ni_label items) \<and> set (map ni_label items) \<subseteq> set (map ur_name updates) \<and>
    (\<forall>i \<in> set items. package_item Item_ARCH i \<and> known (ni_label i) \<noteq> None \<and>
       ni_label i \<notin> OMARCHY_DUPLICATE_FILTER)"
  using assms
proof (induction updates arbitrary: items)
  case (Cons u updates)
  then obtain rest where rest: "join_official_updates known updates = Inr rest"
      "known (ur_name u) \<noteq> None"
      "items = (if ur_name u \<in> OMARCHY_DUPLICATE_FILTER then rest
        else new_item (lit ''arch:'' @ ur_name u) Item_ARCH (ur_name u)
               (Some (ur_installed u)) (Some (ur_candidate u)) True # rest)"
    by (auto split: if_splits)
  have "package_item Item_ARCH (new_item (lit ''arch:'' @ ur_name u) Item_ARCH (ur_name u)
      (Some (ur_installed u)) (Some (ur_candidate u)) True)"
    using Cons.prems by (intro package_item_new) (simp_all only: item_source_colon list.set insert_iff ball_simps)
  moreover have "distinct (map ni_label rest) \<and> set (map ni_label rest) \<subseteq> set (map ur_name updates) \<and>
      (\<forall>i \<in> set rest. package_item Item_ARCH i \<and> known (ni_label i) \<noteq> None \<and>
         ni_label i \<notin> OMARCHY_DUPLICATE_FILTER)"
    using Cons.prems rest(1) by (intro Cons.IH) simp_all
  ultimately show ?case using rest(2,3) Cons.prems by auto
qed simp

lemma helper_rows_ok:
  "helper_rows known names rows = Inr items \<Longrightarrow>
   distinct (map ni_label items) \<and> set (map ni_label items) \<inter> names = {} \<and>
   (\<forall>i \<in> set items. package_item Item_AUR i \<and> known (ni_label i) \<noteq> None)"
proof (induction rows arbitrary: names items)
  case (Cons line rows)
  then obtain left name installed candidate rest where
    l: "split_ws left = [name, installed]" and n: "name \<notin> names" "known name \<noteq> None"
    and r: "helper_rows known (insert name names) rows = Inr rest"
      "items = new_item (lit ''aur:'' @ name) Item_AUR name (Some installed) (Some candidate) True # rest"
    by (auto simp: Let_def split: list.splits if_splits)
  have "field_ok name" using split_ws_field_ok [of _ left] l by simp
  then have "package_item Item_AUR
      (new_item (lit ''aur:'' @ name) Item_AUR name (Some installed) (Some candidate) True)"
    by (rule package_item_new) (rule item_source_colon)
  with Cons.IH [OF r(1)] n r(2) show ?case by auto
qed simp

lemma distinct_package_ids:
  assumes "distinct (map ni_label items)" and "\<forall>i \<in> set items. package_item source i"
  shows "distinct (map ni_item_id items)"
proof -
  have "map ni_item_id items = map ((@) (item_source_value source @ lit '':'')) (map ni_label items)"
    using assms(2) by (auto simp: package_item_def)
  then show ?thesis using assms(1) by (simp add: distinct_map inj_on_def del: map_map)
qed

lemma collect_official_updates_items:
  assumes "collect_official_updates run = Inr items" and "items \<noteq> []"
  shows "\<exists>records. collect_official_inventory run = Inr records \<and>
    distinct (map ni_label items) \<and>
    (\<forall>i \<in> set items. package_item Item_ARCH i \<and> ni_label i \<in> set (map pr_name records) \<and>
       ni_label i \<notin> OMARCHY_DUPLICATE_FILTER)"
proof -
  from assms(1) obtain records where r: "collect_official_inventory run = Inr records"
    by (auto simp: collect_official_updates_def)
  with assms obtain stdout updates where u: "parse_update_rows stdout = Inr updates"
    and j: "join_official_updates (dict_of pr_name (\<lambda>r. r) records) updates = Inr items"
    by (cases "run CHECKUPDATES []") (auto simp: collect_official_updates_def split: if_splits)
  from u have "distinct (map ur_name updates) \<and> (\<forall>u \<in> set updates. field_ok (ur_name u))"
    by (auto simp: parse_update_rows_def dest: update_rows_ok split: option.splits)
  with j have "distinct (map ni_label items) \<and> (\<forall>i \<in> set items. package_item Item_ARCH i \<and>
      dict_of pr_name (\<lambda>r. r) records (ni_label i) \<noteq> None \<and> ni_label i \<notin> OMARCHY_DUPLICATE_FILTER)"
    by (auto dest: join_official_updates_ok)
  with r show ?thesis by (auto simp: dict_of_None_iff)
qed

lemma collect_aur_items:
  assumes "collect_aur_updates run = AurCollected helper items"
  shows "\<exists>records. collect_foreign_inventory run = Inr records \<and>
    distinct (map ni_label items) \<and>
    (\<forall>i \<in> set items. package_item Item_AUR i \<and> ni_label i \<in> set (map pr_name records))"
proof -
  from assms obtain records where r: "collect_foreign_inventory run = Inr records"
    and w: "collect_with_yay_or_paru run records = AurCollected helper items"
    by (auto simp: collect_aur_updates_def split: sum.splits list.splits)
  from w obtain result h where "collect_from_result h result records = AurCollected helper items"
    unfolding collect_with_yay_or_paru_def collect_from_paru_def
    by (cases "run YAY_UPDATES []") auto
  then obtain stdout where "parse_helper_output h stdout records = AurCollected helper items"
    by (cases result) (auto simp: collect_from_result_def)
  then obtain rows where "helper_rows (dict_of pr_name (\<lambda>r. r) records) {} rows = Inr items"
    by (auto simp: parse_helper_output_def split: option.splits sum.splits)
  from helper_rows_ok [OF this] r show ?thesis by (simp add: dict_of_None_iff)
qed

definition package_row :: "PackageRecord \<Rightarrow> ustr" where
  "package_row r = pr_name r @ lit '' '' @ pr_installed r"

lemma package_rows_print:
  assumes "distinct (map pr_name rs)" and "set (map pr_name rs) \<inter> names = {}"
    and "\<forall>r \<in> set rs. field_ok (pr_name r) \<and> field_ok (pr_installed r)"
  shows "package_rows names (map package_row rs) = Inr rs"
  using assms
proof (induction rs arbitrary: names)
  case (Cons r rs)
  have "split_ws (package_row r) = [pr_name r, pr_installed r]"
    using Cons.prems(3) by (simp add: package_row_def split_ws_pair field_ok_def)
  moreover have "package_rows (insert (pr_name r) names) (map package_row rs) = Inr rs"
    using Cons.prems by (intro Cons.IH) auto
  ultimately show ?case using Cons.prems by simp
qed simp

section \<open>Properties\<close>

text \<open>
  Reading back a printed package inventory gives the inventory: for records with distinct
  names whose fields are non-empty texts of Unicode scalar values without white space, parsing
  the UTF-8 bytes of one \<open>name version\<close> line per record returns exactly these records.
\<close>

theorem parse_package_rows_roundtrip:
  assumes d: "distinct (map pr_name rs)"
    and f: "\<forall>r \<in> set rs. field_ok (pr_name r) \<and> field_ok (pr_installed r) \<and>
      list_all scalar_value (pr_name r) \<and> list_all scalar_value (pr_installed r)"
  shows "parse_package_rows (utf8_encode (concat (map (\<lambda>r. package_row r @ [10]) rs))) = Inr rs"
proof -
  let ?text = "concat (map (\<lambda>r. package_row r @ [10]) rs)"
  have "list_all scalar_value (package_row r)" if "r \<in> set rs" for r
    using f that by (simp add: package_row_def lit_def scalar_value_def)
  then have "list_all scalar_value ?text"
    by (auto simp: list_all_iff scalar_value_def)
  then have decode: "utf8_decode (utf8_encode ?text) = Some ?text" by (rule utf8_decode_encode)
  have "list_all (\<lambda>c. \<not> is_line_break c) (package_row r)" if "r \<in> set rs" for r
  proof -
    have "\<not> is_line_break 32" by (simp add: is_line_break_def)
    with f that show ?thesis by (simp add: package_row_def field_ok_no_break lit_def)
  qed
  then have "splitlines (concat (map (\<lambda>l. l @ [10]) (map package_row rs))) = map package_row rs"
    by (intro splitlines_unlines) auto
  then have "splitlines ?text = map package_row rs" by (simp add: comp_def)
  with decode d f show ?thesis
    by (simp add: parse_package_rows_def package_rows_print)
qed

theorem parse_package_rows_roundtrip_witness:
  "parse_package_rows (utf8_encode (concat (map (\<lambda>r. package_row r @ [10])
     [\<lparr>pr_name = lit ''bash'', pr_installed = lit ''5.2-1''\<rparr>,
      \<lparr>pr_name = lit ''zlib'', pr_installed = lit ''1.3-2''\<rparr>]))) =
   Inr [\<lparr>pr_name = lit ''bash'', pr_installed = lit ''5.2-1''\<rparr>,
      \<lparr>pr_name = lit ''zlib'', pr_installed = lit ''1.3-2''\<rparr>]"
  by (rule parse_package_rows_roundtrip)
    (simp_all add: field_ok_def lit_def is_space_def scalar_value_def)


definition sample_runner :: runner where
  "sample_runner name arguments =
     (case name of
        PACMAN_FOREIGN \<Rightarrow> CommandSucceeded (utf8_encode (lit ''yay 12'' @ [10])) []
      | YAY_UPDATES \<Rightarrow> CommandSucceeded (utf8_encode (lit ''yay 12 -> 13'' @ [10])) []
      | _ \<Rightarrow> CommandMissing [])"

lemma ascii_scalar: "list_all (\<lambda>c. c < 128) s \<Longrightarrow> list_all scalar_value s"
  by (induction s) (simp_all add: scalar_value_def)

lemma sample_runner_collects:
  "collect_aur_updates sample_runner = AurCollected YAY
     [new_item (lit ''aur:yay'') Item_AUR (lit ''yay'') (Some (lit ''12'')) (Some (lit ''13'')) True]"
proof -
  have "utf8_decode (utf8_encode (lit ''yay 12'' @ [10])) = Some (lit ''yay 12'' @ [10])"
      "utf8_decode (utf8_encode (lit ''yay 12 -> 13'' @ [10])) = Some (lit ''yay 12 -> 13'' @ [10])"
    by (rule utf8_decode_encode, rule ascii_scalar, simp add: lit_def)+
  then show ?thesis
    by (simp add: collect_aur_updates_def collect_foreign_inventory_def collect_inventory_def
        collect_with_yay_or_paru_def collect_from_result_def parse_helper_output_def
        parse_package_rows_def sample_runner_def splitlines_def is_line_break_def split_ws_def
        is_space_def split_sep_def dict_of_def lit_def)
qed


end
