(* ===== verification/Adapter_Flatpak.thy ===== *)
theory Adapter_Flatpak
  imports Adapter_Arch
begin

text \<open>
  The Flatpak adapter: the row parsers of \<open>adapters/flatpak_parser.py\<close> and the scoped collection
  of \<open>adapters/flatpak.py\<close>. \<open>str.isprintable\<close> consults the Unicode character database, which is the
  argument \<open>printable\<close> of the parsers.
\<close>

section \<open>Parsers\<close>

datatype FlatpakKind = Kind_APP | Kind_RUNTIME

fun flatpak_kind_value :: "FlatpakKind \<Rightarrow> ustr" where
  "flatpak_kind_value Kind_APP = lit ''app''"
| "flatpak_kind_value Kind_RUNTIME = lit ''runtime''"

definition flatpak_kind_members :: "FlatpakKind list" where
  "flatpak_kind_members = [Kind_APP, Kind_RUNTIME]"

interpretation flatpak_kind_enum: str_enum flatpak_kind_value flatpak_kind_members
proof
  show "set flatpak_kind_members = UNIV"
    by (auto simp: flatpak_kind_members_def) (metis FlatpakKind.exhaust)
  show "flatpak_kind_value a = flatpak_kind_value b \<Longrightarrow> a = b" for a b
    by (cases a; cases b; simp)
qed

record FlatpakInventoryRow =
  fr_ref :: ustr
  fr_kind :: FlatpakKind
  fr_application_id :: ustr
  fr_arch :: ustr
  fr_branch :: ustr
  fr_installed :: "ustr option"
  fr_origin :: ustr

record FlatpakUpdate =
  fu_ref :: ustr
  fu_version :: "ustr option"
  fu_origin :: ustr
  fu_row_number :: nat

definition valid_component :: "(nat \<Rightarrow> bool) \<Rightarrow> ustr \<Rightarrow> bool" where
  "valid_component printable v \<longleftrightarrow> v \<noteq> [] \<and> list_all printable v \<and> 47 \<notin> set v"

definition valid_ref :: "(nat \<Rightarrow> bool) \<Rightarrow> ustr \<Rightarrow> bool" where
  "valid_ref printable ref =
     (let parts = split_on 47 ref
      in length parts = 4 \<and> enum_of flatpak_kind_value flatpak_kind_members (hd parts) \<noteq> None
         \<and> list_all (valid_component printable) parts)"

definition non_empty :: "ustr \<Rightarrow> ustr option" where
  "non_empty s = (if s = [] then None else Some s)"

definition flatpak_ref :: "FlatpakKind \<Rightarrow> ustr \<Rightarrow> ustr \<Rightarrow> ustr \<Rightarrow> ustr" where
  "flatpak_ref kind application_id arch branch =
     flatpak_kind_value kind @ lit ''/'' @ application_id @ lit ''/'' @ arch @ lit ''/'' @ branch"

fun inventory_rows ::
  "(nat \<Rightarrow> bool) \<Rightarrow> FlatpakKind \<Rightarrow> nat \<Rightarrow> ustr set \<Rightarrow> ustr list \<Rightarrow> ustr + FlatpakInventoryRow list"
where
  "inventory_rows printable kind row_number seen [] = Inr []"
| "inventory_rows printable kind row_number seen (row # rows) =
     (case split_on 9 row of
        [application_id, arch, branch, installed, origin] \<Rightarrow>
          if \<not> list_all (valid_component printable) [application_id, arch, branch]
          then Inl (lit ''Flatpak inventory row '' @ str_nat row_number
                    @ lit '' has an invalid component'')
          else
            let ref = flatpak_ref kind application_id arch branch
            in if ref \<in> seen
               then Inl (lit ''Flatpak inventory contains duplicate ref at row '' @ str_nat row_number)
               else bindE (inventory_rows printable kind (row_number + 1) (insert ref seen) rows)
                 (\<lambda>rest. Inr (\<lparr>fr_ref = ref, fr_kind = kind, fr_application_id = application_id,
                    fr_arch = arch, fr_branch = branch, fr_installed = non_empty installed,
                    fr_origin = origin\<rparr> # rest))
      | columns \<Rightarrow>
          Inl (lit ''Flatpak inventory row '' @ str_nat row_number @ lit '' has ''
               @ str_nat (length columns) @ lit '' columns; expected 5''))"

definition parse_inventory ::
  "(nat \<Rightarrow> bool) \<Rightarrow> bytes \<Rightarrow> FlatpakKind \<Rightarrow> ustr + FlatpakInventoryRow list" where
  "parse_inventory printable stdout kind =
     (case utf8_decode stdout of
        None \<Rightarrow> Inl (lit ''Flatpak inventory output is not valid UTF-8'')
      | Some decoded \<Rightarrow> inventory_rows printable kind 1 {} (splitlines decoded))"

fun updates_rows ::
  "(nat \<Rightarrow> bool) \<Rightarrow> nat \<Rightarrow> ustr set \<Rightarrow> ustr list \<Rightarrow> ustr + FlatpakUpdate list" where
  "updates_rows printable row_number seen [] = Inr []"
| "updates_rows printable row_number seen (row # rows) =
     (case split_on 9 row of
        [ref, version, origin] \<Rightarrow>
          if \<not> valid_ref printable ref
          then Inl (lit ''Flatpak updates row '' @ str_nat row_number @ lit '' has an invalid ref'')
          else if ref \<in> seen
          then Inl (lit ''Flatpak updates contains duplicate ref at row '' @ str_nat row_number)
          else bindE (updates_rows printable (row_number + 1) (insert ref seen) rows)
            (\<lambda>rest. Inr (\<lparr>fu_ref = ref, fu_version = non_empty version, fu_origin = origin,
                         fu_row_number = row_number\<rparr> # rest))
      | columns \<Rightarrow>
          Inl (lit ''Flatpak updates row '' @ str_nat row_number @ lit '' has ''
               @ str_nat (length columns) @ lit '' columns; expected 3''))"

definition parse_updates :: "(nat \<Rightarrow> bool) \<Rightarrow> bytes \<Rightarrow> ustr + FlatpakUpdate list" where
  "parse_updates printable stdout =
     (case utf8_decode stdout of
        None \<Rightarrow> Inl (lit ''Flatpak updates output is not valid UTF-8'')
      | Some decoded \<Rightarrow> updates_rows printable 1 {} (splitlines decoded))"

section \<open>Collection\<close>

text \<open>\<open>FlatpakScope\<close> has the members and values of \<open>SourceScope\<close>, to which it is converted by value.\<close>

type_synonym FlatpakScope = SourceScope

datatype FlatpakScopeStatus = Flat_OK | Flat_NOT_APPLICABLE | Flat_MISSING_DEPENDENCY
  | Flat_TIMEOUT | Flat_OUTPUT_EXCEEDED | Flat_ERROR | Flat_INVALID

record FlatpakRecord =
  fp_scope :: FlatpakScope
  fp_ref :: ustr
  fp_kind :: FlatpakKind
  fp_application_id :: ustr
  fp_arch :: ustr
  fp_branch :: ustr
  fp_origin :: ustr
  fp_candidate_ref :: "ustr option"
  fp_candidate_origin :: "ustr option"
  fp_item :: NormalizedItem

record FlatpakScopeResult =
  fs_scope :: FlatpakScope
  fs_status :: FlatpakScopeStatus
  fs_records :: "FlatpakRecord list"
  fs_diagnostic :: "ustr option"

type_synonym FlatpakResult = "FlatpakScopeResult \<times> FlatpakScopeResult"

record ScopeCommands =
  sco_scope :: FlatpakScope
  sco_apps :: CommandName
  sco_runtimes :: CommandName
  sco_updates :: CommandName

definition user_commands :: ScopeCommands where
  "user_commands = \<lparr>sco_scope = Scope_USER, sco_apps = FLATPAK_USER_APP_LIST,
     sco_runtimes = FLATPAK_USER_RUNTIME_LIST, sco_updates = FLATPAK_USER_UPDATES\<rparr>"

definition system_commands :: ScopeCommands where
  "system_commands = \<lparr>sco_scope = Scope_SYSTEM, sco_apps = FLATPAK_SYSTEM_APP_LIST,
     sco_runtimes = FLATPAK_SYSTEM_RUNTIME_LIST, sco_updates = FLATPAK_SYSTEM_UPDATES\<rparr>"

definition scope_result ::
  "FlatpakScope \<Rightarrow> FlatpakScopeStatus \<Rightarrow> FlatpakRecord list \<Rightarrow> ustr option \<Rightarrow> FlatpakScopeResult" where
  "scope_result scope status records diagnostic =
     \<lparr>fs_scope = scope, fs_status = status, fs_records = records, fs_diagnostic = diagnostic\<rparr>"

text \<open>\<open>_CommandFailure\<close> is the left value of a sum, the text or the rows the right one.\<close>

type_synonym command_failure = "FlatpakScopeStatus \<times> ustr"

definition command_outcome :: "CommandResult \<Rightarrow> command_failure + bytes" where
  "command_outcome result =
     (case result of
        CommandSucceeded stdout _ \<Rightarrow> Inr stdout
      | CommandMissing diagnostic \<Rightarrow> Inl (Flat_MISSING_DEPENDENCY, take 512 diagnostic)
      | CommandTimedOut _ _ \<Rightarrow> Inl (Flat_TIMEOUT, lit ''Flatpak command timed out'')
      | CommandOutputExceeded stream _ _ \<Rightarrow>
          Inl (Flat_OUTPUT_EXCEEDED,
               lit ''Flatpak '' @ stream @ lit '' output exceeded its configured limit'')
      | CommandExited returncode _ _ \<Rightarrow>
          Inl (Flat_ERROR, lit ''Flatpak command exited with status '' @ str_int returncode)
      | CommandRejected diagnostic \<Rightarrow> Inl (Flat_ERROR, take 512 diagnostic))"

definition inventory_outcome ::
  "(nat \<Rightarrow> bool) \<Rightarrow> CommandResult \<Rightarrow> FlatpakKind \<Rightarrow> command_failure + FlatpakInventoryRow list" where
  "inventory_outcome printable result kind =
     bindE (command_outcome result) (\<lambda>stdout.
       case parse_inventory printable stdout kind of
         Inl diagnostic \<Rightarrow> Inl (Flat_INVALID, diagnostic)
       | Inr rows \<Rightarrow> Inr rows)"

definition flatpak_records :: "FlatpakScope \<Rightarrow> FlatpakInventoryRow list \<Rightarrow> FlatpakRecord list" where
  "flatpak_records scope rows =
     map (\<lambda>row. \<lparr>fp_scope = scope, fp_ref = fr_ref row, fp_kind = fr_kind row,
       fp_application_id = fr_application_id row, fp_arch = fr_arch row,
       fp_branch = fr_branch row, fp_origin = fr_origin row, fp_candidate_ref = None,
       fp_candidate_origin = None,
       fp_item = new_item (lit ''flatpak:'' @ scope_value scope @ lit '':'' @ fr_ref row)
         Item_FLATPAK (fr_application_id row) (fr_installed row) None True\<rparr>) rows"

definition inventory_failure ::
  "FlatpakScope \<Rightarrow> command_failure \<Rightarrow> command_failure + FlatpakInventoryRow list
     \<Rightarrow> FlatpakScopeResult" where
  "inventory_failure scope failure other =
     (case other of
        Inl _ \<Rightarrow> scope_result scope (fst failure) [] (Some (snd failure))
      | Inr rows \<Rightarrow>
          scope_result scope (fst failure) (flatpak_records scope rows) (Some (snd failure)))"

definition with_candidate :: "FlatpakRecord \<Rightarrow> FlatpakUpdate option \<Rightarrow> FlatpakRecord" where
  "with_candidate rec candidate =
     (case candidate of None \<Rightarrow> rec
      | Some u \<Rightarrow> rec\<lparr>fp_candidate_ref := Some (fu_ref u), fp_candidate_origin := Some (fu_origin u),
          fp_item := (fp_item rec)\<lparr>ni_candidate := fu_version u\<rparr>\<rparr>)"

definition reconcile_updates ::
  "FlatpakScope \<Rightarrow> FlatpakRecord list \<Rightarrow> FlatpakUpdate list \<Rightarrow> FlatpakScopeResult" where
  "reconcile_updates scope records updates =
     (case find (\<lambda>u. fu_ref u \<notin> fp_ref ` set records) updates of
        Some u \<Rightarrow> scope_result scope Flat_INVALID records
          (Some (lit ''Flatpak updates contains unmatched ref at row '' @ str_nat (fu_row_number u)))
      | None \<Rightarrow>
          let updates_by_ref = dict_of fu_ref (\<lambda>u. u) updates
          in scope_result scope Flat_OK
               (map (\<lambda>r. with_candidate r (updates_by_ref (fp_ref r))) records) None)"

definition collect_updates ::
  "(nat \<Rightarrow> bool) \<Rightarrow> ScopeCommands \<Rightarrow> FlatpakRecord list \<Rightarrow> (CommandName \<Rightarrow> CommandResult)
     \<Rightarrow> FlatpakScopeResult" where
  "collect_updates printable commands records run =
     (case command_outcome (run (sco_updates commands)) of
        Inl failure \<Rightarrow> scope_result (sco_scope commands) (fst failure) records (Some (snd failure))
      | Inr stdout \<Rightarrow>
          (case parse_updates printable stdout of
             Inl diagnostic \<Rightarrow>
               scope_result (sco_scope commands) Flat_INVALID records (Some diagnostic)
           | Inr updates \<Rightarrow> reconcile_updates (sco_scope commands) records updates))"

definition collect_scope ::
  "(nat \<Rightarrow> bool) \<Rightarrow> ScopeCommands \<Rightarrow> (CommandName \<Rightarrow> CommandResult) \<Rightarrow> FlatpakScopeResult" where
  "collect_scope printable commands run =
     (let apps = inventory_outcome printable (run (sco_apps commands)) Kind_APP;
          runtimes = inventory_outcome printable (run (sco_runtimes commands)) Kind_RUNTIME
      in case apps of
           Inl failure \<Rightarrow> inventory_failure (sco_scope commands) failure runtimes
         | Inr app_rows \<Rightarrow>
             (case runtimes of
                Inl failure \<Rightarrow> inventory_failure (sco_scope commands) failure apps
              | Inr runtime_rows \<Rightarrow>
                  let records = flatpak_records (sco_scope commands) (app_rows @ runtime_rows)
                  in if records = []
                     then scope_result (sco_scope commands) Flat_NOT_APPLICABLE [] None
                     else collect_updates printable commands records run))"

definition collect_flatpak ::
  "(nat \<Rightarrow> bool) \<Rightarrow> (CommandName \<Rightarrow> CommandResult) \<Rightarrow> FlatpakResult" where
  "collect_flatpak printable run =
     (collect_scope printable user_commands run, collect_scope printable system_commands run)"

section \<open>What a scope reports\<close>

lemma inventory_rows_ok:
  "inventory_rows printable kind n seen rows = Inr rs \<Longrightarrow>
   distinct (map fr_ref rs) \<and> set (map fr_ref rs) \<inter> seen = {} \<and>
   (\<forall>r \<in> set rs. fr_kind r = kind \<and> valid_component printable (fr_application_id r) \<and>
      fr_ref r = flatpak_ref kind (fr_application_id r) (fr_arch r) (fr_branch r))"
proof (induction rows arbitrary: n seen rs)
  case (Cons row rows)
  then obtain a b c d e rest where
    v: "valid_component printable a" and n: "flatpak_ref kind a b c \<notin> seen"
    and r: "inventory_rows printable kind (n + 1) (insert (flatpak_ref kind a b c) seen) rows = Inr rest"
      "rs = \<lparr>fr_ref = flatpak_ref kind a b c, fr_kind = kind, fr_application_id = a, fr_arch = b,
         fr_branch = c, fr_installed = non_empty d, fr_origin = e\<rparr> # rest"
    by (auto simp: Let_def split: list.splits if_splits)
  from Cons.IH [OF r(1)] v n r(2) show ?case by auto
qed simp

lemma flatpak_ref_kind:
  "flatpak_ref Kind_APP a b c \<noteq> flatpak_ref Kind_RUNTIME a' b' c'"
  by (simp add: flatpak_ref_def lit_def)

definition scope_record :: "(nat \<Rightarrow> bool) \<Rightarrow> FlatpakScope \<Rightarrow> FlatpakRecord \<Rightarrow> bool" where
  "scope_record printable scope r \<longleftrightarrow> fp_scope r = scope \<and>
     valid_component printable (fp_application_id r) \<and>
     fp_ref r = flatpak_ref (fp_kind r) (fp_application_id r) (fp_arch r) (fp_branch r) \<and>
     ni_item_id (fp_item r) = lit ''flatpak:'' @ scope_value scope @ lit '':'' @ fp_ref r \<and>
     ni_source (fp_item r) = Item_FLATPAK \<and> ni_label (fp_item r) = fp_application_id r \<and>
     ni_watch_mode (fp_item r) = Watch_OFF \<and> ni_watchable (fp_item r) \<and>
     \<not> ni_watch_armed (fp_item r)"

definition records_ok :: "(nat \<Rightarrow> bool) \<Rightarrow> FlatpakScope \<Rightarrow> FlatpakRecord list \<Rightarrow> bool" where
  "records_ok printable scope rs \<longleftrightarrow>
     distinct (map fp_ref rs) \<and> (\<forall>r \<in> set rs. scope_record printable scope r)"

lemma inventory_outcome_ok:
  assumes "inventory_outcome printable result kind = Inr rows"
  shows "distinct (map fr_ref rows) \<and> (\<forall>r \<in> set rows. fr_kind r = kind \<and>
    valid_component printable (fr_application_id r) \<and>
    fr_ref r = flatpak_ref kind (fr_application_id r) (fr_arch r) (fr_branch r))"
proof -
  from assms obtain stdout where
    "(case parse_inventory printable stdout kind of
        Inl diagnostic \<Rightarrow> Inl (Flat_INVALID, diagnostic) | Inr x \<Rightarrow> Inr x) = Inr rows"
    by (auto simp: inventory_outcome_def)
  then have "parse_inventory printable stdout kind = Inr rows"
    by (cases "parse_inventory printable stdout kind") simp_all
  then obtain n seen lines where "inventory_rows printable kind n seen lines = Inr rows"
    by (auto simp: parse_inventory_def split: option.splits)
  from inventory_rows_ok [OF this] show ?thesis by blast
qed

lemma flatpak_records_ok:
  assumes "distinct (map fr_ref rows)"
    and "\<forall>r \<in> set rows. valid_component printable (fr_application_id r) \<and>
      fr_ref r = flatpak_ref (fr_kind r) (fr_application_id r) (fr_arch r) (fr_branch r)"
  shows "records_ok printable scope (flatpak_records scope rows)"
  using assms by (auto simp: records_ok_def flatpak_records_def scope_record_def comp_def)

lemma with_candidate_select [simp]:
  "fp_ref (with_candidate r c) = fp_ref r"
  by (simp add: with_candidate_def split: option.split)

lemma scope_record_with_candidate:
  "scope_record printable scope r \<Longrightarrow> scope_record printable scope (with_candidate r c)"
  by (auto simp: scope_record_def with_candidate_def split: option.split)

lemma reconcile_ok:
  assumes "records_ok printable scope rs"
  shows "records_ok printable scope (fs_records (reconcile_updates scope rs us))"
  using assms
  by (auto simp: reconcile_updates_def records_ok_def scope_result_def Let_def comp_def
      scope_record_with_candidate split: option.split)

lemma collect_scope_ok:
  "records_ok printable (sco_scope c) (fs_records (collect_scope printable c run)) \<and>
   fs_scope (collect_scope printable c run) = sco_scope c"
proof -
  let ?apps = "inventory_outcome printable (run (sco_apps c)) Kind_APP"
  let ?runtimes = "inventory_outcome printable (run (sco_runtimes c)) Kind_RUNTIME"
  have app: "?apps = Inr rows \<Longrightarrow> records_ok printable (sco_scope c) (flatpak_records (sco_scope c) rows)"
    for rows by (rule flatpak_records_ok) (auto dest: inventory_outcome_ok)
  have runtime: "?runtimes = Inr rows \<Longrightarrow>
      records_ok printable (sco_scope c) (flatpak_records (sco_scope c) rows)"
    for rows by (rule flatpak_records_ok) (auto dest: inventory_outcome_ok)
  have both: "records_ok printable (sco_scope c) (flatpak_records (sco_scope c) (as @ rs))"
    if "?apps = Inr as" "?runtimes = Inr rs" for as rs
  proof (rule flatpak_records_ok)
    have "fr_ref a \<noteq> fr_ref r" if "a \<in> set as" "r \<in> set rs" for a r
      using that inventory_outcome_ok [OF \<open>?apps = Inr as\<close>] inventory_outcome_ok [OF \<open>?runtimes = Inr rs\<close>]
      by (simp add: flatpak_ref_kind)
    then show "distinct (map fr_ref (as @ rs))"
      using inventory_outcome_ok [OF that(1)] inventory_outcome_ok [OF that(2)] by auto
  qed (use inventory_outcome_ok [OF that(1)] inventory_outcome_ok [OF that(2)] in auto)
  have updates: "records_ok printable (sco_scope c) (fs_records (collect_updates printable c rs run)) \<and>
      fs_scope (collect_updates printable c rs run) = sco_scope c"
    if "records_ok printable (sco_scope c) rs" for rs
    using that reconcile_ok [OF that]
    by (auto simp: collect_updates_def scope_result_def reconcile_updates_def Let_def
        split: sum.split option.split)
  have empty: "records_ok printable (sco_scope c) []" by (simp add: records_ok_def)
  show ?thesis
    using app runtime both updates empty
    by (auto simp: collect_scope_def inventory_failure_def scope_result_def Let_def split: sum.split)
qed

section \<open>Properties\<close>


end
