(* ===== verification/Validation.thy ===== *)
theory Validation
  imports Models
begin

text \<open>
  The semantic checks of \<open>validation.py\<close>, which every response passes before it is encoded and
  after it is decoded. Each check is the unit result of the source function, in the source's
  order, with its error code and message; the lemmas give the predicate it accepts.
\<close>

definition MAX_IDENTIFIER_LENGTH :: nat where
  "MAX_IDENTIFIER_LENGTH = 128"

definition MAX_ERROR_MESSAGE_LENGTH :: nat where
  "MAX_ERROR_MESSAGE_LENGTH = 512"

definition failv :: "ErrorCode \<Rightarrow> string \<Rightarrow> exn" where
  "failv code message = protocol_fail code (lit message)"

definition validate_bounded :: "nat \<Rightarrow> ustr \<Rightarrow> string \<Rightarrow> unit result" where
  "validate_bounded maximum_length v path =
     checkE (\<not> (v = [] \<or> maximum_length < length v))
       (failv INVALID_TYPE (path @ '' must be a bounded non-empty string''))"

definition validate_identifier :: "ustr \<Rightarrow> string \<Rightarrow> unit result" where
  "validate_identifier = validate_bounded MAX_IDENTIFIER_LENGTH"

definition avg_matches :: "ustr \<Rightarrow> bool" where
  "avg_matches s \<longleftrightarrow> prefix (lit ''AVG-'') s \<and> drop 4 s \<noteq> [] \<and> list_all is_digit (drop 4 s)"

definition validate_avg_identifier :: "ustr \<Rightarrow> string \<Rightarrow> unit result" where
  "validate_avg_identifier v path =
     thenE (validate_identifier v path)
       (checkE (avg_matches v) (failv INVALID_TYPE (path @ '' must be an AVG advisory identifier'')))"

definition validate_error :: "ErrorInfo \<Rightarrow> unit result" where
  "validate_error e = validate_bounded MAX_ERROR_MESSAGE_LENGTH (ei_message e) ''error.message''"

definition validate_nonnegative :: "int \<Rightarrow> string \<Rightarrow> unit result" where
  "validate_nonnegative v path =
     checkE (\<not> v < 0) (failv INVALID_TYPE (path @ '' must be a non-negative exact integer''))"

definition validate_metadata :: "int \<Rightarrow> ustr \<Rightarrow> unit result" where
  "validate_metadata version generation_id = seqE [
     checkE (\<not> PROTOCOL_VERSION < version)
       (failv PROTOCOL_VERSION_FUTURE ''protocolVersion is newer than this helper''),
     checkE (version = PROTOCOL_VERSION)
       (failv PROTOCOL_VERSION_INVALID ''protocolVersion is unsupported''),
     validate_identifier generation_id ''generationId'']"

definition validate_optional :: "('a \<Rightarrow> unit result) \<Rightarrow> 'a option \<Rightarrow> unit result" where
  "validate_optional check v = (case v of None \<Rightarrow> Inr () | Some x \<Rightarrow> check x)"

definition validate_scopes :: "SourceHealth \<Rightarrow> unit result" where
  "validate_scopes source =
     (if sh_scopes source = [] then Inr () else seqE [
        checkE (sh_source source = Src_FLATPAK)
          (failv INVALID_ENVELOPE ''only Flatpak supports scoped source health''),
        checkE (distinct (map sc_scope (sh_scopes source))
                \<and> set (map sc_scope (sh_scopes source)) = set scope_members)
          (failv INVALID_ENVELOPE ''Flatpak source scopes are incomplete''),
        forE (\<lambda>s. validate_optional validate_error (sc_cause s)) (sh_scopes source)])"

definition validate_sources :: "SourceHealth list \<Rightarrow> unit result" where
  "validate_sources sources = seqE [
     checkE (distinct (map sh_source sources) \<and> set (map sh_source sources) = set source_name_members)
       (failv INVALID_ENVELOPE ''snapshot.sources must contain each source once''),
     forE (\<lambda>s. thenE (validate_optional validate_error (sh_cause s)) (validate_scopes s)) sources]"

definition validate_item :: "NormalizedItem \<Rightarrow> unit result" where
  "validate_item item = seqE [
     checkE (\<not> (ni_watch_armed item \<and> ni_watch_mode item \<noteq> Watch_TEMPORARY))
       (failv INVALID_ENVELOPE ''only temporary watches can be armed''),
     validate_identifier (ni_item_id item) ''item.id'',
     validate_identifier (ni_label item) ''item.label'',
     validate_optional (\<lambda>v. validate_identifier v ''item.installedFingerprint'')
       (ni_installed_fingerprint item),
     validate_optional (\<lambda>v. validate_identifier v ''item.candidateFingerprint'')
       (ni_candidate_fingerprint item)]"

definition validate_items :: "NormalizedItem list \<Rightarrow> unit result" where
  "validate_items items =
     thenE (checkE (distinct (map ni_item_id items))
              (failv DUPLICATE_ITEM_ID ''item IDs must be unique''))
       (forE validate_item items)"

definition validate_kev :: "bool \<Rightarrow> KevStatus \<Rightarrow> Provenance option \<Rightarrow> unit result" where
  "validate_kev known_exploited status provenance =
     (case status of
        Kev_LISTED \<Rightarrow> checkE (\<not> (\<not> known_exploited \<or> provenance = None))
          (failv INVALID_ENVELOPE ''listed KEV finding is inconsistent'')
      | Kev_NOT_LISTED \<Rightarrow> checkE (\<not> (known_exploited \<or> provenance = None))
          (failv INVALID_ENVELOPE ''not-listed KEV finding is inconsistent'')
      | Kev_UNAVAILABLE \<Rightarrow> checkE (\<not> (known_exploited \<or> provenance \<noteq> None))
          (failv INVALID_ENVELOPE ''unavailable KEV finding is inconsistent''))"

definition validate_finding :: "ustr \<Rightarrow> SecurityFinding \<Rightarrow> unit result" where
  "validate_finding item_id finding = seqE [
     checkE (sf_item_id finding = item_id)
       (failv INVALID_ENVELOPE ''security finding ID does not match its group''),
     validate_avg_identifier (sf_finding_id finding) ''finding.id'',
     validate_avg_identifier (sf_advisory_id finding) ''finding.advisoryId'',
     checkE (sf_finding_id finding = sf_advisory_id finding)
       (failv INVALID_ENVELOPE ''finding.id must equal finding.advisoryId''),
     validate_identifier (sf_advisory_type finding) ''finding.type'',
     validate_optional (\<lambda>v. validate_identifier v ''finding.installedVersion'')
       (sf_installed_version finding),
     validate_kev (sf_known_exploited finding) (sf_kev_status finding) (sf_kev_provenance finding)]"

definition validate_group ::
  "SecurityFindingGroup \<Rightarrow> (ustr \<Rightarrow> ItemSource option) \<Rightarrow> unit result" where
  "validate_group grp source_by_item_id = seqE [
     checkE (case source_by_item_id (sg_item_id grp) of None \<Rightarrow> True | Some s \<Rightarrow> s = Item_ARCH)
       (failv INVALID_ENVELOPE ''security findings must attach to an Arch item''),
     checkE (prefix (lit ''arch:'') (sg_item_id grp))
       (failv INVALID_ENVELOPE ''security findings must use an Arch item ID''),
     checkE (sg_findings grp \<noteq> [])
       (failv INVALID_ENVELOPE ''security finding groups cannot be empty''),
     checkE (distinct (map sf_finding_id (sg_findings grp)))
       (failv DUPLICATE_FINDING_ID ''security finding IDs must be unique''),
     forE (validate_finding (sg_item_id grp)) (sg_findings grp)]"

definition validate_groups :: "SecurityFindingGroup list \<Rightarrow> NormalizedItem list \<Rightarrow> unit result" where
  "validate_groups groups items =
     thenE (checkE (distinct (map sg_item_id groups))
              (failv INVALID_ENVELOPE ''security finding groups must be unique''))
       (forE (\<lambda>g. validate_group g (dict_of ni_item_id ni_source items)) groups)"

definition validate_snapshot :: "SnapshotPayload \<Rightarrow> unit result" where
  "validate_snapshot payload = seqE [
     validate_sources (sp_sources payload),
     validate_items (sp_items payload),
     validate_groups (sp_findings payload) (sp_items payload),
     validate_nonnegative (su_total_updates (sp_summary payload)) ''summary.totalUpdates'',
     validate_nonnegative (su_watched_updates (sp_summary payload)) ''summary.watchedUpdates'',
     validate_nonnegative (su_security_findings (sp_summary payload)) ''summary.securityFindings'',
     validate_nonnegative (su_degraded_sources (sp_summary payload)) ''summary.degradedSources'']"

definition validate_inventory_source :: "ItemSource \<Rightarrow> unit result" where
  "validate_inventory_source source =
     (case source of
        Item_OMARCHY \<Rightarrow> Inl (failv INVALID_ENVELOPE ''inventory source is unsupported'')
      | _ \<Rightarrow> Inr ())"

definition validate_inventory :: "InventoryPayload \<Rightarrow> unit result" where
  "validate_inventory payload = seqE [
     validate_inventory_source (ip_source payload),
     validate_nonnegative (ip_total payload) ''inventory.total'',
     checkE (\<not> ip_total payload < int (length (ip_items payload)))
       (failv INVALID_ENVELOPE ''inventory.total is smaller than inventory.items''),
     validate_items (ip_items payload),
     checkE (\<not> list_ex (\<lambda>i. ni_source i \<noteq> ip_source payload) (ip_items payload))
       (failv INVALID_ENVELOPE ''inventory items must match inventory.source'')]"

definition validate_star_result :: "StarResultPayload \<Rightarrow> unit result" where
  "validate_star_result payload =
     thenE (validate_identifier (rp_item_id payload) ''star-result.itemId'')
       (checkE (\<not> (rp_watch_armed payload \<and> rp_mode payload \<noteq> Watch_TEMPORARY))
          (failv INVALID_ENVELOPE ''only temporary star results can be armed''))"

definition validate_response :: "Response \<Rightarrow> unit result" where
  "validate_response response =
     (case response of
        SnapshotResp r \<Rightarrow>
          thenE (validate_metadata (sr_protocol_version r) (sr_generation_id r))
            (validate_snapshot (sr_payload r))
      | InventoryResp r \<Rightarrow>
          thenE (validate_metadata (ir_protocol_version r) (ir_generation_id r))
            (validate_inventory (ir_payload r))
      | StarResultResp r \<Rightarrow>
          thenE (validate_metadata (rr_protocol_version r) (rr_generation_id r))
            (validate_star_result (rr_payload r))
      | ErrorResp r \<Rightarrow>
          thenE (validate_metadata (er_protocol_version r) (er_generation_id r))
            (validate_error (er_error r)))"

section \<open>What the checks accept\<close>

definition identifier_ok :: "ustr \<Rightarrow> bool" where
  "identifier_ok v \<longleftrightarrow> v \<noteq> [] \<and> length v \<le> 128"

definition error_ok :: "ErrorInfo \<Rightarrow> bool" where
  "error_ok e \<longleftrightarrow> ei_message e \<noteq> [] \<and> length (ei_message e) \<le> 512"

definition item_ok :: "NormalizedItem \<Rightarrow> bool" where
  "item_ok i \<longleftrightarrow> (ni_watch_armed i \<longrightarrow> ni_watch_mode i = Watch_TEMPORARY) \<and>
     identifier_ok (ni_item_id i) \<and> identifier_ok (ni_label i) \<and>
     (\<forall>v. ni_installed_fingerprint i = Some v \<longrightarrow> identifier_ok v) \<and>
     (\<forall>v. ni_candidate_fingerprint i = Some v \<longrightarrow> identifier_ok v)"

lemma validate_identifier_iff [simp]: "validate_identifier v p = Inr u \<longleftrightarrow> identifier_ok v"
  by (auto simp: validate_identifier_def validate_bounded_def identifier_ok_def
      MAX_IDENTIFIER_LENGTH_def)

lemma validate_error_iff [simp]: "validate_error e = Inr u \<longleftrightarrow> error_ok e"
  by (auto simp: validate_error_def validate_bounded_def error_ok_def MAX_ERROR_MESSAGE_LENGTH_def)

lemma validate_optional_iff [simp]:
  "validate_optional f v = Inr u \<longleftrightarrow> (\<forall>x. v = Some x \<longrightarrow> f x = Inr ())"
  by (cases v) (simp_all add: validate_optional_def)

lemma validate_item_iff [simp]: "validate_item i = Inr u \<longleftrightarrow> item_ok i"
  by (auto simp: validate_item_def item_ok_def)

lemma validate_items_iff [simp]:
  "validate_items items = Inr u \<longleftrightarrow>
     distinct (map ni_item_id items) \<and> (\<forall>i \<in> set items. item_ok i)"
  by (auto simp: validate_items_def)

lemma validate_nonnegative_iff [simp]: "validate_nonnegative v p = Inr u \<longleftrightarrow> 0 \<le> v"
  by (auto simp: validate_nonnegative_def)

lemma validate_metadata_iff [simp]:
  "validate_metadata v g = Inr u \<longleftrightarrow> v = PROTOCOL_VERSION \<and> identifier_ok g"
  by (auto simp: validate_metadata_def)

lemma validate_inventory_source_iff [simp]:
  "validate_inventory_source s = Inr u \<longleftrightarrow> s \<noteq> Item_OMARCHY"
  by (cases s) (simp_all add: validate_inventory_source_def)

lemma validate_inventory_iff:
  "validate_inventory p = Inr u \<longleftrightarrow>
     ip_source p \<noteq> Item_OMARCHY \<and> int (length (ip_items p)) \<le> ip_total p \<and>
     distinct (map ni_item_id (ip_items p)) \<and>
     (\<forall>i \<in> set (ip_items p). item_ok i \<and> ni_source i = ip_source p)"
  by (auto simp: validate_inventory_def list_ex_iff)

end
