(* ===== verification/Scan_Outcomes.thy ===== *)
theory Scan_Outcomes
  imports Adapter_Flatpak Validation
begin

text \<open>
  The outcome of one source of a scan: \<open>scan_outcomes.py\<close> with its constructors, and the
  normalisers of \<open>scan_command_outcomes.py\<close> and \<open>scan_normalize.py\<close> that map the result of each
  adapter to an outcome. The lemmas show that every outcome is well formed: it names a cause
  exactly when it is a failure, and the cause fits the protocol.
\<close>

section \<open>Outcomes\<close>

record SourceOutcome =
  so_source :: SourceName
  so_scope :: "SourceScope option"
  so_status :: SourceStatus
  so_provenance :: Provenance
  so_items :: "NormalizedItem list"
  so_findings :: "SecurityFindingGroup list"
  so_cause :: "ErrorInfo option"
  so_permanent :: bool
  so_applicable :: bool

definition source_key :: "SourceName \<Rightarrow> SourceScope option \<Rightarrow> ustr" where
  "source_key source scope =
     (case scope of
        None \<Rightarrow> source_name_value source
      | Some s \<Rightarrow> source_name_value source @ lit '':'' @ scope_value s)"

definition so_key :: "SourceOutcome \<Rightarrow> ustr" where
  "so_key oc = source_key (so_source oc) (so_scope oc)"

definition successful_status :: "SourceStatus \<Rightarrow> bool" where
  "successful_status status =
     (case status of
        Status_OK \<Rightarrow> True | Status_NOT_APPLICABLE \<Rightarrow> True
      | Status_MISSING_DEPENDENCY \<Rightarrow> False | Status_OFFLINE \<Rightarrow> False | Status_TIMEOUT \<Rightarrow> False
      | Status_ERROR \<Rightarrow> False | Status_INVALID \<Rightarrow> False | Status_STALE \<Rightarrow> False)"

definition successful :: "SourceOutcome \<Rightarrow> bool" where
  "successful oc = successful_status (so_status oc)"

definition current_outcome ::
  "SourceName \<Rightarrow> NormalizedItem list \<Rightarrow> Provenance \<Rightarrow> SecurityFindingGroup list
     \<Rightarrow> SourceScope option \<Rightarrow> SourceOutcome" where
  "current_outcome source items provenance findings scope =
     \<lparr>so_source = source, so_scope = scope, so_status = Status_OK, so_provenance = provenance,
      so_items = items, so_findings = findings, so_cause = None, so_permanent = False,
      so_applicable = True\<rparr>"

definition not_applicable :: "SourceName \<Rightarrow> SourceScope option \<Rightarrow> SourceOutcome" where
  "not_applicable source scope =
     \<lparr>so_source = source, so_scope = scope, so_status = Status_NOT_APPLICABLE,
      so_provenance = Prov_LIVE, so_items = [], so_findings = [], so_cause = None,
      so_permanent = False, so_applicable = False\<rparr>"

text \<open>\<open>a or b\<close> on texts.\<close>

definition text_or :: "ustr \<Rightarrow> ustr \<Rightarrow> ustr" where
  "text_or a b = (if a = [] then b else a)"

definition option_or :: "ustr option \<Rightarrow> ustr \<Rightarrow> ustr" where
  "option_or a b = (case a of None \<Rightarrow> b | Some t \<Rightarrow> text_or t b)"

definition failure_outcome ::
  "SourceName \<Rightarrow> SourceStatus \<Rightarrow> ustr \<Rightarrow> bool \<Rightarrow> bool \<Rightarrow> SourceScope option \<Rightarrow> NormalizedItem list
     \<Rightarrow> SourceOutcome" where
  "failure_outcome source status detail permanent applicable scope items =
     \<lparr>so_source = source, so_scope = scope, so_status = status, so_provenance = Prov_LIVE,
      so_items = items, so_findings = [],
      so_cause = Some \<lparr>ei_code = (if status = Status_INVALID then SOURCE_INVALID
                                    else SOURCE_UNAVAILABLE),
                        ei_message = text_or (take 512 detail) (status_value status)\<rparr>,
      so_permanent = permanent, so_applicable = applicable\<rparr>"

abbreviation source_failure ::
  "SourceName \<Rightarrow> SourceStatus \<Rightarrow> ustr \<Rightarrow> bool \<Rightarrow> bool \<Rightarrow> SourceOutcome" where
  "source_failure source status detail permanent applicable \<equiv>
     failure_outcome source status detail permanent applicable None []"

definition from_status ::
  "SourceName \<Rightarrow> SourceStatus \<Rightarrow> NormalizedItem list \<Rightarrow> SecurityFindingGroup list \<Rightarrow> ustr option
     \<Rightarrow> SourceOutcome" where
  "from_status source status items findings diagnostic =
     (case status of
        Status_OK \<Rightarrow> current_outcome source items Prov_LIVE findings None
      | Status_NOT_APPLICABLE \<Rightarrow> not_applicable source None
      | Status_MISSING_DEPENDENCY \<Rightarrow>
          source_failure source status (option_or diagnostic (status_value status)) True True
      | Status_INVALID \<Rightarrow>
          source_failure source status (option_or diagnostic (status_value status)) True True
      | _ \<Rightarrow> source_failure source status (option_or diagnostic (status_value status)) False True)"

definition arch_failure :: "SourceName \<Rightarrow> ArchFailure \<Rightarrow> ustr \<Rightarrow> bool \<Rightarrow> SourceOutcome" where
  "arch_failure source failure_kind detail applicable =
     (case failure_kind of
        COMMAND_MISSING \<Rightarrow>
          source_failure source Status_MISSING_DEPENDENCY detail True applicable
      | COMMAND_TIMED_OUT \<Rightarrow> source_failure source Status_TIMEOUT detail False applicable
      | COMMAND_EXITED \<Rightarrow> source_failure source Status_ERROR detail False applicable
      | COMMAND_OUTPUT_EXCEEDED \<Rightarrow> source_failure source Status_ERROR detail False applicable
      | _ \<Rightarrow> source_failure source Status_INVALID detail True applicable)"

section \<open>Results of the other adapters\<close>

record MiseRecord =
  mr_item :: NormalizedItem
  mr_requested :: ustr
  mr_current :: ustr
  mr_latest :: ustr

datatype MiseResult =
    MiseCollected "MiseRecord list"
  | MiseNotApplicable
  | MiseInvalid ustr
  | MiseTimedOut
  | MiseOutputExceeded ustr
  | MiseCommandFailed int
  | MiseCommandRejected ustr

record OmarchyAvailability =
  oa_status :: SourceStatus
  oa_items :: "NormalizedItem list"
  oa_diagnostic :: "ustr option"

datatype Kev =
    KevCatalog "ustr set" Provenance
  | KevDisabled
  | KevUnavailable ustr

datatype SecurityResult =
    SecurityCollected "SecurityFindingGroup list" Provenance Kev
  | SecurityArchUnavailable ustr

section \<open>Normalisation\<close>

definition arch_outcome :: "NormalizedItem list arch_result \<Rightarrow> SourceOutcome" where
  "arch_outcome result =
     (case result of
        Inr items \<Rightarrow> current_outcome Src_ARCH items Prov_LIVE [] None
      | Inl d \<Rightarrow> arch_failure Src_ARCH (ad_failure d) (ad_detail d) True)"

definition aur_outcome :: "AurResult \<Rightarrow> SourceOutcome" where
  "aur_outcome result =
     (case result of
        AurCollected _ items \<Rightarrow> current_outcome Src_AUR items Prov_LIVE [] None
      | AurNotApplicable \<Rightarrow> not_applicable Src_AUR None
      | AurMissingDependency \<Rightarrow>
          source_failure Src_AUR Status_MISSING_DEPENDENCY (lit ''AUR helper is unavailable'') True True
      | AurInvalid diagnostic \<Rightarrow> source_failure Src_AUR Status_INVALID diagnostic True True
      | AurTimedOut helper \<Rightarrow>
          source_failure Src_AUR Status_TIMEOUT (aur_helper_value helper @ lit '' timed out'') False True
      | AurOutputExceeded helper stream \<Rightarrow>
          source_failure Src_AUR Status_ERROR
            (aur_helper_value helper @ lit '' '' @ stream @ lit '' output exceeded'') False True
      | AurCommandFailed helper returncode \<Rightarrow>
          source_failure Src_AUR Status_ERROR
            (aur_helper_value helper @ lit '' exited '' @ str_int returncode) False True
      | AurCommandRejected helper diagnostic \<Rightarrow>
          source_failure Src_AUR Status_ERROR
            (aur_helper_value helper @ lit '' rejected: '' @ diagnostic) True True
      | AurForeignInventoryDegraded failure_kind detail \<Rightarrow>
          arch_failure Src_AUR failure_kind detail True)"

definition mise_outcome :: "MiseResult \<Rightarrow> SourceOutcome" where
  "mise_outcome result =
     (case result of
        MiseCollected records \<Rightarrow> current_outcome Src_MISE (map mr_item records) Prov_LIVE [] None
      | MiseNotApplicable \<Rightarrow> not_applicable Src_MISE None
      | MiseInvalid diagnostic \<Rightarrow> source_failure Src_MISE Status_INVALID diagnostic True True
      | MiseTimedOut \<Rightarrow>
          source_failure Src_MISE Status_TIMEOUT (lit ''mise timed out'') False True
      | MiseOutputExceeded stream \<Rightarrow>
          source_failure Src_MISE Status_ERROR
            (lit ''mise '' @ stream @ lit '' output exceeded'') False True
      | MiseCommandFailed returncode \<Rightarrow>
          source_failure Src_MISE Status_ERROR (lit ''mise exited '' @ str_int returncode) False True
      | MiseCommandRejected diagnostic \<Rightarrow>
          source_failure Src_MISE Status_ERROR diagnostic True True)"

definition omarchy_outcome :: "OmarchyAvailability \<Rightarrow> SourceOutcome" where
  "omarchy_outcome result =
     from_status Src_OMARCHY (oa_status result) (oa_items result) [] (oa_diagnostic result)"

definition flatpak_scope_outcome :: "FlatpakScopeResult \<Rightarrow> SourceOutcome" where
  "flatpak_scope_outcome scope =
     (let mapped_scope = Some (fs_scope scope);
          items = map fp_item (fs_records scope);
          fail = (\<lambda>status fallback permanent.
            failure_outcome Src_FLATPAK status (option_or (fs_diagnostic scope) (lit fallback))
              permanent True mapped_scope items)
      in case fs_status scope of
           Flat_OK \<Rightarrow> current_outcome Src_FLATPAK items Prov_LIVE [] mapped_scope
         | Flat_NOT_APPLICABLE \<Rightarrow> not_applicable Src_FLATPAK mapped_scope
         | Flat_MISSING_DEPENDENCY \<Rightarrow>
             fail Status_MISSING_DEPENDENCY ''Flatpak is unavailable'' True
         | Flat_TIMEOUT \<Rightarrow> fail Status_TIMEOUT ''Flatpak timed out'' False
         | Flat_OUTPUT_EXCEEDED \<Rightarrow> fail Status_ERROR ''Flatpak failed'' False
         | Flat_ERROR \<Rightarrow> fail Status_ERROR ''Flatpak failed'' False
         | Flat_INVALID \<Rightarrow> fail Status_INVALID ''Flatpak evidence is invalid'' True)"

definition flatpak_outcomes :: "FlatpakResult \<Rightarrow> SourceOutcome \<times> SourceOutcome" where
  "flatpak_outcomes result =
     (case result of (user, system) \<Rightarrow> (flatpak_scope_outcome user, flatpak_scope_outcome system))"

definition security_outcomes :: "SecurityResult \<Rightarrow> SourceOutcome \<times> SourceOutcome" where
  "security_outcomes result =
     (case result of
        SecurityCollected groups provenance kev \<Rightarrow>
          (current_outcome Src_SECURITY [] provenance groups None,
           (case kev of
              KevCatalog _ kev_provenance \<Rightarrow>
                current_outcome Src_CISA_KEV [] kev_provenance [] None
            | KevDisabled \<Rightarrow> not_applicable Src_CISA_KEV None
            | KevUnavailable diagnostic \<Rightarrow>
                source_failure Src_CISA_KEV Status_ERROR diagnostic False True))
      | SecurityArchUnavailable diagnostic \<Rightarrow>
          (source_failure Src_SECURITY Status_ERROR diagnostic False True,
           source_failure Src_CISA_KEV Status_ERROR (lit ''security evidence is unavailable'')
             False False))"

section \<open>Well-formed outcomes\<close>

text \<open>
  An outcome that belongs to an identity, names a protocol-conform cause exactly when it is not
  successful, and carries findings only for the security source.
\<close>

definition outcome_for :: "SourceName \<Rightarrow> SourceScope option \<Rightarrow> SourceOutcome \<Rightarrow> bool" where
  "outcome_for source scope oc \<longleftrightarrow>
     so_source oc = source \<and> so_scope oc = scope \<and>
     (successful oc \<longleftrightarrow> so_cause oc = None) \<and>
     (\<forall>e. so_cause oc = Some e \<longrightarrow> error_ok e) \<and>
     (so_findings oc \<noteq> [] \<longrightarrow> source = Src_SECURITY) \<and>
     (source = Src_SECURITY \<longrightarrow> so_items oc = [])"

lemma status_value_short: "status_value s \<noteq> []" "length (status_value s) \<le> 512"
  by (cases s; simp)+

lemma failure_outcome_for:
  assumes "\<not> successful_status status" and "source = Src_SECURITY \<longrightarrow> items = []"
  shows "outcome_for source scope (failure_outcome source status detail permanent applicable scope items)"
  using assms status_value_short [of status]
  by (auto simp: outcome_for_def failure_outcome_def successful_def error_ok_def text_or_def)

lemma current_outcome_for:
  assumes "findings \<noteq> [] \<longrightarrow> source = Src_SECURITY" and "source = Src_SECURITY \<longrightarrow> items = []"
  shows "outcome_for source scope (current_outcome source items provenance findings scope)"
  using assms by (simp add: outcome_for_def current_outcome_def successful_def successful_status_def)

lemma not_applicable_for: "outcome_for source scope (not_applicable source scope)"
  by (simp add: outcome_for_def not_applicable_def successful_def successful_status_def)

lemmas outcome_for_intros = failure_outcome_for current_outcome_for not_applicable_for

lemma successful_status_iff: "successful_status s \<longleftrightarrow> s = Status_OK \<or> s = Status_NOT_APPLICABLE"
  by (cases s) (simp_all add: successful_status_def)

lemma arch_failure_for:
  "source \<noteq> Src_SECURITY \<Longrightarrow> outcome_for source None (arch_failure source kind detail applicable)"
  by (cases kind) (simp_all add: arch_failure_def failure_outcome_for successful_status_iff)

lemma arch_outcome_for: "outcome_for Src_ARCH None (arch_outcome r)"
  by (cases r) (simp_all add: arch_outcome_def current_outcome_for arch_failure_for)

lemma aur_outcome_for: "outcome_for Src_AUR None (aur_outcome r)"
  by (cases r) (simp_all add: aur_outcome_def outcome_for_intros arch_failure_for successful_status_iff)

lemma mise_outcome_for: "outcome_for Src_MISE None (mise_outcome r)"
  by (cases r) (simp_all add: mise_outcome_def outcome_for_intros successful_status_iff)

lemma omarchy_outcome_for: "outcome_for Src_OMARCHY None (omarchy_outcome r)"
  by (cases "oa_status r")
    (simp_all add: omarchy_outcome_def from_status_def outcome_for_intros successful_status_iff)

lemma flatpak_scope_outcome_for: "outcome_for Src_FLATPAK (Some (fs_scope r)) (flatpak_scope_outcome r)"
  by (cases "fs_status r")
    (simp_all add: flatpak_scope_outcome_def Let_def outcome_for_intros successful_status_iff)

lemma security_outcomes_for:
  "outcome_for Src_SECURITY None (fst (security_outcomes r)) \<and>
   outcome_for Src_CISA_KEV None (snd (security_outcomes r))"
  by (cases r)
    (simp_all add: security_outcomes_def outcome_for_intros successful_status_iff split: Kev.split)

end
