(* ===== verification/Storage_State.thy ===== *)
theory Storage_State
  imports Models
begin

text \<open>
  The durable state: the records of \<open>storage_types.py\<close>, the watch invariant of
  \<open>storage_watches.py\<close>, and \<open>validate_state\<close> and \<open>prune_ledger\<close> of \<open>storage_state.py\<close>. The
  lemmas characterise what \<open>validate_state\<close> accepts and what pruning keeps.
\<close>

section \<open>Records\<close>

record SecurityFixCondition =
  fc_advisory_id :: ustr
  fc_cve_ids :: "ustr list"
  fc_fixed_version :: ustr

record WatchRecord =
  w_item_id :: ustr
  w_mode :: WatchMode
  w_installed_fingerprint :: "ustr option"
  w_candidate_fingerprint :: "ustr option"
  w_armed :: bool
  w_condition :: "SecurityFixCondition option"

record LedgerEntry =
  le_fingerprint :: ustr
  le_status :: NotificationStatus
  le_recorded_at :: datetime
  le_lease_token :: "ustr option"
  le_lease_expires_at :: "datetime option"

fun is_active_status :: "NotificationStatus \<Rightarrow> bool" where
  "is_active_status Notif_PENDING = True"
| "is_active_status Notif_DELIVERED = False"
| "is_active_status Notif_SUPPRESSED = False"
| "is_active_status Notif_FAILED = False"

definition is_active :: "LedgerEntry \<Rightarrow> bool" where
  "is_active entry = is_active_status (le_status entry)"

record SourceMetadata =
  sm_source :: SourceName
  sm_last_success :: "datetime option"
  sm_backoff_until :: "datetime option"
  sm_failure_count :: int
  sm_permanent_failure :: bool

record PersistentState =
  ps_watches :: "WatchRecord list"
  ps_ledger :: "LedgerEntry list"
  ps_sources :: "SourceMetadata list"

definition empty_state :: PersistentState where
  "empty_state = \<lparr>ps_watches = [], ps_ledger = [], ps_sources = []\<rparr>"

datatype StorageWarning = STATE_CORRUPT

record StateLoad =
  sl_state :: PersistentState
  sl_warning :: "StorageWarning option"

lemma is_active_iff: "is_active e \<longleftrightarrow> le_status e = Notif_PENDING"
  by (cases "le_status e") (simp_all add: is_active_def)

section \<open>Identifier patterns\<close>

text \<open>
  The three regular expressions of \<open>storage_watches.py\<close>, each used with \<open>fullmatch\<close>:
  \<open>^arch:[A-Za-z0-9@_+][A-Za-z0-9@._+-]{0,127}$\<close>, \<open>^AVG-[0-9]{1,120}$\<close> and
  \<open>^CVE-[0-9]{4}-[0-9]{4,19}$\<close>.
\<close>

definition is_alnum_ascii :: "nat \<Rightarrow> bool" where
  "is_alnum_ascii c \<longleftrightarrow> is_digit c \<or> (65 \<le> c \<and> c \<le> 90) \<or> (97 \<le> c \<and> c \<le> 122)"

definition arch_first :: "nat \<Rightarrow> bool" where
  "arch_first c \<longleftrightarrow> is_alnum_ascii c \<or> c \<in> set (lit ''@_+'')"

definition arch_rest :: "nat \<Rightarrow> bool" where
  "arch_rest c \<longleftrightarrow> is_alnum_ascii c \<or> c \<in> set (lit ''@._+-'')"

definition arch_item_id_matches :: "ustr \<Rightarrow> bool" where
  "arch_item_id_matches s \<longleftrightarrow>
     prefix (lit ''arch:'') s \<and>
     (case drop 5 s of [] \<Rightarrow> False
      | c # cs \<Rightarrow> arch_first c \<and> length cs \<le> 127 \<and> list_all arch_rest cs)"

definition advisory_id_matches :: "ustr \<Rightarrow> bool" where
  "advisory_id_matches s \<longleftrightarrow>
     prefix (lit ''AVG-'') s \<and> list_all is_digit (drop 4 s) \<and>
     1 \<le> length (drop 4 s) \<and> length (drop 4 s) \<le> 120"

definition cve_id_matches :: "ustr \<Rightarrow> bool" where
  "cve_id_matches s \<longleftrightarrow>
     prefix (lit ''CVE-'') s \<and> list_all is_digit (take 4 (drop 4 s)) \<and>
     take 1 (drop 8 s) = lit ''-'' \<and> list_all is_digit (drop 9 s) \<and>
     4 \<le> length (drop 9 s) \<and> length (drop 9 s) \<le> 19"

section \<open>Validation of the durable state\<close>

definition MAX_VERSION_LENGTH :: nat where
  "MAX_VERSION_LENGTH = 256"

definition MAX_CVE_IDS :: nat where
  "MAX_CVE_IDS = 16"

text \<open>
  \<open>s.isascii() and s.isprintable()\<close>: the printable ASCII characters are the space and the
  visible ones.
\<close>

definition ascii_printable :: "ustr \<Rightarrow> bool" where
  "ascii_printable s \<longleftrightarrow> list_all (\<lambda>c. 32 \<le> c \<and> c \<le> 126) s"

definition corrupt :: "string \<Rightarrow> exn" where
  "corrupt reason = StateCorruptError (lit reason)"

definition validate_condition :: "SecurityFixCondition \<Rightarrow> unit result" where
  "validate_condition c =
     thenE (checkE (advisory_id_matches (fc_advisory_id c))
              (corrupt ''watch.condition advisory is invalid''))
     (thenE (checkE (\<not> (fc_cve_ids c = [] \<or> MAX_CVE_IDS < length (fc_cve_ids c)
                        \<or> \<not> distinct (fc_cve_ids c)
                        \<or> list_ex (\<lambda>i. \<not> cve_id_matches i) (fc_cve_ids c)))
              (corrupt ''watch.condition CVE evidence is invalid''))
       (checkE (\<not> (fc_fixed_version c = [] \<or> MAX_VERSION_LENGTH < length (fc_fixed_version c)
                   \<or> \<not> ascii_printable (fc_fixed_version c)))
          (corrupt ''watch.condition fixed version is invalid'')))"

definition security_fix_condition ::
  "ustr \<Rightarrow> ustr list \<Rightarrow> ustr \<Rightarrow> SecurityFixCondition result" where
  "security_fix_condition advisory_id cve_ids fixed_version =
     (let c = \<lparr>fc_advisory_id = advisory_id, fc_cve_ids = cve_ids,
               fc_fixed_version = fixed_version\<rparr>
      in thenE (validate_condition c) (Inr c))"

definition validate_watch :: "WatchRecord \<Rightarrow> unit result" where
  "validate_watch watch =
     (case w_mode watch of
        Watch_PERMANENT \<Rightarrow>
          checkE (\<not> (w_installed_fingerprint watch \<noteq> None \<or> w_candidate_fingerprint watch \<noteq> None
                    \<or> w_armed watch \<or> w_condition watch \<noteq> None))
            (corrupt ''permanent watches must not retain temporary internals'')
      | Watch_TEMPORARY \<Rightarrow>
          thenE (checkE (w_installed_fingerprint watch \<noteq> None)
                   (corrupt ''temporary watches require an installed baseline''))
          (thenE (checkE (w_armed watch = (w_candidate_fingerprint watch \<noteq> None))
                   (corrupt ''temporary watch candidate and arming are inconsistent''))
            (case w_condition watch of
               None \<Rightarrow> Inr ()
             | Some c \<Rightarrow>
                 thenE (checkE (arch_item_id_matches (w_item_id watch))
                          (corrupt ''conditional watches require a canonical Arch item ID''))
                   (validate_condition c)))
      | Watch_OFF \<Rightarrow> Inl (corrupt ''off watches are not durable''))"

definition validate_unique :: "ustr list \<Rightarrow> string \<Rightarrow> unit result" where
  "validate_unique collected reason =
     checkE (length collected = card (set collected)) (corrupt reason)"

text \<open>
  The source also checks \<open>type(failure_count) is int\<close> and \<open>type(permanent_failure) is bool\<close>; the
  types of the record say so here.
\<close>

definition validate_source_metadata :: "SourceMetadata \<Rightarrow> unit result" where
  "validate_source_metadata s =
     checkE (\<not> sm_failure_count s < 0) (corrupt ''source failure count is invalid'')"

definition validate_ledger_entry :: "LedgerEntry \<Rightarrow> unit result" where
  "validate_ledger_entry entry =
     thenE (checkE ((le_lease_token entry = None) = (le_lease_expires_at entry = None))
              (corrupt ''ledger lease is incomplete''))
       (checkE (le_lease_token entry \<noteq> Some []) (corrupt ''ledger lease token is invalid''))"

definition validate_state :: "PersistentState \<Rightarrow> unit result" where
  "validate_state state =
     seqE [validate_unique (map w_item_id (ps_watches state)) ''state has duplicate watches'',
       validate_unique (map le_fingerprint (ps_ledger state))
         ''state has duplicate ledger entries'',
       validate_unique (map (\<lambda>s. source_name_value (sm_source s)) (ps_sources state))
         ''state has duplicate source metadata'',
       forE validate_source_metadata (ps_sources state),
       forE validate_watch (ps_watches state),
       forE validate_ledger_entry (ps_ledger state)]"

text \<open>What the checks accept, as predicates.\<close>

definition watch_ok :: "WatchRecord \<Rightarrow> bool" where
  "watch_ok w \<longleftrightarrow> validate_watch w = Inr ()"

definition entry_ok :: "LedgerEntry \<Rightarrow> bool" where
  "entry_ok e \<longleftrightarrow>
     (le_lease_token e = None \<longleftrightarrow> le_lease_expires_at e = None) \<and> le_lease_token e \<noteq> Some []"

definition watches_ok :: "WatchRecord list \<Rightarrow> bool" where
  "watches_ok ws \<longleftrightarrow> distinct (map w_item_id ws) \<and> (\<forall>w \<in> set ws. watch_ok w)"

definition ledger_ok :: "LedgerEntry list \<Rightarrow> bool" where
  "ledger_ok es \<longleftrightarrow> distinct (map le_fingerprint es) \<and> (\<forall>e \<in> set es. entry_ok e)"

definition sources_ok :: "SourceMetadata list \<Rightarrow> bool" where
  "sources_ok ss \<longleftrightarrow> distinct (map sm_source ss) \<and> (\<forall>s \<in> set ss. 0 \<le> sm_failure_count s)"

lemma validate_unique_iff [simp]: "validate_unique xs reason = Inr u \<longleftrightarrow> distinct xs"
  unfolding validate_unique_def checkE_eq_Inr by (metis card_distinct distinct_card)

lemma validate_ledger_entry_iff [simp]: "validate_ledger_entry e = Inr u \<longleftrightarrow> entry_ok e"
  by (auto simp: validate_ledger_entry_def entry_ok_def)

lemma distinct_source_values [simp]:
  "distinct (map (\<lambda>s. source_name_value (sm_source s)) ss) \<longleftrightarrow> distinct (map sm_source ss)"
  by (simp add: distinct_map inj_on_def source_name_enum.val_eq_iff)

lemma validate_state_iff:
  "validate_state s = Inr u \<longleftrightarrow>
     watches_ok (ps_watches s) \<and> ledger_ok (ps_ledger s) \<and> sources_ok (ps_sources s)"
  by (auto simp: validate_state_def watches_ok_def ledger_ok_def sources_ok_def watch_ok_def
      validate_source_metadata_def)

lemma watch_ok_off [simp]: "w_mode w = Watch_OFF \<Longrightarrow> \<not> watch_ok w"
  by (simp add: watch_ok_def validate_watch_def)

lemma watch_ok_permanent:
  "w_mode w = Watch_PERMANENT \<Longrightarrow>
   watch_ok w \<longleftrightarrow> w_installed_fingerprint w = None \<and> w_candidate_fingerprint w = None \<and>
     \<not> w_armed w \<and> w_condition w = None"
  by (auto simp: watch_ok_def validate_watch_def)

lemma watch_ok_temporary:
  "w_mode w = Watch_TEMPORARY \<Longrightarrow>
   watch_ok w \<longleftrightarrow> w_installed_fingerprint w \<noteq> None \<and>
     (w_armed w \<longleftrightarrow> w_candidate_fingerprint w \<noteq> None) \<and>
     (\<forall>c. w_condition w = Some c \<longrightarrow>
        arch_item_id_matches (w_item_id w) \<and> validate_condition c = Inr ())"
  by (auto simp: watch_ok_def validate_watch_def split: option.splits)

lemma empty_state_valid [simp]: "validate_state empty_state = Inr ()"
  by (simp add: validate_state_iff empty_state_def watches_ok_def ledger_ok_def sources_ok_def)

section \<open>Pruning the ledger\<close>

definition MAX_INACTIVE_LEDGER_ENTRIES :: nat where
  "MAX_INACTIVE_LEDGER_ENTRIES = 5000"

definition MAX_INACTIVE_LEDGER_AGE :: timedelta where
  "MAX_INACTIVE_LEDGER_AGE = days 180"

definition prune_ledger :: "PersistentState \<Rightarrow> datetime \<Rightarrow> PersistentState" where
  "prune_ledger state now =
     (let cutoff = now - MAX_INACTIVE_LEDGER_AGE;
          active = filter is_active (ps_ledger state);
          inactive = take MAX_INACTIVE_LEDGER_ENTRIES
            (sorted_reverse (\<lambda>e. (le_recorded_at e, le_fingerprint e))
              (filter (\<lambda>e. \<not> is_active e \<and> cutoff \<le> le_recorded_at e) (ps_ledger state)))
      in \<lparr>ps_watches = ps_watches state, ps_ledger = active @ inactive,
          ps_sources = ps_sources state\<rparr>)"

definition ledger_key :: "LedgerEntry \<Rightarrow> datetime \<times> ustr" where
  "ledger_key e = (le_recorded_at e, le_fingerprint e)"

text \<open>The inactive entries that are young enough, newest first.\<close>

definition prune_pool :: "LedgerEntry list \<Rightarrow> datetime \<Rightarrow> LedgerEntry list" where
  "prune_pool es now =
     sorted_reverse ledger_key
       (filter (\<lambda>e. \<not> is_active e \<and> now - MAX_INACTIVE_LEDGER_AGE \<le> le_recorded_at e) es)"

lemma prune_ledger_pool:
  "prune_ledger s now = s\<lparr>ps_ledger :=
     filter is_active (ps_ledger s) @ take MAX_INACTIVE_LEDGER_ENTRIES (prune_pool (ps_ledger s) now)\<rparr>"
  by (simp add: prune_ledger_def prune_pool_def ledger_key_def [abs_def] Let_def)

lemma prune_ledger_select [simp]:
  "ps_watches (prune_ledger s now) = ps_watches s"
  "ps_sources (prune_ledger s now) = ps_sources s"
  by (simp_all add: prune_ledger_pool)

lemma set_prune_pool:
  "set (prune_pool es now) =
     {e \<in> set es. \<not> is_active e \<and> now - MAX_INACTIVE_LEDGER_AGE \<le> le_recorded_at e}"
  by (simp add: prune_pool_def)

lemma prune_ledger_subset: "set (ps_ledger (prune_ledger s now)) \<subseteq> set (ps_ledger s)"
  using set_take_subset [of MAX_INACTIVE_LEDGER_ENTRIES "prune_pool (ps_ledger s) now"]
  by (auto simp: prune_ledger_pool set_prune_pool)

lemma prune_ledger_active:
  "filter is_active (ps_ledger (prune_ledger s now)) = filter is_active (ps_ledger s)"
proof -
  have "filter is_active (take n (prune_pool (ps_ledger s) now)) = []" for n
    using set_take_subset [of n "prune_pool (ps_ledger s) now"]
    by (auto simp: filter_empty_conv set_prune_pool)
  then show ?thesis by (simp add: prune_ledger_pool)
qed

lemma prune_ledger_inactive:
  "filter (\<lambda>e. \<not> is_active e) (ps_ledger (prune_ledger s now)) =
     take MAX_INACTIVE_LEDGER_ENTRIES (prune_pool (ps_ledger s) now)"
proof -
  have "filter (\<lambda>e. \<not> is_active e) (take n (prune_pool (ps_ledger s) now)) =
          take n (prune_pool (ps_ledger s) now)" for n
    using set_take_subset [of n "prune_pool (ps_ledger s) now"]
    by (auto simp: filter_id_conv set_prune_pool)
  then show ?thesis by (simp add: prune_ledger_pool)
qed

lemma prune_ledger_distinct:
  assumes "distinct (map le_fingerprint (ps_ledger s))"
  shows "distinct (map le_fingerprint (ps_ledger (prune_ledger s now)))"
proof -
  let ?p = "prune_pool (ps_ledger s) now"
  have act: "distinct (map le_fingerprint (filter is_active (ps_ledger s)))"
    using assms by blast
  have "distinct (map le_fingerprint ?p)"
    using assms by (auto simp: prune_pool_def)
  then have ina: "distinct (map le_fingerprint (take n ?p))" for n
    by (simp add: take_map [symmetric])
  have "le_fingerprint a \<noteq> le_fingerprint b"
    if "a \<in> set (filter is_active (ps_ledger s))" "b \<in> set (take n ?p)" for a b n
  proof -
    have "b \<in> set (ps_ledger s)" "\<not> is_active b"
      using that(2) set_take_subset [of n ?p] by (auto simp: set_prune_pool)
    with that(1) assms show ?thesis by (auto dest: inj_onD simp: distinct_map)
  qed
  with act ina show ?thesis by (auto simp: prune_ledger_pool)
qed

lemma prune_ledger_valid:
  assumes "validate_state s = Inr ()"
  shows "validate_state (prune_ledger s now) = Inr ()"
  using assms prune_ledger_distinct [of s now] prune_ledger_subset [of s now]
  by (auto simp: validate_state_iff ledger_ok_def)

text \<open>
  What was cut away is older than the age limit, or older than every one of the
  \<open>MAX_INACTIVE_LEDGER_ENTRIES\<close> inactive entries that were kept.
\<close>

lemma prune_ledger_dropped:
  assumes "e \<in> set (ps_ledger s)" and "e \<notin> set (ps_ledger (prune_ledger s now))"
  shows "\<not> is_active e \<and>
    (le_recorded_at e < now - MAX_INACTIVE_LEDGER_AGE \<or>
     length (filter (\<lambda>e. \<not> is_active e) (ps_ledger (prune_ledger s now))) =
       MAX_INACTIVE_LEDGER_ENTRIES \<and>
     (\<forall>k \<in> set (ps_ledger (prune_ledger s now)).
        is_active k \<or> ledger_key e \<le> ledger_key k))"
proof -
  let ?p = "prune_pool (ps_ledger s) now" and ?n = MAX_INACTIVE_LEDGER_ENTRIES
  have inactive: "\<not> is_active e" using assms by (auto simp: prune_ledger_pool)
  show ?thesis
  proof (cases "le_recorded_at e < now - MAX_INACTIVE_LEDGER_AGE")
    case True
    with inactive show ?thesis by simp
  next
    case False
    with assms(1) inactive have "e \<in> set ?p" by (simp add: set_prune_pool)
    moreover from assms(2) have "e \<notin> set (take ?n ?p)" by (simp add: prune_ledger_pool)
    ultimately have drop: "e \<in> set (drop ?n ?p)"
      by (metis UnE append_take_drop_id set_append)
    then have len: "length (take ?n ?p) = ?n" by (cases "length ?p \<le> ?n") auto
    have "sorted_wrt (\<lambda>x y. ledger_key y \<le> ledger_key x) (take ?n ?p @ drop ?n ?p)"
      by (simp add: prune_pool_def sorted_reverse_desc)
    then have "\<forall>k \<in> set (take ?n ?p). ledger_key e \<le> ledger_key k"
      using drop by (simp only: sorted_wrt_append) blast
    with len inactive show ?thesis
      by (auto simp: prune_ledger_inactive) (auto simp: prune_ledger_pool)
  qed
qed

lemma prune_ledger_idem: "prune_ledger (prune_ledger s now) now = prune_ledger s now"
proof -
  let ?p = "prune_pool (ps_ledger s) now" and ?n = MAX_INACTIVE_LEDGER_ENTRIES
  have "filter (\<lambda>e. \<not> is_active e \<and> now - MAX_INACTIVE_LEDGER_AGE \<le> le_recorded_at e)
          (ps_ledger (prune_ledger s now)) =
        filter (\<lambda>e. now - MAX_INACTIVE_LEDGER_AGE \<le> le_recorded_at e)
          (filter (\<lambda>e. \<not> is_active e) (ps_ledger (prune_ledger s now)))"
    by (simp add: conj_commute)
  also have "\<dots> = take ?n ?p"
    using set_take_subset [of ?n ?p]
    by (auto simp: prune_ledger_inactive filter_id_conv set_prune_pool)
  finally have "prune_pool (ps_ledger (prune_ledger s now)) now =
      sorted_reverse ledger_key (take ?n ?p)"
    by (simp add: prune_pool_def)
  also have "\<dots> = take ?n ?p"
    by (rule sorted_reverse_idem, rule sorted_wrt_take)
      (simp add: prune_pool_def sorted_reverse_desc)
  finally have pool: "prune_pool (ps_ledger (prune_ledger s now)) now = take ?n ?p" .
  have "ps_ledger (prune_ledger (prune_ledger s now) now) = ps_ledger (prune_ledger s now)"
    using pool prune_ledger_active [of s now]
    by (subst prune_ledger_pool) (simp add: prune_ledger_pool)
  then show ?thesis
    by (intro PersistentState.equality) simp_all
qed

section \<open>Properties\<close>

text \<open>
  C10: Pruning is idempotent, keeps validity, touches neither watches nor source metadata and
  invents no entry. Every pending entry is kept, in order; at most 5000 settled entries are kept,
  newest first and none older than 180 days; and a dropped entry is a settled one that is too old
  or no newer than each of the 5000 settled entries that were kept.
\<close>

theorem prune_ledger_contract:
  assumes "validate_state s = Inr ()"
  shows "let p = prune_ledger s now in
    validate_state p = Inr () \<and> prune_ledger p now = p \<and>
    ps_watches p = ps_watches s \<and> ps_sources p = ps_sources s \<and>
    set (ps_ledger p) \<subseteq> set (ps_ledger s) \<and>
    filter is_active (ps_ledger p) = filter is_active (ps_ledger s) \<and>
    length (filter (\<lambda>e. \<not> is_active e) (ps_ledger p)) \<le> 5000 \<and>
    sorted_wrt (\<lambda>x y. ledger_key y \<le> ledger_key x) (filter (\<lambda>e. \<not> is_active e) (ps_ledger p)) \<and>
    (\<forall>e \<in> set (ps_ledger p). is_active e \<or> now - days 180 \<le> le_recorded_at e) \<and>
    (\<forall>e \<in> set (ps_ledger s) - set (ps_ledger p). \<not> is_active e \<and>
      (le_recorded_at e < now - days 180 \<or>
       length (filter (\<lambda>e. \<not> is_active e) (ps_ledger p)) = 5000 \<and>
       (\<forall>k \<in> set (ps_ledger p). is_active k \<or> ledger_key e \<le> ledger_key k)))"
proof -
  let ?p = "prune_ledger s now"
  have young: "is_active e \<or> now - days 180 \<le> le_recorded_at e" if "e \<in> set (ps_ledger ?p)" for e
    using that set_take_subset [of MAX_INACTIVE_LEDGER_ENTRIES "prune_pool (ps_ledger s) now"]
    by (auto simp: prune_ledger_pool set_prune_pool MAX_INACTIVE_LEDGER_AGE_def)
  have desc: "sorted_wrt (\<lambda>x y. ledger_key y \<le> ledger_key x)
      (filter (\<lambda>e. \<not> is_active e) (ps_ledger ?p))"
    unfolding prune_ledger_inactive
    by (intro sorted_wrt_take) (simp add: prune_pool_def sorted_reverse_desc)
  have "length (filter (\<lambda>e. \<not> is_active e) (ps_ledger ?p)) \<le> 5000"
    by (simp add: prune_ledger_inactive MAX_INACTIVE_LEDGER_ENTRIES_def)
  then show ?thesis
    using young desc prune_ledger_valid [OF assms] prune_ledger_subset [of s now]
      prune_ledger_dropped [of _ s now]
    by (simp add: Let_def prune_ledger_idem prune_ledger_active MAX_INACTIVE_LEDGER_AGE_def
        MAX_INACTIVE_LEDGER_ENTRIES_def)
qed

theorem prune_ledger_contract_witness:
  "filter is_active (ps_ledger (prune_ledger empty_state 0)) = []"
  using prune_ledger_contract [OF empty_state_valid, of 0] by (simp add: Let_def empty_state_def)

end
