(* ===== verification/Stars.thy ===== *)
theory Stars
  imports Storage_State Digest
begin

text \<open>
  The watch state machine of \<open>stars.py\<close>: the events, \<open>transition\<close> with its handlers, the
  fingerprints of installed and candidate versions and the notification references. The
  abstract view of the watches is a finite map from item ids to watch records; every event is
  one pointwise update of that map.
\<close>

section \<open>Events\<close>

record CachedItem =
  ci_item_id :: ustr
  ci_source :: ItemSource
  ci_installed_fingerprint :: "ustr option"
  ci_candidate_fingerprint :: "ustr option"
  ci_watchable :: bool

record CachedInventory =
  inv_items :: "CachedItem list"

datatype WatchEvent =
    StarClick (click_item_id: ustr) (click_inventory: CachedInventory) (click_require_current: bool)
  | FreshSourceScan (scan_source: ItemSource) (scan_inventory: CachedInventory)
      (scan_confirmed_removed: "ustr set")
  | StaleSourceScan (scan_source: ItemSource)
  | FailedSourceScan (scan_source: ItemSource)
  | InvalidSourceScan (scan_source: ItemSource)

section \<open>Operations\<close>

definition fingerprint_of :: "ItemSource \<Rightarrow> ustr \<Rightarrow> ustr option \<Rightarrow> ustr option" where
  "fingerprint_of source item_id evidence =
     (case evidence of None \<Rightarrow> None
      | Some text \<Rightarrow>
          Some (sha256_hexdigest
            (utf8_encode (item_source_value source @ [0] @ item_id @ [0] @ text))))"

definition cached_item :: "NormalizedItem \<Rightarrow> CachedItem" where
  "cached_item item =
     \<lparr>ci_item_id = ni_item_id item,
      ci_source = ni_source item,
      ci_installed_fingerprint =
        fingerprint_of (ni_source item) (ni_item_id item) (ni_installed item),
      ci_candidate_fingerprint =
        fingerprint_of (ni_source item) (ni_item_id item) (ni_candidate item),
      ci_watchable = ni_watchable item\<rparr>"

definition watch_notification_reference :: "ustr \<Rightarrow> ustr \<Rightarrow> ustr option \<Rightarrow> ustr" where
  "watch_notification_reference item_id candidate_fingerprint installed_fingerprint =
     (case installed_fingerprint of
        Some installed \<Rightarrow>
          lit ''watch-v1:'' @ item_id @ lit '':'' @ installed @ lit '':'' @ candidate_fingerprint
      | None \<Rightarrow> lit ''watch-v1:'' @ item_id @ lit '':'' @ candidate_fingerprint)"

definition without_active_references :: "LedgerEntry list \<Rightarrow> ustr \<Rightarrow> LedgerEntry list" where
  "without_active_references ledger item_id =
     (let p = lit ''watch-v1:'' @ item_id @ lit '':''
      in filter (\<lambda>e. \<not> (is_active e \<and> prefix p (le_fingerprint e))) ledger)"

definition missing_permanent_item_ids :: "PersistentState \<Rightarrow> CachedInventory \<Rightarrow> ustr list" where
  "missing_permanent_item_ids state inventory =
     (let present = ci_item_id ` set (inv_items inventory)
      in map w_item_id
           (filter (\<lambda>w. w_mode w = Watch_PERMANENT \<and> w_item_id w \<notin> present)
              (sort_key w_item_id (ps_watches state))))"

definition permanent_watch :: "ustr \<Rightarrow> WatchRecord" where
  "permanent_watch item_id =
     \<lparr>w_item_id = item_id, w_mode = Watch_PERMANENT, w_installed_fingerprint = None,
      w_candidate_fingerprint = None, w_armed = False, w_condition = None\<rparr>"

definition not_watchable :: exn where
  "not_watchable = WatchTransitionError (lit ''item is not a cached watchable item'')"

definition off_not_durable :: exn where
  "off_not_durable = WatchTransitionError (lit ''off watches are not durable'')"

definition click_existing_watch ::
  "PersistentState \<Rightarrow> WatchRecord \<Rightarrow> CachedInventory \<Rightarrow> bool \<Rightarrow> PersistentState result" where
  "click_existing_watch state watch inventory require_current =
     (case w_mode watch of
        Watch_TEMPORARY \<Rightarrow>
          if require_current
             \<and> \<not> list_ex (\<lambda>i. ci_item_id i = w_item_id watch \<and> ci_watchable i) (inv_items inventory)
          then Inl not_watchable
          else Inr \<lparr>ps_watches =
                      map (\<lambda>r. if r = watch then permanent_watch (w_item_id watch) else r)
                        (ps_watches state),
                    ps_ledger = ps_ledger state, ps_sources = ps_sources state\<rparr>
      | Watch_PERMANENT \<Rightarrow>
          Inr \<lparr>ps_watches = filter (\<lambda>r. r \<noteq> watch) (ps_watches state),
               ps_ledger = without_active_references (ps_ledger state) (w_item_id watch),
               ps_sources = ps_sources state\<rparr>
      | Watch_OFF \<Rightarrow> Inl off_not_durable)"

definition temporary_watch :: "CachedItem \<Rightarrow> WatchRecord" where
  "temporary_watch item =
     \<lparr>w_item_id = ci_item_id item, w_mode = Watch_TEMPORARY,
      w_installed_fingerprint = ci_installed_fingerprint item,
      w_candidate_fingerprint = ci_candidate_fingerprint item,
      w_armed = (ci_candidate_fingerprint item \<noteq> None), w_condition = None\<rparr>"

definition star_click ::
  "PersistentState \<Rightarrow> ustr \<Rightarrow> CachedInventory \<Rightarrow> bool \<Rightarrow> PersistentState result" where
  "star_click state item_id inventory require_current =
     (case find (\<lambda>w. w_item_id w = item_id) (ps_watches state) of
        None \<Rightarrow>
          (case find (\<lambda>i. ci_item_id i = item_id) (inv_items inventory) of
             None \<Rightarrow> Inl not_watchable
           | Some item \<Rightarrow>
               if \<not> ci_watchable item \<or> ci_installed_fingerprint item = None
               then Inl not_watchable
               else Inr \<lparr>ps_watches = ps_watches state @ [temporary_watch item],
                         ps_ledger = ps_ledger state, ps_sources = ps_sources state\<rparr>)
      | Some watch \<Rightarrow> click_existing_watch state watch inventory require_current)"

definition observe_watch ::
  "WatchRecord \<Rightarrow> ItemSource \<Rightarrow> ustr set \<Rightarrow> (ustr \<Rightarrow> CachedItem option)
     \<Rightarrow> WatchRecord option result" where
  "observe_watch watch source confirmed_removed items =
     (case w_mode watch of
        Watch_PERMANENT \<Rightarrow> Inr (Some watch)
      | Watch_TEMPORARY \<Rightarrow>
          Inr (if \<not> prefix (item_source_value source @ lit '':'') (w_item_id watch) then Some watch
               else (case items (w_item_id watch) of
                 None \<Rightarrow> if w_item_id watch \<in> confirmed_removed then None else Some watch
               | Some item \<Rightarrow>
                   if ci_installed_fingerprint item \<noteq> None
                      \<and> ci_installed_fingerprint item \<noteq> w_installed_fingerprint watch
                   then None
                   else if \<not> w_armed watch \<and> ci_candidate_fingerprint item \<noteq> None
                   then Some (watch\<lparr>w_candidate_fingerprint := ci_candidate_fingerprint item,
                                    w_armed := True\<rparr>)
                   else Some watch))
      | Watch_OFF \<Rightarrow> Inl off_not_durable)"

definition source_items :: "ItemSource \<Rightarrow> CachedInventory \<Rightarrow> ustr \<Rightarrow> CachedItem option" where
  "source_items source inventory =
     dict_of ci_item_id (\<lambda>i. i) (filter (\<lambda>i. ci_source i = source) (inv_items inventory))"

definition fresh_scan ::
  "PersistentState \<Rightarrow> ItemSource \<Rightarrow> CachedInventory \<Rightarrow> ustr set \<Rightarrow> PersistentState result" where
  "fresh_scan state source inventory confirmed_removed =
     bindE (mapE (\<lambda>w. observe_watch w source confirmed_removed (source_items source inventory))
              (ps_watches state))
       (\<lambda>observed. Inr \<lparr>ps_watches = collect_some (\<lambda>r. r) observed,
                        ps_ledger = ps_ledger state, ps_sources = ps_sources state\<rparr>)"

definition transition :: "PersistentState \<Rightarrow> WatchEvent \<Rightarrow> PersistentState result" where
  "transition state event =
     (case event of
        StarClick item_id inventory require_current \<Rightarrow>
          star_click state item_id inventory require_current
      | FreshSourceScan source inventory confirmed_removed \<Rightarrow>
          fresh_scan state source inventory confirmed_removed
      | StaleSourceScan source \<Rightarrow> Inr state
      | FailedSourceScan source \<Rightarrow> Inr state
      | InvalidSourceScan source \<Rightarrow> Inr state)"

section \<open>The abstract watch map\<close>

definition watch_map :: "PersistentState \<Rightarrow> ustr \<Rightarrow> WatchRecord option" where
  "watch_map state item_id = find (\<lambda>w. w_item_id w = item_id) (ps_watches state)"

lemma watch_map_SomeD: "watch_map s i = Some w \<Longrightarrow> w \<in> set (ps_watches s) \<and> w_item_id w = i"
  unfolding watch_map_def by (rule find_SomeD)

lemma watch_map_None: "watch_map s i = None \<longleftrightarrow> i \<notin> w_item_id ` set (ps_watches s)"
  by (auto simp: watch_map_def find_None_iff)

lemma watch_map_in:
  "watches_ok (ps_watches s) \<Longrightarrow> w \<in> set (ps_watches s) \<Longrightarrow> watch_map s (w_item_id w) = Some w"
  unfolding watch_map_def watches_ok_def by (auto intro: find_distinct)

lemma permanent_watch_ok [simp]: "watch_ok (permanent_watch i)"
  by (simp add: watch_ok_permanent permanent_watch_def)

lemma permanent_watch_select [simp]:
  "w_item_id (permanent_watch i) = i" "w_mode (permanent_watch i) = Watch_PERMANENT"
  by (simp_all add: permanent_watch_def)

lemma temporary_watch_select [simp]:
  "w_item_id (temporary_watch i) = ci_item_id i" "w_mode (temporary_watch i) = Watch_TEMPORARY"
  by (simp_all add: temporary_watch_def)

lemma temporary_watch_ok [simp]:
  "ci_installed_fingerprint i \<noteq> None \<Longrightarrow> watch_ok (temporary_watch i)"
  by (subst watch_ok_temporary) (simp_all add: temporary_watch_def)

section \<open>Star clicks\<close>

lemma star_click_new:
  "watch_map s i = None \<Longrightarrow>
   star_click s i cur req =
     (case find (\<lambda>c. ci_item_id c = i) (inv_items cur) of
        None \<Rightarrow> Inl not_watchable
      | Some c \<Rightarrow>
          if ci_watchable c \<and> ci_installed_fingerprint c \<noteq> None
          then Inr (s\<lparr>ps_watches := ps_watches s @ [temporary_watch c]\<rparr>)
          else Inl not_watchable)"
  by (auto simp: star_click_def watch_map_def split: option.splits)

lemma star_click_existing:
  "watch_map s i = Some w \<Longrightarrow> star_click s i cur req = click_existing_watch s w cur req"
  by (simp add: star_click_def watch_map_def)

lemma filter_neq_watch:
  assumes "watches_ok ws" and "w \<in> set ws"
  shows "filter (\<lambda>r. r \<noteq> w) ws = filter (\<lambda>r. w_item_id r \<noteq> w_item_id w) ws"
  using assms by (intro filter_cong) (auto simp: watches_ok_def distinct_map dest: inj_onD)

lemma watches_ok_filter: "watches_ok ws \<Longrightarrow> watches_ok (filter P ws)"
  by (auto simp: watches_ok_def)

lemma watches_ok_replace:
  assumes "watches_ok ws" and "\<And>w. w \<in> set ws \<Longrightarrow> w_item_id (f w) = w_item_id w \<and> watch_ok (f w)"
  shows "watches_ok (map f ws)"
proof -
  have "map w_item_id (map f ws) = map w_item_id ws" using assms(2) by simp
  then have "distinct (map w_item_id (map f ws))" using assms(1) by (simp only: watches_ok_def)
  with assms show ?thesis by (auto simp: watches_ok_def)
qed

lemma ledger_ok_filter: "ledger_ok es \<Longrightarrow> ledger_ok (filter P es)"
  by (auto simp: ledger_ok_def)

lemma without_active_references_ok:
  "ledger_ok es \<Longrightarrow> ledger_ok (without_active_references es i)"
  by (simp add: without_active_references_def Let_def ledger_ok_filter)

lemma click_existing_valid:
  assumes s: "validate_state s = Inr ()" and w: "w \<in> set (ps_watches s)"
    and r: "click_existing_watch s w cur req = Inr s'"
  shows "validate_state s' = Inr ()"
proof (cases "w_mode w")
  case Watch_TEMPORARY
  have "watches_ok (map (\<lambda>r. if r = w then permanent_watch (w_item_id w) else r) (ps_watches s))"
    using s by (intro watches_ok_replace) (auto simp: validate_state_iff watches_ok_def)
  with s r Watch_TEMPORARY show ?thesis
    by (auto simp: click_existing_watch_def validate_state_iff split: if_splits)
next
  case Watch_PERMANENT
  with s r show ?thesis
    by (auto simp: click_existing_watch_def validate_state_iff watches_ok_filter
        without_active_references_ok)
next
  case Watch_OFF
  with r show ?thesis by (simp add: click_existing_watch_def)
qed

lemma star_click_valid:
  assumes s: "validate_state s = Inr ()" and r: "star_click s i cur req = Inr s'"
  shows "validate_state s' = Inr ()"
proof (cases "watch_map s i")
  case None
  with r obtain c where c: "find (\<lambda>c. ci_item_id c = i) (inv_items cur) = Some c"
      "ci_installed_fingerprint c \<noteq> None" "s' = s\<lparr>ps_watches := ps_watches s @ [temporary_watch c]\<rparr>"
    by (auto simp: star_click_new split: option.splits if_splits)
  from c(1) have "ci_item_id c = i" by (auto dest: find_SomeD)
  with None s c show ?thesis
    by (auto simp: validate_state_iff watches_ok_def watch_map_None)
next
  case (Some w)
  with s r show ?thesis
    using click_existing_valid [of s w cur req s'] watch_map_SomeD [of s i w]
    by (simp add: star_click_existing)
qed

section \<open>Fresh scans\<close>

lemma validate_state_watches:
  "validate_state s = Inr () \<Longrightarrow> w \<in> set (ps_watches s) \<Longrightarrow> watch_ok w"
  by (simp add: validate_state_iff watches_ok_def)

definition observed :: "ItemSource \<Rightarrow> CachedInventory \<Rightarrow> ustr set \<Rightarrow> WatchRecord \<Rightarrow> WatchRecord option"
where
  "observed source inventory removed w =
     (case observe_watch w source removed (source_items source inventory) of
        Inr r \<Rightarrow> r | Inl _ \<Rightarrow> None)"

lemma observe_watch_observed:
  "watch_ok w \<Longrightarrow> observe_watch w source removed (source_items source cur) =
     Inr (observed source cur removed w)"
  by (cases "w_mode w") (simp_all add: observe_watch_def observed_def)

lemma fresh_scan_observed:
  assumes "validate_state s = Inr ()"
  shows "fresh_scan s source cur removed =
    Inr (s\<lparr>ps_watches := collect_some (observed source cur removed) (ps_watches s)\<rparr>)"
proof -
  have "mapE (\<lambda>w. observe_watch w source removed (source_items source cur))
          (map (\<lambda>w. w) (ps_watches s)) = Inr (map (observed source cur removed) (ps_watches s))"
    using assms by (intro mapE_map_Inr) (auto simp: validate_state_iff watches_ok_def
        observe_watch_observed)
  then show ?thesis by (simp add: fresh_scan_def collect_some_map)
qed

lemma observed_key: "observed source cur removed w = Some w' \<Longrightarrow> w_item_id w' = w_item_id w"
  by (auto simp: observed_def observe_watch_def split: WatchMode.splits if_splits option.splits)

lemma observed_ok:
  assumes "watch_ok w" and "observed source cur removed w = Some w'"
  shows "watch_ok w'"
proof (cases "w_mode w = Watch_TEMPORARY")
  case True
  from assms(2) True consider "w' = w" | c where "w' = w\<lparr>w_candidate_fingerprint := Some c, w_armed := True\<rparr>"
    by (auto simp: observed_def observe_watch_def split: if_splits option.splits)
  then show ?thesis
  proof cases
    case 2
    with assms(1) True show ?thesis by (auto simp: watch_ok_temporary)
  qed (use assms in simp)
next
  case False
  with assms show ?thesis
    by (auto simp: observed_def observe_watch_def split: WatchMode.splits)
qed

lemma fresh_scan_valid:
  assumes s: "validate_state s = Inr ()" and r: "fresh_scan s source cur removed = Inr s'"
  shows "validate_state s' = Inr ()"
proof -
  let ?ws = "collect_some (observed source cur removed) (ps_watches s)"
  have "distinct (map w_item_id ?ws)"
    using s by (intro distinct_collect_some) (auto simp: validate_state_iff watches_ok_def observed_key)
  moreover have "\<forall>w \<in> set ?ws. watch_ok w"
  proof
    fix w
    assume "w \<in> set ?ws"
    then obtain x where "x \<in> set (ps_watches s)" "observed source cur removed x = Some w"
      by (auto simp: in_set_collect_some)
    with s show "watch_ok w" by (blast intro: observed_ok dest: validate_state_watches)
  qed
  ultimately show ?thesis
    using s r by (auto simp: fresh_scan_observed validate_state_iff watches_ok_def)
qed

lemma fresh_scan_map:
  assumes "validate_state s = Inr ()" and "fresh_scan s source cur removed = Inr s'"
  shows "watch_map s' i = Option.bind (watch_map s i) (observed source cur removed)"
  using assms
  by (auto simp: fresh_scan_observed watch_map_def validate_state_iff watches_ok_def observed_key
      intro!: find_collect_some)

lemma transition_valid:
  "validate_state s = Inr () \<Longrightarrow> transition s e = Inr s' \<Longrightarrow> validate_state s' = Inr ()"
  by (auto simp: transition_def intro: star_click_valid fresh_scan_valid split: WatchEvent.splits)

lemma click_map:
  assumes s: "validate_state s = Inr ()" and r: "star_click s i cur req = Inr s'"
  shows "watch_map s' = (watch_map s)(i :=
    (case watch_map s i of
       None \<Rightarrow> map_option temporary_watch (find (\<lambda>c. ci_item_id c = i) (inv_items cur))
     | Some w \<Rightarrow> if w_mode w = Watch_TEMPORARY then Some (permanent_watch i) else None))"
proof (cases "watch_map s i")
  case None
  with r obtain c where c: "find (\<lambda>c. ci_item_id c = i) (inv_items cur) = Some c"
      "s' = s\<lparr>ps_watches := ps_watches s @ [temporary_watch c]\<rparr>"
    by (auto simp: star_click_new split: option.splits if_splits)
  from c(1) have "ci_item_id c = i" by (auto dest: find_SomeD)
  with None c show ?thesis
    by (auto simp: watch_map_def find_append fun_eq_iff split: option.splits)
next
  case (Some w)
  then have w: "w \<in> set (ps_watches s)" "w_item_id w = i" by (auto dest: watch_map_SomeD)
  from s have ok: "watches_ok (ps_watches s)" by (simp add: validate_state_iff)
  show ?thesis
  proof (cases "w_mode w")
    case Watch_TEMPORARY
    with r Some w have "ps_watches s' =
        map (\<lambda>r. if r = w then permanent_watch i else r) (ps_watches s)"
      by (auto simp: star_click_existing click_existing_watch_def split: if_splits)
    then have "watch_map s' j = map_option (\<lambda>r. if r = w then permanent_watch i else r) (watch_map s j)"
      for j
      using w by (auto simp: watch_map_def intro!: find_map_const)
    with Some w Watch_TEMPORARY show ?thesis
      by (auto simp: fun_eq_iff map_option_case dest: watch_map_SomeD split: option.splits)
  next
    case Watch_PERMANENT
    with r Some ok w have "ps_watches s' = filter (\<lambda>r. w_item_id r \<noteq> i) (ps_watches s)"
      by (auto simp: star_click_existing click_existing_watch_def filter_neq_watch)
    with Some w Watch_PERMANENT ok show ?thesis
      by (auto simp: fun_eq_iff watch_map_def find_filter_key watches_ok_def
          dest: find_SomeD split: option.splits)
  next
    case Watch_OFF
    with r Some show ?thesis by (simp add: star_click_existing click_existing_watch_def)
  qed
qed

section \<open>Runs of the state machine\<close>

text \<open>
  A durable event either commits the state \<open>transition\<close> returns or, when it raises, leaves the
  stored state as it was.
\<close>

inductive watch_step :: "PersistentState \<Rightarrow> WatchEvent \<Rightarrow> PersistentState \<Rightarrow> bool" where
  commit: "transition s e = Inr s' \<Longrightarrow> watch_step s e s'"
| raised: "transition s e = Inl x \<Longrightarrow> watch_step s e s"

inductive watch_run :: "PersistentState \<Rightarrow> WatchEvent list \<Rightarrow> PersistentState \<Rightarrow> bool" where
  stop: "watch_run s [] s"
| step: "watch_step s e s' \<Longrightarrow> watch_run s' es s'' \<Longrightarrow> watch_run s (e # es) s''"

inductive_cases watch_stepE: "watch_step s e s'"
inductive_cases watch_run_ConsE: "watch_run s (e # es) s''"

lemma watch_step_valid:
  "watch_step s e s' \<Longrightarrow> validate_state s = Inr () \<Longrightarrow> validate_state s' = Inr ()"
  by (auto elim!: watch_stepE intro: transition_valid)

lemma watch_run_valid:
  "watch_run s es s' \<Longrightarrow> validate_state s = Inr () \<Longrightarrow> validate_state s' = Inr ()"
  by (induction rule: watch_run.induct) (auto dest: watch_step_valid)

lemma watch_run_total: "\<exists>s'. watch_run s es s'"
proof (induction es arbitrary: s)
  case Nil
  show ?case by (blast intro: watch_run.stop)
next
  case (Cons e es)
  obtain s1 where "watch_step s e s1"
    by (cases "transition s e") (blast intro: watch_step.intros)+
  with Cons [of s1] show ?case by (blast intro: watch_run.step)
qed

text \<open>What a watch may become while nobody clicks its star.\<close>

definition armed_from :: "WatchRecord \<Rightarrow> WatchRecord \<Rightarrow> bool" where
  "armed_from w w' \<longleftrightarrow> w' = w \<or>
     (w_mode w = Watch_TEMPORARY \<and> \<not> w_armed w \<and>
      (\<exists>c. w' = w\<lparr>w_candidate_fingerprint := Some c, w_armed := True\<rparr>))"

definition unclicked :: "ustr \<Rightarrow> WatchEvent \<Rightarrow> bool" where
  "unclicked i e \<longleftrightarrow> (case e of StarClick j _ _ \<Rightarrow> j \<noteq> i | _ \<Rightarrow> True)"

lemma observed_armed_from: "observed source cur removed w = Some w' \<Longrightarrow> armed_from w w'"
  by (auto simp: observed_def observe_watch_def armed_from_def
      split: WatchMode.splits if_splits option.splits)

lemma observed_permanent:
  "w_mode w = Watch_PERMANENT \<Longrightarrow> observed source cur removed w = Some w"
  by (simp add: observed_def observe_watch_def)

lemma armed_from_trans: "armed_from u v \<Longrightarrow> armed_from v w \<Longrightarrow> armed_from u w"
  by (auto simp: armed_from_def)

lemma watch_step_unclicked:
  assumes "watch_step s e s'" and "validate_state s = Inr ()" and "unclicked i e"
  shows "watch_map s' i = watch_map s i \<or>
    (\<exists>source cur removed. watch_map s' i = Option.bind (watch_map s i) (observed source cur removed))"
  using assms(1)
proof (cases rule: watch_step.cases)
  case commit
  show ?thesis
  proof (cases e)
    case (StarClick j cur req)
    with commit assms(2,3) click_map [of s j cur req s'] show ?thesis
      by (simp add: transition_def unclicked_def)
  next
    case (FreshSourceScan source cur removed)
    with commit assms(2) fresh_scan_map [of s source cur removed s' i] show ?thesis
      by (auto simp: transition_def)
  qed (use commit in \<open>simp_all add: transition_def\<close>)
qed simp

lemma watch_run_unclicked:
  assumes "watch_run s es s'" and "validate_state s = Inr ()" and "list_all (unclicked i) es"
  shows "(case watch_map s i of
      None \<Rightarrow> watch_map s' i = None
    | Some w \<Rightarrow>
        if w_mode w = Watch_PERMANENT then watch_map s' i = Some w
        else watch_map s' i = None \<or> (\<exists>w'. watch_map s' i = Some w' \<and> armed_from w w'))"
  using assms
proof (induction rule: watch_run.induct)
  case (stop s)
  show ?case by (auto simp: armed_from_def split: option.split)
next
  case (step s e s' es s'')
  have valid: "validate_state s' = Inr ()" using step by (auto dest: watch_step_valid)
  have rest: "list_all (unclicked i) es" and e: "unclicked i e" using step.prems(2) by simp_all
  note IH = step.IH [OF valid rest]
  show ?case
  proof (cases "watch_map s i")
    case None
    with watch_step_unclicked [OF step.hyps(1) step.prems(1) e] IH show ?thesis by auto
  next
    case (Some w)
    with watch_step_unclicked [OF step.hyps(1) step.prems(1) e]
    have next_w: "watch_map s' i = Some w \<or>
      (\<exists>source cur removed. watch_map s' i = observed source cur removed w)" by auto
    show ?thesis
    proof (cases "w_mode w = Watch_PERMANENT")
      case True
      with next_w Some IH show ?thesis by (auto simp: observed_permanent)
    next
      case False
      with next_w have "watch_map s' i = None \<or> (\<exists>v. watch_map s' i = Some v \<and> armed_from w v)"
        by (metis armed_from_def observed_armed_from option.exhaust)
      moreover have "w_mode v = w_mode w" if "armed_from w v" for v
        using that by (auto simp: armed_from_def)
      ultimately show ?thesis
        using Some IH False by (fastforce dest: armed_from_trans)
    qed
  qed
qed

lemma star_click_temporary:
  assumes "watch_map s i = Some w" and "w_mode w = Watch_TEMPORARY"
    and "\<exists>c \<in> set (inv_items cur). ci_item_id c = i \<and> ci_watchable c"
  shows "\<exists>s'. star_click s i cur req = Inr s' \<and> ps_ledger s' = ps_ledger s \<and>
    ps_sources s' = ps_sources s"
proof -
  have "w_item_id w = i" using assms(1) by (auto dest: watch_map_SomeD)
  with assms show ?thesis
    by (simp add: star_click_existing click_existing_watch_def list_ex_iff)
qed

lemma star_click_permanent:
  assumes "watch_map s i = Some w" and "w_mode w = Watch_PERMANENT"
  shows "\<exists>s'. star_click s i cur req = Inr s' \<and> ps_sources s' = ps_sources s \<and>
    ps_ledger s' = without_active_references (ps_ledger s) i"
proof -
  have "w_item_id w = i" using assms(1) by (auto dest: watch_map_SomeD)
  with assms show ?thesis by (simp add: star_click_existing click_existing_watch_def)
qed

lemma star_click_raises:
  assumes "validate_state s = Inr ()"
  shows "star_click s i cur req = Inl x \<longleftrightarrow>
    x = not_watchable \<and>
    (case watch_map s i of
       None \<Rightarrow> \<not> (\<exists>c. find (\<lambda>c. ci_item_id c = i) (inv_items cur) = Some c \<and>
                     ci_watchable c \<and> ci_installed_fingerprint c \<noteq> None)
     | Some w \<Rightarrow> w_mode w = Watch_TEMPORARY \<and> req \<and>
         \<not> (\<exists>c \<in> set (inv_items cur). ci_item_id c = i \<and> ci_watchable c))"
proof (cases "watch_map s i")
  case None
  then show ?thesis by (auto simp: star_click_new split: option.splits)
next
  case (Some w)
  with assms have "watch_ok w" "w_item_id w = i"
    by (auto dest: watch_map_SomeD validate_state_watches)
  with Some show ?thesis
    by (cases "w_mode w") (auto simp: star_click_existing click_existing_watch_def list_ex_iff)
qed

lemma observed_cleared:
  assumes "watch_ok w"
  shows "observed source cur removed w = None \<longleftrightarrow>
    w_mode w = Watch_TEMPORARY \<and> prefix (item_source_value source @ lit '':'') (w_item_id w) \<and>
    (case source_items source cur (w_item_id w) of
       None \<Rightarrow> w_item_id w \<in> removed
     | Some c \<Rightarrow> ci_installed_fingerprint c \<noteq> None \<and>
         ci_installed_fingerprint c \<noteq> w_installed_fingerprint w)"
  using assms
  by (cases "w_mode w")
    (auto simp: observed_def observe_watch_def split: option.splits if_splits)

lemma observed_armed:
  assumes "observed source cur removed w = Some w'" and "w' \<noteq> w"
  shows "\<exists>c. source_items source cur (w_item_id w) = Some c \<and>
    ci_candidate_fingerprint c \<noteq> None \<and>
    w_candidate_fingerprint w' = ci_candidate_fingerprint c"
  using assms
  by (auto simp: observed_def observe_watch_def split: WatchMode.splits if_splits option.splits)

lemma observed_idem:
  assumes "observed source cur removed w = Some w'"
  shows "observed source cur removed w' = Some w'"
  using assms
  by (auto simp: observed_def observe_watch_def split: WatchMode.splits if_splits option.splits)

lemma collect_some_idem:
  assumes "\<And>x y. f x = Some y \<Longrightarrow> f y = Some y"
  shows "collect_some f (collect_some f xs) = collect_some f xs"
  using assms by (induction xs) (auto split: option.splits)

section \<open>Properties\<close>

definition sample_item :: CachedItem where
  "sample_item = \<lparr>ci_item_id = lit ''arch:bash'', ci_source = Item_ARCH,
     ci_installed_fingerprint = Some (lit ''aa''), ci_candidate_fingerprint = None,
     ci_watchable = True\<rparr>"

definition sample_upgraded :: CachedItem where
  "sample_upgraded = sample_item\<lparr>ci_candidate_fingerprint := Some (lit ''bb'')\<rparr>"

definition sample_state :: PersistentState where
  "sample_state = empty_state\<lparr>ps_watches := [temporary_watch sample_item]\<rparr>"

lemma sample_state_valid: "validate_state sample_state = Inr ()"
  by (simp add: sample_state_def validate_state_iff watches_ok_def ledger_ok_def sources_ok_def
      empty_state_def sample_item_def)

text \<open>
  C1: Along any sequence of durable watch events, with the events that raise leaving the state
  as it was, a state accepted by \<open>validate_state\<close> stays accepted, and every event sequence has a
  run.
\<close>

theorem watch_runs_valid:
  assumes "validate_state s = Inr ()"
  shows "(\<exists>s'. watch_run s es s') \<and> (\<forall>s'. watch_run s es s' \<longrightarrow> validate_state s' = Inr ())"
  using assms watch_run_total watch_run_valid by blast

theorem watch_runs_valid_witness:
  "\<exists>s'. watch_run sample_state
      [FreshSourceScan Item_ARCH \<lparr>inv_items = [sample_upgraded]\<rparr> {},
       StarClick (lit ''arch:bash'') \<lparr>inv_items = [sample_upgraded]\<rparr> True] s' \<and>
    validate_state s' = Inr ()"
  using watch_runs_valid [OF sample_state_valid] by blast



text \<open>
  C4: On a valid state a watch event raises exactly when it is a click on an unwatched item that
  is not cached, not watchable or has no installed version, or a click that requires the current
  inventory on a temporary watch whose item is no longer listed as watchable; the exception is
  always the same \<open>WatchTransitionError\<close>. Scans never raise, and a permanent watch can always be
  switched off.
\<close>

theorem transition_raises:
  assumes "validate_state s = Inr ()"
  shows "transition s e = Inl x \<longleftrightarrow>
    x = not_watchable \<and>
    (\<exists>i cur req. e = StarClick i cur req \<and>
      (case watch_map s i of
         None \<Rightarrow> \<not> (\<exists>c. find (\<lambda>c. ci_item_id c = i) (inv_items cur) = Some c \<and>
                       ci_watchable c \<and> ci_installed_fingerprint c \<noteq> None)
       | Some w \<Rightarrow> w_mode w = Watch_TEMPORARY \<and> req \<and>
           \<not> (\<exists>c \<in> set (inv_items cur). ci_item_id c = i \<and> ci_watchable c)))"
  using assms
  by (cases e) (simp_all add: transition_def star_click_raises fresh_scan_observed)

theorem transition_raises_witness:
  "transition sample_state (StarClick (lit ''arch:bash'') \<lparr>inv_items = []\<rparr> True) =
     Inl not_watchable"
  by (subst transition_raises [OF sample_state_valid])
    (auto simp: watch_map_def sample_state_def sample_item_def)

text \<open>
  C3: A fresh scan of a source never raises and changes only watches. It clears exactly the
  temporary watches of that source whose item is listed with another installed fingerprint, or is
  absent and confirmed removed; it arms a surviving temporary watch at most once, with the
  candidate fingerprint of the listed item; permanent watches, watches of other sources, the
  ledger and the source metadata stay as they are; and repeating the scan changes nothing more.
\<close>

theorem fresh_scan_contract:
  assumes s: "validate_state s = Inr ()"
  shows "\<exists>s'. transition s (FreshSourceScan source cur removed) = Inr s' \<and>
    ps_ledger s' = ps_ledger s \<and> ps_sources s' = ps_sources s \<and>
    transition s' (FreshSourceScan source cur removed) = Inr s' \<and>
    (\<forall>i. watch_map s i = None \<longrightarrow> watch_map s' i = None) \<and>
    (\<forall>i w. watch_map s i = Some w \<longrightarrow>
      (watch_map s' i = None \<longleftrightarrow>
        w_mode w = Watch_TEMPORARY \<and> prefix (item_source_value source @ lit '':'') i \<and>
        (case source_items source cur i of
           None \<Rightarrow> i \<in> removed
         | Some c \<Rightarrow> ci_installed_fingerprint c \<noteq> None \<and>
             ci_installed_fingerprint c \<noteq> w_installed_fingerprint w)) \<and>
      (\<forall>w'. watch_map s' i = Some w' \<longrightarrow> w' \<noteq> w \<longrightarrow>
        armed_from w w' \<and>
        (\<exists>c. source_items source cur i = Some c \<and> ci_candidate_fingerprint c \<noteq> None \<and>
             w_candidate_fingerprint w' = ci_candidate_fingerprint c)))"
proof -
  let ?s' = "s\<lparr>ps_watches := collect_some (observed source cur removed) (ps_watches s)\<rparr>"
  have r: "fresh_scan s source cur removed = Inr ?s'" by (rule fresh_scan_observed [OF s])
  have v: "validate_state ?s' = Inr ()" by (rule fresh_scan_valid [OF s r])
  have again: "fresh_scan ?s' source cur removed = Inr ?s'"
    using fresh_scan_observed [OF v] collect_some_idem [of "observed source cur removed"] observed_idem
    by simp
  have map: "watch_map ?s' i = Option.bind (watch_map s i) (observed source cur removed)" for i
    by (rule fresh_scan_map [OF s r])
  have "watch_ok w \<and> w_item_id w = i" if "watch_map s i = Some w" for i w
    using that s by (auto dest: watch_map_SomeD validate_state_watches)
  then show ?thesis
    using r again
    by (intro exI [of _ ?s']) (auto simp: transition_def map observed_cleared observed_armed_from
        dest: observed_armed)
qed

theorem fresh_scan_contract_witness:
  "\<exists>s'. transition sample_state
       (FreshSourceScan Item_ARCH \<lparr>inv_items = [sample_upgraded]\<rparr> {}) = Inr s' \<and>
     watch_map s' (lit ''arch:bash'') \<noteq> None"
proof -
  have "watch_map sample_state (lit ''arch:bash'') = Some (temporary_watch sample_item)"
    by (simp add: watch_map_def sample_state_def sample_item_def)
  moreover have "source_items Item_ARCH \<lparr>inv_items = [sample_upgraded]\<rparr> (lit ''arch:bash'') =
      Some sample_upgraded"
    by (simp add: source_items_def dict_of_def sample_upgraded_def sample_item_def)
  moreover have "ci_installed_fingerprint sample_upgraded =
      w_installed_fingerprint (temporary_watch sample_item)"
    by (simp add: sample_upgraded_def temporary_watch_def)
  ultimately show ?thesis
    using fresh_scan_contract [OF sample_state_valid, of Item_ARCH "\<lparr>inv_items = [sample_upgraded]\<rparr>" "{}"]
    by fastforce
qed

text \<open>
  While nobody clicks the star of an item, no sequence of events creates a watch for it, a
  permanent watch survives unchanged, and a temporary watch keeps its mode, its installed baseline
  and its condition until it is cleared; once armed it keeps its candidate too.
\<close>

theorem unclicked_watch_stable:
  assumes "watch_run s es s'" and "validate_state s = Inr ()" and "list_all (unclicked i) es"
  shows "(case watch_map s i of
      None \<Rightarrow> watch_map s' i = None
    | Some w \<Rightarrow>
        if w_mode w = Watch_PERMANENT then watch_map s' i = Some w
        else watch_map s' i = None \<or> (\<exists>w'. watch_map s' i = Some w' \<and> armed_from w w'))"
  using assms by (rule watch_run_unclicked)

theorem unclicked_watch_stable_witness:
  "case watch_map sample_state (lit ''arch:bash'') of
      None \<Rightarrow> False
    | Some w \<Rightarrow> watch_map sample_state (lit ''arch:bash'') = None \<or>
        (\<exists>w'. watch_map sample_state (lit ''arch:bash'') = Some w' \<and> armed_from w w')"
proof -
  have run: "watch_run sample_state [StaleSourceScan Item_ARCH] sample_state"
    by (auto intro!: watch_run.intros watch_step.commit simp: transition_def)
  show ?thesis
    using unclicked_watch_stable [OF run sample_state_valid, of "lit ''arch:bash''"]
    by (auto simp: unclicked_def watch_map_def sample_state_def sample_item_def split: if_splits)
qed

text \<open>
  The prefix of a reference does not end the item id: item ids may contain colons, so switching
  off the permanent watch of \<open>mise:npm\<close> drops pending ledger entries of \<open>mise:npm:prettier\<close>.
\<close>

theorem star_click_drops_foreign_reference:
  "\<exists>s s' e. validate_state s = Inr () \<and> e \<in> set (ps_ledger s) \<and>
    le_fingerprint e = watch_notification_reference (lit ''mise:npm:prettier'') (lit ''cc'') None \<and>
    transition s (StarClick (lit ''mise:npm'') \<lparr>inv_items = []\<rparr> True) = Inr s' \<and>
    e \<notin> set (ps_ledger s')"
proof -
  let ?e = "\<lparr>le_fingerprint = watch_notification_reference (lit ''mise:npm:prettier'') (lit ''cc'') None,
    le_status = Notif_PENDING, le_recorded_at = 0, le_lease_token = None,
    le_lease_expires_at = None\<rparr>"
  let ?s = "\<lparr>ps_watches = [permanent_watch (lit ''mise:npm'')], ps_ledger = [?e], ps_sources = []\<rparr>"
  have "validate_state ?s = Inr ()"
    by (simp add: validate_state_iff watches_ok_def ledger_ok_def sources_ok_def entry_ok_def)
  moreover have "transition ?s (StarClick (lit ''mise:npm'') \<lparr>inv_items = []\<rparr> True) =
      Inr \<lparr>ps_watches = [], ps_ledger = [], ps_sources = []\<rparr>"
    by (simp add: transition_def star_click_def click_existing_watch_def is_active_def
        without_active_references_def watch_notification_reference_def lit_def)
  ultimately show ?thesis by fastforce
qed

end
