(* ===== verification/Scan_Generation.thy ===== *)
theory Scan_Generation
  imports Scan_Outcomes Stars
begin

text \<open>
  From outcomes to a generation: \<open>scan_resolution.py\<close> (fresh, last-good or failed evidence per
  source), \<open>scan_assembly.py\<close> (health, items, findings, summary, scan state, inventories, retry
  metadata) and \<open>scan_generation.py\<close> (\<open>due\<close> and \<open>build_generation\<close>), with the bundle record of
  \<open>storage_generation.py\<close>.
\<close>

section \<open>Resolution\<close>

record GenerationBundle =
  gb_order :: int
  gb_snapshot :: SnapshotResponse
  gb_inventories :: "InventoryResponse list"
  gb_state :: PersistentState
  gb_last_good :: SnapshotResponse
  gb_last_good_keys :: "ustr list"

datatype Health = HSource SourceHealth | HScope ScopeHealth

primrec health_status :: "Health \<Rightarrow> SourceStatus" where
  "health_status (HSource h) = sh_status h"
| "health_status (HScope h) = sc_status h"

primrec health_provenance :: "Health \<Rightarrow> Provenance" where
  "health_provenance (HSource h) = sh_provenance h"
| "health_provenance (HScope h) = sc_provenance h"

primrec health_observed_at :: "Health \<Rightarrow> datetime" where
  "health_observed_at (HSource h) = sh_observed_at h"
| "health_observed_at (HScope h) = sc_observed_at h"

primrec health_fresh_until :: "Health \<Rightarrow> datetime" where
  "health_fresh_until (HSource h) = sh_fresh_until h"
| "health_fresh_until (HScope h) = sc_fresh_until h"

primrec health_cause :: "Health \<Rightarrow> ErrorInfo option" where
  "health_cause (HSource h) = sh_cause h"
| "health_cause (HScope h) = sc_cause h"

definition FRESHNESS :: timedelta where
  "FRESHNESS = hours 6"

record ResolvedOutcome =
  ro_outcome :: SourceOutcome
  ro_health :: Health
  ro_items :: "NormalizedItem list"
  ro_findings :: "SecurityFindingGroup list"
  ro_usable :: bool

definition make_health ::
  "SourceName \<Rightarrow> SourceScope option \<Rightarrow> SourceStatus \<Rightarrow> Provenance \<Rightarrow> datetime \<Rightarrow> datetime
     \<Rightarrow> ErrorInfo option \<Rightarrow> Health" where
  "make_health source scope status provenance observed_at fresh_until cause =
     (case scope of
        None \<Rightarrow> HSource \<lparr>sh_source = source, sh_status = status, sh_provenance = provenance,
          sh_observed_at = observed_at, sh_fresh_until = fresh_until, sh_cause = cause, sh_scopes = []\<rparr>
      | Some s \<Rightarrow> HScope \<lparr>sc_scope = s, sc_status = status, sc_provenance = provenance,
          sc_observed_at = observed_at, sc_fresh_until = fresh_until, sc_cause = cause\<rparr>)"

definition fresh_health :: "SourceOutcome \<Rightarrow> datetime \<Rightarrow> Health" where
  "fresh_health oc now =
     make_health (so_source oc) (so_scope oc) (so_status oc) (so_provenance oc) now (now + FRESHNESS)
       None"

definition failed_health :: "SourceOutcome \<Rightarrow> datetime \<Rightarrow> Health" where
  "failed_health oc now =
     make_health (so_source oc) (so_scope oc) (so_status oc) Prov_LIVE now now (so_cause oc)"

definition stale_health :: "SourceOutcome \<Rightarrow> Health \<Rightarrow> Health" where
  "stale_health oc previous =
     make_health (so_source oc) (so_scope oc) Status_STALE Prov_LAST_GOOD
       (health_observed_at previous) (health_fresh_until previous) (so_cause oc)"

definition belongs_to :: "NormalizedItem \<Rightarrow> SourceName \<Rightarrow> SourceScope option \<Rightarrow> bool" where
  "belongs_to item source scope =
     (case source of
        Src_OMARCHY \<Rightarrow> ni_source item = Item_OMARCHY
      | Src_ARCH \<Rightarrow> ni_source item = Item_ARCH
      | Src_AUR \<Rightarrow> ni_source item = Item_AUR
      | Src_FLATPAK \<Rightarrow> ni_source item = Item_FLATPAK
          \<and> prefix (lit ''flatpak:''
                     @ (case scope of None \<Rightarrow> lit ''None'' | Some s \<Rightarrow> scope_value s) @ lit '':'')
              (ni_item_id item)
      | Src_MISE \<Rightarrow> ni_source item = Item_MISE
      | Src_SECURITY \<Rightarrow> False
      | Src_CISA_KEV \<Rightarrow> False)"

definition last_good_items ::
  "SnapshotResponse \<Rightarrow> SourceName \<Rightarrow> SourceScope option \<Rightarrow> NormalizedItem list" where
  "last_good_items snapshot source scope =
     map (\<lambda>i. i\<lparr>ni_provenance := Prov_LAST_GOOD\<rparr>)
       (filter (\<lambda>i. belongs_to i source scope) (sp_items (sr_payload snapshot)))"

definition last_good_findings :: "SnapshotResponse \<Rightarrow> SourceName \<Rightarrow> SecurityFindingGroup list" where
  "last_good_findings snapshot source =
     (if source = Src_SECURITY then sp_findings (sr_payload snapshot) else [])"

text \<open>\<open>next(...)\<close> without a default raises \<open>StopIteration\<close> when nothing matches.\<close>

definition previous_health ::
  "SnapshotResponse \<Rightarrow> SourceName \<Rightarrow> SourceScope option \<Rightarrow> datetime \<Rightarrow> Health result" where
  "previous_health snapshot source scope now =
     (case find (\<lambda>h. sh_source h = source) (sp_sources (sr_payload snapshot)) of
        None \<Rightarrow> Inl (PythonError (lit ''StopIteration''))
      | Some health \<Rightarrow>
          Inr (case scope of
             None \<Rightarrow> HSource health
           | Some s \<Rightarrow>
               HScope (case find (\<lambda>v. sc_scope v = s) (sh_scopes health) of
                  Some v \<Rightarrow> v
                | None \<Rightarrow>
                    \<lparr>sc_scope = s, sc_status = Status_ERROR, sc_provenance = Prov_LIVE,
                     sc_observed_at = now, sc_fresh_until = now,
                     sc_cause = Some \<lparr>ei_code = SOURCE_UNAVAILABLE,
                       ei_message = lit ''source scope has no cached evidence''\<rparr>\<rparr>)))"

definition cached_outcome ::
  "SourceName \<Rightarrow> SourceScope option \<Rightarrow> GenerationBundle option \<Rightarrow> datetime \<Rightarrow> ResolvedOutcome result"
where
  "cached_outcome source scope previous now =
     (case previous of
        None \<Rightarrow>
          let oc = \<lparr>so_source = source, so_scope = scope, so_status = Status_ERROR,
                so_provenance = Prov_LIVE, so_items = [], so_findings = [],
                so_cause = Some \<lparr>ei_code = SOURCE_UNAVAILABLE,
                  ei_message = lit ''source has no cached evidence''\<rparr>,
                so_permanent = False, so_applicable = (source = Src_AUR)\<rparr>
          in Inr \<lparr>ro_outcome = oc, ro_health = failed_health oc now, ro_items = [],
                  ro_findings = [], ro_usable = False\<rparr>
      | Some prev \<Rightarrow>
          bindE (previous_health (gb_snapshot prev) source scope now) (\<lambda>health.
            let oc = \<lparr>so_source = source, so_scope = scope, so_status = health_status health,
                  so_provenance = health_provenance health, so_items = [], so_findings = [],
                  so_cause = health_cause health, so_permanent = False,
                  so_applicable = (health_status health \<noteq> Status_NOT_APPLICABLE)\<rparr>
            in Inr \<lparr>ro_outcome = oc, ro_health = health,
                    ro_items = last_good_items (gb_snapshot prev) source scope,
                    ro_findings = last_good_findings (gb_snapshot prev) source,
                    ro_usable = (so_key oc \<in> set (gb_last_good_keys prev))\<rparr>))"

definition resolve ::
  "SourceOutcome option \<Rightarrow> SourceName \<Rightarrow> SourceScope option \<Rightarrow> GenerationBundle option \<Rightarrow> datetime
     \<Rightarrow> ResolvedOutcome result" where
  "resolve current source scope previous now =
     (case current of
        None \<Rightarrow> cached_outcome source scope previous now
      | Some oc \<Rightarrow>
          if successful oc
          then Inr \<lparr>ro_outcome = oc, ro_health = fresh_health oc now, ro_items = so_items oc,
                    ro_findings = so_findings oc, ro_usable = True\<rparr>
          else (case previous of
             Some prev \<Rightarrow>
               if so_key oc \<in> set (gb_last_good_keys prev)
               then bindE (previous_health (gb_last_good prev) source scope now) (\<lambda>health.
                 Inr \<lparr>ro_outcome = oc, ro_health = stale_health oc health,
                      ro_items = last_good_items (gb_last_good prev) source scope,
                      ro_findings = last_good_findings (gb_last_good prev) source,
                      ro_usable = True\<rparr>)
               else Inr \<lparr>ro_outcome = oc, ro_health = failed_health oc now, ro_items = [],
                         ro_findings = [], ro_usable = False\<rparr>
           | None \<Rightarrow> Inr \<lparr>ro_outcome = oc, ro_health = failed_health oc now, ro_items = [],
                         ro_findings = [], ro_usable = False\<rparr>))"

definition identities :: "(SourceName \<times> SourceScope option) list" where
  "identities = [(Src_OMARCHY, None), (Src_ARCH, None), (Src_AUR, None),
     (Src_FLATPAK, Some Scope_USER), (Src_FLATPAK, Some Scope_SYSTEM), (Src_MISE, None),
     (Src_SECURITY, None), (Src_CISA_KEV, None)]"

definition resolve_all ::
  "SourceOutcome option list \<Rightarrow> GenerationBundle option \<Rightarrow> datetime \<Rightarrow> ResolvedOutcome list result"
where
  "resolve_all outcomes previous now =
     bindE (mapE (\<lambda>(current, source, scope). resolve current source scope previous now)
              (zip outcomes identities))
       (\<lambda>resolved. thenE (checkE (length outcomes = length identities)
                           (PythonError (lit ''zip() argument lengths differ'')))
          (Inr resolved))"

section \<open>Assembly\<close>

definition RETRY_DELAYS :: "timedelta list" where
  "RETRY_DELAYS = [minutes 5, minutes 15, hours 1, hours 6]"

definition OMARCHY_SYSTEM_IDS :: "ustr set" where
  "OMARCHY_SYSTEM_IDS = {lit ''arch:omarchy'', lit ''arch:omarchy-dev''}"

definition MANDATORY_SOURCES :: "SourceName set" where
  "MANDATORY_SOURCES = {Src_OMARCHY, Src_ARCH, Src_SECURITY}"

definition scope_health :: "ResolvedOutcome \<Rightarrow> ScopeHealth result" where
  "scope_health resolved =
     (case ro_health resolved of
        HScope health \<Rightarrow>
          Inr (if sc_status health = Status_MISSING_DEPENDENCY
               then health\<lparr>sc_status := Status_NOT_APPLICABLE, sc_cause := None\<rparr> else health)
      | HSource _ \<Rightarrow> Inl (failv INVALID_ENVELOPE ''Flatpak scope health is invalid''))"

definition source_health :: "ResolvedOutcome \<Rightarrow> SourceHealth result" where
  "source_health resolved =
     (case ro_health resolved of
        HSource health \<Rightarrow> Inr health
      | HScope _ \<Rightarrow> Inl (failv INVALID_ENVELOPE ''source health is scoped''))"

definition is_applicable :: "ResolvedOutcome \<Rightarrow> bool" where
  "is_applicable resolved \<longleftrightarrow>
     so_applicable (ro_outcome resolved) \<and>
     \<not> (so_source (ro_outcome resolved) = Src_FLATPAK
        \<and> so_status (ro_outcome resolved) = Status_MISSING_DEPENDENCY)"

definition flatpak_status :: "ScopeHealth \<Rightarrow> ScopeHealth \<Rightarrow> SourceStatus" where
  "flatpak_status user system =
     (let statuses = {sc_status user, sc_status system}
      in if Status_STALE \<in> statuses then Status_STALE
         else if Status_OK \<in> statuses \<and> statuses \<subseteq> {Status_OK, Status_NOT_APPLICABLE} then Status_OK
         else if statuses = {Status_NOT_APPLICABLE} then Status_NOT_APPLICABLE
         else if sc_status user \<noteq> Status_NOT_APPLICABLE then sc_status user
         else sc_status system)"

definition flatpak_provenance :: "ScopeHealth \<Rightarrow> ScopeHealth \<Rightarrow> Provenance" where
  "flatpak_provenance user system =
     (if Status_STALE \<in> {sc_status user, sc_status system} then Prov_LAST_GOOD else Prov_LIVE)"

definition flatpak_cause :: "ScopeHealth \<Rightarrow> ScopeHealth \<Rightarrow> ErrorInfo option" where
  "flatpak_cause user system =
     (if sc_cause user \<noteq> None then sc_cause user else sc_cause system)"

definition flatpak_health :: "ScopeHealth \<Rightarrow> ScopeHealth \<Rightarrow> datetime \<Rightarrow> SourceHealth" where
  "flatpak_health user system now =
     \<lparr>sh_source = Src_FLATPAK, sh_status = flatpak_status user system,
      sh_provenance = flatpak_provenance user system, sh_observed_at = now,
      sh_fresh_until = min (sc_fresh_until user) (sc_fresh_until system),
      sh_cause = flatpak_cause user system, sh_scopes = [user, system]\<rparr>"

definition source_healths :: "ResolvedOutcome list \<Rightarrow> datetime \<Rightarrow> SourceHealth list result" where
  "source_healths resolved now =
     bindE (mapE source_health
              (filter (\<lambda>v. so_source (ro_outcome v) \<noteq> Src_FLATPAK) resolved)) (\<lambda>basic.
       case filter (\<lambda>v. so_source (ro_outcome v) = Src_FLATPAK) resolved of
         [user, system] \<Rightarrow>
           bindE (scope_health user) (\<lambda>user_health.
           bindE (scope_health system) (\<lambda>system_health.
             Inr (sort_key (\<lambda>h. source_name_value (sh_source h))
                    (basic @ [flatpak_health user_health system_health now]))))
       | _ \<Rightarrow> Inl (PythonError (lit ''wrong number of values to unpack'')))"

definition fingerprinted :: "NormalizedItem \<Rightarrow> NormalizedItem" where
  "fingerprinted item =
     item\<lparr>ni_installed_fingerprint :=
            fingerprint_of (ni_source item) (ni_item_id item) (ni_installed item),
          ni_candidate_fingerprint :=
            fingerprint_of (ni_source item) (ni_item_id item) (ni_candidate item)\<rparr>"

definition normalized_items :: "ResolvedOutcome list \<Rightarrow> NormalizedItem list result" where
  "normalized_items resolved =
     (let items = filter (\<lambda>i. ni_item_id i \<notin> OMARCHY_SYSTEM_IDS) (concat (map ro_items resolved));
          fingerprints = map fingerprinted items
      in thenE (checkE (distinct (map ni_item_id fingerprints))
                  (failv DUPLICATE_ITEM_ID ''scan item IDs are duplicated''))
           (Inr (sort_key ni_item_id fingerprints)))"

definition normalized_findings :: "ResolvedOutcome list \<Rightarrow> SecurityFindingGroup list" where
  "normalized_findings resolved = sort_key sg_item_id (concat (map ro_findings resolved))"

definition summary_of ::
  "NormalizedItem list \<Rightarrow> SecurityFindingGroup list \<Rightarrow> SourceHealth list \<Rightarrow> Summary" where
  "summary_of items findings sources =
     \<lparr>su_total_updates = int (length items),
      su_watched_updates = int (length (filter (\<lambda>i. ni_watch_mode i \<noteq> Watch_OFF) items)),
      su_security_findings = int (sum_list (map (\<lambda>g. length (sg_findings g)) findings)),
      su_degraded_sources =
        int (length (filter (\<lambda>s. sh_status s \<notin> {Status_OK, Status_NOT_APPLICABLE}) sources))\<rparr>"

definition scan_state_of :: "ResolvedOutcome list \<Rightarrow> ScanState" where
  "scan_state_of resolved =
     (let mandatory = filter (\<lambda>v. so_source (ro_outcome v) \<in> MANDATORY_SOURCES
            \<or> (so_source (ro_outcome v) = Src_AUR \<and> so_applicable (ro_outcome v))) resolved;
          applicable = filter is_applicable resolved
      in if \<not> list_ex ro_usable mandatory then Scan_FAILED
         else if list_all (\<lambda>v. successful (ro_outcome v) \<and> health_status (ro_health v) = Status_OK)
                   applicable then Scan_COMPLETE
         else if list_ex ro_usable applicable then Scan_PARTIAL
         else Scan_FAILED)"

definition inventories_of :: "datetime \<Rightarrow> ustr \<Rightarrow> NormalizedItem list \<Rightarrow> InventoryResponse list" where
  "inventories_of generated_at generation_id items =
     map (\<lambda>source.
       let source_items = filter (\<lambda>i. ni_source i = source) items
       in \<lparr>ir_generated_at = generated_at, ir_generation_id = generation_id,
           ir_payload = \<lparr>ip_source = source, ip_total = int (length source_items),
                         ip_items = source_items\<rparr>,
           ir_protocol_version = PROTOCOL_VERSION\<rparr>)
     [Item_ARCH, Item_AUR, Item_FLATPAK, Item_MISE]"

definition last_good_keys_of :: "GenerationBundle option \<Rightarrow> ResolvedOutcome list \<Rightarrow> ustr list" where
  "last_good_keys_of previous resolved =
     (let retained = (case previous of None \<Rightarrow> [] | Some p \<Rightarrow> gb_last_good_keys p)
      in sort (remdups (retained @ map (\<lambda>v. so_key (ro_outcome v))
                 (filter (\<lambda>v. successful (ro_outcome v)) resolved))))"

text \<open>
  \<open>RETRY_DELAYS[min(count, 4) - 1]\<close> with \<open>count\<close> at least one, as the failure count of a validated
  state is not negative.
\<close>

definition retry_delay :: "int \<Rightarrow> timedelta" where
  "retry_delay failures = RETRY_DELAYS ! nat (min failures (int (length RETRY_DELAYS)) - 1)"

definition next_metadata ::
  "SourceName \<Rightarrow> SourceOutcome option list \<Rightarrow> SourceMetadata option \<Rightarrow> datetime \<Rightarrow> SourceMetadata"
where
  "next_metadata source current previous now =
     (let old = (case previous of
            None \<Rightarrow> \<lparr>sm_source = source, sm_last_success = None, sm_backoff_until = None,
                    sm_failure_count = 0, sm_permanent_failure = False\<rparr>
          | Some p \<Rightarrow> p);
          attempted = collect_some (\<lambda>oc. oc) current
      in case attempted of
           [] \<Rightarrow> old
         | _ \<Rightarrow>
           (case find (\<lambda>oc. \<not> successful oc) attempted of
              None \<Rightarrow> \<lparr>sm_source = source, sm_last_success = Some now, sm_backoff_until = None,
                      sm_failure_count = 0, sm_permanent_failure = False\<rparr>
            | Some failure \<Rightarrow>
                let failures = sm_failure_count old + 1
                in if so_permanent failure
                   then \<lparr>sm_source = source, sm_last_success = sm_last_success old,
                         sm_backoff_until = Some (now + last RETRY_DELAYS),
                         sm_failure_count = failures, sm_permanent_failure = True\<rparr>
                   else \<lparr>sm_source = source, sm_last_success = sm_last_success old,
                         sm_backoff_until = Some (now + retry_delay failures),
                         sm_failure_count = failures, sm_permanent_failure = False\<rparr>))"

definition metadata_of ::
  "SourceMetadata list \<Rightarrow> (SourceName \<times> SourceOutcome option list) list \<Rightarrow> datetime
     \<Rightarrow> SourceMetadata list" where
  "metadata_of previous outcomes now =
     map (\<lambda>(source, current).
       next_metadata source current (find (\<lambda>e. sm_source e = source) previous) now) outcomes"

section \<open>Generations\<close>

record ScanInputs =
  si_omarchy :: "SourceOutcome option"
  si_arch :: "SourceOutcome option"
  si_aur :: "SourceOutcome option"
  si_flatpak_user :: "SourceOutcome option"
  si_flatpak_system :: "SourceOutcome option"
  si_mise :: "SourceOutcome option"
  si_security :: "SourceOutcome option"
  si_cisa_kev :: "SourceOutcome option"

definition outcomes_of :: "ScanInputs \<Rightarrow> SourceOutcome option list" where
  "outcomes_of i = [si_omarchy i, si_arch i, si_aur i, si_flatpak_user i, si_flatpak_system i,
     si_mise i, si_security i, si_cisa_kev i]"

definition source_outcomes_of ::
  "ScanInputs \<Rightarrow> (SourceName \<times> SourceOutcome option list) list" where
  "source_outcomes_of i = [(Src_OMARCHY, [si_omarchy i]), (Src_ARCH, [si_arch i]),
     (Src_AUR, [si_aur i]), (Src_FLATPAK, [si_flatpak_user i, si_flatpak_system i]),
     (Src_MISE, [si_mise i]), (Src_SECURITY, [si_security i]), (Src_CISA_KEV, [si_cisa_kev i])]"

definition due :: "SourceMetadata option \<Rightarrow> datetime \<Rightarrow> bool \<Rightarrow> bool" where
  "due metadata now force =
     (if force then True
      else case metadata of None \<Rightarrow> True
        | Some m \<Rightarrow>
            if (case sm_backoff_until m of None \<Rightarrow> False | Some t \<Rightarrow> now < t) then False
            else (case sm_last_success m of None \<Rightarrow> True | Some t \<Rightarrow> t + FRESHNESS \<le> now))"

definition build_generation ::
  "ustr \<Rightarrow> int \<Rightarrow> ScanInputs \<Rightarrow> GenerationBundle option \<Rightarrow> PersistentState \<Rightarrow> datetime
     \<Rightarrow> GenerationBundle result" where
  "build_generation generation_id order inputs previous state now =
     bindE (resolve_all (outcomes_of inputs) previous now) (\<lambda>resolved.
     bindE (source_healths resolved now) (\<lambda>sources.
     bindE (normalized_items resolved) (\<lambda>items.
       let findings = normalized_findings resolved;
           snapshot = \<lparr>sr_generated_at = now, sr_generation_id = generation_id,
             sr_payload = \<lparr>sp_scan_state = scan_state_of resolved, sp_sources = sources,
               sp_summary = summary_of items findings sources, sp_items = items,
               sp_findings = findings, sp_notifications = []\<rparr>,
             sr_protocol_version = PROTOCOL_VERSION\<rparr>
       in Inr \<lparr>gb_order = order, gb_snapshot = snapshot,
               gb_inventories = inventories_of now generation_id items,
               gb_state = state\<lparr>ps_sources :=
                 metadata_of (ps_sources state) (source_outcomes_of inputs) now\<rparr>,
               gb_last_good = snapshot,
               gb_last_good_keys = last_good_keys_of previous resolved\<rparr>)))"

end
