(* ===== verification/Json.thy ===== *)
theory Json
  imports Models Python_Text
begin

text \<open>
  JSON as the helper uses it: \<open>json_value.py\<close> in full (\<open>decode_json\<close> with its two hooks and the
  normalization that bounds the nesting and rejects surrogates) over the standard library's scanner,
  and the compact, key-sorted printer \<open>json.dumps(..., ensure_ascii=False, separators=(",", ":"),
  sort_keys=True)\<close> that every encoder of the helper calls.

  The scanner is the one of CPython's \<open>_json\<close>: blanks are space, tab, line feed and carriage
  return; strings are strict; an escape \<open>\\uXXXX\<close> takes four hexadecimal digits and a pair of
  surrogates is joined; \<open>NaN\<close>, \<open>Infinity\<close> and \<open>-Infinity\<close> reach \<open>_reject_constant\<close>, which raises
  the same error as any other text that is not JSON. An integer literal of more than 4300 digits
  makes \<open>int\<close> raise a plain \<open>ValueError\<close>, which \<open>decode_json\<close> does not catch. Where CPython runs out
  of stack it raises \<open>RecursionError\<close>, which \<open>decode_json\<close> turns into \<open>MALFORMED_JSON\<close>; such a text
  nests far deeper than \<open>MAX_JSON_DEPTH\<close> and has that error code without a stack limit as well, so
  the model has none.
\<close>

section \<open>Values\<close>

text \<open>
  A dict is an association list in insertion order with distinct keys; a float is kept as its
  literal, since the helper never computes with one and never prints one.
\<close>

datatype JsonValue =
    JNull
  | JBool bool
  | JInt int
  | JFloat ustr
  | JStr ustr
  | JArr "JsonValue list"
  | JObj "(ustr \<times> JsonValue) list"

type_synonym JsonObject = "(ustr \<times> JsonValue) list"

definition MAX_JSON_DEPTH :: nat where
  "MAX_JSON_DEPTH = 100"

definition json_fail :: "string \<Rightarrow> exn" where
  "json_fail message = protocol_fail MALFORMED_JSON (lit message)"

abbreviation not_json :: exn where
  "not_json \<equiv> json_fail ''input is not valid JSON''"

section \<open>Lexical scanning\<close>

definition is_blank :: "nat \<Rightarrow> bool" where
  "is_blank c \<longleftrightarrow> c = 32 \<or> c = 9 \<or> c = 10 \<or> c = 13"

definition skip_ws :: "ustr \<Rightarrow> ustr" where
  "skip_ws s = dropWhile is_blank s"

definition hex_value :: "nat \<Rightarrow> nat option" where
  "hex_value c =
     (if 48 \<le> c \<and> c \<le> 57 then Some (c - 48)
      else if 97 \<le> c \<and> c \<le> 102 then Some (c - 87)
      else if 65 \<le> c \<and> c \<le> 70 then Some (c - 55)
      else None)"

text \<open>The four digits after \<open>\\u\<close>, with the text after them.\<close>

fun scan_hex4 :: "ustr \<Rightarrow> (nat \<times> ustr) option" where
  "scan_hex4 (a # b # c # d # r) =
     (case (hex_value a, hex_value b, hex_value c, hex_value d) of
        (Some p, Some q, Some u, Some v) \<Rightarrow> Some (((p * 16 + q) * 16 + u) * 16 + v, r)
      | _ \<Rightarrow> None)"
| "scan_hex4 _ = None"

definition is_high_surrogate :: "nat \<Rightarrow> bool" where
  "is_high_surrogate c \<longleftrightarrow> 0xD800 \<le> c \<and> c \<le> 0xDBFF"

definition is_low_surrogate :: "nat \<Rightarrow> bool" where
  "is_low_surrogate c \<longleftrightarrow> 0xDC00 \<le> c \<and> c \<le> 0xDFFF"

definition simple_escape :: "nat \<Rightarrow> nat option" where
  "simple_escape e = map_of [(34, 34), (92, 92), (47, 47), (98, 8), (102, 12), (110, 10), (114, 13),
     (116, 9)] e"

text \<open>What follows a backslash: the character it denotes and the text after the escape.\<close>

definition scan_escape :: "ustr \<Rightarrow> (nat \<times> ustr) option" where
  "scan_escape s =
     (case s of
        [] \<Rightarrow> None
      | e # r \<Rightarrow>
          if e \<noteq> 117 then map_option (\<lambda>c. (c, r)) (simple_escape e)
          else (case scan_hex4 r of
             None \<Rightarrow> None
           | Some (c, r') \<Rightarrow>
               if is_high_surrogate c \<and> prefix [92, 117] r'
               then (case scan_hex4 (drop 2 r') of
                  None \<Rightarrow> None
                | Some (d, r'') \<Rightarrow>
                    if is_low_surrogate d
                    then Some (0x10000 + (c - 0xD800) * 0x400 + (d - 0xDC00), r'')
                    else Some (c, r'))
               else Some (c, r')))"

lemma scan_hex4_shorter: "scan_hex4 s = Some (c, r) \<Longrightarrow> length r < length s"
  by (induction s rule: scan_hex4.induct) (auto split: option.splits)

lemma scan_escape_shorter: "scan_escape s = Some (c, r) \<Longrightarrow> length r < length s"
  by (auto simp: scan_escape_def split: list.splits if_splits option.splits
      dest!: scan_hex4_shorter)

text \<open>The characters up to the closing quote, and the text after it.\<close>

function (sequential) scanstring :: "ustr \<Rightarrow> (ustr \<times> ustr) option" where
  "scanstring [] = None"
| "scanstring (c # cs) =
     (if c = 34 then Some ([], cs)
      else if c < 32 then None
      else if c = 92 then
        (case scan_escape cs of
           None \<Rightarrow> None
         | Some (d, r) \<Rightarrow> map_option (\<lambda>(t, e). (d # t, e)) (scanstring r))
      else map_option (\<lambda>(t, e). (c # t, e)) (scanstring cs))"
  by pat_completeness auto
termination
  by (relation "measure length") (auto dest!: scan_escape_shorter)

lemma scanstring_shorter: "scanstring s = Some (t, r) \<Longrightarrow> length r < length s"
proof (induction s arbitrary: t rule: scanstring.induct)
  case 1
  then show ?case by simp
next
  case (2 c cs)
  show ?case
  proof (cases "c = 92")
    case True
    with 2(3) obtain d q t' where q: "scan_escape cs = Some (d, q)" "scanstring q = Some (t', r)"
      by (auto split: option.splits)
    have "length r < length q"
      by (rule 2(1) [OF _ _ True q(1) refl q(2)]) (use True in auto)
    with scan_escape_shorter [OF q(1)] show ?thesis by simp
  next
    case False
    with 2(2, 3) show ?thesis
      by (auto split: if_splits dest: less_Suc_eq [THEN iffD2])
  qed
qed

text \<open>
  The number pattern \<open>-?(0|[1-9][0-9]*)(\\.[0-9]+)?([eE][-+]?[0-9]+)?\<close>: the integer part, the
  fraction with the exponent, and the text after the longest match.
\<close>

definition scan_fraction :: "ustr \<Rightarrow> ustr" where
  "scan_fraction s =
     (if take 1 s = lit ''.'' \<and> takeWhile is_digit (drop 1 s) \<noteq> []
      then lit ''.'' @ takeWhile is_digit (drop 1 s) else [])"

definition scan_exponent :: "ustr \<Rightarrow> ustr" where
  "scan_exponent s =
     (if take 1 s = lit ''e'' \<or> take 1 s = lit ''E''
      then let sign = (if take 1 (drop 1 s) = lit ''-'' \<or> take 1 (drop 1 s) = lit ''+''
                       then take 1 (drop 1 s) else []);
               digits = takeWhile is_digit (drop (1 + length sign) s)
           in if digits = [] then [] else take 1 s @ sign @ digits
      else [])"

definition scan_number :: "ustr \<Rightarrow> (ustr \<times> ustr \<times> ustr) option" where
  "scan_number s =
     (let sign = (if take 1 s = lit ''-'' then lit ''-'' else []);
          body = drop (length sign) s;
          digits = (if take 1 body = lit ''0'' then lit ''0'' else takeWhile is_digit body);
          rest = drop (length digits) body;
          fraction = scan_fraction rest;
          exponent = scan_exponent (drop (length fraction) rest);
          tail = fraction @ exponent
      in if digits = [] then None else Some (sign @ digits, tail, drop (length tail) rest))"

definition MAX_INT_DIGITS :: nat where
  "MAX_INT_DIGITS = 4300"

definition int_literal :: "ustr \<Rightarrow> int result" where
  "int_literal s =
     (let negative = (take 1 s = lit ''-'');
          digits = (if negative then drop 1 s else s)
      in if MAX_INT_DIGITS < length digits
         then Inl (PythonError (lit ''ValueError: Exceeds the limit for integer string conversion''))
         else Inr (if negative then - int_of_digits digits else int_of_digits digits))"

text \<open>A key of an object with its colon: the key and the text after the colon.\<close>

definition scan_key :: "ustr \<Rightarrow> (ustr \<times> ustr) option" where
  "scan_key s =
     (case skip_ws s of
        [] \<Rightarrow> None
      | c # cs \<Rightarrow>
          if c \<noteq> 34 then None
          else (case scanstring cs of
             None \<Rightarrow> None
           | Some (key, r) \<Rightarrow>
               (case skip_ws r of [] \<Rightarrow> None | d # r' \<Rightarrow> if d = 58 then Some (key, r') else None)))"

lemma skip_ws_shorter: "length (skip_ws s) \<le> length s"
  by (simp add: skip_ws_def length_dropWhile_le)

lemma skip_ws_Cons_shorter: "skip_ws s = c # r \<Longrightarrow> length r < length s"
  using skip_ws_shorter [of s] by simp

lemma scan_key_shorter: "scan_key s = Some (k, r) \<Longrightarrow> length r < length s"
  by (auto simp: scan_key_def split: list.splits if_splits option.splits
      dest!: scanstring_shorter skip_ws_Cons_shorter)

lemma scan_number_shorter:
  assumes "scan_number s = Some (i, f, r)"
  shows "length r < length s"
proof -
  define body where "body = drop (length (if take 1 s = lit ''-'' then lit ''-'' else [])) s"
  define digits where "digits = (if take 1 body = lit ''0'' then lit ''0'' else takeWhile is_digit body)"
  from assms have d: "digits \<noteq> []" and r: "\<exists>n. r = drop n (drop (length digits) body)"
    by (auto simp: scan_number_def Let_def body_def digits_def split: if_splits)
  from d have "body \<noteq> []" by (auto simp: digits_def)
  with d r have "length r < length body" by (auto simp: digits_def)
  then show ?thesis by (simp add: body_def)
qed

section \<open>Scanning a document\<close>

text \<open>
  \<open>scan_once\<close> with \<open>JSONArray\<close> and \<open>JSONObject\<close>: the recursion of the source is the stack of the
  arrays and objects that are open. \<open>scan_value\<close> reads the next value, \<open>scan_after\<close> what follows a
  complete one. \<open>_unique_object\<close> runs when an object ends.
\<close>

datatype frame = FArr "JsonValue list" | FObj "JsonObject" ustr

fun unique_object :: "JsonObject \<Rightarrow> JsonObject \<Rightarrow> JsonObject result" where
  "unique_object acc [] = Inr acc"
| "unique_object acc ((key, item) # pairs) =
     (if key \<in> fst ` set acc then Inl (json_fail ''input contains a duplicate object key'')
      else unique_object (acc @ [(key, item)]) pairs)"

lemma literal_shorter: "prefix w s \<Longrightarrow> w \<noteq> [] \<Longrightarrow> length (drop (length w) s) < length s"
  by (cases s) (auto simp: prefix_def)

function (sequential) scan_value :: "frame list \<Rightarrow> ustr \<Rightarrow> JsonValue result"
  and scan_after :: "frame list \<Rightarrow> JsonValue \<Rightarrow> ustr \<Rightarrow> JsonValue result"
  where
  "scan_value stack s =
     (case skip_ws s of
        [] \<Rightarrow> Inl not_json
      | c # cs \<Rightarrow>
          if c = 34 then
            (case scanstring cs of None \<Rightarrow> Inl not_json | Some (t, r) \<Rightarrow> scan_after stack (JStr t) r)
          else if c = 123 then
            (case skip_ws cs of
               [] \<Rightarrow> Inl not_json
             | d # r \<Rightarrow>
                 if d = 125 then scan_after stack (JObj []) r
                 else (case scan_key cs of None \<Rightarrow> Inl not_json
                       | Some (key, r') \<Rightarrow> scan_value (FObj [] key # stack) r'))
          else if c = 91 then
            (case skip_ws cs of
               [] \<Rightarrow> Inl not_json
             | d # r \<Rightarrow>
                 if d = 93 then scan_after stack (JArr []) r
                 else scan_value (FArr [] # stack) cs)
          else if prefix (lit ''null'') (c # cs) then scan_after stack JNull (drop 4 (c # cs))
          else if prefix (lit ''true'') (c # cs) then scan_after stack (JBool True) (drop 4 (c # cs))
          else if prefix (lit ''false'') (c # cs) then
            scan_after stack (JBool False) (drop 5 (c # cs))
          else
            (case scan_number (c # cs) of
               None \<Rightarrow> Inl not_json
             | Some (integer, tail, r) \<Rightarrow>
                 if tail \<noteq> [] then scan_after stack (JFloat (integer @ tail)) r
                 else (case int_literal integer of Inl e \<Rightarrow> Inl e
                       | Inr i \<Rightarrow> scan_after stack (JInt i) r)))"
| "scan_after [] v s = (if skip_ws s = [] then Inr v else Inl not_json)"
| "scan_after (FArr vs # stack) v s =
     (case skip_ws s of
        [] \<Rightarrow> Inl not_json
      | c # r \<Rightarrow>
          if c = 93 then scan_after stack (JArr (vs @ [v])) r
          else if c = 44 then scan_value (FArr (vs @ [v]) # stack) r
          else Inl not_json)"
| "scan_after (FObj ps key # stack) v s =
     (case skip_ws s of
        [] \<Rightarrow> Inl not_json
      | c # r \<Rightarrow>
          if c = 125 then
            (case unique_object [] (ps @ [(key, v)]) of Inl e \<Rightarrow> Inl e
             | Inr d \<Rightarrow> scan_after stack (JObj d) r)
          else if c = 44 then
            (case scan_key r of None \<Rightarrow> Inl not_json
             | Some (key', r') \<Rightarrow> scan_value (FObj (ps @ [(key, v)]) key' # stack) r')
          else Inl not_json)"
  by pat_completeness auto
termination
  apply (relation "measure (case_sum (\<lambda>(_, s). length s) (\<lambda>(_, _, s). length s))")
  apply (auto dest!: scanstring_shorter scan_key_shorter skip_ws_Cons_shorter scan_number_shorter)
  done

definition loads :: "ustr \<Rightarrow> JsonValue result" where
  "loads s = scan_value [] s"

section \<open>Normalization\<close>

definition is_surrogate :: "nat \<Rightarrow> bool" where
  "is_surrogate c \<longleftrightarrow> 0xD800 \<le> c \<and> c \<le> 0xDFFF"

definition reject_surrogate :: "ustr \<Rightarrow> unit result" where
  "reject_surrogate s =
     checkE (\<not> list_ex is_surrogate s) (json_fail ''input contains an unpaired surrogate'')"

definition within_depth :: "nat \<Rightarrow> unit result" where
  "within_depth depth =
     checkE (\<not> MAX_JSON_DEPTH < depth) (json_fail ''input exceeds the JSON nesting limit'')"

primrec normalize :: "JsonValue \<Rightarrow> nat \<Rightarrow> JsonValue result" where
  "normalize JNull depth = thenE (within_depth depth) (Inr JNull)"
| "normalize (JBool b) depth = thenE (within_depth depth) (Inr (JBool b))"
| "normalize (JInt i) depth = thenE (within_depth depth) (Inr (JInt i))"
| "normalize (JFloat f) depth = thenE (within_depth depth) (Inr (JFloat f))"
| "normalize (JStr s) depth = thenE (within_depth depth) (thenE (reject_surrogate s) (Inr (JStr s)))"
| "normalize (JArr vs) depth = thenE (within_depth depth)
     (bindE (mapE (\<lambda>item. item (depth + 1)) (map normalize vs)) (\<lambda>ws. Inr (JArr ws)))"
| "normalize (JObj ps) depth = thenE (within_depth depth)
     (bindE (mapE (\<lambda>(key, item). thenE (reject_surrogate key)
                     (bindE (item (depth + 1)) (\<lambda>w. Inr (key, w))))
               (map (map_prod id normalize) ps))
        (\<lambda>qs. Inr (JObj qs)))"

definition decode_json :: "ustr \<Rightarrow> JsonValue result" where
  "decode_json s = bindE (loads s) (\<lambda>v. normalize v 0)"

section \<open>Printing\<close>

text \<open>
  \<open>ESCAPE_DCT\<close>: the two-character escapes, and \<open>\\u00XX\<close> in lower case for the other control
  characters.
\<close>

definition hex_digit_lower :: "nat \<Rightarrow> nat" where
  "hex_digit_lower n = (if n < 10 then 48 + n else 87 + n)"

definition escape_json_char :: "nat \<Rightarrow> ustr" where
  "escape_json_char c =
     (if c = 92 then [92, 92]
      else if c = 34 then [92, 34]
      else if c = 8 then [92, 98]
      else if c = 12 then [92, 102]
      else if c = 10 then [92, 110]
      else if c = 13 then [92, 114]
      else if c = 9 then [92, 116]
      else if c < 32 then [92, 117, 48, 48, hex_digit_lower (c div 16), hex_digit_lower (c mod 16)]
      else [c])"

definition quote :: "ustr \<Rightarrow> ustr" where
  "quote s = [34] @ concat (map escape_json_char s) @ [34]"

primrec json_text :: "JsonValue \<Rightarrow> ustr" where
  "json_text JNull = lit ''null''"
| "json_text (JBool b) = (if b then lit ''true'' else lit ''false'')"
| "json_text (JInt i) = str_int i"
| "json_text (JFloat f) = f"
| "json_text (JStr s) = quote s"
| "json_text (JArr vs) = [91] @ join [44] (map json_text vs) @ [93]"
| "json_text (JObj ps) =
     [123] @ join [44] (map (\<lambda>(key, item). quote key @ [58] @ item)
                         (sort_key fst (map (map_prod id json_text) ps))) @ [125]"

text \<open>
  Printing an integer of more than 4300 digits raises \<open>ValueError\<close>, encoding a surrogate raises
  \<open>UnicodeEncodeError\<close>.
\<close>

primrec ints_printable :: "JsonValue \<Rightarrow> bool" where
  "ints_printable JNull \<longleftrightarrow> True"
| "ints_printable (JBool b) \<longleftrightarrow> True"
| "ints_printable (JInt i) \<longleftrightarrow> length (str_nat (nat \<bar>i\<bar>)) \<le> MAX_INT_DIGITS"
| "ints_printable (JFloat f) \<longleftrightarrow> True"
| "ints_printable (JStr s) \<longleftrightarrow> True"
| "ints_printable (JArr vs) \<longleftrightarrow> list_all id (map ints_printable vs)"
| "ints_printable (JObj ps) \<longleftrightarrow> list_all snd (map (map_prod id ints_printable) ps)"

definition dumps :: "JsonValue \<Rightarrow> ustr result" where
  "dumps v =
     (if ints_printable v then Inr (json_text v)
      else Inl (PythonError (lit ''ValueError: Exceeds the limit for integer string conversion'')))"

definition encode_utf8 :: "ustr \<Rightarrow> bytes result" where
  "encode_utf8 s =
     (if list_all scalar_value s then Inr (utf8_encode s)
      else Inl (PythonError (lit ''UnicodeEncodeError: surrogates not allowed'')))"

text \<open>\<open>json.dumps(value, ...).encode("utf-8") + b"\\n"\<close>, as every encoder of the helper writes it.\<close>

definition json_bytes :: "JsonValue \<Rightarrow> bytes result" where
  "json_bytes v = bindE (dumps v) (\<lambda>s. bindE (encode_utf8 s) (\<lambda>b. Inr (b @ [10])))"

section \<open>What scanning makes of a printed value\<close>

lemma scan_hex4_control:
  assumes "c < 32"
  shows "scan_hex4 (48 # 48 # hex_digit_lower (c div 16) # hex_digit_lower (c mod 16) # r) = Some (c, r)"
proof -
  have "c mod 16 < 16" "c div 16 < 16" using assms by auto
  then have "hex_value (hex_digit_lower (c div 16)) = Some (c div 16)"
    "hex_value (hex_digit_lower (c mod 16)) = Some (c mod 16)"
    by (auto simp: hex_value_def hex_digit_lower_def)
  moreover have "hex_value 48 = Some 0" by (simp add: hex_value_def)
  ultimately show ?thesis by simp
qed

lemma scanstring_escaped:
  "scanstring (escape_json_char c @ cs) = map_option (\<lambda>(t, e). (c # t, e)) (scanstring cs)"
proof -
  have "\<not> is_high_surrogate c" if "c < 32" using that by (simp add: is_high_surrogate_def)
  then show ?thesis
    by (auto simp: escape_json_char_def scan_escape_def simple_escape_def scan_hex4_control
        simp del: scan_hex4.simps split: option.splits)
qed

lemma scanstring_quoted: "scanstring (concat (map escape_json_char s) @ 34 # r) = Some (s, r)"
  by (induction s) (simp_all add: scanstring_escaped del: scanstring.simps(2), simp)

lemma str_nat_hd: "hd (str_nat n) = 48 \<longleftrightarrow> n = 0"
proof (induction n rule: str_nat.induct)
  case (1 n)
  show ?case
  proof (cases "n < 10")
    case True
    then show ?thesis by (subst str_nat.simps) auto
  next
    case False
    with 1 show ?thesis by (subst str_nat.simps) auto
  qed
qed

definition delimited :: "ustr \<Rightarrow> bool" where
  "delimited r \<longleftrightarrow> r = [] \<or> hd r = 44 \<or> hd r = 93 \<or> hd r = 125 \<or> hd r = 10"

lemma takeWhile_str_nat:
  assumes "delimited r"
  shows "takeWhile is_digit (str_nat n @ r) = str_nat n"
proof -
  have "takeWhile is_digit r = []"
    using assms by (cases r) (auto simp: delimited_def is_digit_def)
  moreover have "\<forall>c \<in> set (str_nat n). is_digit c"
    using str_nat_digits [of n] by (simp add: list_all_iff)
  ultimately show ?thesis by (simp add: takeWhile_append2)
qed

lemma no_tail:
  assumes "delimited r"
  shows "scan_fraction r = []" "scan_exponent r = []"
  using assms
  by (cases r; auto simp: delimited_def scan_fraction_def scan_exponent_def lit_def)+

lemma str_nat_0: "str_nat 0 = [48]"
  by (simp add: str_nat.simps)

lemma scan_digits:
  assumes "delimited r"
  shows "(if take 1 (str_nat n @ r) = lit ''0'' then lit ''0'' else takeWhile is_digit (str_nat n @ r))
    = str_nat n"
proof (cases "n = 0")
  case True
  then show ?thesis by (simp add: str_nat_0 lit_def)
next
  case False
  moreover obtain a as where "str_nat n = a # as" by (cases "str_nat n") auto
  ultimately have "take 1 (str_nat n @ r) \<noteq> lit ''0''"
    using str_nat_hd [of n] by (simp add: lit_def)
  with takeWhile_str_nat [OF assms] show ?thesis by simp
qed

lemma drop_length_append: "drop (length xs) (xs @ ys) = ys"
  by simp

lemma scan_number_digits:
  assumes "delimited r" and "sign = [] \<or> sign = lit ''-''"
  shows "scan_number (sign @ str_nat n @ r) = Some (sign @ str_nat n, [], r)"
proof -
  obtain a as where a: "str_nat n = a # as" by (cases "str_nat n") auto
  then have "is_digit a" using str_nat_digits [of n] by simp
  then have "take 1 (str_nat n @ r) \<noteq> lit ''-''"
    by (simp add: a lit_def is_digit_def)
  with assms(2) have sign: "(if take 1 (sign @ str_nat n @ r) = lit ''-'' then lit ''-'' else []) = sign"
    by (auto simp: lit_def)
  show ?thesis
    unfolding scan_number_def sign Let_def
    by (simp only: drop_length_append scan_digits [OF assms(1)] no_tail [OF assms(1)]
        str_nat_not_Nil if_False list.size drop_0 append_Nil2)
qed

lemma scan_number_int:
  assumes "delimited r"
  shows "scan_number (str_int i @ r) = Some (str_int i, [], r)"
  using scan_number_digits [OF assms, of "[]"] scan_number_digits [OF assms, of "lit ''-''"]
  by (simp add: str_int_def)

lemma int_literal_str_int:
  assumes "length (str_nat (nat \<bar>i\<bar>)) \<le> MAX_INT_DIGITS"
  shows "int_literal (str_int i) = Inr i"
proof (cases "i < 0")
  case True
  with assms show ?thesis
    by (simp add: int_literal_def str_int_def lit_def int_of_digits_str_nat)
next
  case False
  obtain a as where a: "str_nat (nat i) = a # as" by (cases "str_nat (nat i)") auto
  then have "is_digit a" using str_nat_digits [of "nat i"] by simp
  with False assms a show ?thesis
    using int_of_digits_str_nat [of "nat i"]
    by (simp add: int_literal_def str_int_def lit_def is_digit_def)
qed

section \<open>Round trip\<close>

text \<open>
  A value that can be printed: no float, every text without surrogates, and objects with distinct
  keys, as dicts have them. \<open>canon\<close> is the value with every object in the order of its keys.
\<close>

primrec json_ok :: "JsonValue \<Rightarrow> bool" where
  "json_ok JNull \<longleftrightarrow> True"
| "json_ok (JBool b) \<longleftrightarrow> True"
| "json_ok (JInt i) \<longleftrightarrow> True"
| "json_ok (JFloat f) \<longleftrightarrow> False"
| "json_ok (JStr s) \<longleftrightarrow> list_all scalar_value s"
| "json_ok (JArr vs) \<longleftrightarrow> list_all id (map json_ok vs)"
| "json_ok (JObj ps) \<longleftrightarrow> distinct (map fst ps) \<and>
     list_all (\<lambda>(key, item_ok). list_all scalar_value key \<and> item_ok) (map (map_prod id json_ok) ps)"

primrec json_depth :: "JsonValue \<Rightarrow> nat" where
  "json_depth JNull = 0"
| "json_depth (JBool b) = 0"
| "json_depth (JInt i) = 0"
| "json_depth (JFloat f) = 0"
| "json_depth (JStr s) = 0"
| "json_depth (JArr vs) = foldr max (map (\<lambda>d. d + 1) (map json_depth vs)) 0"
| "json_depth (JObj ps) = foldr max (map (\<lambda>d. snd d + 1) (map (map_prod id json_depth) ps)) 0"

primrec canon :: "JsonValue \<Rightarrow> JsonValue" where
  "canon JNull = JNull"
| "canon (JBool b) = JBool b"
| "canon (JInt i) = JInt i"
| "canon (JFloat f) = JFloat f"
| "canon (JStr s) = JStr s"
| "canon (JArr vs) = JArr (map canon vs)"
| "canon (JObj ps) = JObj (sort_key fst (map (map_prod id canon) ps))"

lemma json_ok_JObj: "json_ok (JObj ps) \<longleftrightarrow> distinct (map fst ps) \<and>
    (\<forall>p \<in> set ps. list_all scalar_value (fst p) \<and> json_ok (snd p))"
  by (auto simp: list_all_iff)

lemma json_ok_JArr: "json_ok (JArr vs) \<longleftrightarrow> (\<forall>v \<in> set vs. json_ok v)"
  by (auto simp: list_all_iff)

lemma ints_printable_JObj: "ints_printable (JObj ps) \<longleftrightarrow> (\<forall>p \<in> set ps. ints_printable (snd p))"
  by (auto simp: list_all_iff)

lemma ints_printable_JArr: "ints_printable (JArr vs) \<longleftrightarrow> (\<forall>v \<in> set vs. ints_printable v)"
  by (auto simp: list_all_iff)

declare json_ok.simps(6, 7) [simp del] ints_printable.simps(6, 7) [simp del]

lemmas json_collections = json_ok_JObj json_ok_JArr ints_printable_JObj ints_printable_JArr

lemma insort_key_map: "insort_key k (f x) (map f xs) = map f (insort_key (\<lambda>y. k (f y)) x xs)"
  by (induction xs) simp_all

lemma sort_key_map: "sort_key k (map f xs) = map f (sort_key (\<lambda>y. k (f y)) xs)"
  by (induction xs) (simp_all add: insort_key_map)

lemma sort_items: "sort_key fst (map (map_prod id f) ps) = map (map_prod id f) (sort_key fst ps)"
  by (simp add: sort_key_map)

lemma unique_object_ok: "distinct (map fst (acc @ ps)) \<Longrightarrow> unique_object acc ps = Inr (acc @ ps)"
  by (induction acc ps rule: unique_object.induct) auto

lemma skip_ws_nonblank [simp]: "\<not> is_blank c \<Longrightarrow> skip_ws (c # s) = c # s"
  by (simp add: skip_ws_def)

lemma scan_key_quote: "scan_key (quote k @ 58 # r) = Some (k, r)"
  by (simp add: scan_key_def quote_def is_blank_def scanstring_quoted)

lemma scan_quoted: "scan_value stack (quote s @ r) = scan_after stack (JStr s) r"
  by (simp add: quote_def is_blank_def scanstring_quoted)

lemma scan_int:
  assumes "delimited r" and "length (str_nat (nat \<bar>i\<bar>)) \<le> MAX_INT_DIGITS"
  shows "scan_value stack (str_int i @ r) = scan_after stack (JInt i) r"
proof -
  have "\<exists>a as. str_int i = a # as \<and> (is_digit a \<or> a = 45)"
    using str_nat_digits [of "nat i"] str_nat_not_Nil [of "nat i"]
    by (cases "str_nat (nat i)") (auto simp: str_int_def lit_def)
  then obtain a as where a: "str_int i = a # as" "is_digit a \<or> a = 45" by blast
  then have "\<not> is_blank a" "a \<noteq> 34" "a \<noteq> 123" "a \<noteq> 91" "a \<noteq> 110" "a \<noteq> 116" "a \<noteq> 102"
    by (auto simp: is_blank_def is_digit_def)
  then show ?thesis
    using scan_number_int [OF assms(1), of i] int_literal_str_int [OF assms(2)]
    by (simp add: a(1) lit_def)
qed

lemma scan_array_items:
  assumes "\<And>v stack r. v \<in> set vs \<Longrightarrow> delimited r \<Longrightarrow>
      scan_value stack (tx v @ r) = scan_after stack (val v) r"
    and "vs \<noteq> []"
  shows "scan_value (FArr acc # stack) (join [44] (map tx vs) @ 93 # r) =
    scan_after stack (JArr (acc @ map val vs)) r"
  using assms
proof (induction vs arbitrary: acc)
  case Nil
  then show ?case by simp
next
  case (Cons v vs)
  show ?case
  proof (cases vs)
    case Nil
    with Cons.prems(1) [of v "93 # r"] show ?thesis by (simp add: delimited_def is_blank_def)
  next
    case (Cons w ws)
    have "scan_value (FArr acc # stack) (join [44] (map tx (v # vs)) @ 93 # r) =
      scan_after (FArr acc # stack) (val v) (44 # join [44] (map tx vs) @ 93 # r)"
      using Cons.prems(1) [of v "44 # join [44] (map tx vs) @ 93 # r"] Cons
      by (simp add: delimited_def)
    also have "\<dots> = scan_value (FArr (acc @ [val v]) # stack) (join [44] (map tx vs) @ 93 # r)"
      by (simp add: is_blank_def)
    finally show ?thesis using Cons.IH Cons.prems(1) Cons by simp
  qed
qed

definition pair_text :: "('v \<Rightarrow> ustr) \<Rightarrow> ustr \<times> 'v \<Rightarrow> ustr" where
  "pair_text tx p = quote (fst p) @ [58] @ tx (snd p)"

lemma scan_object_items:
  assumes "\<And>p stack r. p \<in> set ps \<Longrightarrow> delimited r \<Longrightarrow>
      scan_value stack (tx (snd p) @ r) = scan_after stack (val (snd p)) r"
    and "ps \<noteq> []" and "distinct (map fst acc @ map fst ps)"
  shows "(case scan_key (join [44] (map (pair_text tx) ps) @ 125 # r) of None \<Rightarrow> Inl not_json
      | Some (key, r') \<Rightarrow> scan_value (FObj acc key # stack) r') =
    scan_after stack (JObj (acc @ map (map_prod id val) ps)) r"
  using assms
proof (induction ps arbitrary: acc)
  case Nil
  then show ?case by simp
next
  case (Cons p ps)
  obtain k v where p: "p = (k, v)" by (cases p)
  show ?case
  proof (cases ps)
    case Nil
    have "unique_object [] (acc @ [(k, val v)]) = Inr (acc @ [(k, val v)])"
      using Cons.prems(3) Nil p by (subst unique_object_ok) simp_all
    with Cons.prems(1) [of p "125 # r"] Nil p show ?thesis
      by (simp add: pair_text_def scan_key_quote delimited_def is_blank_def)
  next
    case (Cons q qs)
    have "scan_key (join [44] (map (pair_text tx) (p # ps)) @ 125 # r) =
        Some (k, tx v @ 44 # join [44] (map (pair_text tx) ps) @ 125 # r)"
      using Cons p by (simp add: pair_text_def scan_key_quote)
    moreover have "scan_value (FObj acc k # stack)
        (tx v @ 44 # join [44] (map (pair_text tx) ps) @ 125 # r) =
      scan_after (FObj acc k # stack) (val v) (44 # join [44] (map (pair_text tx) ps) @ 125 # r)"
      using Cons.prems(1) [of p "44 # join [44] (map (pair_text tx) ps) @ 125 # r"] p
      by (simp add: delimited_def)
    moreover have "\<dots> = (case scan_key (join [44] (map (pair_text tx) ps) @ 125 # r) of
        None \<Rightarrow> Inl not_json
      | Some (key, r') \<Rightarrow> scan_value (FObj (acc @ [(k, val v)]) key # stack) r')"
      by (simp add: is_blank_def)
    ultimately show ?thesis
      using Cons.IH [of "acc @ [(k, val v)]"] Cons.prems Cons p by simp
  qed
qed

lemma join_not_Nil: "xs \<noteq> [] \<Longrightarrow> join sep xs = hd xs @ (if tl xs = [] then [] else sep @ join sep (tl xs))"
  by (cases "(sep, xs)" rule: join.cases) simp_all

text \<open>Every printed value starts with a character that is no blank and closes no array or object.\<close>

lemma json_text_Cons:
  assumes "json_ok v"
  shows "\<exists>a as. json_text v = a # as \<and> \<not> is_blank a \<and> a \<noteq> 93 \<and> a \<noteq> 125"
proof (cases v)
  case (JInt i)
  have "str_nat (nat i) \<noteq> []" "list_all is_digit (str_nat (nat i))"
    by (simp_all add: str_nat_digits)
  then show ?thesis
    using JInt
    by (cases "str_nat (nat i)") (auto simp: str_int_def lit_def is_digit_def is_blank_def)
qed (use assms in \<open>auto simp: lit_def quote_def is_blank_def\<close>)

lemma json_text_JObj:
  "json_text (JObj ps) = [123] @ join [44] (map (pair_text json_text) (sort_key fst ps)) @ [125]"
  by (simp add: sort_items comp_def case_prod_beta) (simp add: pair_text_def [abs_def])

lemma scan_printed:
  assumes "json_ok v" and "ints_printable v" and "delimited r"
  shows "scan_value stack (json_text v @ r) = scan_after stack (canon v) r"
  using assms
proof (induction v arbitrary: stack r)
  case (JInt i)
  then show ?case by (simp add: scan_int del: scan_value.simps)
next
  case (JStr s)
  then show ?case by (simp add: scan_quoted del: scan_value.simps)
next
  case (JArr vs)
  show ?case
  proof (cases "vs = []")
    case True
    then show ?thesis by (simp add: is_blank_def)
  next
    case False
    have items: "scan_value (FArr [] # stack) (join [44] (map json_text vs) @ 93 # r) =
        scan_after stack (JArr ([] @ map canon vs)) r"
      using JArr False by (intro scan_array_items) (auto simp: json_collections)
    obtain a as where a: "json_text (hd vs) = a # as" "\<not> is_blank a" "a \<noteq> 93"
      using json_text_Cons [of "hd vs"] JArr.prems(1) False by (auto simp: json_collections)
    then obtain bs where "join [44] (map json_text vs) = a # bs"
      using False join_not_Nil [of "map json_text vs" "[44]"] by (simp add: hd_map)
    then show ?thesis using items a(2, 3) by (subst scan_value.simps) (simp add: is_blank_def)
  qed
next
  case (JObj ps)
  define qs where "qs = sort_key fst ps"
  have tx: "json_text (JObj ps) = [123] @ join [44] (map (pair_text json_text) qs) @ [125]"
    by (simp only: json_text_JObj qs_def)
  have val: "canon (JObj ps) = JObj (map (map_prod id canon) qs)"
    by (simp add: sort_items qs_def)
  show ?case
  proof (cases "ps = []")
    case True
    then show ?thesis by (simp add: is_blank_def)
  next
    case False
    have "mset qs = mset ps" by (simp add: qs_def)
    with False have "qs \<noteq> []" by auto
    then obtain k v qs' where q: "qs = (k, v) # qs'" by (cases qs) auto
    have set_qs: "set qs = set ps" and keys: "distinct (map fst qs)"
      using JObj.prems(1) by (simp_all add: qs_def json_collections)
    have item: "scan_value st (json_text (snd p) @ t) = scan_after st (canon (snd p)) t"
      if "p \<in> set ps" "delimited t" for p st t
    proof (rule JObj.IH [OF that(1) _ _ _ that(2)])
      show "snd p \<in> Basic_BNFs.snds p" by (cases p) simp
      show "json_ok (snd p)" "ints_printable (snd p)"
        using JObj.prems(1, 2) that(1) by (simp_all add: json_collections)
    qed
    have items: "(case scan_key (join [44] (map (pair_text json_text) qs) @ 125 # r) of
          None \<Rightarrow> Inl not_json | Some (key, r') \<Rightarrow> scan_value (FObj [] key # stack) r') =
        scan_after stack (JObj ([] @ map (map_prod id canon) qs)) r"
      by (rule scan_object_items)
        (use item set_qs keys \<open>qs \<noteq> []\<close> in simp_all)
    obtain bs where "join [44] (map (pair_text json_text) qs) = 34 # bs"
      using join_not_Nil [of "map (pair_text json_text) qs" "[44]"]
      by (simp add: q pair_text_def quote_def)
    then show ?thesis
      using items unfolding tx val by (subst scan_value.simps) (simp add: is_blank_def)
  qed
qed (simp_all add: lit_def is_blank_def)

section \<open>What a decoded document looks like\<close>

text \<open>Texts without surrogates, and objects whose keys are distinct, at every level.\<close>

primrec clean_text :: "JsonValue \<Rightarrow> bool" where
  "clean_text JNull \<longleftrightarrow> True"
| "clean_text (JBool b) \<longleftrightarrow> True"
| "clean_text (JInt i) \<longleftrightarrow> True"
| "clean_text (JFloat f) \<longleftrightarrow> True"
| "clean_text (JStr s) \<longleftrightarrow> \<not> list_ex is_surrogate s"
| "clean_text (JArr vs) \<longleftrightarrow> list_all id (map clean_text vs)"
| "clean_text (JObj ps) \<longleftrightarrow>
     list_all (\<lambda>p. \<not> list_ex is_surrogate (fst p) \<and> snd p) (map (map_prod id clean_text) ps)"

primrec unique_keys :: "JsonValue \<Rightarrow> bool" where
  "unique_keys JNull \<longleftrightarrow> True"
| "unique_keys (JBool b) \<longleftrightarrow> True"
| "unique_keys (JInt i) \<longleftrightarrow> True"
| "unique_keys (JFloat f) \<longleftrightarrow> True"
| "unique_keys (JStr s) \<longleftrightarrow> True"
| "unique_keys (JArr vs) \<longleftrightarrow> list_all id (map unique_keys vs)"
| "unique_keys (JObj ps) \<longleftrightarrow> distinct (map fst ps) \<and> list_all snd (map (map_prod id unique_keys) ps)"

lemma foldr_max_le: "foldr max xs (0::nat) \<le> n \<longleftrightarrow> (\<forall>x \<in> set xs. x \<le> n)"
  by (induction xs) auto

lemma mapE_same:
  assumes "\<And>x y. x \<in> set xs \<Longrightarrow> f x = Inr y \<longleftrightarrow> y = g x \<and> P x"
  shows "mapE f xs = Inr ys \<longleftrightarrow> ys = map g xs \<and> (\<forall>x \<in> set xs. P x)"
  using assms by (induction xs arbitrary: ys) auto

lemma mapE_map: "mapE f (map g xs) = mapE (\<lambda>x. f (g x)) xs"
  by (induction xs) simp_all

lemma depth_JArr: "d + json_depth (JArr vs) \<le> 100 \<longleftrightarrow> d \<le> 100 \<and> (\<forall>v \<in> set vs. d + 1 + json_depth v \<le> 100)"
  if "d \<le> 100"
proof -
  have "d + n \<le> 100 \<longleftrightarrow> n \<le> 100 - d" for n using that by linarith
  then show ?thesis using that by (auto simp: foldr_max_le)
qed

lemma depth_JObj: "d + json_depth (JObj ps) \<le> 100 \<longleftrightarrow>
    d \<le> 100 \<and> (\<forall>p \<in> set ps. d + 1 + json_depth (snd p) \<le> 100)"
  if "d \<le> 100"
proof -
  have "d + n \<le> 100 \<longleftrightarrow> n \<le> 100 - d" for n using that by linarith
  then show ?thesis using that by (auto simp: foldr_max_le)
qed

lemma normalize_iff:
  "normalize v d = Inr w \<longleftrightarrow> w = v \<and> d + json_depth v \<le> 100 \<and> clean_text v"
proof (induction v arbitrary: d w)
  case (JArr vs)
  have "mapE (\<lambda>item. item (d + 1)) (map normalize vs) = Inr ws \<longleftrightarrow>
      ws = map (\<lambda>v. v) vs \<and> (\<forall>v \<in> set vs. d + 1 + json_depth v \<le> 100 \<and> clean_text v)" for ws
    unfolding mapE_map by (rule mapE_same) (simp add: JArr)
  then show ?case
    by (cases "d \<le> 100")
      (auto simp: within_depth_def MAX_JSON_DEPTH_def depth_JArr list_all_iff simp del: json_depth.simps)
next
  case (JObj ps)
  have "mapE (\<lambda>(key, item). thenE (reject_surrogate key) (bindE (item (d + 1)) (\<lambda>w. Inr (key, w))))
        (map (map_prod id normalize) ps) = Inr qs \<longleftrightarrow>
      qs = map (\<lambda>p. p) ps \<and> (\<forall>p \<in> set ps. \<not> list_ex is_surrogate (fst p) \<and>
        d + 1 + json_depth (snd p) \<le> 100 \<and> clean_text (snd p))" for qs
    unfolding mapE_map
  proof (rule mapE_same)
    fix p q
    assume "p \<in> set ps"
    moreover obtain k u where "p = (k, u)" by (cases p)
    ultimately show "(case map_prod id normalize p of (key, item) \<Rightarrow>
          thenE (reject_surrogate key) (bindE (item (d + 1)) (\<lambda>w. Inr (key, w)))) = Inr q \<longleftrightarrow>
        q = p \<and> \<not> list_ex is_surrogate (fst p) \<and> d + 1 + json_depth (snd p) \<le> 100 \<and>
        clean_text (snd p)"
      using JObj [of "(k, u)" u] by (auto simp: reject_surrogate_def)
  qed
  then show ?case
    by (cases "d \<le> 100")
      (auto simp: within_depth_def MAX_JSON_DEPTH_def depth_JObj list_all_iff simp del: json_depth.simps)
qed (auto simp: within_depth_def MAX_JSON_DEPTH_def reject_surrogate_def)

lemma unique_object_iff:
  "unique_object acc ps = Inr d \<longleftrightarrow>
     d = acc @ ps \<and> distinct (map fst ps) \<and> fst ` set acc \<inter> fst ` set ps = {}"
  by (induction acc ps rule: unique_object.induct) auto

fun frame_ok :: "frame \<Rightarrow> bool" where
  "frame_ok (FArr vs) \<longleftrightarrow> list_all unique_keys vs"
| "frame_ok (FObj ps key) \<longleftrightarrow> list_all (\<lambda>p. unique_keys (snd p)) ps"

text \<open>One step of the scanner, on a shorter text.\<close>

lemma scan_value_step:
  assumes "scan_value stack s = Inr w"
  shows "(\<exists>v r. length r < length s \<and> unique_keys v \<and> scan_after stack v r = Inr w) \<or>
    (\<exists>f r. length r < length s \<and> frame_ok f \<and> scan_value (f # stack) r = Inr w)"
proof -
  note scanned = assms [unfolded scan_value.simps [of stack s]]
  obtain c cs where s: "skip_ws s = c # cs" and shorter: "length cs < length s"
    using scanned by (cases "skip_ws s") (auto dest: skip_ws_Cons_shorter)
  have after: ?thesis if "scan_after stack v r = Inr w" "length r \<le> length cs" "unique_keys v" for v r
    using that shorter by (meson le_less_trans)
  have within: ?thesis if "scan_value (f # stack) r = Inr w" "length r \<le> length cs" "frame_ok f" for f r
    using that shorter by (meson le_less_trans)
  consider "c = 34" | "c = 123" | "c = 91" | "c \<noteq> 34" "c \<noteq> 123" "c \<noteq> 91" by blast
  then show ?thesis
  proof cases
    case 1
    with scanned s after show ?thesis
      by (auto split: option.splits dest!: scanstring_shorter)
  next
    case 2
    then consider r where "skip_ws cs = 125 # r" "scan_after stack (JObj []) r = Inr w"
      | key r where "scan_key cs = Some (key, r)" "scan_value (FObj [] key # stack) r = Inr w"
      using scanned s by (auto simp del: scan_value.simps split: list.splits if_splits option.splits)
    then show ?thesis
    proof cases
      case (1 r)
      show ?thesis by (rule after [OF 1(2)]) (use skip_ws_Cons_shorter [OF 1(1)] in simp_all)
    next
      case (2 key r)
      show ?thesis by (rule within [OF 2(2)]) (use scan_key_shorter [OF 2(1)] in simp_all)
    qed
  next
    case 3
    then consider r where "skip_ws cs = 93 # r" "scan_after stack (JArr []) r = Inr w"
      | "scan_value (FArr [] # stack) cs = Inr w"
      using scanned s by (auto simp del: scan_value.simps split: list.splits if_splits)
    then show ?thesis
    proof cases
      case (1 r)
      show ?thesis by (rule after [OF 1(2)]) (use skip_ws_Cons_shorter [OF 1(1)] in simp_all)
    next
      case 2
      show ?thesis by (rule within [OF 2]) simp_all
    qed
  next
    case 4
    have found: "\<exists>v r. scan_after stack v r = Inr w \<and> length r \<le> length cs \<and> unique_keys v"
      if "scan_after stack u t = Inr w" "length t < Suc (length cs)" "unique_keys u" for u t
      using that by (intro exI [of _ u] exI [of _ t]) simp
    from 4 scanned s have "\<exists>v r. scan_after stack v r = Inr w \<and> length r \<le> length cs \<and> unique_keys v"
      by (auto simp del: scan_value.simps scan_after.simps intro: found
          split: if_splits option.splits sum.splits dest!: scan_number_shorter)
        (rule found, assumption+, simp)+
    with after show ?thesis by blast
  qed
qed

lemma scan_after_step:
  assumes "scan_after stack v s = Inr w" and "list_all frame_ok stack" and "unique_keys v"
  shows "w = v \<or>
    (\<exists>st u r. length r < length s \<and> list_all frame_ok st \<and> unique_keys u \<and> scan_after st u r = Inr w) \<or>
    (\<exists>st r. length r < length s \<and> list_all frame_ok st \<and> scan_value st r = Inr w)"
proof (cases stack)
  case Nil
  with assms show ?thesis by (auto split: if_splits)
next
  case (Cons f st)
  then obtain c r where s: "skip_ws s = c # r" and shorter: "length r < length s"
    using assms(1) by (cases f; cases "skip_ws s") (auto dest: skip_ws_Cons_shorter)
  have st: "list_all frame_ok st" "frame_ok f" using assms(2) Cons by simp_all
  show ?thesis
  proof (cases f)
    case (FArr vs)
    then have "list_all unique_keys (vs @ [v])" using st assms(3) by simp
    then have "unique_keys (JArr (vs @ [v]))" "frame_ok (FArr (vs @ [v]))"
      by (auto simp: list_all_iff)
    moreover have "scan_after st (JArr (vs @ [v])) r = Inr w \<or>
        scan_value (FArr (vs @ [v]) # st) r = Inr w"
      using assms(1) Cons FArr s by (auto simp del: scan_value.simps split: if_splits)
    ultimately show ?thesis using st(1) shorter by (metis list.pred_inject(2))
  next
    case (FObj ps key)
    then have item: "\<forall>p \<in> set (ps @ [(key, v)]). unique_keys (snd p)"
      using st(2) assms(3) by (auto simp: list_all_iff)
    have "(c = 125 \<and> distinct (map fst (ps @ [(key, v)])) \<and>
            scan_after st (JObj (ps @ [(key, v)])) r = Inr w) \<or>
        (\<exists>k q. scan_key r = Some (k, q) \<and> scan_value (FObj (ps @ [(key, v)]) k # st) q = Inr w)"
      using assms(1) Cons FObj s
      by (auto simp: unique_object_iff simp del: scan_value.simps
          split: if_splits option.splits sum.splits)
    then show ?thesis
    proof (elim disjE conjE exE)
      assume "distinct (map fst (ps @ [(key, v)]))" "scan_after st (JObj (ps @ [(key, v)])) r = Inr w"
      moreover from this item have "unique_keys (JObj (ps @ [(key, v)]))"
        by (auto simp: list_all_iff)
      ultimately show ?thesis using st(1) shorter by blast
    next
      fix k q
      assume q: "scan_key r = Some (k, q)" "scan_value (FObj (ps @ [(key, v)]) k # st) q = Inr w"
      have "list_all frame_ok (FObj (ps @ [(key, v)]) k # st)"
        using item st(1) by (auto simp: list_all_iff)
      with q(2) scan_key_shorter [OF q(1)] shorter show ?thesis by (meson less_trans)
    qed
  qed
qed

lemma scan_unique_keys:
  "(scan_value stack s = Inr w \<longrightarrow> list_all frame_ok stack \<longrightarrow> unique_keys w) \<and>
   (scan_after stack v s = Inr w \<longrightarrow> list_all frame_ok stack \<longrightarrow> unique_keys v \<longrightarrow> unique_keys w)"
proof (induction "length s" arbitrary: stack s v rule: less_induct)
  case less
  show ?case
  proof (intro conjI impI)
    assume "scan_value stack s = Inr w" "list_all frame_ok stack"
    with scan_value_step [OF this(1)] less show "unique_keys w"
      by (metis list.pred_inject(2))
  next
    assume "scan_after stack v s = Inr w" "list_all frame_ok stack" "unique_keys v"
    with scan_after_step [OF this] less show "unique_keys w" by metis
  qed
qed

section \<open>Decoding what was printed\<close>

lemma depth_canon: "json_depth (canon v) \<le> n \<longleftrightarrow> json_depth v \<le> n"
proof (induction v arbitrary: n)
  case (JArr vs)
  have "json_depth (canon v) + 1 \<le> n \<longleftrightarrow> json_depth v + 1 \<le> n" if "v \<in> set vs" for v
    using JArr [OF that, of "n - 1"] by (cases n) auto
  then show ?case by (auto simp: foldr_max_le)
next
  case (JObj ps)
  have "json_depth (canon (snd p)) + 1 \<le> n \<longleftrightarrow> json_depth (snd p) + 1 \<le> n" if "p \<in> set ps" for p
    using JObj [OF that, of "snd p" "n - 1"] by (cases n; cases p) auto
  then show ?case by (auto simp: foldr_max_le)
qed auto

lemma scalar_not_surrogate: "list_all scalar_value s \<Longrightarrow> \<not> list_ex is_surrogate s"
  by (auto simp: list_all_iff list_ex_iff scalar_value_def is_surrogate_def)

lemma clean_canon: "json_ok v \<Longrightarrow> clean_text (canon v)"
proof (induction v)
  case (JObj ps)
  have "clean_text (canon (snd p))" if "p \<in> set ps" for p
    using JObj(1) [OF that, of "snd p"] JObj(2) that by (cases p) (auto simp: json_collections)
  with JObj(2) show ?case by (auto simp: json_collections list_all_iff scalar_not_surrogate)
qed (auto simp: json_collections list_all_iff scalar_not_surrogate)

lemma loads_printed:
  assumes "json_ok v" and "ints_printable v"
  shows "loads (json_text v @ [10]) = Inr (canon v)"
  using scan_printed [OF assms, of "[10]" "[]"]
  by (simp add: loads_def delimited_def skip_ws_def is_blank_def del: scan_value.simps)

lemma decode_json_printed:
  assumes "json_ok v" and "ints_printable v" and "json_depth v \<le> 100"
  shows "decode_json (json_text v @ [10]) = Inr (canon v)"
  using assms
  by (simp add: decode_json_def loads_printed normalize_iff depth_canon clean_canon)

lemma scalar_ascii: "c < 128 \<Longrightarrow> scalar_value c"
  by (simp add: scalar_value_def)

lemma scalar_char: "scalar_value (of_char c)"
  using nat_of_char_less_256 [of c] unfolding scalar_value_def by linarith

lemma scalar_lit: "list_all scalar_value (lit s)"
  by (simp add: lit_def list_all_iff scalar_char)

lemma scalar_str_nat: "list_all scalar_value (str_nat n)"
  using str_nat_digits [of n] by (auto simp: list_all_iff is_digit_def scalar_value_def)

lemma scalar_escape: "scalar_value c \<Longrightarrow> list_all scalar_value (escape_json_char c)"
proof -
  have "hex_digit_lower (c mod 16) < 128" "c < 32 \<Longrightarrow> hex_digit_lower (c div 16) < 128"
    using mod_less_divisor [of 16 c] by (auto simp: hex_digit_lower_def)
  then show "scalar_value c \<Longrightarrow> list_all scalar_value (escape_json_char c)"
    by (auto simp: escape_json_char_def scalar_ascii)
qed

lemma scalar_quote: "list_all scalar_value s \<Longrightarrow> list_all scalar_value (quote s)"
  using scalar_escape by (auto simp: quote_def list_all_iff scalar_ascii)

lemma list_all_join:
  "list_all P sep \<Longrightarrow> \<forall>x \<in> set xs. list_all P x \<Longrightarrow> list_all P (join sep xs)"
  by (induction sep xs rule: join.induct) auto

lemma scalar_text: "json_ok v \<Longrightarrow> list_all scalar_value (json_text v)"
proof (induction v)
  case (JInt i)
  show ?case using scalar_str_nat by (simp add: str_int_def scalar_lit)
next
  case (JArr vs)
  have "list_all scalar_value (json_text v)" if "v \<in> set vs" for v
    using JArr that by (simp add: json_collections)
  then show ?case
    by (auto simp: scalar_ascii intro!: list_all_join)
next
  case (JObj ps)
  have "list_all scalar_value (quote (fst p) @ [58] @ json_text (snd p))" if "p \<in> set ps" for p
    using JObj(1) [OF that, of "snd p"] JObj(2) that
    by (cases p) (auto simp: json_collections scalar_quote scalar_ascii)
  then show ?case
    unfolding json_text_JObj by (auto simp: scalar_ascii pair_text_def intro!: list_all_join)
qed (auto simp: scalar_lit scalar_quote)

lemma json_bytes_ok:
  assumes "json_ok v" and "ints_printable v"
  shows "json_bytes v = Inr (utf8_encode (json_text v @ [10]))"
  using assms
  by (simp add: json_bytes_def dumps_def encode_utf8_def scalar_text utf8_encode_def utf8_char_def byte_def)

lemma utf8_decode_printed:
  assumes "json_ok v"
  shows "utf8_decode (utf8_encode (json_text v @ [10])) = Some (json_text v @ [10])"
  using assms by (intro utf8_decode_encode) (simp add: scalar_text scalar_ascii)

section \<open>Printable documents\<close>

text \<open>
  What the codecs show of the documents they build: the printer accepts them and the decoder reads
  them back with their fields, whatever the order of the keys.
\<close>

definition can_print :: "nat \<Rightarrow> JsonValue \<Rightarrow> bool" where
  "can_print n v \<longleftrightarrow> json_ok v \<and> ints_printable v \<and> json_depth v \<le> n"

lemma depth_collections:
  "json_depth (JArr vs) \<le> n \<longleftrightarrow> (\<forall>v \<in> set vs. json_depth v + 1 \<le> n)"
  "json_depth (JObj ps) \<le> n \<longleftrightarrow> (\<forall>p \<in> set ps. json_depth (snd p) + 1 \<le> n)"
  by (auto simp: foldr_max_le)

lemma printable_simps [simp]:
  "can_print n JNull" "can_print n (JBool b)"
  "can_print n (JInt i) \<longleftrightarrow> length (str_nat (nat \<bar>i\<bar>)) \<le> MAX_INT_DIGITS"
  "can_print n (JStr s) \<longleftrightarrow> list_all scalar_value s"
  by (simp_all add: can_print_def)

lemma printable_JArr: "can_print n (JArr vs) \<longleftrightarrow> (\<forall>v \<in> set vs. 0 < n \<and> can_print (n - 1) v)"
proof -
  have "json_depth v + 1 \<le> n \<longleftrightarrow> 0 < n \<and> json_depth v \<le> n - 1" for v by auto
  then show ?thesis
    unfolding can_print_def depth_collections by (auto simp: json_collections simp del: json_depth.simps)
qed

lemma printable_JObj: "can_print n (JObj ps) \<longleftrightarrow> distinct (map fst ps) \<and>
    (\<forall>p \<in> set ps. list_all scalar_value (fst p) \<and> 0 < n \<and> can_print (n - 1) (snd p))"
proof -
  have "json_depth v + 1 \<le> n \<longleftrightarrow> 0 < n \<and> json_depth v \<le> n - 1" for v by auto
  then show ?thesis
    unfolding can_print_def depth_collections by (auto simp: json_collections simp del: json_depth.simps)
qed

lemma json_bytes_decode:
  assumes "can_print 100 v"
  obtains b s where "json_bytes v = Inr b" "utf8_decode b = Some s" "decode_json s = Inr (canon v)"
  using assms json_bytes_ok utf8_decode_printed decode_json_printed by (auto simp: can_print_def)

definition canon_object :: "JsonObject \<Rightarrow> JsonObject" where
  "canon_object ps = sort_key fst (map (map_prod id canon) ps)"

lemma canon_JObj [simp]: "canon (JObj ps) = JObj (canon_object ps)"
  by (simp add: canon_object_def)

declare canon.simps(7) [simp del]

lemma canon_object_keys: "set (map fst (canon_object ps)) = set (map fst ps)"
  by (force simp: canon_object_def)

lemma map_of_permuted:
  assumes "mset xs = mset ys" and "distinct (map fst xs)"
  shows "map_of xs = map_of ys"
proof -
  have "distinct (map fst ys)" using assms by (metis mset_eq_imp_distinct_iff mset_map)
  moreover have "set xs = set ys" using assms(1) by (metis set_mset_mset)
  ultimately show ?thesis using assms(2) by (simp add: map_of_inject_set)
qed

lemma canon_object_lookup:
  assumes "distinct (map fst ps)"
  shows "map_of (canon_object ps) k = map_option canon (map_of ps k)"
proof -
  have "map_of (canon_object ps) = map_of (map (map_prod id canon) ps)"
    using assms by (intro map_of_permuted) (simp_all add: canon_object_def comp_def)
  moreover have "map_of (map (map_prod id canon) ps) k = map_option canon (map_of ps k)"
    by (induction ps) auto
  ultimately show ?thesis by simp
qed

section \<open>Optional values\<close>

text \<open>\<open>None if value is None else read(value)\<close>.\<close>

definition unless_null :: "(JsonValue \<Rightarrow> 'a result) \<Rightarrow> JsonValue \<Rightarrow> 'a option result" where
  "unless_null read v =
     (if v = JNull then Inr None else bindE (read v) (\<lambda>x. Inr (Some x)))"

definition optional_text :: "ustr option \<Rightarrow> JsonValue" where
  "optional_text v = (case v of None \<Rightarrow> JNull | Some s \<Rightarrow> JStr s)"

definition text_ok :: "ustr \<Rightarrow> bool" where
  "text_ok s \<longleftrightarrow> list_all scalar_value s"

definition option_ok :: "('a \<Rightarrow> bool) \<Rightarrow> 'a option \<Rightarrow> bool" where
  "option_ok P v \<longleftrightarrow> (case v of None \<Rightarrow> True | Some x \<Rightarrow> P x)"

lemma canon_optional_text [simp]: "canon (optional_text v) = optional_text v"
  by (simp add: optional_text_def split: option.split)

lemma option_ok_simps [simp]: "option_ok P None" "option_ok P (Some x) \<longleftrightarrow> P x"
  by (simp_all add: option_ok_def)

lemma printable_optional_text:
  "option_ok text_ok v \<Longrightarrow> can_print n (optional_text v)"
  by (cases v) (simp_all add: optional_text_def text_ok_def)

section \<open>The size of a printed document\<close>

primrec json_size :: "JsonValue \<Rightarrow> nat" where
  "json_size JNull = 4"
| "json_size (JBool b) = 5"
| "json_size (JInt i) = length (str_int i)"
| "json_size (JFloat f) = length f"
| "json_size (JStr s) = 6 * length s + 2"
| "json_size (JArr vs) = 2 + sum_list (map (\<lambda>n. n + 1) (map json_size vs))"
| "json_size (JObj ps) =
     2 + sum_list (map (\<lambda>p. 6 * length (fst p) + 4 + snd p) (map (map_prod id json_size) ps))"

lemma length_join_le: "length (join [c] xs) \<le> sum_list (map (\<lambda>x. length x + 1) xs)"
  by (induction "[c]" xs rule: join.induct) auto

lemma length_quote_le: "length (quote s) \<le> 6 * length s + 2"
proof -
  have "length (concat (map escape_json_char s)) \<le> 6 * length s"
    by (induction s) (auto simp: escape_json_char_def)
  then show ?thesis by (simp add: quote_def)
qed

lemma sum_list_mono_in: "(\<And>x. x \<in> set xs \<Longrightarrow> f x \<le> g x) \<Longrightarrow> sum_list (map f xs) \<le> sum_list (map g xs)"
  for f g :: "'a \<Rightarrow> nat"
  by (induction xs) (auto intro: add_mono)

lemma sum_list_sort: "sum_list (map f (sort_key k xs)) = sum_list (map f xs)" for f :: "'a \<Rightarrow> nat"
  by (metis mset_map mset_sort sum_mset_sum_list)

lemma json_size_bounds: "length (json_text v) \<le> json_size v"
proof (induction v)
  case (JArr vs)
  have "length (join [44] (map json_text vs)) \<le> sum_list (map (\<lambda>x. length x + 1) (map json_text vs))"
    by (rule length_join_le)
  also have "\<dots> \<le> sum_list (map (\<lambda>v. json_size v + 1) vs)"
    unfolding map_map comp_def by (rule sum_list_mono_in) (simp add: JArr)
  finally show ?case by (simp add: comp_def)
next
  case (JObj ps)
  have "length (pair_text json_text p) + 1 \<le> 6 * length (fst p) + 4 + json_size (snd p)"
    if "p \<in> set ps" for p
    using JObj [OF that, of "snd p"] length_quote_le [of "fst p"] by (cases p) (simp add: pair_text_def)
  then have "sum_list (map (\<lambda>p. length (pair_text json_text p) + 1) ps) \<le>
      sum_list (map (\<lambda>p. 6 * length (fst p) + 4 + json_size (snd p)) ps)"
    by (rule sum_list_mono_in)
  moreover have "length (join [44] (map (pair_text json_text) (sort_key fst ps))) \<le>
      sum_list (map (\<lambda>p. length (pair_text json_text p) + 1) ps)"
    using length_join_le [of 44 "map (pair_text json_text) (sort_key fst ps)"]
    unfolding map_map comp_def sum_list_sort .
  ultimately show ?case unfolding json_text_JObj by (simp add: comp_def)
next
  case (JStr s)
  show ?case using length_quote_le [of s] by simp
qed auto

lemma length_utf8_encode_le: "length (utf8_encode s) \<le> 4 * length s"
  by (induction s) (auto simp: utf8_encode_def utf8_char_def)

lemma decode_json_bounds:
  assumes "decode_json s = Inr v"
  shows "json_depth v \<le> MAX_JSON_DEPTH \<and> clean_text v" and "unique_keys v"
proof -
  from assms obtain w where w: "loads s = Inr w" "normalize w 0 = Inr v"
    by (auto simp: decode_json_def)
  then have "unique_keys w" using scan_unique_keys [of "[]" s w] by (simp add: loads_def)
  with w(2) show "json_depth v \<le> MAX_JSON_DEPTH \<and> clean_text v" "unique_keys v"
    by (simp_all add: normalize_iff MAX_JSON_DEPTH_def)
qed

section \<open>Properties\<close>

text \<open>
  C31: Whatever text \<open>decode_json\<close> accepts, the value it returns nests at most one hundred levels
  deep, has no surrogate in any text or key, and has no object with a key twice; every other text
  is an error, never a value.
\<close>

theorem decode_json_wellformed:
  assumes "decode_json s = Inr v"
  shows "json_depth v \<le> MAX_JSON_DEPTH \<and> clean_text v \<and> unique_keys v"
  using decode_json_bounds [OF assms] by simp

abbreviation sample_json :: JsonValue where
  "sample_json \<equiv> JObj [(lit ''b'', JStr [10, 0x20AC, 34]), (lit ''a'', JArr [JInt (- 7)])]"

lemma sample_json_ok:
  "json_ok sample_json" "ints_printable sample_json" "json_depth sample_json \<le> MAX_JSON_DEPTH"
  "canon sample_json = JObj [(lit ''a'', JArr [JInt (- 7)]), (lit ''b'', JStr [10, 0x20AC, 34])]"
  by (simp_all add: json_collections lit_def scalar_value_def MAX_JSON_DEPTH_def MAX_INT_DIGITS_def
      str_nat.simps canon_object_def)

theorem decode_json_wellformed_witness:
  "decode_json (json_text sample_json @ [10]) = Inr (canon sample_json) \<and>
   json_depth (canon sample_json) \<le> 100 \<and> unique_keys (canon sample_json)"
proof -
  have "decode_json (json_text sample_json @ [10]) = Inr (canon sample_json)"
    by (rule decode_json_printed) (use sample_json_ok in \<open>simp_all add: MAX_JSON_DEPTH_def\<close>)
  from this decode_json_wellformed [OF this] show ?thesis
    by (simp add: MAX_JSON_DEPTH_def)
qed

text \<open>
  What the helper's printer writes for a value without floats, whose texts are valid Unicode,
  whose integers have at most 4300 digits and which nests at most one hundred levels deep, decodes
  to the same value with every object in the order of its keys: printing succeeds, the bytes are
  UTF-8, and nothing is lost.
\<close>

theorem json_roundtrip:
  assumes "json_ok v" and "ints_printable v" and "json_depth v \<le> MAX_JSON_DEPTH"
  shows "\<exists>b s. json_bytes v = Inr b \<and> utf8_decode b = Some s \<and> decode_json s = Inr (canon v)"
  using assms json_bytes_ok utf8_decode_printed decode_json_printed
  by (auto simp: MAX_JSON_DEPTH_def)

theorem json_roundtrip_witness:
  "\<exists>b s. json_bytes sample_json = Inr b \<and> utf8_decode b = Some s
     \<and> decode_json s = Inr (JObj [(lit ''a'', JArr [JInt (- 7)]), (lit ''b'', JStr [10, 0x20AC, 34])])"
  using json_roundtrip [OF sample_json_ok(1-3)] unfolding sample_json_ok(4) .

end
