(* ===== verification/Timestamp.thy ===== *)
theory Timestamp
  imports Models Python_Text
begin

text \<open>
  Timestamps on the wire and in the state file. A \<open>datetime\<close> of the model is an instant in
  microseconds since 1970-01-01T00:00:00Z; \<open>isoformat\<close> writes it with the calendar of the standard
  library (\<open>_ord2ymd\<close>: the proleptic Gregorian calendar from year 1, day 1). The inverse,
  \<open>datetime.fromisoformat\<close>, accepts many more forms than the helper ever writes; its documented
  contract is that it reads what \<open>isoformat\<close> writes, and that is all the development uses. It is an
  argument of the parsers, with \<open>reads_isoformat\<close> as its law; \<open>canonical_fromisoformat\<close>, which accepts
  exactly the form the helper writes, shows that the law can be met.
\<close>

section \<open>The calendar\<close>

definition is_leap :: "nat \<Rightarrow> bool" where
  "is_leap year \<longleftrightarrow> year mod 4 = 0 \<and> (year mod 100 \<noteq> 0 \<or> year mod 400 = 0)"

definition days_before_year :: "nat \<Rightarrow> nat" where
  "days_before_year year =
     (let y = year - 1 in y * 365 + y div 4 - y div 100 + y div 400)"

definition month_days :: "nat list" where
  "month_days = [0, 31, 28, 31, 30, 31, 30, 31, 31, 30, 31, 30, 31]"

definition month_offsets :: "nat list" where
  "month_offsets = [0, 0, 31, 59, 90, 120, 151, 181, 212, 243, 273, 304, 334]"

definition days_in_month :: "bool \<Rightarrow> nat \<Rightarrow> nat" where
  "days_in_month leap month = month_days ! month + (if month = 2 \<and> leap then 1 else 0)"

definition days_before_month :: "bool \<Rightarrow> nat \<Rightarrow> nat" where
  "days_before_month leap month = month_offsets ! month + (if 2 < month \<and> leap then 1 else 0)"

definition ymd2ord :: "nat \<Rightarrow> nat \<Rightarrow> nat \<Rightarrow> nat" where
  "ymd2ord year month day = days_before_year year + days_before_month (is_leap year) month + day"

text \<open>The month and the day of the month of day \<open>n\<close> (from 0) of a year.\<close>

definition month_of :: "bool \<Rightarrow> nat \<Rightarrow> nat \<times> nat" where
  "month_of leap n =
     (let month = (n + 50) div 32;
          preceding = days_before_month leap month
      in if n < preceding
         then (month - 1, n - (preceding - days_in_month leap (month - 1)) + 1)
         else (month, n - preceding + 1))"

definition ord2ymd :: "nat \<Rightarrow> nat \<times> nat \<times> nat" where
  "ord2ymd ordinal =
     (let n = ordinal - 1;
          n400 = n div 146097; n = n mod 146097;
          n100 = n div 36524; n = n mod 36524;
          n4 = n div 1461; n = n mod 1461;
          n1 = n div 365; n = n mod 365;
          year = n400 * 400 + 1 + n100 * 100 + n4 * 4 + n1
      in if n1 = 4 \<or> n100 = 4 then (year - 1, 12, 31)
         else (year, month_of (n1 = 3 \<and> (n4 \<noteq> 24 \<or> n100 = 3)) n))"

lemma month_of_ok:
  assumes "n < 365 + (if leap then 1 else 0)" and "month_of leap n = (m, d)"
  shows "1 \<le> m \<and> m \<le> 12 \<and> 1 \<le> d \<and> d \<le> days_in_month leap m \<and>
    days_before_month leap m + d = n + 1"
proof -
  define k where "k = (n + 50) div 32"
  have "n \<le> 365" using assms(1) by (auto split: if_splits)
  then have "(n + 50) div 32 \<le> 415 div 32" by (intro div_le_mono) simp
  moreover have "50 div 32 \<le> (n + 50) div 32" by (intro div_le_mono) simp
  ultimately have k: "1 \<le> k" "k \<le> 12" by (simp_all add: k_def)
  have b: "32 * k \<le> n + 50" "n + 50 < 32 * k + 32" by (simp_all add: k_def)
  have m: "month_of leap n =
      (if n < days_before_month leap k
       then (k - 1, n - (days_before_month leap k - days_in_month leap (k - 1)) + 1)
       else (k, n - days_before_month leap k + 1))"
    by (simp add: month_of_def k_def Let_def)
  have "k \<in> {1, 2, 3, 4, 5, 6, 7, 8, 9, 10, 11, 12}" using k by (simp, presburger)
  then show ?thesis
    using assms b m
    by (elim insertE emptyE)
      (auto simp: days_before_month_def days_in_month_def month_offsets_def month_days_def
        split: if_splits)
qed

lemma div_digit: "r < q \<Longrightarrow> (r + q * x) div q = (x::nat)" "r < q \<Longrightarrow> (r + q * x) mod q = (r::nat)"
  by simp_all

lemma year_cycles:
  fixes a b c d :: nat
  assumes "b \<le> 3" "c \<le> 24" "d \<le> 3"
  shows "days_before_year (a * 400 + 1 + b * 100 + c * 4 + d) =
      146097 * a + 36524 * b + 1461 * c + 365 * d" (is ?days)
    and "is_leap (a * 400 + 1 + b * 100 + c * 4 + d) \<longleftrightarrow> d = 3 \<and> (c \<noteq> 24 \<or> b = 3)" (is ?leap)
proof -
  define y where "y = a * 400 + b * 100 + c * 4 + d"
  have y4: "y = d + 4 * (100 * a + 25 * b + c)" and y100: "y = (c * 4 + d) + 100 * (4 * a + b)"
    and y400: "y = (b * 100 + c * 4 + d) + 400 * a"
    by (simp_all add: y_def)
  have "y div 4 = 100 * a + 25 * b + c" "y div 100 = 4 * a + b" "y div 400 = a"
    using assms by (simp_all only: y4 [THEN arg_cong, of "\<lambda>z. z div 4"]
        y100 [THEN arg_cong, of "\<lambda>z. z div 100"] y400 [THEN arg_cong, of "\<lambda>z. z div 400"])
      (rule div_digit; simp)+
  then have "days_before_year (y + 1) = 146097 * a + 36524 * b + 1461 * c + 365 * d"
    by (simp add: days_before_year_def y_def)
  then show ?days by (simp add: y_def algebra_simps)
  have "(y + 1) mod 4 = 0 \<longleftrightarrow> d = 3"
  proof -
    have "y + 1 = (d + 1) + 4 * (100 * a + 25 * b + c)" by (simp add: y_def)
    then have "(y + 1) mod 4 = (d + 1) mod 4" by (simp only: mod_mult_self2)
    then show ?thesis using assms(3) by (cases "d = 3") auto
  qed
  moreover have "(y + 1) mod 100 = 0 \<longleftrightarrow> d = 3 \<and> c = 24"
  proof -
    have "y + 1 = (c * 4 + d + 1) + 100 * (4 * a + b)" by (simp add: y_def)
    then have "(y + 1) mod 100 = (c * 4 + d + 1) mod 100" by (simp only: mod_mult_self2)
    moreover have "c * 4 + d + 1 < 100 \<or> c = 24 \<and> d = 3" using assms by auto
    ultimately show ?thesis
      by (elim disjE) (use assms in \<open>simp_all add: mod_less del: One_nat_def\<close>)
  qed
  moreover have "(y + 1) mod 400 = 0 \<longleftrightarrow> d = 3 \<and> c = 24 \<and> b = 3"
  proof -
    have "y + 1 = (b * 100 + c * 4 + d + 1) + 400 * a" by (simp add: y_def)
    then have "(y + 1) mod 400 = (b * 100 + c * 4 + d + 1) mod 400" by (simp only: mod_mult_self2)
    moreover have "b * 100 + c * 4 + d + 1 < 400 \<or> c = 24 \<and> d = 3 \<and> b = 3" using assms by auto
    ultimately show ?thesis
      by (elim disjE) (use assms in \<open>simp_all add: mod_less del: One_nat_def\<close>)
  qed
  ultimately have "is_leap (y + 1) \<longleftrightarrow> d = 3 \<and> (c \<noteq> 24 \<or> b = 3)" by (auto simp: is_leap_def)
  then show ?leap by (simp add: y_def algebra_simps)
qed

lemma ord2ymd_ok:
  assumes "1 \<le> n" and "n \<le> 3652059" and "ord2ymd n = (y, m, d)"
  shows "ymd2ord y m d = n \<and> 1 \<le> y \<and> y \<le> 9999 \<and> 1 \<le> m \<and> m \<le> 12 \<and> 1 \<le> d \<and>
    d \<le> days_in_month (is_leap y) m"
proof -
  define a r1 where "a = (n - 1) div 146097" and "r1 = (n - 1) mod 146097"
  define b r2 where "b = r1 div 36524" and "r2 = r1 mod 36524"
  define c r3 where "c = r2 div 1461" and "r3 = r2 mod 1461"
  define e r4 where "e = r3 div 365" and "r4 = r3 mod 365"
  have eqs: "n - 1 = 146097 * a + r1" "r1 = 36524 * b + r2" "r2 = 1461 * c + r3" "r3 = 365 * e + r4"
    by (simp_all add: a_def r1_def b_def r2_def c_def r3_def e_def r4_def)
  have less: "r1 < 146097" "r2 < 36524" "r3 < 1461" "r4 < 365"
    by (simp_all add: r1_def r2_def r3_def r4_def)
  from eqs less have bounds: "b \<le> 4" "c \<le> 24" "e \<le> 4" by linarith+
  have a: "a \<le> 24" using eqs assms(2) by linarith
  define Y where "Y = a * 400 + 1 + b * 100 + c * 4 + e"
  have ymd: "(y, m, d) = (if e = 4 \<or> b = 4 then (Y - 1, 12, 31)
      else (Y, month_of (e = 3 \<and> (c \<noteq> 24 \<or> b = 3)) r4))"
    using assms(3) [symmetric]
    by (simp only: ord2ymd_def Let_def a_def r1_def b_def r2_def c_def r3_def e_def r4_def Y_def)
  have n: "n = 146097 * a + 36524 * b + 1461 * c + 365 * e + r4 + 1" using eqs assms(1) by linarith
  consider "b = 4" | "b \<noteq> 4" "e = 4" | "b \<le> 3" "e \<le> 3" using bounds by linarith
  then show ?thesis
  proof cases
    case 1
    with eqs less have z: "r2 = 0" by linarith
    then have "c = 0" "e = 0" "r4 = 0" using eqs by simp_all
    with 1 have "Y - 1 = a * 400 + 1 + 3 * 100 + 24 * 4 + 3" by (simp add: Y_def)
    with 1 ymd n \<open>c = 0\<close> \<open>e = 0\<close> \<open>r4 = 0\<close> assms(2) year_cycles [of 3 24 3 a] show ?thesis
      by (simp add: ymd2ord_def days_before_month_def days_in_month_def month_offsets_def month_days_def)
  next
    case 2
    with eqs less have "r4 = 0" "c \<le> 23" by linarith+
    with 2 have "Y - 1 = a * 400 + 1 + b * 100 + c * 4 + 3" "b \<le> 3"
      using bounds by (simp_all add: Y_def)
    with 2 ymd n \<open>r4 = 0\<close> \<open>c \<le> 23\<close> a year_cycles [of b c 3 a] show ?thesis
      by (simp add: ymd2ord_def days_before_month_def days_in_month_def month_offsets_def month_days_def)
  next
    case 3
    define leap where "leap \<longleftrightarrow> e = 3 \<and> (c \<noteq> 24 \<or> b = 3)"
    have y: "y = Y" and md: "month_of leap r4 = (m, d)" using ymd 3 by (simp_all add: leap_def)
    have "r4 < 365 + (if leap then 1 else 0)" using less(4) by simp
    from month_of_ok [OF this md] have md': "1 \<le> m" "m \<le> 12" "1 \<le> d" "d \<le> days_in_month leap m"
      "days_before_month leap m + d = r4 + 1" by simp_all
    have "days_before_year Y = 146097 * a + 36524 * b + 1461 * c + 365 * e" "is_leap Y = leap"
      unfolding Y_def leap_def using year_cycles [of b c e a] 3 bounds by blast+
    moreover have "Y \<le> 9999" using 3 a bounds n assms(2) less by (simp add: Y_def)
    ultimately show ?thesis
      using md' n by (simp add: y ymd2ord_def) (simp add: Y_def)
  qed
qed

section \<open>Writing\<close>

definition representable :: "datetime \<Rightarrow> bool" where
  "representable t \<longleftrightarrow> - 62135596800000000 \<le> t \<and> t < 253402300800000000"

text \<open>\<open>format(n, "0wd")\<close> for a number that fits.\<close>

fun fixed :: "nat \<Rightarrow> nat \<Rightarrow> ustr" where
  "fixed 0 n = []"
| "fixed (Suc w) n = fixed w (n div 10) @ [48 + n mod 10]"

definition date_of :: "datetime \<Rightarrow> nat \<times> nat \<times> nat" where
  "date_of t = ord2ymd (nat (t div 86400000000 + 719163))"

definition time_of :: "datetime \<Rightarrow> nat \<times> nat \<times> nat \<times> nat" where
  "time_of t =
     (let us = nat (t mod 86400000000)
      in (us div 3600000000, us div 60000000 mod 60, us div 1000000 mod 60, us mod 1000000))"

definition iso_text :: "datetime \<Rightarrow> ustr" where
  "iso_text t =
     (case (date_of t, time_of t) of ((y, m, d), (hh, mm, ss, us)) \<Rightarrow>
        fixed 4 y @ lit ''-'' @ fixed 2 m @ lit ''-'' @ fixed 2 d @ lit ''T'' @ fixed 2 hh @ lit '':'' @
        fixed 2 mm @ lit '':'' @ fixed 2 ss @ lit ''.'' @ fixed 6 us)"

text \<open>
  \<open>value.isoformat(timespec="microseconds")\<close> of a UTC datetime, and the form on the wire, in which
  \<open>.replace("+00:00", "Z")\<close> has turned the offset, the only plus sign, into a \<open>Z\<close>.
\<close>

definition isoformat :: "datetime \<Rightarrow> ustr" where
  "isoformat t = iso_text t @ lit ''+00:00''"

definition format_timestamp :: "datetime \<Rightarrow> ustr" where
  "format_timestamp t = iso_text t @ lit ''Z''"

section \<open>Reading\<close>

definition reads_isoformat :: "(ustr \<Rightarrow> datetime option) \<Rightarrow> bool" where
  "reads_isoformat fromisoformat \<longleftrightarrow>
     (\<forall>t. representable t \<longrightarrow> fromisoformat (isoformat t) = Some t)"

definition text_slice :: "nat \<Rightarrow> nat \<Rightarrow> ustr \<Rightarrow> ustr" where
  "text_slice i n s = take n (drop i s)"

definition canonical_fromisoformat :: "ustr \<Rightarrow> datetime option" where
  "canonical_fromisoformat s =
     (let num = (\<lambda>i n. nat (int_of_digits (text_slice i n s)));
          y = num 0 4; m = num 5 2; d = num 8 2; hh = num 11 2; mm = num 14 2; ss = num 17 2;
          us = num 20 6
      in if length s = 32
            \<and> list_all (\<lambda>(i, n). list_all is_digit (text_slice i n s))
                [(0, 4), (5, 2), (8, 2), (11, 2), (14, 2), (17, 2), (20, 6)]
            \<and> list_all (\<lambda>(i, c). text_slice i 1 s = lit c)
                [(4, ''-''), (7, ''-''), (10, ''T''), (13, '':''), (16, '':''), (19, ''.'')]
            \<and> text_slice 26 6 s = lit ''+00:00''
            \<and> 1 \<le> y \<and> 1 \<le> m \<and> m \<le> 12 \<and> 1 \<le> d \<and> d \<le> days_in_month (is_leap y) m
            \<and> hh < 24 \<and> mm < 60 \<and> ss < 60
         then Some ((int (ymd2ord y m d) - 719163) * 86400000000
                + int (((hh * 60 + mm) * 60 + ss) * 1000000 + us))
         else None)"

lemma length_fixed [simp]: "length (fixed w n) = w"
  by (induction w n rule: fixed.induct) simp_all

lemma fixed_digits: "list_all is_digit (fixed w n)"
proof (induction w n rule: fixed.induct)
  case (2 w n)
  have "n mod 10 < 10" by simp
  with 2 show ?case by (simp add: is_digit_def)
qed simp

lemma int_of_digits_fixed: "n < 10 ^ w \<Longrightarrow> int_of_digits (fixed w n) = int n"
proof (induction w n rule: fixed.induct)
  case (1 n)
  then show ?case by (simp add: int_of_digits_def)
next
  case (2 w n)
  have "n div 10 < 10 ^ w" using 2(2) by (simp add: div_less_iff_less_mult mult.commute)
  with 2(1) have "int_of_digits (fixed w (n div 10)) = int (n div 10)" by simp
  moreover have "int n = int (n div 10) * 10 + int (n mod 10)" by presburger
  ultimately show ?case by (simp add: int_of_digits_snoc)
qed

lemma clock_split:
  fixes u :: nat
  shows "((u div 3600000000 * 60 + u div 60000000 mod 60) * 60 + u div 1000000 mod 60) * 1000000
     + u mod 1000000 = u"
proof -
  define q where "q = u div 1000000"
  define p where "p = q div 60"
  have "u div 60000000 = p" "u div 3600000000 = p div 60"
    by (simp_all add: p_def q_def flip: div_mult2_eq)
  moreover have "p div 60 * 60 + p mod 60 = p" by simp
  moreover have "p * 60 + q mod 60 = q" by (simp add: p_def)
  moreover have "q * 1000000 + u mod 1000000 = u" by (simp add: q_def)
  ultimately show ?thesis by (simp flip: q_def)
qed

lemma iso_text_ok:
  assumes "representable t"
  obtains y m d hh mm ss us where
    "iso_text t = fixed 4 y @ lit ''-'' @ fixed 2 m @ lit ''-'' @ fixed 2 d @ lit ''T'' @ fixed 2 hh @
       lit '':'' @ fixed 2 mm @ lit '':'' @ fixed 2 ss @ lit ''.'' @ fixed 6 us"
    "1 \<le> y" "y \<le> 9999" "1 \<le> m" "m \<le> 12" "1 \<le> d" "d \<le> days_in_month (is_leap y) m"
    "hh < 24" "mm < 60" "ss < 60" "us < 1000000"
    "t = (int (ymd2ord y m d) - 719163) * 86400000000
         + int (((hh * 60 + mm) * 60 + ss) * 1000000 + us)"
proof -
  define n where "n = nat (t div 86400000000 + 719163)"
  define u where "u = nat (t mod 86400000000)"
  have day: "- 719162 \<le> t div 86400000000" "t div 86400000000 < 2932897"
    using assms by (simp_all add: representable_def) (linarith | simp add: div_less_iff_less_mult)+
  then have n: "1 \<le> n" "n \<le> 3652059" "int n = t div 86400000000 + 719163"
    by (simp_all add: n_def)
  have u: "u < 86400000000" "int u = t mod 86400000000" by (simp_all add: u_def)
  obtain y m d where ymd: "ord2ymd n = (y, m, d)" by (cases "ord2ymd n") auto
  note ok = ord2ymd_ok [OF n(1, 2) ymd]
  have hour: "u div 3600000000 < 24" using u(1) by (simp add: div_less_iff_less_mult)
  have tx: "iso_text t = fixed 4 y @ lit ''-'' @ fixed 2 m @ lit ''-'' @ fixed 2 d @ lit ''T'' @
       fixed 2 (u div 3600000000) @ lit '':'' @ fixed 2 (u div 60000000 mod 60) @ lit '':'' @
       fixed 2 (u div 1000000 mod 60) @ lit ''.'' @ fixed 6 (u mod 1000000)"
    using ymd by (simp add: iso_text_def date_of_def time_of_def n_def u_def Let_def)
  have "t = (int n - 719163) * 86400000000 + int u" by (simp add: n(3) u(2))
  then have "t = (int (ymd2ord y m d) - 719163) * 86400000000 + int
      (((u div 3600000000 * 60 + u div 60000000 mod 60) * 60 + u div 1000000 mod 60) * 1000000
        + u mod 1000000)"
    unfolding clock_split using ok by simp
  then show ?thesis
    by (intro that [OF tx]) (use ok hour in simp_all)
qed

lemma length_iso_text: "representable t \<Longrightarrow> length (iso_text t) = 26"
  by (elim iso_text_ok) simp

lemma days_in_month_le: "1 \<le> m \<Longrightarrow> m \<le> 12 \<Longrightarrow> days_in_month leap m \<le> 31"
proof -
  assume "1 \<le> m" "m \<le> 12"
  then have "m \<in> {1, 2, 3, 4, 5, 6, 7, 8, 9, 10, 11, 12}" by (simp, presburger)
  then show ?thesis by (elim insertE emptyE) (simp_all add: days_in_month_def month_days_def)
qed

lemma canonical_reads: "reads_isoformat canonical_fromisoformat"
  unfolding reads_isoformat_def
proof (intro allI impI)
  fix t
  assume "representable t"
  then obtain y m d hh mm ss us where ok:
    "iso_text t = fixed 4 y @ lit ''-'' @ fixed 2 m @ lit ''-'' @ fixed 2 d @ lit ''T'' @ fixed 2 hh @
       lit '':'' @ fixed 2 mm @ lit '':'' @ fixed 2 ss @ lit ''.'' @ fixed 6 us"
    "1 \<le> y" "y \<le> 9999" "1 \<le> m" "m \<le> 12" "1 \<le> d" "d \<le> days_in_month (is_leap y) m"
    "hh < 24" "mm < 60" "ss < 60" "us < 1000000"
    "t = (int (ymd2ord y m d) - 719163) * 86400000000
         + int (((hh * 60 + mm) * 60 + ss) * 1000000 + us)"
    by (rule iso_text_ok)
  have "d \<le> 31" using days_in_month_le [OF ok(4, 5), of "is_leap y"] ok(7) by simp
  then have nums: "int_of_digits (fixed 4 y) = int y" "int_of_digits (fixed 2 m) = int m"
    "int_of_digits (fixed 2 d) = int d" "int_of_digits (fixed 2 hh) = int hh"
    "int_of_digits (fixed 2 mm) = int mm" "int_of_digits (fixed 2 ss) = int ss"
    "int_of_digits (fixed 6 us) = int us"
    using ok by (simp_all add: int_of_digits_fixed)
  define s where "s = isoformat t"
  have s: "text_slice 0 4 s = fixed 4 y" "text_slice 5 2 s = fixed 2 m" "text_slice 8 2 s = fixed 2 d"
    "text_slice 11 2 s = fixed 2 hh" "text_slice 14 2 s = fixed 2 mm" "text_slice 17 2 s = fixed 2 ss"
    "text_slice 20 6 s = fixed 6 us" "text_slice 4 1 s = lit ''-''" "text_slice 7 1 s = lit ''-''"
    "text_slice 10 1 s = lit ''T''" "text_slice 13 1 s = lit '':''" "text_slice 16 1 s = lit '':''"
    "text_slice 19 1 s = lit ''.''" "text_slice 26 6 s = lit ''+00:00''" "length s = 32"
    by (simp_all add: s_def isoformat_def ok(1) text_slice_def)
  show "canonical_fromisoformat (isoformat t) = Some t"
    using ok(2-12) unfolding s_def [symmetric] canonical_fromisoformat_def
    by (simp add: s nums fixed_digits Let_def del: One_nat_def)
qed

text \<open>What the parsers look at before they call \<open>fromisoformat\<close>.\<close>

lemma format_timestamp_shape:
  assumes "representable t"
  shows "length (format_timestamp t) = 27" "format_timestamp t ! 10 = 84"
    "suffix (lit ''Z'') (format_timestamp t)" "butlast (format_timestamp t) = iso_text t"
proof -
  show "length (format_timestamp t) = 27" using length_iso_text [OF assms] by (simp add: format_timestamp_def)
  show "format_timestamp t ! 10 = 84"
    using assms by (elim iso_text_ok) (simp add: format_timestamp_def lit_def nth_append)
  show "suffix (lit ''Z'') (format_timestamp t)" by (simp add: format_timestamp_def suffix_def)
  show "butlast (format_timestamp t) = iso_text t" by (simp add: format_timestamp_def lit_def butlast_append)
qed

lemma scalar_fixed: "list_all scalar_value (fixed w n)"
  using fixed_digits [of w n] by (auto simp: list_all_iff is_digit_def scalar_value_def)

lemma scalar_format_timestamp: "list_all scalar_value (format_timestamp t)"
  by (cases "date_of t"; cases "time_of t")
    (simp add: format_timestamp_def iso_text_def scalar_fixed lit_def, simp add: scalar_value_def)

end
