(* ===== verification/State_Codec.thy ===== *)
theory State_Codec
  imports Storage_State Json Timestamp
begin

text \<open>
  The codec of the state file: \<open>encode_state\<close>, \<open>decode_state\<close> and the migrations of
  \<open>storage_state.py\<close>, and the watch records of \<open>storage_watches.py\<close>. The two modules hold the same
  small readers (\<open>_field\<close>, \<open>_object\<close>, \<open>_string\<close>, ...); they are defined once. The parser of ISO
  timestamps is an argument.
\<close>

section \<open>Reading fields\<close>

definition state_field :: "JsonObject \<Rightarrow> string \<Rightarrow> JsonValue result" where
  "state_field document name =
     (case map_of document (lit name) of
        None \<Rightarrow> Inl (corrupt (''state is missing '' @ name))
      | Some v \<Rightarrow> Inr v)"

definition state_object :: "JsonValue \<Rightarrow> string \<Rightarrow> JsonObject result" where
  "state_object v path =
     (case v of JObj document \<Rightarrow> Inr document | _ \<Rightarrow> Inl (corrupt (path @ '' must be an object'')))"

definition state_array :: "JsonValue \<Rightarrow> string \<Rightarrow> JsonValue list result" where
  "state_array v path =
     (case v of JArr vs \<Rightarrow> Inr vs | _ \<Rightarrow> Inl (corrupt (path @ '' must be an array'')))"

definition state_string :: "JsonValue \<Rightarrow> string \<Rightarrow> ustr result" where
  "state_string v path =
     (case v of JStr s \<Rightarrow> Inr s | _ \<Rightarrow> Inl (corrupt (path @ '' must be a string'')))"

definition state_integer :: "JsonValue \<Rightarrow> string \<Rightarrow> int result" where
  "state_integer v path =
     (case v of JInt i \<Rightarrow> Inr i | _ \<Rightarrow> Inl (corrupt (path @ '' must be an integer'')))"

definition state_boolean :: "JsonValue \<Rightarrow> string \<Rightarrow> bool result" where
  "state_boolean v path =
     (case v of JBool b \<Rightarrow> Inr b | _ \<Rightarrow> Inl (corrupt (path @ '' must be a boolean'')))"

definition state_timestamp ::
  "(ustr \<Rightarrow> datetime option) \<Rightarrow> JsonValue \<Rightarrow> string \<Rightarrow> datetime result" where
  "state_timestamp fromisoformat v path =
     bindE (state_string v path) (\<lambda>raw.
       if \<not> suffix (lit ''Z'') raw then Inl (corrupt (path @ '' must be UTC RFC3339''))
       else (case fromisoformat (butlast raw @ lit ''+00:00'') of
          None \<Rightarrow> Inl (corrupt (path @ '' must be UTC RFC3339''))
        | Some t \<Rightarrow> Inr t))"

definition state_optional_timestamp ::
  "(ustr \<Rightarrow> datetime option) \<Rightarrow> JsonValue \<Rightarrow> string \<Rightarrow> datetime option result" where
  "state_optional_timestamp fromisoformat v path =
     unless_null (\<lambda>w. state_timestamp fromisoformat w path) v"

definition state_optional_string :: "JsonValue \<Rightarrow> string \<Rightarrow> ustr option result" where
  "state_optional_string v path = unless_null (\<lambda>w. state_string w path) v"

definition optional_ledger_string :: "JsonObject \<Rightarrow> string \<Rightarrow> ustr option result" where
  "optional_ledger_string document name =
     (case map_of document (lit name) of
        None \<Rightarrow> Inr None
      | Some v \<Rightarrow> state_optional_string v (''ledger.'' @ name))"

definition optional_ledger_timestamp ::
  "(ustr \<Rightarrow> datetime option) \<Rightarrow> JsonObject \<Rightarrow> string \<Rightarrow> datetime option result" where
  "optional_ledger_timestamp fromisoformat document name =
     (case map_of document (lit name) of
        None \<Rightarrow> Inr None
      | Some v \<Rightarrow> state_optional_timestamp fromisoformat v (''ledger.'' @ name))"

definition nonnegative_integer :: "JsonValue \<Rightarrow> string \<Rightarrow> int result" where
  "nonnegative_integer v path =
     bindE (state_integer v path) (\<lambda>i.
       if i < 0 then Inl (corrupt (path @ '' must be non-negative'')) else Inr i)"

definition source_failure_count :: "JsonObject \<Rightarrow> int result" where
  "source_failure_count document =
     (case map_of document (lit ''failureCount'') of
        None \<Rightarrow> Inr 0
      | Some v \<Rightarrow> nonnegative_integer v ''source.failureCount'')"

definition source_permanent_failure :: "JsonObject \<Rightarrow> bool result" where
  "source_permanent_failure document =
     (case map_of document (lit ''permanentFailure'') of
        None \<Rightarrow> Inr False
      | Some v \<Rightarrow> state_boolean v ''source.permanentFailure'')"

definition state_enum :: "('e \<Rightarrow> ustr) \<Rightarrow> 'e list \<Rightarrow> JsonValue \<Rightarrow> string \<Rightarrow> 'e result" where
  "state_enum val members v path =
     bindE (state_string v path) (\<lambda>s.
       case enum_of val members s of
         None \<Rightarrow> Inl (corrupt (path @ '' is invalid''))
       | Some e \<Rightarrow> Inr e)"

definition state_notification_status :: "JsonValue \<Rightarrow> NotificationStatus result" where
  "state_notification_status v =
     state_enum notification_status_value notification_status_members v ''ledger.status''"

definition state_source_name :: "JsonValue \<Rightarrow> SourceName result" where
  "state_source_name v = state_enum source_name_value source_name_members v ''source.source''"

definition state_watch_mode :: "JsonValue \<Rightarrow> WatchMode result" where
  "state_watch_mode v = state_enum watch_mode_value watch_mode_members v ''watch.mode''"

section \<open>Watches\<close>

definition parse_v0_watch :: "JsonValue \<Rightarrow> WatchRecord result" where
  "parse_v0_watch v =
     bindE (state_object v ''watch'') (\<lambda>document.
     bindE (bindE (state_field document ''itemId'') (\<lambda>w. state_string w ''watch.itemId'')) (\<lambda>item_id.
     bindE (bindE (state_field document ''mode'') state_watch_mode) (\<lambda>mode.
       case mode of
         Watch_OFF \<Rightarrow> Inl (corrupt ''v0 off watches are not durable'')
       | _ \<Rightarrow> Inr \<lparr>w_item_id = item_id, w_mode = Watch_PERMANENT, w_installed_fingerprint = None,
                 w_candidate_fingerprint = None, w_armed = False, w_condition = None\<rparr>)))"

text \<open>The fields that the schema versions 1 and 2 share.\<close>

definition parse_watch_fields ::
  "JsonObject \<Rightarrow> SecurityFixCondition option \<Rightarrow> WatchRecord result" where
  "parse_watch_fields document condition =
     bindE (bindE (state_field document ''itemId'') (\<lambda>w. state_string w ''watch.itemId'')) (\<lambda>item_id.
     bindE (bindE (state_field document ''mode'') state_watch_mode) (\<lambda>mode.
     bindE (bindE (state_field document ''installedFingerprint'')
              (\<lambda>w. state_optional_string w ''watch.installedFingerprint'')) (\<lambda>installed.
     bindE (bindE (state_field document ''candidateFingerprint'')
              (\<lambda>w. state_optional_string w ''watch.candidateFingerprint'')) (\<lambda>candidate.
     bindE (bindE (state_field document ''armed'') (\<lambda>w. state_boolean w ''watch.armed'')) (\<lambda>armed.
       Inr \<lparr>w_item_id = item_id, w_mode = mode, w_installed_fingerprint = installed,
            w_candidate_fingerprint = candidate, w_armed = armed, w_condition = condition\<rparr>)))))"

definition parse_v1_watch :: "JsonValue \<Rightarrow> WatchRecord result" where
  "parse_v1_watch v =
     bindE (state_object v ''watch'') (\<lambda>document. parse_watch_fields document None)"

definition condition_cve_ids :: "JsonValue \<Rightarrow> ustr list result" where
  "condition_cve_ids v =
     (case v of
        JArr entries \<Rightarrow> mapE (\<lambda>entry. state_string entry ''watch.condition.cveIds'') entries
      | _ \<Rightarrow> Inl (corrupt ''watch.condition.cveIds must be an array''))"

definition parse_condition :: "JsonValue \<Rightarrow> SecurityFixCondition option result" where
  "parse_condition v =
     (if v = JNull then Inr None
      else
        bindE (state_object v ''watch.condition'') (\<lambda>document.
        if set (map fst document) \<noteq> {lit ''advisoryId'', lit ''cveIds'', lit ''fixedVersion''}
        then Inl (corrupt ''watch.condition fields are invalid'')
        else
          bindE (bindE (state_field document ''advisoryId'')
                   (\<lambda>w. state_string w ''watch.condition.advisoryId'')) (\<lambda>advisory_id.
          bindE (bindE (state_field document ''cveIds'') condition_cve_ids) (\<lambda>cve_ids.
          bindE (bindE (state_field document ''fixedVersion'')
                   (\<lambda>w. state_string w ''watch.condition.fixedVersion'')) (\<lambda>fixed_version.
          bindE (security_fix_condition advisory_id cve_ids fixed_version) (\<lambda>c. Inr (Some c)))))))"

definition parse_watch :: "JsonValue \<Rightarrow> WatchRecord result" where
  "parse_watch v =
     bindE (state_object v ''watch'') (\<lambda>document.
     bindE (bindE (state_field document ''condition'') parse_condition) (\<lambda>condition.
       parse_watch_fields document condition))"

definition condition_value :: "SecurityFixCondition option \<Rightarrow> JsonValue" where
  "condition_value condition =
     (case condition of
        None \<Rightarrow> JNull
      | Some c \<Rightarrow> JObj [(lit ''advisoryId'', JStr (fc_advisory_id c)),
                      (lit ''cveIds'', JArr (map JStr (fc_cve_ids c))),
                      (lit ''fixedVersion'', JStr (fc_fixed_version c))])"

definition watch_value :: "WatchRecord \<Rightarrow> JsonValue" where
  "watch_value watch = JObj [
     (lit ''itemId'', JStr (w_item_id watch)),
     (lit ''mode'', JStr (watch_mode_value (w_mode watch))),
     (lit ''installedFingerprint'', optional_text (w_installed_fingerprint watch)),
     (lit ''candidateFingerprint'', optional_text (w_candidate_fingerprint watch)),
     (lit ''armed'', JBool (w_armed watch)),
     (lit ''condition'', condition_value (w_condition watch))]"

section \<open>The state document\<close>

definition STATE_SCHEMA_VERSION :: int where
  "STATE_SCHEMA_VERSION = 2"

definition optional_timestamp_value :: "datetime option \<Rightarrow> JsonValue" where
  "optional_timestamp_value v = (case v of None \<Rightarrow> JNull | Some t \<Rightarrow> JStr (format_timestamp t))"

definition ledger_value :: "LedgerEntry \<Rightarrow> JsonValue" where
  "ledger_value entry = JObj [
     (lit ''fingerprint'', JStr (le_fingerprint entry)),
     (lit ''status'', JStr (notification_status_value (le_status entry))),
     (lit ''recordedAt'', JStr (format_timestamp (le_recorded_at entry))),
     (lit ''leaseToken'', optional_text (le_lease_token entry)),
     (lit ''leaseExpiresAt'', optional_timestamp_value (le_lease_expires_at entry))]"

definition source_value :: "SourceMetadata \<Rightarrow> JsonValue" where
  "source_value source = JObj [
     (lit ''source'', JStr (source_name_value (sm_source source))),
     (lit ''lastSuccess'', optional_timestamp_value (sm_last_success source)),
     (lit ''backoffUntil'', optional_timestamp_value (sm_backoff_until source)),
     (lit ''failureCount'', JInt (sm_failure_count source)),
     (lit ''permanentFailure'', JBool (sm_permanent_failure source))]"

definition state_value :: "PersistentState \<Rightarrow> JsonValue" where
  "state_value normalized = JObj [
     (lit ''schemaVersion'', JInt STATE_SCHEMA_VERSION),
     (lit ''watches'', JArr (map watch_value (ps_watches normalized))),
     (lit ''ledger'', JArr (map ledger_value (ps_ledger normalized))),
     (lit ''sources'', JArr (map source_value (ps_sources normalized)))]"

definition encode_state :: "PersistentState \<Rightarrow> datetime \<Rightarrow> bytes result" where
  "encode_state state now =
     thenE (validate_state state) (json_bytes (state_value (prune_ledger state now)))"

definition parse_ledger :: "(ustr \<Rightarrow> datetime option) \<Rightarrow> JsonValue \<Rightarrow> LedgerEntry result" where
  "parse_ledger fromisoformat v =
     bindE (state_object v ''ledger entry'') (\<lambda>document.
     bindE (optional_ledger_string document ''leaseToken'') (\<lambda>lease_token.
     bindE (optional_ledger_timestamp fromisoformat document ''leaseExpiresAt'') (\<lambda>lease_expires_at.
     bindE (bindE (state_field document ''fingerprint'')
              (\<lambda>w. state_string w ''ledger.fingerprint'')) (\<lambda>fingerprint.
     bindE (bindE (state_field document ''status'') state_notification_status) (\<lambda>status.
     bindE (bindE (state_field document ''recordedAt'')
              (\<lambda>w. state_timestamp fromisoformat w ''ledger.recordedAt'')) (\<lambda>recorded_at.
       Inr \<lparr>le_fingerprint = fingerprint, le_status = status, le_recorded_at = recorded_at,
            le_lease_token = lease_token, le_lease_expires_at = lease_expires_at\<rparr>))))))"

definition parse_source :: "(ustr \<Rightarrow> datetime option) \<Rightarrow> JsonValue \<Rightarrow> SourceMetadata result" where
  "parse_source fromisoformat v =
     bindE (state_object v ''source metadata'') (\<lambda>document.
     bindE (bindE (state_field document ''source'') state_source_name) (\<lambda>source.
     bindE (bindE (state_field document ''lastSuccess'')
              (\<lambda>w. state_optional_timestamp fromisoformat w ''source.lastSuccess'')) (\<lambda>last_success.
     bindE (bindE (state_field document ''backoffUntil'')
              (\<lambda>w. state_optional_timestamp fromisoformat w ''source.backoffUntil'')) (\<lambda>backoff_until.
     bindE (source_failure_count document) (\<lambda>failure_count.
     bindE (source_permanent_failure document) (\<lambda>permanent_failure.
       Inr \<lparr>sm_source = source, sm_last_success = last_success, sm_backoff_until = backoff_until,
            sm_failure_count = failure_count, sm_permanent_failure = permanent_failure\<rparr>))))))"

definition parse_state ::
  "(ustr \<Rightarrow> datetime option) \<Rightarrow> JsonObject \<Rightarrow> (JsonValue \<Rightarrow> WatchRecord result)
     \<Rightarrow> PersistentState result" where
  "parse_state fromisoformat document parse_watch_record =
     bindE (bindE (bindE (state_field document ''watches'') (\<lambda>w. state_array w ''watches''))
              (mapE parse_watch_record)) (\<lambda>watches.
     bindE (bindE (bindE (state_field document ''ledger'') (\<lambda>w. state_array w ''ledger''))
              (mapE (parse_ledger fromisoformat))) (\<lambda>ledger.
     bindE (bindE (bindE (state_field document ''sources'') (\<lambda>w. state_array w ''sources''))
              (mapE (parse_source fromisoformat))) (\<lambda>sources.
     let state = \<lparr>ps_watches = watches, ps_ledger = ledger, ps_sources = sources\<rparr>
     in thenE (validate_state state) (Inr state))))"

definition migrate_v0 :: "JsonObject \<Rightarrow> PersistentState result" where
  "migrate_v0 document =
     bindE (bindE (bindE (state_field document ''watches'') (\<lambda>w. state_array w ''watches''))
              (mapE parse_v0_watch)) (\<lambda>watches.
     let state = \<lparr>ps_watches = watches, ps_ledger = [], ps_sources = []\<rparr>
     in thenE (validate_state state) (Inr state))"

definition migrate_v1 :: "(ustr \<Rightarrow> datetime option) \<Rightarrow> JsonObject \<Rightarrow> PersistentState result" where
  "migrate_v1 fromisoformat document = parse_state fromisoformat document parse_v1_watch"

definition parse_v2 :: "(ustr \<Rightarrow> datetime option) \<Rightarrow> JsonObject \<Rightarrow> PersistentState result" where
  "parse_v2 fromisoformat document = parse_state fromisoformat document parse_watch"

definition decode_state :: "(ustr \<Rightarrow> datetime option) \<Rightarrow> bytes \<Rightarrow> PersistentState result" where
  "decode_state fromisoformat raw =
     (case utf8_decode raw of
        None \<Rightarrow> Inl (corrupt ''state is not UTF-8'')
      | Some s \<Rightarrow>
          bindE (decode_json s) (\<lambda>v.
          bindE (state_object v ''state'') (\<lambda>document.
          bindE (bindE (state_field document ''schemaVersion'')
                   (\<lambda>w. state_integer w ''state.schemaVersion'')) (\<lambda>version.
            if STATE_SCHEMA_VERSION < version then Inl (StateSchemaIncompatible version)
            else if version = 0 then migrate_v0 document
            else if version = 1 then migrate_v1 fromisoformat document
            else if version \<noteq> STATE_SCHEMA_VERSION
            then Inl (corrupt ''state.schemaVersion is unsupported'')
            else parse_v2 fromisoformat document))))"

section \<open>Facts about the readers\<close>

lemma state_field_canon:
  assumes "distinct (map fst ps)"
  shows "state_field (canon_object ps) name =
    (case map_of ps (lit name) of None \<Rightarrow> Inl (corrupt (''state is missing '' @ name))
     | Some v \<Rightarrow> Inr (canon v))"
  by (simp add: state_field_def canon_object_lookup [OF assms] split: option.split)

lemma state_readers [simp]:
  "state_string (JStr s) path = Inr s"
  "state_boolean (JBool b) path = Inr b"
  "state_integer (JInt i) path = Inr i"
  "state_array (JArr vs) path = Inr vs"
  "state_object (JObj ps) path = Inr ps"
  by (simp_all add: state_string_def state_boolean_def state_integer_def state_array_def
      state_object_def)

lemma state_enums [simp]:
  "state_watch_mode (JStr (watch_mode_value m)) = Inr m"
  "state_source_name (JStr (source_name_value n)) = Inr n"
  "state_notification_status (JStr (notification_status_value st)) = Inr st"
  by (simp_all add: state_watch_mode_def state_source_name_def state_notification_status_def
      state_enum_def watch_mode_enum.of_val source_name_enum.of_val notification_status_enum.of_val)

lemma canon_optional_timestamp [simp]: "canon (optional_timestamp_value v) = optional_timestamp_value v"
  by (simp add: optional_timestamp_value_def split: option.split)

lemma state_optional_string_text [simp]: "state_optional_string (optional_text v) path = Inr v"
  by (cases v) (simp_all add: state_optional_string_def unless_null_def optional_text_def)

lemma state_timestamp_format:
  assumes "reads_isoformat fiso" and "representable t"
  shows "state_timestamp fiso (JStr (format_timestamp t)) path = Inr t"
  using assms format_timestamp_shape(3, 4) [OF assms(2)]
  by (simp add: state_timestamp_def reads_isoformat_def flip: isoformat_def)

lemma state_optional_timestamp_value:
  assumes "reads_isoformat fiso" and "\<And>t. v = Some t \<Longrightarrow> representable t"
  shows "state_optional_timestamp fiso (optional_timestamp_value v) path = Inr v"
  using assms
  by (cases v)
    (simp_all add: state_optional_timestamp_def unless_null_def optional_timestamp_value_def
      state_timestamp_format)

section \<open>Round trip\<close>

text \<open>
  A state that Python can hold and print: texts without surrogates, datetimes of the calendar, and
  counters of at most 4300 digits.
\<close>

definition watch_text :: "WatchRecord \<Rightarrow> bool" where
  "watch_text w \<longleftrightarrow> text_ok (w_item_id w) \<and> option_ok text_ok (w_installed_fingerprint w) \<and>
     option_ok text_ok (w_candidate_fingerprint w)"

definition ledger_text :: "LedgerEntry \<Rightarrow> bool" where
  "ledger_text e \<longleftrightarrow> text_ok (le_fingerprint e) \<and> option_ok text_ok (le_lease_token e) \<and>
     representable (le_recorded_at e) \<and> option_ok representable (le_lease_expires_at e)"

definition source_text :: "SourceMetadata \<Rightarrow> bool" where
  "source_text m \<longleftrightarrow> option_ok representable (sm_last_success m) \<and>
     option_ok representable (sm_backoff_until m) \<and> 
     length (str_nat (nat \<bar>sm_failure_count m\<bar>)) \<le> MAX_INT_DIGITS"

definition state_text :: "PersistentState \<Rightarrow> bool" where
  "state_text s \<longleftrightarrow> (\<forall>w \<in> set (ps_watches s). watch_text w) \<and>
     (\<forall>e \<in> set (ps_ledger s). ledger_text e) \<and> (\<forall>m \<in> set (ps_sources s). source_text m)"

lemma record_eta:
  "\<lparr>fc_advisory_id = fc_advisory_id c, fc_cve_ids = fc_cve_ids c,
    fc_fixed_version = fc_fixed_version c\<rparr> = c"
  "\<lparr>ps_watches = ps_watches s, ps_ledger = ps_ledger s, ps_sources = ps_sources s\<rparr> = s"
  by simp_all

lemma parse_condition_value:
  assumes "option_ok (\<lambda>c. validate_condition c = Inr ()) condition"
  shows "parse_condition (canon (condition_value condition)) = Inr condition"
proof (cases condition)
  case None
  then show ?thesis by (simp add: condition_value_def parse_condition_def)
next
  case (Some c)
  have ids: "mapE (\<lambda>entry. state_string entry ''watch.condition.cveIds'') (map JStr ids) = Inr ids"
    for ids by (induction ids) simp_all
  from Some assms show ?thesis
    by (simp add: Let_def record_eta condition_value_def parse_condition_def state_field_canon canon_object_keys [simplified] condition_cve_ids_def comp_def ids
        security_fix_condition_def)
qed

lemma parse_watch_value:
  assumes "watch_ok w"
  shows "parse_watch (canon (watch_value w)) = Inr w"
proof -
  have "option_ok (\<lambda>c. validate_condition c = Inr ()) (w_condition w)"
    using assms by (cases "w_mode w"; cases "w_condition w")
      (simp_all add: watch_ok_permanent watch_ok_temporary)
  then show ?thesis
    by (simp add: watch_value_def parse_watch_def state_field_canon
        parse_condition_value parse_watch_fields_def)
qed

lemma parse_ledger_value:
  assumes "reads_isoformat fiso" and "ledger_text e"
  shows "parse_ledger fiso (canon (ledger_value e)) = Inr e"
proof -
  have "state_optional_timestamp fiso (optional_timestamp_value (le_lease_expires_at e)) path
      = Inr (le_lease_expires_at e)" for path
    using assms by (intro state_optional_timestamp_value) (auto simp: ledger_text_def)
  moreover have "state_timestamp fiso (JStr (format_timestamp (le_recorded_at e))) path
      = Inr (le_recorded_at e)" for path
    using assms by (intro state_timestamp_format) (simp_all add: ledger_text_def)
  ultimately show ?thesis
    by (simp add: ledger_value_def parse_ledger_def state_field_canon canon_object_lookup
        optional_ledger_string_def optional_ledger_timestamp_def)
qed

lemma parse_source_value:
  assumes "reads_isoformat fiso" and "source_text m" and "0 \<le> sm_failure_count m"
  shows "parse_source fiso (canon (source_value m)) = Inr m"
proof -
  have "state_optional_timestamp fiso (optional_timestamp_value (sm_last_success m)) path
      = Inr (sm_last_success m)" for path
    using assms by (intro state_optional_timestamp_value) (auto simp: source_text_def)
  moreover have "state_optional_timestamp fiso (optional_timestamp_value (sm_backoff_until m)) path
      = Inr (sm_backoff_until m)" for path
    using assms by (intro state_optional_timestamp_value) (auto simp: source_text_def)
  ultimately show ?thesis
    using assms(3)
    by (simp add: source_value_def parse_source_def state_field_canon canon_object_lookup
        source_failure_count_def source_permanent_failure_def nonnegative_integer_def)
qed

lemma parse_state_value:
  assumes "reads_isoformat fiso" and "state_text s" and "validate_state s = Inr ()"
  shows "parse_state fiso
      (canon_object [(lit ''schemaVersion'', JInt STATE_SCHEMA_VERSION),
        (lit ''watches'', JArr (map watch_value (ps_watches s))),
        (lit ''ledger'', JArr (map ledger_value (ps_ledger s))),
        (lit ''sources'', JArr (map source_value (ps_sources s)))]) parse_watch = Inr s"
proof -
  note ok = assms(3) [unfolded validate_state_iff watches_ok_def ledger_ok_def sources_ok_def]
  have "mapE parse_watch (map (canon \<circ> watch_value) (ps_watches s)) = Inr (map id (ps_watches s))"
    by (rule mapE_map_Inr) (use ok in \<open>simp add: parse_watch_value\<close>)
  moreover have "mapE (parse_ledger fiso) (map (canon \<circ> ledger_value) (ps_ledger s)) =
      Inr (map id (ps_ledger s))"
    by (rule mapE_map_Inr) (use assms(1, 2) in \<open>simp add: parse_ledger_value state_text_def\<close>)
  moreover have "mapE (parse_source fiso) (map (canon \<circ> source_value) (ps_sources s)) =
      Inr (map id (ps_sources s))"
    by (rule mapE_map_Inr) (use assms(1, 2) ok in \<open>simp add: parse_source_value state_text_def\<close>)
  ultimately show ?thesis
    using assms(3) by (simp add: parse_state_def state_field_canon Let_def record_eta)
qed

lemma scalar_digits: "list_all is_digit s \<Longrightarrow> list_all scalar_value s"
  by (auto simp: list_all_iff is_digit_def scalar_value_def)

lemma scalar_take_drop:
  assumes "list_all scalar_value (take n s)" and "list_all scalar_value (drop n s)"
  shows "list_all scalar_value s"
  using assms append_take_drop_id [of n s] by (metis list_all_append)

lemma condition_scalar:
  assumes "validate_condition c = Inr ()"
  shows "list_all scalar_value (fc_advisory_id c)" "\<forall>i \<in> set (fc_cve_ids c). list_all scalar_value i"
    "list_all scalar_value (fc_fixed_version c)"
proof -
  have pre: "list_all scalar_value (take 4 s)" if "prefix (lit p) s" "length p = 4" for p s
    using that by (auto simp: prefix_def scalar_lit)
  have adv: "advisory_id_matches (fc_advisory_id c)" and cves: "\<forall>i \<in> set (fc_cve_ids c). cve_id_matches i"
    using assms by (simp_all add: validate_condition_def list_ex_iff)
  show "list_all scalar_value (fc_advisory_id c)"
  proof (rule scalar_take_drop [of 4])
    show "list_all scalar_value (take 4 (fc_advisory_id c))"
      using adv pre [of "''AVG-''"] by (simp add: advisory_id_matches_def)
    show "list_all scalar_value (drop 4 (fc_advisory_id c))"
      using adv by (simp add: advisory_id_matches_def scalar_digits)
  qed
  have cve: "list_all scalar_value i" if i: "cve_id_matches i" for i
  proof -
    note parts = i [unfolded cve_id_matches_def]
    have "take 1 (drop 8 i) = lit ''-''" using parts by simp
    then have "list_all scalar_value (take 1 (drop 8 i))" by (simp only: scalar_lit)
    moreover have "list_all scalar_value (drop 1 (drop 8 i))" using parts by (simp add: scalar_digits)
    ultimately have "list_all scalar_value (drop 8 i)" by (rule scalar_take_drop)
    then have d: "list_all scalar_value (drop 4 (drop 4 i))" by simp
    have "list_all scalar_value (take 4 (drop 4 i))" using parts by (simp add: scalar_digits)
    from this d have d: "list_all scalar_value (drop 4 i)" by (rule scalar_take_drop)
    have "list_all scalar_value (take 4 i)" using parts pre [of "''CVE-''" i] by simp
    from this d show ?thesis by (rule scalar_take_drop)
  qed
  with cves show "\<forall>i \<in> set (fc_cve_ids c). list_all scalar_value i" by blast
  show "list_all scalar_value (fc_fixed_version c)"
    using assms
    by (auto simp: validate_condition_def ascii_printable_def list_all_iff scalar_value_def)
qed

lemma printable_optional_timestamp: "can_print n (optional_timestamp_value v)"
  by (cases v) (simp_all add: optional_timestamp_value_def scalar_format_timestamp)

lemma scalar_enum_values:
  "list_all scalar_value (watch_mode_value m)" "list_all scalar_value (notification_status_value st)"
  "list_all scalar_value (source_name_value n)"
proof -
  show "list_all scalar_value (watch_mode_value m)" by (cases m) (simp_all add: scalar_lit)
  show "list_all scalar_value (notification_status_value st)" by (cases st) (simp_all add: scalar_lit)
  show "list_all scalar_value (source_name_value n)" by (cases n) (simp_all add: scalar_lit)
qed

lemma printable_watch:
  assumes "watch_ok w" and "watch_text w"
  shows "can_print 50 (watch_value w)"
proof -
  have "can_print 49 (condition_value (w_condition w))"
  proof (cases "w_condition w")
    case (Some c)
    with assms(1) have "validate_condition c = Inr ()"
      by (cases "w_mode w") (simp_all add: watch_ok_permanent watch_ok_temporary)
    from Some condition_scalar [OF this] show ?thesis
      by (simp add: condition_value_def printable_JObj printable_JArr scalar_lit)
  qed (simp add: condition_value_def)
  with assms(2) show ?thesis
    by (simp add: watch_value_def watch_text_def printable_JObj printable_optional_text
        scalar_enum_values scalar_lit text_ok_def)
qed

lemma printable_state:
  assumes "validate_state s = Inr ()" and "state_text s"
  shows "can_print 100 (state_value s)"
proof -
  note ok = assms(1) [unfolded validate_state_iff watches_ok_def]
  have "can_print 98 (watch_value w)" if "w \<in> set (ps_watches s)" for w
    using printable_watch [of w] ok assms(2) that by (simp add: can_print_def state_text_def)
  moreover have "can_print 98 (ledger_value e)" if "e \<in> set (ps_ledger s)" for e
    using assms(2) that
    by (auto simp: ledger_value_def state_text_def ledger_text_def printable_JObj text_ok_def
        printable_optional_text printable_optional_timestamp scalar_enum_values scalar_lit
        scalar_format_timestamp)
  moreover have "can_print 98 (source_value m)" if "m \<in> set (ps_sources s)" for m
    using assms(2) that
    by (auto simp: source_value_def state_text_def source_text_def printable_JObj
        printable_optional_timestamp scalar_enum_values scalar_lit)
  moreover have "can_print 98 (JInt STATE_SCHEMA_VERSION)"
    by (simp add: STATE_SCHEMA_VERSION_def MAX_INT_DIGITS_def str_nat.simps)
  ultimately show ?thesis
    by (simp add: state_value_def printable_JObj printable_JArr scalar_lit)
qed

lemma prune_ledger_text: "state_text s \<Longrightarrow> state_text (prune_ledger s now)"
  using prune_ledger_subset [of s now] by (auto simp: state_text_def prune_ledger_def Let_def)

lemma decode_encode_state:
  assumes "reads_isoformat fiso" and "validate_state s = Inr ()" and "state_text s"
  obtains b where "encode_state s now = Inr b" "decode_state fiso b = Inr (prune_ledger s now)"
proof -
  let ?p = "prune_ledger s now"
  have p: "validate_state ?p = Inr ()" "state_text ?p"
    using assms(2, 3) by (simp_all add: prune_ledger_valid prune_ledger_text)
  from json_bytes_decode [OF printable_state [OF p]] obtain b t where
    b: "json_bytes (state_value ?p) = Inr b" "utf8_decode b = Some t"
      "decode_json t = Inr (canon (state_value ?p))" .
  then have "decode_state fiso b = Inr ?p"
    using parse_state_value [OF assms(1) p(2, 1)]
    by (simp add: decode_state_def state_value_def state_field_canon STATE_SCHEMA_VERSION_def parse_v2_def)
  with b(1) assms(2) show ?thesis by (intro that) (simp_all add: encode_state_def)
qed

text \<open>Whatever the file holds, a state that is decoded is a valid one, in every schema version.\<close>

lemma parse_state_valid: "parse_state fiso d p = Inr s \<Longrightarrow> validate_state s = Inr ()"
  by (auto simp: parse_state_def Let_def)

lemma decode_state_valid: "decode_state fiso raw = Inr s \<Longrightarrow> validate_state s = Inr ()"
  by (auto simp: decode_state_def migrate_v0_def migrate_v1_def parse_v2_def Let_def parse_state_valid
      split: option.splits if_splits)

section \<open>Properties\<close>

text \<open>
  C11: Writing the state and reading it back gives the state without the settled notifications that
  pruning drops: every valid state is accepted by the encoder, the bytes are accepted by the decoder,
  and every watch with its condition, every ledger entry with its lease and every source record comes
  back as it was.
\<close>

theorem state_roundtrip:
  assumes "reads_isoformat fromisoformat" and "validate_state s = Inr ()" and "state_text s"
  shows "\<exists>b. encode_state s now = Inr b \<and> decode_state fromisoformat b = Inr (prune_ledger s now)"
  using decode_encode_state [OF assms] by blast

definition stored_state :: PersistentState where
  "stored_state = \<lparr>ps_watches = [\<lparr>w_item_id = lit ''arch:bash'', w_mode = Watch_TEMPORARY,
      w_installed_fingerprint = Some (lit ''f1''), w_candidate_fingerprint = None, w_armed = False,
      w_condition = Some \<lparr>fc_advisory_id = lit ''AVG-7'', fc_cve_ids = [lit ''CVE-2024-0001''],
        fc_fixed_version = lit ''5.3''\<rparr>\<rparr>],
    ps_ledger = [\<lparr>le_fingerprint = lit ''k'', le_status = Notif_PENDING, le_recorded_at = 0,
      le_lease_token = Some (lit ''t''), le_lease_expires_at = Some (minutes 5)\<rparr>],
    ps_sources = [\<lparr>sm_source = Src_ARCH, sm_last_success = Some 0, sm_backoff_until = None,
      sm_failure_count = 0, sm_permanent_failure = False\<rparr>]\<rparr>"

lemma stored_state_ok: "validate_state stored_state = Inr ()" "state_text stored_state"
proof -
  show "validate_state stored_state = Inr ()"
    by (simp add: validate_state_iff stored_state_def watches_ok_def watch_ok_temporary ledger_ok_def
        entry_ok_def sources_ok_def)
      (simp add: validate_condition_def arch_item_id_matches_def arch_first_def arch_rest_def
        advisory_id_matches_def cve_id_matches_def MAX_CVE_IDS_def MAX_VERSION_LENGTH_def
        ascii_printable_def is_alnum_ascii_def is_digit_def lit_def)
  show "state_text stored_state"
    by (simp add: state_text_def stored_state_def watch_text_def ledger_text_def source_text_def
        text_ok_def scalar_lit representable_def minutes_def MAX_INT_DIGITS_def str_nat_0)
qed

theorem state_roundtrip_witness:
  "\<exists>b. encode_state stored_state 0 = Inr b \<and>
     decode_state canonical_fromisoformat b = Inr (prune_ledger stored_state 0)"
  using canonical_reads stored_state_ok by (rule state_roundtrip)

end
