(* ===== verification/Protocol.thy ===== *)
theory Protocol
  imports Validation Json Timestamp
begin

text \<open>
  The wire protocol: the printers of \<open>wire.py\<close>, the readers of \<open>parser_fields.py\<close>,
  \<open>payload_parser.py\<close> and \<open>parser.py\<close>, and \<open>encode_response\<close> and \<open>decode_response\<close> of \<open>protocol.py\<close>.
  A \<open>Reader\<close> is the object it holds together with its path; the paths only occur in error messages.
  That every timestamp is UTC holds by the type of instants.
\<close>

section \<open>Printing\<close>

definition wire_error :: "ErrorInfo \<Rightarrow> JsonValue" where
  "wire_error e = JObj [(lit ''code'', JStr (error_code_value (ei_code e))),
     (lit ''message'', JStr (ei_message e))]"

definition wire_cause :: "ErrorInfo option \<Rightarrow> JsonValue" where
  "wire_cause cause = (case cause of None \<Rightarrow> JNull | Some e \<Rightarrow> wire_error e)"

definition wire_notification :: "NotificationOutcome \<Rightarrow> JsonValue" where
  "wire_notification outcome = JObj [(lit ''fingerprint'', JStr (no_fingerprint outcome)),
     (lit ''status'', JStr (notification_status_value (no_status outcome)))]"

definition wire_finding :: "SecurityFinding \<Rightarrow> JsonValue" where
  "wire_finding f = JObj [
     (lit ''advisoryId'', JStr (sf_advisory_id f)),
     (lit ''cveIds'', JArr (map JStr (sf_cve_ids f))),
     (lit ''fixedVersion'', optional_text (sf_fixed_version f)),
     (lit ''id'', JStr (sf_finding_id f)),
     (lit ''installedVersion'', optional_text (sf_installed_version f)),
     (lit ''itemId'', JStr (sf_item_id f)),
     (lit ''kevProvenance'', optional_text (map_option provenance_value (sf_kev_provenance f))),
     (lit ''kevStatus'', JStr (kev_status_value (sf_kev_status f))),
     (lit ''knownExploited'', JBool (sf_known_exploited f)),
     (lit ''provenance'', JStr (provenance_value (sf_provenance f))),
     (lit ''severity'', JStr (severity_value (sf_severity f))),
     (lit ''status'', JStr (arch_status_value (sf_status f))),
     (lit ''type'', JStr (sf_advisory_type f))]"

definition wire_group :: "SecurityFindingGroup \<Rightarrow> JsonValue" where
  "wire_group g = JObj [(lit ''findings'', JArr (map wire_finding (sg_findings g))),
     (lit ''itemId'', JStr (sg_item_id g))]"

definition when_present :: "string \<Rightarrow> ustr option \<Rightarrow> JsonObject" where
  "when_present name v = (case v of None \<Rightarrow> [] | Some s \<Rightarrow> [(lit name, JStr s)])"

definition wire_item :: "NormalizedItem \<Rightarrow> JsonValue" where
  "wire_item i = JObj ([
     (lit ''candidate'', optional_text (ni_candidate i)),
     (lit ''id'', JStr (ni_item_id i)),
     (lit ''installed'', optional_text (ni_installed i)),
     (lit ''label'', JStr (ni_label i)),
     (lit ''provenance'', JStr (provenance_value (ni_provenance i))),
     (lit ''source'', JStr (item_source_value (ni_source i))),
     (lit ''watchMode'', JStr (watch_mode_value (ni_watch_mode i))),
     (lit ''watchArmed'', JBool (ni_watch_armed i)),
     (lit ''watchable'', JBool (ni_watchable i))]
     @ when_present ''installedFingerprint'' (ni_installed_fingerprint i)
     @ when_present ''candidateFingerprint'' (ni_candidate_fingerprint i))"

definition wire_summary :: "Summary \<Rightarrow> JsonValue" where
  "wire_summary s = JObj [
     (lit ''degradedSources'', JInt (su_degraded_sources s)),
     (lit ''securityFindings'', JInt (su_security_findings s)),
     (lit ''totalUpdates'', JInt (su_total_updates s)),
     (lit ''watchedUpdates'', JInt (su_watched_updates s))]"

definition wire_scope :: "ScopeHealth \<Rightarrow> JsonValue" where
  "wire_scope s = JObj [
     (lit ''cause'', wire_cause (sc_cause s)),
     (lit ''freshUntil'', JStr (format_timestamp (sc_fresh_until s))),
     (lit ''observedAt'', JStr (format_timestamp (sc_observed_at s))),
     (lit ''provenance'', JStr (provenance_value (sc_provenance s))),
     (lit ''scope'', JStr (scope_value (sc_scope s))),
     (lit ''status'', JStr (status_value (sc_status s)))]"

definition wire_source :: "SourceHealth \<Rightarrow> JsonValue" where
  "wire_source s = JObj ([
     (lit ''cause'', wire_cause (sh_cause s)),
     (lit ''freshUntil'', JStr (format_timestamp (sh_fresh_until s))),
     (lit ''observedAt'', JStr (format_timestamp (sh_observed_at s))),
     (lit ''provenance'', JStr (provenance_value (sh_provenance s))),
     (lit ''source'', JStr (source_name_value (sh_source s))),
     (lit ''status'', JStr (status_value (sh_status s)))]
     @ (if sh_scopes s = [] then [] else [(lit ''scopes'', JArr (map wire_scope (sh_scopes s)))]))"

definition wire_star_result :: "StarResultPayload \<Rightarrow> JsonValue" where
  "wire_star_result p = JObj [(lit ''itemId'', JStr (rp_item_id p)),
     (lit ''mode'', JStr (watch_mode_value (rp_mode p))), (lit ''watchArmed'', JBool (rp_watch_armed p))]"

definition wire_inventory :: "InventoryPayload \<Rightarrow> JsonValue" where
  "wire_inventory p = JObj [(lit ''items'', JArr (map wire_item (ip_items p))),
     (lit ''source'', JStr (item_source_value (ip_source p))), (lit ''total'', JInt (ip_total p))]"

definition wire_snapshot :: "SnapshotPayload \<Rightarrow> JsonValue" where
  "wire_snapshot p = JObj [
     (lit ''findings'', JArr (map wire_group (sp_findings p))),
     (lit ''items'', JArr (map wire_item (sp_items p))),
     (lit ''notifications'', JArr (map wire_notification (sp_notifications p))),
     (lit ''scanState'', JStr (scan_state_value (sp_scan_state p))),
     (lit ''sources'', JArr (map wire_source (sp_sources p))),
     (lit ''summary'', wire_summary (sp_summary p))]"

definition wire_envelope ::
  "datetime \<Rightarrow> ustr \<Rightarrow> ResponseKind \<Rightarrow> JsonValue \<Rightarrow> int \<Rightarrow> JsonValue" where
  "wire_envelope generated_at generation_id kind payload version = JObj [
     (lit ''generatedAt'', JStr (format_timestamp generated_at)),
     (lit ''generationId'', JStr generation_id),
     (lit ''kind'', JStr (response_kind_value kind)),
     (lit ''payload'', payload),
     (lit ''protocolVersion'', JInt version)]"

definition wire_error_envelope :: "datetime \<Rightarrow> ustr \<Rightarrow> ErrorInfo \<Rightarrow> int \<Rightarrow> JsonValue" where
  "wire_error_envelope generated_at generation_id e version = JObj [
     (lit ''error'', wire_error e),
     (lit ''generatedAt'', JStr (format_timestamp generated_at)),
     (lit ''generationId'', JStr generation_id),
     (lit ''kind'', JStr (response_kind_value Kind_ERROR)),
     (lit ''protocolVersion'', JInt version)]"

definition response_value :: "Response \<Rightarrow> JsonValue result" where
  "response_value response =
     thenE (validate_response response)
       (Inr (case response of
          SnapshotResp r \<Rightarrow> wire_envelope (sr_generated_at r) (sr_generation_id r) Kind_SNAPSHOT
            (wire_snapshot (sr_payload r)) (sr_protocol_version r)
        | InventoryResp r \<Rightarrow> wire_envelope (ir_generated_at r) (ir_generation_id r) Kind_INVENTORY
            (wire_inventory (ir_payload r)) (ir_protocol_version r)
        | StarResultResp r \<Rightarrow> wire_envelope (rr_generated_at r) (rr_generation_id r) Kind_STAR_RESULT
            (wire_star_result (rr_payload r)) (rr_protocol_version r)
        | ErrorResp r \<Rightarrow> wire_error_envelope (er_generated_at r) (er_generation_id r)
            (er_error r) (er_protocol_version r)))"

section \<open>Readers\<close>

definition failp :: "ErrorCode \<Rightarrow> string \<Rightarrow> exn" where
  "failp code message = protocol_fail code (lit message)"

definition reader_field :: "JsonObject \<Rightarrow> string \<Rightarrow> string \<Rightarrow> JsonValue result" where
  "reader_field document path name =
     (case map_of document (lit name) of
        None \<Rightarrow> Inl (failp MISSING_FIELD (''missing '' @ path @ ''.'' @ name))
      | Some v \<Rightarrow> Inr v)"

definition reader :: "JsonValue \<Rightarrow> string \<Rightarrow> string list \<Rightarrow> JsonObject result" where
  "reader v path allowed =
     (case v of
        JObj document \<Rightarrow>
          (let unknown_fields = set (map fst document) - lit ` set allowed
           in if unknown_fields \<noteq> {}
              then Inl (protocol_fail UNKNOWN_FIELD
                     (lit (''unknown '' @ path @ ''.'') @ Min unknown_fields))
              else Inr document)
      | _ \<Rightarrow> Inl (failp INVALID_TYPE (path @ '' must be an object'')))"

definition read_version :: "JsonValue \<Rightarrow> int result" where
  "read_version v =
     (case v of
        JInt i \<Rightarrow>
          if PROTOCOL_VERSION < i
          then Inl (failp PROTOCOL_VERSION_FUTURE ''protocolVersion is newer than this helper'')
          else if i \<noteq> PROTOCOL_VERSION
          then Inl (failp PROTOCOL_VERSION_INVALID ''protocolVersion is unsupported'')
          else Inr i
      | _ \<Rightarrow> Inl (failp PROTOCOL_VERSION_INVALID ''protocolVersion must be an exact integer''))"

definition read_string :: "JsonValue \<Rightarrow> string \<Rightarrow> ustr result" where
  "read_string v path =
     (case v of JStr s \<Rightarrow> Inr s | _ \<Rightarrow> Inl (failp INVALID_TYPE (path @ '' must be a string'')))"

definition read_timestamp ::
  "(ustr \<Rightarrow> datetime option) \<Rightarrow> JsonValue \<Rightarrow> string \<Rightarrow> datetime result" where
  "read_timestamp fromisoformat v path =
     bindE (read_string v path) (\<lambda>raw.
       if length raw < 21 \<or> raw ! 10 \<noteq> 84 \<or> \<not> suffix (lit ''Z'') raw
       then Inl (failp INVALID_TIMESTAMP (path @ '' must be UTC RFC3339''))
       else (case fromisoformat (butlast raw @ lit ''+00:00'') of
          None \<Rightarrow> Inl (failp INVALID_TIMESTAMP (path @ '' must be UTC RFC3339''))
        | Some t \<Rightarrow> Inr t))"

definition read_enum :: "('e \<Rightarrow> ustr) \<Rightarrow> 'e list \<Rightarrow> JsonValue \<Rightarrow> string \<Rightarrow> 'e result" where
  "read_enum val members v path =
     bindE (read_string v path) (\<lambda>s.
       case enum_of val members s of
         None \<Rightarrow> Inl (failp UNKNOWN_ENUM (''unknown enum at '' @ path))
       | Some e \<Rightarrow> Inr e)"

definition read_optional_string :: "JsonValue \<Rightarrow> string \<Rightarrow> ustr option result" where
  "read_optional_string v path = unless_null (\<lambda>w. read_string w path) v"

definition read_identifier :: "JsonValue \<Rightarrow> string \<Rightarrow> ustr result" where
  "read_identifier v path = read_string v path"

definition bounded_string :: "nat \<Rightarrow> JsonValue \<Rightarrow> string \<Rightarrow> ustr result" where
  "bounded_string maximum_length v path =
     bindE (read_string v path) (\<lambda>raw.
       if raw = [] \<or> maximum_length < length raw
       then Inl (failp INVALID_TYPE (path @ '' must be a bounded non-empty string''))
       else Inr raw)"

definition read_boolean :: "JsonValue \<Rightarrow> string \<Rightarrow> bool result" where
  "read_boolean v path =
     (case v of JBool b \<Rightarrow> Inr b | _ \<Rightarrow> Inl (failp INVALID_TYPE (path @ '' must be a boolean'')))"

definition nonnegative_int :: "JsonValue \<Rightarrow> string \<Rightarrow> int result" where
  "nonnegative_int v path =
     (case v of
        JInt i \<Rightarrow>
          if i < 0 then Inl (failp INVALID_TYPE (path @ '' must be a non-negative exact integer''))
          else Inr i
      | _ \<Rightarrow> Inl (failp INVALID_TYPE (path @ '' must be a non-negative exact integer'')))"

definition list_value :: "JsonValue \<Rightarrow> string \<Rightarrow> JsonValue list result" where
  "list_value v path =
     (case v of JArr vs \<Rightarrow> Inr vs | _ \<Rightarrow> Inl (failp INVALID_TYPE (path @ '' must be an array'')))"

definition reject_field :: "JsonObject \<Rightarrow> string \<Rightarrow> unit result" where
  "reject_field document name =
     checkE (lit name \<notin> set (map fst document))
       (failp INVALID_ENVELOPE (''response.'' @ name @ '' is incompatible with response.kind''))"

text \<open>\<open>read(reader.field(name), f"{path}.{name}")\<close>, and a tuple of the entries of a list.\<close>

definition get ::
  "JsonObject \<Rightarrow> string \<Rightarrow> string \<Rightarrow> (JsonValue \<Rightarrow> string \<Rightarrow> 'a result) \<Rightarrow> 'a result" where
  "get document path name read =
     bindE (reader_field document path name) (\<lambda>v. read v (path @ ''.'' @ name))"

definition read_list ::
  "(JsonValue \<Rightarrow> string \<Rightarrow> 'a result) \<Rightarrow> JsonValue \<Rightarrow> string \<Rightarrow> 'a list result" where
  "read_list read v path = bindE (list_value v path) (mapE (\<lambda>entry. read entry path))"

section \<open>Payloads\<close>

definition parse_error :: "JsonValue \<Rightarrow> string \<Rightarrow> ErrorInfo result" where
  "parse_error v path =
     bindE (reader v path [''code'', ''message'']) (\<lambda>d.
     bindE (get d path ''code'' (read_enum error_code_value error_code_members)) (\<lambda>code.
     bindE (get d path ''message'' (bounded_string MAX_ERROR_MESSAGE_LENGTH)) (\<lambda>message.
       Inr \<lparr>ei_code = code, ei_message = message\<rparr>)))"

definition parse_cause :: "JsonObject \<Rightarrow> string \<Rightarrow> ErrorInfo option result" where
  "parse_cause d path = get d path ''cause'' (\<lambda>v p. unless_null (\<lambda>w. parse_error w p) v)"

definition parse_scope :: "(ustr \<Rightarrow> datetime option) \<Rightarrow> JsonValue \<Rightarrow> string \<Rightarrow> ScopeHealth result" where
  "parse_scope fromisoformat v path =
     bindE (reader v path [''scope'', ''status'', ''provenance'', ''observedAt'', ''freshUntil'',
       ''cause'']) (\<lambda>d.
     bindE (parse_cause d path) (\<lambda>cause.
     bindE (get d path ''scope'' (read_enum scope_value scope_members)) (\<lambda>scope.
     bindE (get d path ''status'' (read_enum status_value status_members)) (\<lambda>status.
     bindE (get d path ''provenance'' (read_enum provenance_value provenance_members)) (\<lambda>provenance.
     bindE (get d path ''observedAt'' (read_timestamp fromisoformat)) (\<lambda>observed_at.
     bindE (get d path ''freshUntil'' (read_timestamp fromisoformat)) (\<lambda>fresh_until.
       Inr \<lparr>sc_scope = scope, sc_status = status, sc_provenance = provenance,
            sc_observed_at = observed_at, sc_fresh_until = fresh_until, sc_cause = cause\<rparr>)))))))"

definition parse_health :: "(ustr \<Rightarrow> datetime option) \<Rightarrow> JsonValue \<Rightarrow> string \<Rightarrow> SourceHealth result" where
  "parse_health fromisoformat v path =
     bindE (reader v path [''source'', ''status'', ''provenance'', ''observedAt'', ''freshUntil'',
       ''cause'', ''scopes'']) (\<lambda>d.
     bindE (parse_cause d path) (\<lambda>cause.
     bindE (if lit ''scopes'' \<notin> set (map fst d) then Inr []
            else get d path ''scopes'' (read_list (parse_scope fromisoformat))) (\<lambda>scopes.
     bindE (get d path ''source'' (read_enum source_name_value source_name_members)) (\<lambda>source.
     bindE (get d path ''status'' (read_enum status_value status_members)) (\<lambda>status.
     bindE (get d path ''provenance'' (read_enum provenance_value provenance_members)) (\<lambda>provenance.
     bindE (get d path ''observedAt'' (read_timestamp fromisoformat)) (\<lambda>observed_at.
     bindE (get d path ''freshUntil'' (read_timestamp fromisoformat)) (\<lambda>fresh_until.
       Inr \<lparr>sh_source = source, sh_status = status, sh_provenance = provenance,
            sh_observed_at = observed_at, sh_fresh_until = fresh_until, sh_cause = cause,
            sh_scopes = scopes\<rparr>))))))))"

definition parse_summary :: "JsonValue \<Rightarrow> Summary result" where
  "parse_summary v =
     bindE (reader v ''summary'' [''totalUpdates'', ''watchedUpdates'', ''securityFindings'',
       ''degradedSources'']) (\<lambda>d.
     bindE (get d ''summary'' ''totalUpdates'' nonnegative_int) (\<lambda>total.
     bindE (get d ''summary'' ''watchedUpdates'' nonnegative_int) (\<lambda>watched.
     bindE (get d ''summary'' ''securityFindings'' nonnegative_int) (\<lambda>security.
     bindE (get d ''summary'' ''degradedSources'' nonnegative_int) (\<lambda>degraded.
       Inr \<lparr>su_total_updates = total, su_watched_updates = watched,
            su_security_findings = security, su_degraded_sources = degraded\<rparr>)))))"

definition parse_fingerprint :: "JsonObject \<Rightarrow> string \<Rightarrow> string \<Rightarrow> ustr option result" where
  "parse_fingerprint d path name =
     (if lit name \<notin> set (map fst d) then Inr None else get d path name read_optional_string)"

definition parse_item :: "JsonValue \<Rightarrow> string \<Rightarrow> NormalizedItem result" where
  "parse_item v path =
     bindE (reader v path [''id'', ''source'', ''label'', ''installed'', ''candidate'', ''watchMode'',
       ''watchArmed'', ''watchable'', ''provenance'', ''installedFingerprint'',
       ''candidateFingerprint'']) (\<lambda>d.
     bindE (parse_fingerprint d path ''installedFingerprint'') (\<lambda>installed_fingerprint.
     bindE (parse_fingerprint d path ''candidateFingerprint'') (\<lambda>candidate_fingerprint.
     bindE (get d path ''id'' read_identifier) (\<lambda>item_id.
     bindE (get d path ''source'' (read_enum item_source_value item_source_members)) (\<lambda>source.
     bindE (get d path ''label'' read_identifier) (\<lambda>label.
     bindE (get d path ''installed'' read_optional_string) (\<lambda>installed.
     bindE (get d path ''candidate'' read_optional_string) (\<lambda>candidate.
     bindE (get d path ''watchMode'' (read_enum watch_mode_value watch_mode_members)) (\<lambda>watch_mode.
     bindE (get d path ''watchable'' read_boolean) (\<lambda>watchable.
     bindE (get d path ''provenance'' (read_enum provenance_value provenance_members)) (\<lambda>provenance.
     bindE (get d path ''watchArmed'' read_boolean) (\<lambda>watch_armed.
       Inr \<lparr>ni_item_id = item_id, ni_source = source, ni_label = label, ni_installed = installed,
            ni_candidate = candidate, ni_watch_mode = watch_mode, ni_watchable = watchable,
            ni_provenance = provenance, ni_installed_fingerprint = installed_fingerprint,
            ni_candidate_fingerprint = candidate_fingerprint, ni_watch_armed = watch_armed\<rparr>))))))))))))"

definition parse_finding :: "JsonValue \<Rightarrow> string \<Rightarrow> SecurityFinding result" where
  "parse_finding v path =
     bindE (reader v path [''id'', ''itemId'', ''advisoryId'', ''cveIds'', ''severity'', ''fixedVersion'',
       ''installedVersion'', ''knownExploited'', ''kevStatus'', ''kevProvenance'', ''provenance'',
       ''status'', ''type'']) (\<lambda>d.
     bindE (get d path ''cveIds'' (read_list read_identifier)) (\<lambda>cve_ids.
     bindE (get d path ''id'' read_identifier) (\<lambda>finding_id.
     bindE (get d path ''itemId'' read_identifier) (\<lambda>item_id.
     bindE (get d path ''advisoryId'' read_identifier) (\<lambda>advisory_id.
     bindE (get d path ''severity'' (read_enum severity_value severity_members)) (\<lambda>severity.
     bindE (get d path ''fixedVersion'' read_optional_string) (\<lambda>fixed_version.
     bindE (get d path ''knownExploited'' read_boolean) (\<lambda>known_exploited.
     bindE (get d path ''provenance'' (read_enum provenance_value provenance_members)) (\<lambda>provenance.
     bindE (get d path ''status'' (read_enum arch_status_value arch_status_members)) (\<lambda>status.
     bindE (get d path ''type'' read_identifier) (\<lambda>advisory_type.
     bindE (get d path ''installedVersion'' read_optional_string) (\<lambda>installed_version.
     bindE (get d path ''kevStatus'' (read_enum kev_status_value kev_status_members)) (\<lambda>kev_status.
     bindE (get d path ''kevProvenance''
              (\<lambda>w p. unless_null (\<lambda>u. read_enum provenance_value provenance_members u p) w)) (\<lambda>kev_provenance.
       Inr \<lparr>sf_finding_id = finding_id, sf_item_id = item_id, sf_advisory_id = advisory_id,
            sf_cve_ids = cve_ids, sf_severity = severity, sf_fixed_version = fixed_version,
            sf_known_exploited = known_exploited, sf_provenance = provenance, sf_status = status,
            sf_advisory_type = advisory_type, sf_installed_version = installed_version,
            sf_kev_status = kev_status, sf_kev_provenance = kev_provenance\<rparr>))))))))))))))"

definition parse_group :: "JsonValue \<Rightarrow> string \<Rightarrow> SecurityFindingGroup result" where
  "parse_group v path =
     bindE (reader v path [''itemId'', ''findings'']) (\<lambda>d.
     bindE (get d path ''itemId'' read_identifier) (\<lambda>item_id.
     bindE (get d path ''findings'' (read_list parse_finding)) (\<lambda>findings.
       Inr \<lparr>sg_item_id = item_id, sg_findings = findings\<rparr>)))"

definition parse_notification :: "JsonValue \<Rightarrow> string \<Rightarrow> NotificationOutcome result" where
  "parse_notification v path =
     bindE (reader v path [''fingerprint'', ''status'']) (\<lambda>d.
     bindE (get d path ''fingerprint'' read_identifier) (\<lambda>fingerprint.
     bindE (get d path ''status'' (read_enum notification_status_value notification_status_members))
       (\<lambda>status. Inr \<lparr>no_fingerprint = fingerprint, no_status = status\<rparr>)))"

definition parse_snapshot :: "(ustr \<Rightarrow> datetime option) \<Rightarrow> JsonValue \<Rightarrow> SnapshotPayload result" where
  "parse_snapshot fromisoformat v =
     bindE (reader v ''snapshot'' [''scanState'', ''sources'', ''summary'', ''items'', ''findings'',
       ''notifications'']) (\<lambda>d.
     bindE (get d ''snapshot'' ''sources'' (read_list (parse_health fromisoformat))) (\<lambda>sources.
     bindE (get d ''snapshot'' ''items'' (read_list parse_item)) (\<lambda>items.
     bindE (get d ''snapshot'' ''findings'' (read_list parse_group)) (\<lambda>findings.
     bindE (get d ''snapshot'' ''notifications'' (read_list parse_notification)) (\<lambda>notifications.
     bindE (get d ''snapshot'' ''scanState'' (read_enum scan_state_value scan_state_members)) (\<lambda>scan_state.
     bindE (get d ''snapshot'' ''summary'' (\<lambda>w p. parse_summary w)) (\<lambda>summary.
       Inr \<lparr>sp_scan_state = scan_state, sp_sources = sources, sp_summary = summary, sp_items = items,
            sp_findings = findings, sp_notifications = notifications\<rparr>)))))))"

definition parse_inventory_payload :: "JsonValue \<Rightarrow> InventoryPayload result" where
  "parse_inventory_payload v =
     bindE (reader v ''inventory'' [''source'', ''total'', ''items'']) (\<lambda>d.
     bindE (get d ''inventory'' ''items'' (read_list parse_item)) (\<lambda>items.
     bindE (get d ''inventory'' ''source'' (read_enum item_source_value item_source_members)) (\<lambda>source.
     bindE (get d ''inventory'' ''total'' nonnegative_int) (\<lambda>total.
       Inr \<lparr>ip_source = source, ip_total = total, ip_items = items\<rparr>))))"

definition parse_star_result :: "JsonValue \<Rightarrow> StarResultPayload result" where
  "parse_star_result v =
     bindE (reader v ''star-result'' [''itemId'', ''mode'', ''watchArmed'']) (\<lambda>d.
     bindE (get d ''star-result'' ''itemId'' read_identifier) (\<lambda>item_id.
     bindE (get d ''star-result'' ''mode'' (read_enum watch_mode_value watch_mode_members)) (\<lambda>mode.
     bindE (get d ''star-result'' ''watchArmed'' read_boolean) (\<lambda>watch_armed.
       Inr \<lparr>rp_item_id = item_id, rp_mode = mode, rp_watch_armed = watch_armed\<rparr>))))"

section \<open>Responses\<close>

definition validated :: "Response \<Rightarrow> Response result" where
  "validated response = thenE (validate_response response) (Inr response)"

definition parse_response :: "(ustr \<Rightarrow> datetime option) \<Rightarrow> JsonValue \<Rightarrow> Response result" where
  "parse_response fromisoformat v =
     bindE (reader v ''response'' [''protocolVersion'', ''kind'', ''generatedAt'', ''generationId'',
       ''payload'', ''error'']) (\<lambda>d.
     thenE (checkE (lit ''protocolVersion'' \<in> set (map fst d))
              (failp PROTOCOL_VERSION_MISSING ''protocolVersion is required''))
     (bindE (get d ''response'' ''protocolVersion'' (\<lambda>w p. read_version w)) (\<lambda>version.
      bindE (get d ''response'' ''generatedAt'' (read_timestamp fromisoformat)) (\<lambda>generated_at.
      bindE (get d ''response'' ''generationId'' read_identifier) (\<lambda>generation_id.
      bindE (get d ''response'' ''kind'' (read_enum response_kind_value response_kind_members)) (\<lambda>kind.
        case kind of
          Kind_SNAPSHOT \<Rightarrow>
            thenE (reject_field d ''error'')
              (bindE (get d ''response'' ''payload'' (\<lambda>w p. parse_snapshot fromisoformat w)) (\<lambda>payload.
                validated (SnapshotResp \<lparr>sr_generated_at = generated_at,
                  sr_generation_id = generation_id, sr_payload = payload,
                  sr_protocol_version = version\<rparr>)))
        | Kind_INVENTORY \<Rightarrow>
            thenE (reject_field d ''error'')
              (bindE (get d ''response'' ''payload'' (\<lambda>w p. parse_inventory_payload w)) (\<lambda>payload.
                validated (InventoryResp \<lparr>ir_generated_at = generated_at,
                  ir_generation_id = generation_id, ir_payload = payload,
                  ir_protocol_version = version\<rparr>)))
        | Kind_STAR_RESULT \<Rightarrow>
            thenE (reject_field d ''error'')
              (bindE (get d ''response'' ''payload'' (\<lambda>w p. parse_star_result w)) (\<lambda>payload.
                validated (StarResultResp \<lparr>rr_generated_at = generated_at,
                  rr_generation_id = generation_id, rr_payload = payload,
                  rr_protocol_version = version\<rparr>)))
        | Kind_ERROR \<Rightarrow>
            thenE (reject_field d ''payload'')
              (bindE (get d ''response'' ''error'' parse_error) (\<lambda>info.
                validated (ErrorResp \<lparr>er_generated_at = generated_at,
                  er_generation_id = generation_id, er_error = info,
                  er_protocol_version = version\<rparr>)))))))))"

definition MAX_PROTOCOL_BYTES :: nat where
  "MAX_PROTOCOL_BYTES = 5 * 1024 * 1024"

definition encode_json :: "Response \<Rightarrow> bytes result" where
  "encode_json response = bindE (response_value response) json_bytes"

definition encode_response :: "Response \<Rightarrow> bytes result" where
  "encode_response response =
     bindE (encode_json response) (\<lambda>encoded.
       if MAX_PROTOCOL_BYTES \<le> length encoded
       then Inl (failp OUTPUT_TOO_LARGE ''encoded response reaches the five MiB limit'')
       else Inr encoded)"

definition decode_response :: "(ustr \<Rightarrow> datetime option) \<Rightarrow> bytes \<Rightarrow> Response result" where
  "decode_response fromisoformat raw =
     (if MAX_PROTOCOL_BYTES \<le> length raw
      then Inl (failp PAYLOAD_TOO_LARGE ''input reaches the five MiB limit'')
      else (case utf8_decode raw of
         None \<Rightarrow> Inl (failp INVALID_UTF8 ''input is not UTF-8'')
       | Some s \<Rightarrow> bindE (decode_json s) (parse_response fromisoformat)))"

section \<open>Facts about the readers\<close>

lemma get_canon:
  assumes "distinct (map fst ps)"
  shows "get (canon_object ps) path name read =
    (case map_of ps (lit name) of
       None \<Rightarrow> Inl (failp MISSING_FIELD (''missing '' @ path @ ''.'' @ name))
     | Some v \<Rightarrow> read (canon v) (path @ ''.'' @ name))"
  by (simp add: get_def reader_field_def canon_object_lookup [OF assms] split: option.split)

lemma reader_canon:
  assumes "set (map fst ps) \<subseteq> lit ` set allowed"
  shows "reader (JObj (canon_object ps)) path allowed = Inr (canon_object ps)"
proof -
  have "set (map fst (canon_object ps)) - lit ` set allowed = {}"
    using assms unfolding canon_object_keys by blast
  then show ?thesis by (simp add: reader_def Let_def del: set_map)
qed

lemma field_in_canon: "lit name \<in> fst ` set (canon_object ps) \<longleftrightarrow> lit name \<in> fst ` set ps"
  using canon_object_keys [of ps] by simp

lemma read_list_wire:
  assumes "\<And>x. x \<in> set xs \<Longrightarrow> read (canon (wire x)) path = Inr x"
  shows "read_list read (JArr (map (canon \<circ> wire) xs)) path = Inr xs"
proof -
  have "mapE (\<lambda>entry. read entry path) (map (canon \<circ> wire) xs) = Inr (map id xs)"
    by (rule mapE_map_Inr) (simp add: assms)
  then show ?thesis by (simp add: read_list_def list_value_def)
qed

lemma readers [simp]:
  "read_string (JStr s) path = Inr s" "read_identifier (JStr s) path = Inr s"
  "read_boolean (JBool b) path = Inr b" "read_optional_string (optional_text v) path = Inr v"
  by (simp_all add: read_string_def read_identifier_def read_boolean_def)
    (simp add: read_optional_string_def unless_null_def optional_text_def read_string_def split: option.split)

lemma read_optional_JStr [simp]: "read_optional_string (JStr s) path = Inr (Some s)"
  by (simp add: read_optional_string_def unless_null_def read_string_def)

lemma read_enums [simp]:
  "read_enum status_value status_members (JStr (status_value a)) path = Inr a"
  "read_enum scan_state_value scan_state_members (JStr (scan_state_value b)) path = Inr b"
  "read_enum source_name_value source_name_members (JStr (source_name_value c)) path = Inr c"
  "read_enum scope_value scope_members (JStr (scope_value d)) path = Inr d"
  "read_enum item_source_value item_source_members (JStr (item_source_value e)) path = Inr e"
  "read_enum watch_mode_value watch_mode_members (JStr (watch_mode_value f)) path = Inr f"
  "read_enum severity_value severity_members (JStr (severity_value g)) path = Inr g"
  "read_enum arch_status_value arch_status_members (JStr (arch_status_value h)) path = Inr h"
  "read_enum kev_status_value kev_status_members (JStr (kev_status_value i)) path = Inr i"
  "read_enum provenance_value provenance_members (JStr (provenance_value j)) path = Inr j"
  "read_enum notification_status_value notification_status_members
     (JStr (notification_status_value k)) path = Inr k"
  "read_enum response_kind_value response_kind_members (JStr (response_kind_value l)) path = Inr l"
  "read_enum error_code_value error_code_members (JStr (error_code_value m)) path = Inr m"
  by (simp_all add: read_enum_def status_enum.of_val scan_state_enum.of_val source_name_enum.of_val
      scope_enum.of_val item_source_enum.of_val watch_mode_enum.of_val severity_enum.of_val
      arch_status_enum.of_val kev_status_enum.of_val provenance_enum.of_val
      notification_status_enum.of_val response_kind_enum.of_val error_code_enum.of_val)

lemma read_timestamp_format:
  assumes "reads_isoformat fiso" and "representable t"
  shows "read_timestamp fiso (JStr (format_timestamp t)) path = Inr t"
  using assms format_timestamp_shape [OF assms(2)]
  by (simp add: read_timestamp_def reads_isoformat_def flip: isoformat_def)

lemma nonnegative_int_JInt [simp]: "0 \<le> i \<Longrightarrow> nonnegative_int (JInt i) path = Inr i"
  by (simp add: nonnegative_int_def)

lemma wire_error_read:
  assumes "error_ok e"
  shows "parse_error (canon (wire_error e)) path = Inr e"
  using assms
  by (simp add: wire_error_def parse_error_def reader_canon get_canon bounded_string_def error_ok_def
      MAX_ERROR_MESSAGE_LENGTH_def)

lemma wire_cause_read:
  assumes "option_ok error_ok cause"
  shows "unless_null (\<lambda>w. parse_error w path) (canon (wire_cause cause)) = Inr cause"
proof (cases cause)
  case (Some e)
  moreover have "canon (wire_error e) \<noteq> JNull" by (simp add: wire_error_def)
  ultimately show ?thesis using assms by (simp add: wire_cause_def unless_null_def wire_error_read)
qed (simp add: wire_cause_def unless_null_def)

lemma wire_notification_read: "parse_notification (canon (wire_notification n)) path = Inr n"
  by (simp add: wire_notification_def parse_notification_def reader_canon get_canon)

lemma wire_finding_read: "parse_finding (canon (wire_finding f)) path = Inr f"
proof -
  have ids: "read_list read_identifier (JArr (map JStr (sf_cve_ids f))) p = Inr (sf_cve_ids f)" for p
    using read_list_wire [of "sf_cve_ids f" read_identifier JStr p] by (simp add: comp_def)
  have kev: "unless_null (\<lambda>u. read_enum provenance_value provenance_members u p)
      (optional_text (map_option provenance_value v)) = Inr v" for v p
    by (cases v) (simp_all add: unless_null_def optional_text_def)
  show ?thesis
    by (simp add: wire_finding_def parse_finding_def reader_canon get_canon comp_def ids kev)
qed

lemma wire_group_read: "parse_group (canon (wire_group g)) path = Inr g"
  by (simp add: wire_group_def parse_group_def reader_canon get_canon read_list_wire wire_finding_read)

lemma wire_item_read: "parse_item (canon (wire_item i)) path = Inr i"
  by (cases i; cases "ni_installed_fingerprint i"; cases "ni_candidate_fingerprint i")
    (simp_all add: wire_item_def when_present_def parse_item_def parse_fingerprint_def reader_canon
      get_canon field_in_canon)

lemma wire_summary_read:
  assumes "0 \<le> su_total_updates s" "0 \<le> su_watched_updates s" "0 \<le> su_security_findings s"
    "0 \<le> su_degraded_sources s"
  shows "parse_summary (canon (wire_summary s)) = Inr s"
  using assms by (simp add: wire_summary_def parse_summary_def reader_canon get_canon)

definition scope_text :: "ScopeHealth \<Rightarrow> bool" where
  "scope_text s \<longleftrightarrow> representable (sc_observed_at s) \<and> representable (sc_fresh_until s) \<and>
     option_ok (\<lambda>e. text_ok (ei_message e)) (sc_cause s)"

definition health_text :: "SourceHealth \<Rightarrow> bool" where
  "health_text s \<longleftrightarrow> representable (sh_observed_at s) \<and> representable (sh_fresh_until s) \<and>
     option_ok (\<lambda>e. text_ok (ei_message e)) (sh_cause s) \<and> (\<forall>c \<in> set (sh_scopes s). scope_text c)"

lemma wire_scope_read:
  assumes "reads_isoformat fiso" and "scope_text s" and "option_ok error_ok (sc_cause s)"
  shows "parse_scope fiso (canon (wire_scope s)) path = Inr s"
  using assms
  by (simp add: wire_scope_def parse_scope_def parse_cause_def reader_canon get_canon wire_cause_read
      read_timestamp_format scope_text_def)

lemma wire_source_read:
  assumes "reads_isoformat fiso" and "health_text s" and "option_ok error_ok (sh_cause s)"
    and "\<forall>c \<in> set (sh_scopes s). option_ok error_ok (sc_cause c)"
  shows "parse_health fiso (canon (wire_source s)) path = Inr s"
proof -
  have "read_list (parse_scope fiso) (JArr (map (canon \<circ> wire_scope) (sh_scopes s))) p
      = Inr (sh_scopes s)" for p
    using assms by (intro read_list_wire wire_scope_read) (simp_all add: health_text_def)
  then show ?thesis
    using assms(1-3)
    by (cases "sh_scopes s = []")
      (simp_all add: wire_source_def parse_health_def parse_cause_def reader_canon get_canon
        field_in_canon wire_cause_read read_timestamp_format health_text_def)
qed

lemma wire_star_result_read: "parse_star_result (canon (wire_star_result p)) = Inr p"
  by (simp add: wire_star_result_def parse_star_result_def reader_canon get_canon)

lemma wire_inventory_read:
  assumes "0 \<le> ip_total p"
  shows "parse_inventory_payload (canon (wire_inventory p)) = Inr p"
  using assms
  by (simp add: wire_inventory_def parse_inventory_payload_def reader_canon get_canon read_list_wire
      wire_item_read)

lemma validated_causes:
  assumes "validate_snapshot p = Inr ()" and "s \<in> set (sp_sources p)"
  shows "option_ok error_ok (sh_cause s)" "\<forall>c \<in> set (sh_scopes s). option_ok error_ok (sc_cause c)"
  using assms
  by (auto simp: validate_snapshot_def validate_sources_def validate_scopes_def option_ok_def
      split: option.splits if_splits)

lemma wire_snapshot_read:
  assumes "reads_isoformat fiso" and "validate_snapshot p = Inr ()"
    and "\<forall>s \<in> set (sp_sources p). health_text s"
  shows "parse_snapshot fiso (canon (wire_snapshot p)) = Inr p"
proof -
  have "read_list (parse_health fiso) (JArr (map (canon \<circ> wire_source) (sp_sources p))) path
      = Inr (sp_sources p)" for path
    using assms validated_causes [OF assms(2)]
    by (intro read_list_wire wire_source_read) simp_all
  moreover have "parse_summary (canon (wire_summary (sp_summary p))) = Inr (sp_summary p)"
    using assms(2) by (intro wire_summary_read) (simp_all add: validate_snapshot_def)
  ultimately show ?thesis
    by (simp add: wire_snapshot_def parse_snapshot_def reader_canon get_canon read_list_wire
        wire_item_read wire_group_read wire_notification_read)
qed

section \<open>Responses that can be printed\<close>

text \<open>
  A response Python can hold and print: texts without surrogates, datetimes of the calendar, and
  numbers of at most 4300 digits.
\<close>

definition number_ok :: "int \<Rightarrow> bool" where
  "number_ok i \<longleftrightarrow> length (str_nat (nat \<bar>i\<bar>)) \<le> MAX_INT_DIGITS"

definition item_text :: "NormalizedItem \<Rightarrow> bool" where
  "item_text i \<longleftrightarrow> text_ok (ni_item_id i) \<and> text_ok (ni_label i) \<and> option_ok text_ok (ni_installed i) \<and>
     option_ok text_ok (ni_candidate i) \<and> option_ok text_ok (ni_installed_fingerprint i) \<and>
     option_ok text_ok (ni_candidate_fingerprint i)"

definition finding_text :: "SecurityFinding \<Rightarrow> bool" where
  "finding_text f \<longleftrightarrow> text_ok (sf_finding_id f) \<and> text_ok (sf_item_id f) \<and> text_ok (sf_advisory_id f) \<and>
     (\<forall>c \<in> set (sf_cve_ids f). text_ok c) \<and> option_ok text_ok (sf_fixed_version f) \<and>
     text_ok (sf_advisory_type f) \<and> option_ok text_ok (sf_installed_version f)"

definition snapshot_text :: "SnapshotResponse \<Rightarrow> bool" where
  "snapshot_text r \<longleftrightarrow> representable (sr_generated_at r) \<and> text_ok (sr_generation_id r) \<and>
     (\<forall>s \<in> set (sp_sources (sr_payload r)). health_text s) \<and>
     (\<forall>i \<in> set (sp_items (sr_payload r)). item_text i) \<and>
     (\<forall>g \<in> set (sp_findings (sr_payload r)). text_ok (sg_item_id g) \<and>
        (\<forall>f \<in> set (sg_findings g). finding_text f)) \<and>
     (\<forall>n \<in> set (sp_notifications (sr_payload r)). text_ok (no_fingerprint n)) \<and>
     number_ok (su_total_updates (sp_summary (sr_payload r))) \<and>
     number_ok (su_watched_updates (sp_summary (sr_payload r))) \<and>
     number_ok (su_security_findings (sp_summary (sr_payload r))) \<and>
     number_ok (su_degraded_sources (sp_summary (sr_payload r)))"

definition inventory_text :: "InventoryResponse \<Rightarrow> bool" where
  "inventory_text r \<longleftrightarrow> representable (ir_generated_at r) \<and> text_ok (ir_generation_id r) \<and>
     (\<forall>i \<in> set (ip_items (ir_payload r)). item_text i) \<and> number_ok (ip_total (ir_payload r))"

fun response_text :: "Response \<Rightarrow> bool" where
  "response_text (SnapshotResp r) \<longleftrightarrow> snapshot_text r"
| "response_text (InventoryResp r) \<longleftrightarrow> inventory_text r"
| "response_text (StarResultResp r) \<longleftrightarrow> representable (rr_generated_at r) \<and>
     text_ok (rr_generation_id r) \<and> text_ok (rp_item_id (rr_payload r))"
| "response_text (ErrorResp r) \<longleftrightarrow> representable (er_generated_at r) \<and>
     text_ok (er_generation_id r) \<and> text_ok (ei_message (er_error r))"

lemma scalar_values [simp]:
  "list_all scalar_value (status_value a)" "list_all scalar_value (scan_state_value b)"
  "list_all scalar_value (source_name_value c)" "list_all scalar_value (scope_value d)"
  "list_all scalar_value (item_source_value e)" "list_all scalar_value (watch_mode_value f)"
  "list_all scalar_value (severity_value g)" "list_all scalar_value (arch_status_value h)"
  "list_all scalar_value (kev_status_value i)" "list_all scalar_value (provenance_value j)"
  "list_all scalar_value (notification_status_value k)" "list_all scalar_value (response_kind_value l)"
  "list_all scalar_value (error_code_value m)"
proof -
  show "list_all scalar_value (status_value a)" by (cases a) (simp_all add: scalar_lit)
  show "list_all scalar_value (scan_state_value b)" by (cases b) (simp_all add: scalar_lit)
  show "list_all scalar_value (source_name_value c)" by (cases c) (simp_all add: scalar_lit)
  show "list_all scalar_value (scope_value d)" by (cases d) (simp_all add: scalar_lit)
  show "list_all scalar_value (item_source_value e)" by (cases e) (simp_all add: scalar_lit)
  show "list_all scalar_value (watch_mode_value f)" by (cases f) (simp_all add: scalar_lit)
  show "list_all scalar_value (severity_value g)" by (cases g) (simp_all add: scalar_lit)
  show "list_all scalar_value (arch_status_value h)" by (cases h) (simp_all add: scalar_lit)
  show "list_all scalar_value (kev_status_value i)" by (cases i) (simp_all add: scalar_lit)
  show "list_all scalar_value (provenance_value j)" by (cases j) (simp_all add: scalar_lit)
  show "list_all scalar_value (notification_status_value k)" by (cases k) (simp_all add: scalar_lit)
  show "list_all scalar_value (response_kind_value l)" by (cases l) (simp_all add: scalar_lit)
  show "list_all scalar_value (error_code_value m)" by (cases m) (simp_all add: scalar_lit)
qed

lemmas printing = printable_JObj printable_JArr scalar_lit scalar_format_timestamp
  printable_optional_text

lemma printable_error: "text_ok (ei_message e) \<Longrightarrow> can_print 50 (wire_error e)"
  by (simp add: wire_error_def printing text_ok_def)

lemma printable_cause:
  "option_ok (\<lambda>e. text_ok (ei_message e)) cause \<Longrightarrow> can_print 50 (wire_cause cause)"
  by (cases cause) (simp_all add: wire_cause_def printable_error)

lemma printable_mono: "can_print n v \<Longrightarrow> n \<le> m \<Longrightarrow> can_print m v"
  by (simp add: can_print_def)

lemma printable_item: "item_text i \<Longrightarrow> can_print 50 (wire_item i)"
  by (cases "ni_installed_fingerprint i"; cases "ni_candidate_fingerprint i")
    (simp_all add: wire_item_def when_present_def printing item_text_def text_ok_def [abs_def])

lemma printable_finding: "finding_text f \<Longrightarrow> can_print 50 (wire_finding f)"
  by (cases "sf_kev_provenance f")
    (simp_all add: wire_finding_def printing finding_text_def text_ok_def [abs_def] optional_text_def
      option_ok_def split: option.splits)

lemma printable_scope:
  assumes "scope_text s"
  shows "can_print 60 (wire_scope s)"
proof -
  have "can_print 59 (wire_cause (sc_cause s))"
    using assms by (intro printable_mono [OF printable_cause]) (simp_all add: scope_text_def)
  then show ?thesis by (simp add: wire_scope_def printing)
qed

lemma printable_source:
  assumes "health_text s"
  shows "can_print 70 (wire_source s)"
proof -
  have "can_print 69 (wire_cause (sh_cause s))"
    using assms by (intro printable_mono [OF printable_cause]) (simp_all add: health_text_def)
  moreover have "can_print 68 (wire_scope c)" if "c \<in> set (sh_scopes s)" for c
    using assms that by (intro printable_mono [OF printable_scope]) (simp_all add: health_text_def)
  ultimately show ?thesis by (simp add: wire_source_def printing)
qed

lemma printable_snapshot:
  assumes "snapshot_text r"
  shows "can_print 90 (wire_snapshot (sr_payload r))"
proof -
  have "can_print 88 (wire_group g)" if "g \<in> set (sp_findings (sr_payload r))" for g
  proof -
    have "can_print 86 (wire_finding f)" if "f \<in> set (sg_findings g)" for f
      using assms \<open>g \<in> _\<close> that
      by (intro printable_mono [OF printable_finding]) (simp_all add: snapshot_text_def)
    then show ?thesis
      using assms that by (simp add: wire_group_def printing snapshot_text_def text_ok_def)
  qed
  moreover have "can_print 88 (wire_item i)" if "i \<in> set (sp_items (sr_payload r))" for i
    using assms that by (intro printable_mono [OF printable_item]) (simp_all add: snapshot_text_def)
  moreover have "can_print 88 (wire_source s)" if "s \<in> set (sp_sources (sr_payload r))" for s
    using assms that by (intro printable_mono [OF printable_source]) (simp_all add: snapshot_text_def)
  moreover have "can_print 88 (wire_notification n)" if "n \<in> set (sp_notifications (sr_payload r))" for n
    using assms that by (simp add: wire_notification_def printing snapshot_text_def text_ok_def)
  moreover have "can_print 89 (wire_summary (sp_summary (sr_payload r)))"
    using assms by (simp add: wire_summary_def printing snapshot_text_def number_ok_def)
  ultimately show ?thesis by (simp add: wire_snapshot_def printing)
qed

lemma printable_inventory:
  assumes "inventory_text r"
  shows "can_print 90 (wire_inventory (ir_payload r))"
proof -
  have "can_print 88 (wire_item i)" if "i \<in> set (ip_items (ir_payload r))" for i
    using assms that by (intro printable_mono [OF printable_item]) (simp_all add: inventory_text_def)
  then show ?thesis
    using assms by (simp add: wire_inventory_def printing inventory_text_def number_ok_def)
qed

section \<open>Round trip\<close>

lemma printable_envelope:
  assumes "can_print 99 payload" and "text_ok generation_id" and "version = PROTOCOL_VERSION"
  shows "can_print 100 (wire_envelope generated_at generation_id kind payload version)"
  using assms
  by (simp add: wire_envelope_def printing text_ok_def PROTOCOL_VERSION_def MAX_INT_DIGITS_def
      str_nat.simps)

lemma validate_metadata_of:
  "validate_response (SnapshotResp r) = Inr () \<Longrightarrow> sr_protocol_version r = PROTOCOL_VERSION"
  "validate_response (InventoryResp i) = Inr () \<Longrightarrow> ir_protocol_version i = PROTOCOL_VERSION"
  "validate_response (StarResultResp s) = Inr () \<Longrightarrow> rr_protocol_version s = PROTOCOL_VERSION"
  "validate_response (ErrorResp e) = Inr () \<Longrightarrow> er_protocol_version e = PROTOCOL_VERSION"
  by (simp_all add: validate_response_def)

lemma read_version_ok [simp]: "read_version (JInt PROTOCOL_VERSION) = Inr PROTOCOL_VERSION"
  by (simp add: read_version_def)

lemma response_printable:
  assumes "validate_response r = Inr ()" and "response_text r" and "response_value r = Inr v"
  shows "can_print 100 v"
proof (cases r)
  case (SnapshotResp q)
  with assms show ?thesis
    by (auto simp: response_value_def snapshot_text_def validate_metadata_of
        intro!: printable_envelope printable_mono [OF printable_snapshot])
next
  case (InventoryResp q)
  with assms show ?thesis
    by (auto simp: response_value_def inventory_text_def validate_metadata_of
        intro!: printable_envelope printable_mono [OF printable_inventory])
next
  case (StarResultResp q)
  with assms show ?thesis
    by (auto simp: response_value_def validate_metadata_of wire_star_result_def printing text_ok_def
        intro!: printable_envelope)
next
  case (ErrorResp q)
  have "can_print 99 (wire_error (er_error q))"
    using assms ErrorResp by (intro printable_mono [OF printable_error]) simp_all
  with assms ErrorResp show ?thesis
    by (simp add: response_value_def validate_metadata_of(4) wire_error_envelope_def printing text_ok_def
        PROTOCOL_VERSION_def MAX_INT_DIGITS_def str_nat.simps)
      (auto simp: printing text_ok_def PROTOCOL_VERSION_def MAX_INT_DIGITS_def str_nat.simps)
qed

lemma response_read:
  assumes "reads_isoformat fiso" and "validate_response r = Inr ()" and "response_text r"
    and "response_value r = Inr v"
  shows "parse_response fiso (canon v) = Inr r"
proof (cases r)
  case (SnapshotResp q)
  have "parse_snapshot fiso (canon (wire_snapshot (sr_payload q))) = Inr (sr_payload q)"
    using assms SnapshotResp
    by (intro wire_snapshot_read) (simp_all add: validate_response_def snapshot_text_def)
  moreover have "sr_protocol_version q = PROTOCOL_VERSION" "representable (sr_generated_at q)"
    using assms SnapshotResp by (simp_all add: validate_metadata_of snapshot_text_def)
  ultimately show ?thesis
    using assms SnapshotResp
    by (cases q) (auto simp: response_value_def wire_envelope_def parse_response_def reader_canon get_canon
        field_in_canon read_timestamp_format reject_field_def validated_def
        simp del: response_kind_value.simps)
next
  case (InventoryResp q)
  have "parse_inventory_payload (canon (wire_inventory (ir_payload q))) = Inr (ir_payload q)"
    using assms InventoryResp
    by (intro wire_inventory_read) (simp add: validate_response_def validate_inventory_iff)
  moreover have "ir_protocol_version q = PROTOCOL_VERSION" "representable (ir_generated_at q)"
    using assms InventoryResp by (simp_all add: validate_metadata_of inventory_text_def)
  ultimately show ?thesis
    using assms InventoryResp
    by (cases q) (auto simp: response_value_def wire_envelope_def parse_response_def reader_canon get_canon
        field_in_canon read_timestamp_format reject_field_def validated_def
        simp del: response_kind_value.simps)
next
  case (StarResultResp q)
  moreover have "rr_protocol_version q = PROTOCOL_VERSION" "representable (rr_generated_at q)"
    using assms StarResultResp by (simp_all add: validate_metadata_of)
  ultimately show ?thesis
    using assms
    by (cases q) (auto simp: response_value_def wire_envelope_def parse_response_def reader_canon get_canon
        field_in_canon read_timestamp_format reject_field_def validated_def wire_star_result_read
        simp del: response_kind_value.simps)
next
  case (ErrorResp q)
  moreover have "er_protocol_version q = PROTOCOL_VERSION" "representable (er_generated_at q)"
    "error_ok (er_error q)"
    using assms ErrorResp by (simp_all add: validate_response_def)
  ultimately show ?thesis
    using assms
    by (cases q) (auto simp: response_value_def wire_error_envelope_def parse_response_def reader_canon get_canon
        field_in_canon read_timestamp_format reject_field_def validated_def wire_error_read
        simp del: response_kind_value.simps)
qed

lemma encode_decode_response:
  assumes "reads_isoformat fiso" and "response_text r" and "encode_response r = Inr b"
  shows "decode_response fiso b = Inr r"
proof -
  from assms(3) obtain v where v: "response_value r = Inr v" "json_bytes v = Inr b"
      "length b < MAX_PROTOCOL_BYTES"
    by (auto simp: encode_response_def encode_json_def split: if_splits)
  then have valid: "validate_response r = Inr ()" by (auto simp: response_value_def)
  from json_bytes_decode [OF response_printable [OF valid assms(2) v(1)]] v(2)
  obtain t where "utf8_decode b = Some t" "decode_json t = Inr (canon v)" by auto
  with response_read [OF assms(1) valid assms(2) v(1)] v(3) show ?thesis
    by (simp add: decode_response_def)
qed

lemma encode_response_cases:
  assumes "validate_response r = Inr ()" and "response_text r"
  obtains b where "encode_response r = Inr b"
  | "encode_response r = Inl (failp OUTPUT_TOO_LARGE ''encoded response reaches the five MiB limit'')"
proof -
  from assms(1) obtain v where v: "response_value r = Inr v" by (cases r) (auto simp: response_value_def)
  from json_bytes_decode [OF response_printable [OF assms v]] obtain b where "json_bytes v = Inr b" by auto
  with v that show ?thesis
    by (cases "MAX_PROTOCOL_BYTES \<le> length b") (auto simp: encode_response_def encode_json_def)
qed

lemma encode_response_small:
  assumes "validate_response r = Inr ()" and "response_text r" and "response_value r = Inr v"
    and "4 * (json_size v + 1) < MAX_PROTOCOL_BYTES"
  obtains b where "encode_response r = Inr b"
proof -
  have ok: "json_ok v" "ints_printable v"
    using response_printable [OF assms(1-3)] by (simp_all add: can_print_def)
  have "length (utf8_encode (json_text v @ [10])) \<le> 4 * (json_size v + 1)"
    using length_utf8_encode_le [of "json_text v @ [10]"] json_size_bounds [of v] by simp
  with assms(3, 4) json_bytes_ok [OF ok] show ?thesis
    by (intro that) (simp add: encode_response_def encode_json_def)
qed

text \<open>Every response that decodes has passed the validation.\<close>

lemma decode_response_valid: "decode_response fiso raw = Inr r \<Longrightarrow> validate_response r = Inr ()"
  by (auto simp: decode_response_def parse_response_def validated_def
      split: if_splits option.splits ResponseKind.splits) (metis ResponseKind.exhaust)

section \<open>Properties\<close>

text \<open>
  C16: A valid response either reaches the five MiB limit, and is refused with \<open>OUTPUT_TOO_LARGE\<close>, or is
  encoded below that limit, and then decoding the bytes gives back the same response, for each of the
  four kinds and with every field: no unknown field is written, no required one is left out, and every
  enumeration, timestamp and optional field survives.
\<close>

theorem response_roundtrip:
  assumes "reads_isoformat fromisoformat" and "validate_response r = Inr ()" and "response_text r"
  shows "encode_response r = Inl (failp OUTPUT_TOO_LARGE ''encoded response reaches the five MiB limit'') \<or>
    (\<exists>b. encode_response r = Inr b \<and> length b < MAX_PROTOCOL_BYTES \<and>
      decode_response fromisoformat b = Inr r)"
proof (rule encode_response_cases [OF assms(2, 3)])
  fix b
  assume b: "encode_response r = Inr b"
  then have "length b < MAX_PROTOCOL_BYTES" by (auto simp: encode_response_def split: if_splits)
  with b encode_decode_response [OF assms(1, 3) b] show ?thesis by blast
qed blast

definition star_response :: Response where
  "star_response = StarResultResp \<lparr>rr_generated_at = hours 1, rr_generation_id = lit ''star-1'',
     rr_payload = \<lparr>rp_item_id = lit ''arch:bash'', rp_mode = Watch_TEMPORARY, rp_watch_armed = True\<rparr>,
     rr_protocol_version = PROTOCOL_VERSION\<rparr>"

lemma star_response_encoded:
  "validate_response star_response = Inr ()" "response_text star_response"
  "\<exists>b. encode_response star_response = Inr b"
proof -
  show valid: "validate_response star_response = Inr ()"
    by (simp add: validate_response_def star_response_def validate_star_result_def identifier_ok_def)
  show texts: "response_text star_response"
    by (simp add: star_response_def representable_def hours_def text_ok_def scalar_lit)
  obtain v where v: "response_value star_response = Inr v" "json_size v \<le> 1000"
    using valid
    by (simp add: response_value_def star_response_def wire_envelope_def wire_star_result_def
        PROTOCOL_VERSION_def str_int_def str_nat.simps format_timestamp_shape(1) representable_def hours_def)
  show "\<exists>b. encode_response star_response = Inr b"
    by (rule encode_response_small [OF valid texts v(1)])
      (use v(2) in \<open>auto simp: MAX_PROTOCOL_BYTES_def\<close>)
qed

theorem response_roundtrip_witness:
  "\<exists>b. encode_response star_response = Inr b \<and> length b < MAX_PROTOCOL_BYTES \<and>
      decode_response canonical_fromisoformat b = Inr star_response"
  using response_roundtrip [OF canonical_reads star_response_encoded(1, 2)] star_response_encoded(3)
  by auto

end
