(* ===== verification/Generation_Codec.thy ===== *)
theory Generation_Codec
  imports Scan_Generation State_Codec Protocol
begin

text \<open>
  The generation cache file of \<open>storage_generation.py\<close>: one JSON document that holds the encoded
  snapshot, inventories, state and last good snapshot as base64 texts, checked as a whole before it is
  written and after it is read. \<open>base64\<close> is the standard alphabet with padding;
  \<open>b64decode(..., validate=True)\<close> accepts exactly the texts of whole padded quadruples.
\<close>

section \<open>Base64\<close>

definition b64_char :: "nat \<Rightarrow> nat" where
  "b64_char v =
     (if v < 26 then 65 + v else if v < 52 then 71 + v else if v < 62 then v - 4
      else if v = 62 then 43 else 47)"

definition b64_value :: "nat \<Rightarrow> nat option" where
  "b64_value c =
     (if 65 \<le> c \<and> c \<le> 90 then Some (c - 65)
      else if 97 \<le> c \<and> c \<le> 122 then Some (c - 71)
      else if 48 \<le> c \<and> c \<le> 57 then Some (c + 4)
      else if c = 43 then Some 62
      else if c = 47 then Some 63
      else None)"

fun b64encode :: "bytes \<Rightarrow> ustr" where
  "b64encode [] = []"
| "b64encode [x] =
     (let n = unat x in [b64_char (n div 4), b64_char (n mod 4 * 16), 61, 61])"
| "b64encode [x, y] =
     (let n = unat x * 256 + unat y
      in [b64_char (n div 1024), b64_char (n div 16 mod 64), b64_char (n mod 16 * 4), 61])"
| "b64encode (x # y # z # rest) =
     (let n = (unat x * 256 + unat y) * 256 + unat z
      in [b64_char (n div 262144), b64_char (n div 4096 mod 64), b64_char (n div 64 mod 64),
          b64_char (n mod 64)] @ b64encode rest)"

fun b64decode :: "ustr \<Rightarrow> bytes option" where
  "b64decode [] = Some []"
| "b64decode (a # b # c # d # rest) =
     (case (b64_value a, b64_value b) of
        (Some p, Some q) \<Rightarrow>
          if c = 61 \<and> d = 61 then (if rest = [] then Some [byte ((p * 64 + q) div 16)] else None)
          else (case b64_value c of
             None \<Rightarrow> None
           | Some u \<Rightarrow>
               if d = 61
               then (if rest = []
                     then (let n = ((p * 64 + q) * 64 + u) div 4 in Some [byte (n div 256), byte (n mod 256)])
                     else None)
               else (case b64_value d of
                  None \<Rightarrow> None
                | Some v \<Rightarrow>
                    (let n = ((p * 64 + q) * 64 + u) * 64 + v
                     in map_option (\<lambda>bs. [byte (n div 65536), byte (n div 256 mod 256), byte (n mod 256)] @ bs)
                          (b64decode rest))))
      | _ \<Rightarrow> None)"
| "b64decode _ = None"

lemma b64_value_char [simp]: "v < 64 \<Longrightarrow> b64_value (b64_char v) = Some v"
  by (auto simp: b64_value_def b64_char_def)

lemma b64_char_not_pad [simp]: "v < 64 \<Longrightarrow> b64_char v \<noteq> 61"
  by (auto simp: b64_char_def)

lemma b64_char_ascii: "v < 64 \<Longrightarrow> b64_char v < 128"
  by (auto simp: b64_char_def)

lemma byte_unat [simp]: "byte (unat x) = x"
  by (simp add: byte_def)

lemma unat_byte_less: "unat (x :: 8 word) < 256"
  using unsigned_less [of x] by simp

lemma digits_join: "n div (a * b) * b + n div a mod b = n div (a::nat)"
  by (simp add: div_mult2_eq)

lemma b64decode_quad:
  assumes "p < 64" "q < 64" "u < 64" "v < 64"
  shows "b64decode (b64_char p # b64_char q # b64_char u # b64_char v # rest) =
    map_option (\<lambda>bs. [byte ((((p * 64 + q) * 64 + u) * 64 + v) div 65536),
      byte ((((p * 64 + q) * 64 + u) * 64 + v) div 256 mod 256),
      byte ((((p * 64 + q) * 64 + u) * 64 + v) mod 256)] @ bs) (b64decode rest)"
  unfolding b64decode.simps Let_def
  by (simp only: assms b64_value_char b64_char_not_pad prod.case option.case if_False simp_thms)

lemma b64decode_triple:
  assumes "p < 64" "q < 64" "u < 64"
  shows "b64decode [b64_char p, b64_char q, b64_char u, 61] =
    Some [byte (((p * 64 + q) * 64 + u) div 4 div 256), byte (((p * 64 + q) * 64 + u) div 4 mod 256)]"
  unfolding b64decode.simps Let_def
  by (simp only: assms b64_value_char b64_char_not_pad prod.case option.case if_False if_True simp_thms)

lemma b64decode_pair:
  assumes "p < 64" "q < 64"
  shows "b64decode [b64_char p, b64_char q, 61, 61] = Some [byte ((p * 64 + q) div 16)]"
  unfolding b64decode.simps Let_def
  by (simp only: assms b64_value_char prod.case option.case if_True simp_thms)

lemma word_pair:
  fixes x y :: "8 word"
  shows "(unat x * 256 + unat y) div 256 = unat x" "(unat x * 256 + unat y) mod 256 = unat y"
  using div_digit [OF unat_byte_less [of y], of "unat x"] by (simp_all add: algebra_simps)

lemma b64decode_encode: "b64decode (b64encode bs) = Some bs"
proof (induction bs rule: b64encode.induct)
  case 1
  then show ?case by simp
next
  case (2 x)
  define n where "n = unat x"
  have "n div 4 < 64" using unat_byte_less [of x] by (simp add: n_def div_less_iff_less_mult)
  moreover have "n mod 4 * 16 < 64" by simp
  moreover have "(n div 4 * 64 + n mod 4 * 16) div 16 = n" by presburger
  moreover have "byte n = x" by (simp add: n_def)
  ultimately show ?case
    unfolding b64encode.simps Let_def n_def [symmetric] by (simp only: b64decode_pair)
next
  case (3 x y)
  define n where "n = unat x * 256 + unat y"
  have "n < 65536" using unat_byte_less [of x] unat_byte_less [of y] by (simp add: n_def)
  then have parts: "n div 1024 < 64" "n div 16 mod 64 < 64" "n mod 16 * 4 < 64"
    by (simp_all add: div_less_iff_less_mult)
  have "n div 1024 * 64 + n div 16 mod 64 = n div 16" using digits_join [of n 16 64] by simp
  moreover have "n div 16 * 64 + n mod 16 * 4 = n * 4"
    using div_mult_mod_eq [of n 16] by linarith
  ultimately have "((n div 1024 * 64 + n div 16 mod 64) * 64 + n mod 16 * 4) div 4 = n" by simp
  moreover have "byte (n div 256) = x" "byte (n mod 256) = y"
    unfolding n_def word_pair by simp_all
  ultimately show ?case
    unfolding b64encode.simps Let_def n_def [symmetric] by (simp only: b64decode_triple parts)
next
  case (4 x y z rest)
  define m where "m = unat x * 256 + unat y"
  define n where "n = m * 256 + unat z"
  have "m < 65536" using unat_byte_less [of x] unat_byte_less [of y] by (simp add: m_def)
  then have "n < 16777216" using unat_byte_less [of z] by (simp add: n_def)
  then have parts: "n div 262144 < 64" "n div 4096 mod 64 < 64" "n div 64 mod 64 < 64" "n mod 64 < 64"
    by (simp_all add: div_less_iff_less_mult)
  have "n div 262144 * 64 + n div 4096 mod 64 = n div 4096" using digits_join [of n 4096 64] by simp
  moreover have "n div 4096 * 64 + n div 64 mod 64 = n div 64" using digits_join [of n 64 64] by simp
  moreover have "n div 64 * 64 + n mod 64 = n" by simp
  moreover have "n div 256 = m" "n mod 256 = unat z"
    unfolding n_def using div_digit [OF unat_byte_less [of z], of m] by (simp_all add: algebra_simps)
  moreover from this have "n div 65536 = unat x" "n div 256 mod 256 = unat y"
    using div_mult2_eq [of n 256 256] by (simp_all add: m_def word_pair)
  moreover have "b64decode (b64encode rest) = Some rest" by (rule 4 [OF refl])
  ultimately show ?case
    unfolding b64encode.simps Let_def m_def [symmetric] n_def [symmetric]
    by (simp only: append_Cons append_Nil b64decode_quad parts byte_unat option.map)
qed

section \<open>The generation document\<close>

definition GENERATION_SCHEMA_VERSION :: int where
  "GENERATION_SCHEMA_VERSION = 1"

definition GENERATION_FIELDS :: "string list" where
  "GENERATION_FIELDS = [''schemaVersion'', ''order'', ''snapshot'', ''inventories'', ''state'',
     ''lastGood'', ''lastGoodKeys'']"

definition LAST_GOOD_KEYS :: "ustr list" where
  "LAST_GOOD_KEYS = map source_name_value source_name_members @
     [lit ''flatpak:user'', lit ''flatpak:system'']"

definition faill :: "string \<Rightarrow> exn" where
  "faill message = protocol_fail INVALID_ENVELOPE (lit message)"

definition inventory_sources :: "GenerationBundle \<Rightarrow> ustr list" where
  "inventory_sources bundle =
     map (\<lambda>r. item_source_value (ip_source (ir_payload r))) (gb_inventories bundle)"

definition validate_bundle :: "GenerationBundle \<Rightarrow> unit result" where
  "validate_bundle bundle =
     thenE (checkE (\<not> gb_order bundle < 0) (faill ''generation order is invalid''))
     (bindE (encode_response (SnapshotResp (gb_snapshot bundle))) (\<lambda>_.
      bindE (encode_response (SnapshotResp (gb_last_good bundle))) (\<lambda>_.
      thenE (checkE (distinct (inventory_sources bundle)
                     \<and> inventory_sources bundle = sort (inventory_sources bundle))
               (faill ''generation inventories are not deterministically unique''))
      (thenE (forE (\<lambda>r. bindE (encode_response (InventoryResp r)) (\<lambda>_. Inr ()))
                (gb_inventories bundle))
      (bindE (encode_state (gb_state bundle) (sr_generated_at (gb_snapshot bundle))) (\<lambda>_.
       thenE (checkE (distinct (gb_last_good_keys bundle))
                (faill ''generation last-good keys are duplicated''))
         (checkE (\<not> list_ex (\<lambda>key. key \<notin> set LAST_GOOD_KEYS) (gb_last_good_keys bundle))
            (faill ''generation last-good key is invalid'')))))))) "

definition encoded_response :: "Response \<Rightarrow> JsonValue result" where
  "encoded_response response = bindE (encode_response response) (\<lambda>b. Inr (JStr (b64encode b)))"

definition encoded_state :: "PersistentState \<Rightarrow> datetime \<Rightarrow> JsonValue result" where
  "encoded_state state now = bindE (encode_state state now) (\<lambda>b. Inr (JStr (b64encode b)))"

definition generation_value :: "GenerationBundle \<Rightarrow> datetime \<Rightarrow> JsonValue result" where
  "generation_value bundle now =
     bindE (encoded_response (SnapshotResp (gb_snapshot bundle))) (\<lambda>snapshot.
     bindE (mapE (\<lambda>r. encoded_response (InventoryResp r)) (gb_inventories bundle)) (\<lambda>inventories.
     bindE (encoded_state (gb_state bundle) now) (\<lambda>state.
     bindE (encoded_response (SnapshotResp (gb_last_good bundle))) (\<lambda>last_good.
       Inr (JObj [(lit ''schemaVersion'', JInt GENERATION_SCHEMA_VERSION),
                  (lit ''order'', JInt (gb_order bundle)),
                  (lit ''snapshot'', snapshot),
                  (lit ''inventories'', JArr inventories),
                  (lit ''state'', state),
                  (lit ''lastGood'', last_good),
                  (lit ''lastGoodKeys'', JArr (map JStr (gb_last_good_keys bundle)))])))))"

definition encode_generation :: "GenerationBundle \<Rightarrow> datetime \<Rightarrow> bytes result" where
  "encode_generation bundle now =
     thenE (validate_bundle bundle) (bindE (generation_value bundle now) json_bytes)"

definition decoded_bytes :: "JsonValue \<Rightarrow> bytes result" where
  "decoded_bytes v =
     (case v of
        JStr s \<Rightarrow>
          (if \<not> is_ascii s then Inl (faill ''generation encoded value is invalid'')
           else (case b64decode s of
              None \<Rightarrow> Inl (faill ''generation encoded value is invalid'')
            | Some b \<Rightarrow> Inr b))
      | _ \<Rightarrow> Inl (faill ''generation encoded value is invalid''))"

definition generation_document :: "JsonValue \<Rightarrow> JsonObject result" where
  "generation_document v =
     (case v of JObj d \<Rightarrow> Inr d | _ \<Rightarrow> Inl (faill ''generation cache must be an object''))"

definition generation_integer :: "JsonValue \<Rightarrow> int result" where
  "generation_integer v =
     (case v of
        JInt i \<Rightarrow> if 0 \<le> i then Inr i else Inl (faill ''generation integer is invalid'')
      | _ \<Rightarrow> Inl (faill ''generation integer is invalid''))"

definition generation_snapshot ::
  "(ustr \<Rightarrow> datetime option) \<Rightarrow> JsonValue \<Rightarrow> SnapshotResponse result" where
  "generation_snapshot fromisoformat v =
     bindE (bindE (decoded_bytes v) (decode_response fromisoformat)) (\<lambda>response.
       case response of
         SnapshotResp r \<Rightarrow> Inr r
       | _ \<Rightarrow> Inl (faill ''generation snapshot has an invalid response kind''))"

definition generation_inventory ::
  "(ustr \<Rightarrow> datetime option) \<Rightarrow> JsonValue \<Rightarrow> InventoryResponse result" where
  "generation_inventory fromisoformat v =
     bindE (bindE (decoded_bytes v) (decode_response fromisoformat)) (\<lambda>response.
       case response of
         InventoryResp r \<Rightarrow> Inr r
       | _ \<Rightarrow> Inl (faill ''generation inventory has an invalid response kind''))"

definition generation_inventories ::
  "(ustr \<Rightarrow> datetime option) \<Rightarrow> JsonValue \<Rightarrow> InventoryResponse list result" where
  "generation_inventories fromisoformat v =
     (case v of
        JArr entries \<Rightarrow> mapE (generation_inventory fromisoformat) entries
      | _ \<Rightarrow> Inl (faill ''generation inventories must be an array''))"

definition is_JStr :: "JsonValue \<Rightarrow> bool" where
  "is_JStr v = (case v of JStr _ \<Rightarrow> True | _ \<Rightarrow> False)"

definition generation_keys :: "JsonValue \<Rightarrow> ustr list result" where
  "generation_keys v =
     (case v of
        JArr entries \<Rightarrow>
          if list_ex (\<lambda>e. \<not> is_JStr e) entries
          then Inl (faill ''generation last-good keys are invalid'')
          else Inr (map (\<lambda>e. case e of JStr s \<Rightarrow> s) entries)
      | _ \<Rightarrow> Inl (faill ''generation last-good keys are invalid''))"

text \<open>\<open>document[name]\<close> after the check that the fields are exactly the expected ones.\<close>

definition generation_field :: "JsonObject \<Rightarrow> string \<Rightarrow> JsonValue" where
  "generation_field document name = the (map_of document (lit name))"

definition decode_generation :: "(ustr \<Rightarrow> datetime option) \<Rightarrow> bytes \<Rightarrow> GenerationBundle result" where
  "decode_generation fromisoformat raw =
     (case utf8_decode raw of
        None \<Rightarrow> Inl (faill ''generation cache is not UTF-8'')
      | Some s \<Rightarrow>
          bindE (decode_json s) (\<lambda>v.
          bindE (generation_document v) (\<lambda>document.
          thenE (checkE (set (map fst document) = set (map lit GENERATION_FIELDS))
                   (faill ''generation cache fields are invalid''))
          (bindE (generation_integer (generation_field document ''schemaVersion'')) (\<lambda>schema_version.
           thenE (checkE (schema_version = GENERATION_SCHEMA_VERSION)
                    (faill ''generation cache schema is unsupported''))
           (bindE (generation_snapshot fromisoformat (generation_field document ''snapshot'')) (\<lambda>snapshot.
            bindE (generation_inventories fromisoformat (generation_field document ''inventories'')) (\<lambda>inventories.
            bindE (bindE (decoded_bytes (generation_field document ''state'')) (decode_state fromisoformat)) (\<lambda>state.
            bindE (generation_snapshot fromisoformat (generation_field document ''lastGood'')) (\<lambda>last_good.
            bindE (generation_keys (generation_field document ''lastGoodKeys'')) (\<lambda>keys.
            bindE (generation_integer (generation_field document ''order'')) (\<lambda>order.
              let bundle = \<lparr>gb_order = order, gb_snapshot = snapshot, gb_inventories = inventories,
                            gb_state = state, gb_last_good = last_good, gb_last_good_keys = keys\<rparr>
              in thenE (validate_bundle bundle) (Inr bundle)))))))))))))"

section \<open>Round trip\<close>

text \<open>A bundle Python can hold and print.\<close>

definition bundle_text :: "GenerationBundle \<Rightarrow> bool" where
  "bundle_text g \<longleftrightarrow> number_ok (gb_order g) \<and> snapshot_text (gb_snapshot g) \<and> snapshot_text (gb_last_good g) \<and>
     (\<forall>r \<in> set (gb_inventories g). inventory_text r) \<and> state_text (gb_state g)"

lemma b64encode_ascii: "is_ascii (b64encode bs)"
proof (induction bs rule: b64encode.induct)
  case (2 x)
  have "unat x div 4 < 64" using unat_byte_less [of x] by (simp add: div_less_iff_less_mult)
  moreover have "unat x mod 4 * 16 < 64" by simp
  ultimately show ?case by (simp add: Let_def is_ascii_def b64_char_ascii)
next
  case (3 x y)
  have "(unat x * 256 + unat y) div 1024 < 64"
    using unat_byte_less [of x] unat_byte_less [of y] by (simp add: div_less_iff_less_mult)
  moreover have "(unat x * 256 + unat y) mod 16 * 4 < 64" by simp
  ultimately show ?case by (simp add: Let_def is_ascii_def b64_char_ascii)
next
  case (4 x y z rest)
  have "((unat x * 256 + unat y) * 256 + unat z) div 262144 < 64"
    using unat_byte_less [of x] unat_byte_less [of y] unat_byte_less [of z]
    by (simp add: div_less_iff_less_mult)
  with 4 show ?case by (simp add: Let_def is_ascii_def b64_char_ascii)
qed (simp add: is_ascii_def)

lemma scalar_b64: "list_all scalar_value (b64encode bs)"
  using b64encode_ascii [of bs] by (auto simp: is_ascii_def list_all_iff scalar_value_def)

lemma decoded_bytes_encode [simp]: "decoded_bytes (JStr (b64encode bs)) = Inr bs"
  by (simp add: decoded_bytes_def b64encode_ascii b64decode_encode)

lemma snapshot_decoded:
  assumes "reads_isoformat fiso" and "snapshot_text r" and "encode_response (SnapshotResp r) = Inr b"
  shows "generation_snapshot fiso (JStr (b64encode b)) = Inr r"
  using encode_decode_response [OF assms(1) _ assms(3)] assms(2) by (simp add: generation_snapshot_def)

lemma inventories_decoded:
  assumes "reads_isoformat fiso" and "\<forall>r \<in> set rs. inventory_text r"
    and "mapE (\<lambda>r. encoded_response (InventoryResp r)) rs = Inr vs"
  shows "mapE (generation_inventory fiso) vs = Inr rs \<and> (\<forall>v \<in> set vs. \<exists>b. v = JStr (b64encode b))"
  using assms(2, 3)
proof (induction rs arbitrary: vs)
  case (Cons r rs)
  then obtain b ws where b: "encode_response (InventoryResp r) = Inr b" "vs = JStr (b64encode b) # ws"
      "mapE (\<lambda>r. encoded_response (InventoryResp r)) rs = Inr ws"
    by (auto simp: encoded_response_def)
  have "generation_inventory fiso (JStr (b64encode b)) = Inr r"
    using encode_decode_response [OF assms(1) _ b(1)] Cons.prems(1) by (simp add: generation_inventory_def)
  with b Cons show ?case by auto
qed simp

lemma keys_scalar: "k \<in> set LAST_GOOD_KEYS \<Longrightarrow> list_all scalar_value k"
  by (auto simp: LAST_GOOD_KEYS_def scalar_lit)

lemma generation_keys_JArr: "generation_keys (JArr (map JStr ks)) = Inr ks"
  by (simp add: generation_keys_def is_JStr_def list_ex_iff comp_def)

lemma generation_field_canon:
  assumes "distinct (map fst ps)" and "map_of ps (lit name) = Some v"
  shows "generation_field (canon_object ps) name = canon v"
  by (simp add: generation_field_def canon_object_lookup [OF assms(1)] assms(2))

lemma validate_bundle_state:
  assumes "validate_bundle g = Inr ()"
  shows "validate_state (gb_state g) = Inr ()"
  using assms by (auto simp: validate_bundle_def encode_state_def)

lemma validate_bundle_replaced:
  assumes "validate_bundle g = Inr ()" and "validate_state u = Inr ()" and "state_text u"
  shows "validate_bundle (g\<lparr>gb_state := u\<rparr>) = Inr ()"
proof -
  from decode_encode_state [OF canonical_reads assms(2, 3), of "sr_generated_at (gb_snapshot g)"]
  obtain c where "encode_state u (sr_generated_at (gb_snapshot g)) = Inr c" by blast
  with assms(1) show ?thesis by (auto simp: validate_bundle_def inventory_sources_def)
qed

lemma validate_bundle_rejects:
  assumes "validate_bundle g = Inr ()" and "validate_state u = Inl e"
  shows "validate_bundle (g\<lparr>gb_state := u\<rparr>) = Inl e"
proof -
  have "encode_state u t = Inl e" for t using assms(2) by (simp add: encode_state_def)
  moreover from assms(1) obtain bs bl where "encode_response (SnapshotResp (gb_snapshot g)) = Inr bs"
      "encode_response (SnapshotResp (gb_last_good g)) = Inr bl"
      "\<forall>r \<in> set (gb_inventories g). \<exists>b. encode_response (InventoryResp r) = Inr b"
      "\<not> gb_order g < 0" "distinct (inventory_sources g)"
      "inventory_sources g = sort (inventory_sources g)"
    by (auto simp: validate_bundle_def)
  moreover from this(3) have loop: "forE (\<lambda>r. bindE (encode_response (InventoryResp r)) (\<lambda>_. Inr ()))
      (gb_inventories g) = Inr ()" by auto
  ultimately show ?thesis
    by (simp add: validate_bundle_def loop inventory_sources_def)
qed

lemma validate_bundle_pruned:
  assumes "validate_bundle g = Inr ()" and "state_text (gb_state g)"
  shows "validate_bundle (g\<lparr>gb_state := prune_ledger (gb_state g) now\<rparr>) = Inr ()"
  using assms validate_bundle_state [OF assms(1)]
  by (intro validate_bundle_replaced) (simp_all add: prune_ledger_valid prune_ledger_text)

lemma generation_printable:
  assumes "bundle_text g" and "validate_bundle g = Inr ()"
    and "\<forall>v \<in> set invs. \<exists>c. v = JStr (b64encode c)"
  shows "can_print 100 (JObj [(lit ''schemaVersion'', JInt GENERATION_SCHEMA_VERSION),
        (lit ''order'', JInt (gb_order g)), (lit ''snapshot'', JStr (b64encode bs)),
        (lit ''inventories'', JArr invs), (lit ''state'', JStr (b64encode bst)),
        (lit ''lastGood'', JStr (b64encode bl)),
        (lit ''lastGoodKeys'', JArr (map JStr (gb_last_good_keys g)))])"
proof -
  have "\<forall>k \<in> set (gb_last_good_keys g). k \<in> set LAST_GOOD_KEYS"
    using assms(2) by (auto simp: validate_bundle_def list_ex_iff)
  then show ?thesis
    using assms(1, 3)
    by (auto simp: printing scalar_b64 keys_scalar number_ok_def bundle_text_def
        GENERATION_SCHEMA_VERSION_def MAX_INT_DIGITS_def str_nat.simps)
qed

lemma inventories_encoded:
  assumes "\<forall>r \<in> set rs. \<exists>b. encode_response (InventoryResp r) = Inr b"
  obtains vs where "mapE (\<lambda>r. encoded_response (InventoryResp r)) rs = Inr vs"
    "\<forall>v \<in> set vs. \<exists>c. v = JStr (b64encode c)"
proof -
  have "\<exists>vs. mapE (\<lambda>r. encoded_response (InventoryResp r)) rs = Inr vs \<and>
      (\<forall>v \<in> set vs. \<exists>c. v = JStr (b64encode c))"
    using assms
  proof (induction rs)
    case (Cons r rs)
    then obtain b vs where "encode_response (InventoryResp r) = Inr b"
        "mapE (\<lambda>r. encoded_response (InventoryResp r)) rs = Inr vs"
        "\<forall>v \<in> set vs. \<exists>c. v = JStr (b64encode c)" by auto
    then show ?case by (auto simp: encoded_response_def)
  qed simp
  with that show ?thesis by blast
qed

lemma encode_generation_ok:
  assumes "bundle_text g" and "validate_bundle g = Inr ()"
  obtains b where "encode_generation g now = Inr b"
proof -
  have state: "validate_state (gb_state g) = Inr ()" "state_text (gb_state g)"
    using assms by (auto simp: validate_bundle_def encode_state_def bundle_text_def)
  from decode_encode_state [OF canonical_reads state] obtain bst
    where bst: "encode_state (gb_state g) now = Inr bst" by blast
  from assms(2) obtain bs bl where resp: "encode_response (SnapshotResp (gb_snapshot g)) = Inr bs"
      "encode_response (SnapshotResp (gb_last_good g)) = Inr bl"
      "\<forall>r \<in> set (gb_inventories g). \<exists>b. encode_response (InventoryResp r) = Inr b"
    by (auto simp: validate_bundle_def)
  from inventories_encoded [OF resp(3)] obtain vs where
    vs: "mapE (\<lambda>r. encoded_response (InventoryResp r)) (gb_inventories g) = Inr vs"
      "\<forall>v \<in> set vs. \<exists>c. v = JStr (b64encode c)" .
  from json_bytes_decode [OF generation_printable [OF assms vs(2), of bs bst bl]] obtain b where
    "json_bytes (JObj [(lit ''schemaVersion'', JInt GENERATION_SCHEMA_VERSION),
        (lit ''order'', JInt (gb_order g)), (lit ''snapshot'', JStr (b64encode bs)),
        (lit ''inventories'', JArr vs), (lit ''state'', JStr (b64encode bst)),
        (lit ''lastGood'', JStr (b64encode bl)),
        (lit ''lastGoodKeys'', JArr (map JStr (gb_last_good_keys g)))]) = Inr b" by blast
  with bst resp(1, 2) vs(1) assms(2) show ?thesis
    by (intro that)
      (simp add: encode_generation_def generation_value_def encoded_response_def encoded_state_def)
qed

lemma decode_encode_generation:
  assumes iso: "reads_isoformat fiso" and ok: "bundle_text g" and enc: "encode_generation g now = Inr b"
  shows "decode_generation fiso b = Inr (g\<lparr>gb_state := prune_ledger (gb_state g) now\<rparr>)"
proof -
  let ?ids = "\<lambda>r. encoded_response (InventoryResp r)"
  from enc obtain bs invs bst bl where valid: "validate_bundle g = Inr ()"
    and bs: "encode_response (SnapshotResp (gb_snapshot g)) = Inr bs"
    and invs: "mapE ?ids (gb_inventories g) = Inr invs"
    and bst: "encode_state (gb_state g) now = Inr bst"
    and bl: "encode_response (SnapshotResp (gb_last_good g)) = Inr bl"
    and v: "json_bytes (JObj [(lit ''schemaVersion'', JInt GENERATION_SCHEMA_VERSION),
        (lit ''order'', JInt (gb_order g)), (lit ''snapshot'', JStr (b64encode bs)),
        (lit ''inventories'', JArr invs), (lit ''state'', JStr (b64encode bst)),
        (lit ''lastGood'', JStr (b64encode bl)),
        (lit ''lastGoodKeys'', JArr (map JStr (gb_last_good_keys g)))]) = Inr b"
      (is "json_bytes (JObj ?ps) = _")
    by (auto simp: encode_generation_def generation_value_def encoded_response_def encoded_state_def)
  note texts = ok [unfolded bundle_text_def]
  have inv: "mapE (generation_inventory fiso) invs = Inr (gb_inventories g)"
    "\<forall>v \<in> set invs. \<exists>c. v = JStr (b64encode c)"
    using inventories_decoded [OF iso _ invs] texts by simp_all
  have keys: "\<forall>k \<in> set (gb_last_good_keys g). k \<in> set LAST_GOOD_KEYS" and order: "0 \<le> gb_order g"
    using valid by (auto simp: validate_bundle_def list_ex_iff)
  have "can_print 100 (JObj ?ps)" by (rule generation_printable [OF ok valid inv(2)])
  from json_bytes_decode [OF this] v obtain s where s: "utf8_decode b = Some s"
      "decode_json s = Inr (JObj (canon_object ?ps))" by auto
  have canon_invs: "map canon invs = invs"
    by (rule map_idI) (use inv(2) in auto)
  have "validate_state (gb_state g) = Inr ()" using bst by (auto simp: encode_state_def)
  from decode_encode_state [OF iso this, of now] bst texts
  have "decode_state fiso bst = Inr (prune_ledger (gb_state g) now)" by auto
  moreover have "generation_snapshot fiso (JStr (b64encode bs)) = Inr (gb_snapshot g)"
    "generation_snapshot fiso (JStr (b64encode bl)) = Inr (gb_last_good g)"
    using snapshot_decoded [OF iso _ bs] snapshot_decoded [OF iso _ bl] texts by simp_all
  moreover have "set (map fst (canon_object ?ps)) = set (map lit GENERATION_FIELDS)"
    unfolding canon_object_keys by (simp add: GENERATION_FIELDS_def)
  moreover have rebuilt: "\<lparr>gb_order = gb_order g, gb_snapshot = gb_snapshot g,
      gb_inventories = gb_inventories g, gb_state = prune_ledger (gb_state g) now, gb_last_good = gb_last_good g,
      gb_last_good_keys = gb_last_good_keys g\<rparr> = g\<lparr>gb_state := prune_ledger (gb_state g) now\<rparr>"
    by (cases g) simp
  ultimately show ?thesis
    using s order inv(1) validate_bundle_pruned [OF valid] texts
    by (simp add: decode_generation_def generation_document_def generation_field_canon
        generation_integer_def GENERATION_SCHEMA_VERSION_def generation_inventories_def canon_invs
        generation_keys_JArr comp_def Let_def rebuilt del: set_map)
qed

text \<open>What a generation file yields is valid, whatever the file holds.\<close>

lemma decode_generation_valid: "decode_generation fiso raw = Inr g \<Longrightarrow> validate_bundle g = Inr ()"
  by (auto simp: decode_generation_def Let_def split: option.splits)

lemma validate_bundle_snapshot:
  "validate_bundle g = Inr () \<Longrightarrow> validate_response (SnapshotResp (gb_snapshot g)) = Inr ()"
  by (auto simp: validate_bundle_def encode_response_def encode_json_def response_value_def)

section \<open>Properties\<close>

text \<open>
  C19: The generation file keeps a whole scan: when a bundle is accepted and encoded, decoding the bytes
  gives back its order, its snapshot, its inventories, its last good snapshot and its keys unchanged,
  and its state as pruning leaves it.
\<close>

theorem generation_roundtrip:
  assumes "reads_isoformat fromisoformat" and "bundle_text g" and "encode_generation g now = Inr b"
  shows "decode_generation fromisoformat b = Inr (g\<lparr>gb_state := prune_ledger (gb_state g) now\<rparr>)"
  using assms by (rule decode_encode_generation)

definition quiet_source :: "SourceName \<Rightarrow> SourceHealth" where
  "quiet_source n = \<lparr>sh_source = n, sh_status = Status_OK, sh_provenance = Prov_LIVE,
     sh_observed_at = 0, sh_fresh_until = hours 6, sh_cause = None, sh_scopes = []\<rparr>"

definition quiet_snapshot :: SnapshotResponse where
  "quiet_snapshot = \<lparr>sr_generated_at = 0, sr_generation_id = lit ''scan-1'',
     sr_payload = \<lparr>sp_scan_state = Scan_COMPLETE, sp_sources = map quiet_source source_name_members,
       sp_summary = \<lparr>su_total_updates = 0, su_watched_updates = 0, su_security_findings = 0,
         su_degraded_sources = 0\<rparr>, sp_items = [], sp_findings = [], sp_notifications = []\<rparr>,
     sr_protocol_version = PROTOCOL_VERSION\<rparr>"

definition quiet_inventory :: InventoryResponse where
  "quiet_inventory = \<lparr>ir_generated_at = 0, ir_generation_id = lit ''scan-1'',
     ir_payload = \<lparr>ip_source = Item_ARCH, ip_total = 0, ip_items = []\<rparr>,
     ir_protocol_version = PROTOCOL_VERSION\<rparr>"

definition quiet_bundle :: GenerationBundle where
  "quiet_bundle = \<lparr>gb_order = 3, gb_snapshot = quiet_snapshot, gb_inventories = [quiet_inventory],
     gb_state = stored_state, gb_last_good = quiet_snapshot, gb_last_good_keys = [lit ''arch'']\<rparr>"

lemma quiet_snapshot_encoded:
  "snapshot_text quiet_snapshot" "\<exists>b. encode_response (SnapshotResp quiet_snapshot) = Inr b"
proof -
  show texts: "snapshot_text quiet_snapshot"
    by (simp add: snapshot_text_def quiet_snapshot_def representable_def text_ok_def scalar_lit
        source_name_members_def quiet_source_def health_text_def hours_def number_ok_def str_nat_0
        MAX_INT_DIGITS_def)
  have valid: "validate_response (SnapshotResp quiet_snapshot) = Inr ()"
    by (simp add: validate_response_def quiet_snapshot_def identifier_ok_def validate_snapshot_def
        validate_sources_def validate_groups_def validate_scopes_def comp_def quiet_source_def
        source_name_members_def)
  obtain v where v: "response_value (SnapshotResp quiet_snapshot) = Inr v" "json_size v \<le> 50000"
    using valid
    by (simp add: response_value_def quiet_snapshot_def wire_envelope_def wire_snapshot_def
        wire_summary_def wire_source_def wire_cause_def quiet_source_def source_name_members_def
        PROTOCOL_VERSION_def str_int_def str_nat.simps format_timestamp_shape(1) representable_def hours_def)
  show "\<exists>b. encode_response (SnapshotResp quiet_snapshot) = Inr b"
    by (rule encode_response_small [OF valid _ v(1)])
      (use v(2) texts in \<open>auto simp: MAX_PROTOCOL_BYTES_def\<close>)
qed

lemma quiet_inventory_encoded:
  "inventory_text quiet_inventory" "\<exists>b. encode_response (InventoryResp quiet_inventory) = Inr b"
proof -
  show texts: "inventory_text quiet_inventory"
    by (simp add: inventory_text_def quiet_inventory_def representable_def text_ok_def scalar_lit
        number_ok_def str_nat_0 MAX_INT_DIGITS_def)
  have valid: "validate_response (InventoryResp quiet_inventory) = Inr ()"
    by (simp add: validate_response_def quiet_inventory_def identifier_ok_def validate_inventory_iff)
  obtain v where v: "response_value (InventoryResp quiet_inventory) = Inr v" "json_size v \<le> 50000"
    using valid
    by (simp add: response_value_def quiet_inventory_def wire_envelope_def wire_inventory_def
        PROTOCOL_VERSION_def str_int_def str_nat.simps format_timestamp_shape(1) representable_def)
  show "\<exists>b. encode_response (InventoryResp quiet_inventory) = Inr b"
    by (rule encode_response_small [OF valid _ v(1)])
      (use v(2) texts in \<open>auto simp: MAX_PROTOCOL_BYTES_def\<close>)
qed

lemma quiet_bundle_encoded: "bundle_text quiet_bundle" "\<exists>b. encode_generation quiet_bundle 0 = Inr b"
proof -
  show texts: "bundle_text quiet_bundle"
    using quiet_snapshot_encoded(1) quiet_inventory_encoded(1) stored_state_ok(2)
    by (simp add: bundle_text_def quiet_bundle_def number_ok_def str_nat.simps MAX_INT_DIGITS_def)
  obtain bst where bst: "encode_state stored_state 0 = Inr bst"
    using decode_encode_state [OF canonical_reads stored_state_ok] by blast
  obtain bs where bs: "encode_response (SnapshotResp quiet_snapshot) = Inr bs"
    using quiet_snapshot_encoded(2) by blast
  obtain bi where bi: "encode_response (InventoryResp quiet_inventory) = Inr bi"
    using quiet_inventory_encoded(2) by blast
  have valid: "validate_bundle quiet_bundle = Inr ()"
    using bst bs bi
    by (simp add: validate_bundle_def quiet_bundle_def inventory_sources_def LAST_GOOD_KEYS_def
        source_name_members_def) (simp add: quiet_snapshot_def)
  show "\<exists>b. encode_generation quiet_bundle 0 = Inr b"
    using encode_generation_ok [OF texts valid] by blast
qed

theorem generation_roundtrip_witness:
  "\<exists>b. encode_generation quiet_bundle 0 = Inr b \<and>
     decode_generation canonical_fromisoformat b =
       Inr (quiet_bundle\<lparr>gb_state := prune_ledger (gb_state quiet_bundle) 0\<rparr>)"
  using quiet_bundle_encoded(2) generation_roundtrip [OF canonical_reads quiet_bundle_encoded(1)] by blast

end
