(* ===== verification/Storage.thy ===== *)
theory Storage
  imports Generation_Codec
begin

text \<open>
  The storage facade of \<open>storage.py\<close> with \<open>storage_locked_state.py\<close> and \<open>storage_cache.py\<close>. Every public
  operation holds the state lock from beginning to end, so an operation is a function of the files it
  finds; two processes interleave whole operations. A file is its content or absent. An action returns
  the value or the exception together with the files it leaves, since an exception does not undo a
  write. File system errors are not modelled: a write that returns has replaced the file atomically
  (\<open>atomic_write\<close>). Every reading of the clock is an argument of its own.
\<close>

section \<open>Pruning twice\<close>

lemma filter_take_descending:
  assumes "sorted_wrt (\<lambda>x y. k y \<le> k x) xs" and "\<And>x y. P x \<Longrightarrow> k x \<le> k y \<Longrightarrow> P y"
  shows "filter P (take n xs) = take n (filter P xs)"
  using assms(1)
proof (induction xs arbitrary: n)
  case (Cons x xs)
  show ?case
  proof (cases "P x")
    case True
    with Cons show ?thesis by (cases n) simp_all
  next
    case False
    have "\<not> P y" if "y \<in> set xs" for y using Cons.prems that False assms(2) [of y x] by auto
    then have "filter P xs = []" "filter P (take m xs) = []" for m
      by (auto simp: filter_empty_conv dest: in_set_takeD)
    with False show ?thesis by (cases n) simp_all
  qed
qed simp

lemma filter_sorted_reverse: "filter P (sorted_reverse k xs) = sorted_reverse k (filter P xs)"
  by (simp add: sorted_reverse_def filter_sort flip: rev_filter)

lemma prune_pool_later:
  assumes "t \<le> t'"
  shows "filter (\<lambda>e. t' - MAX_INACTIVE_LEDGER_AGE \<le> le_recorded_at e) (prune_pool es t) = prune_pool es t'"
  using assms
  by (auto simp: prune_pool_def filter_sorted_reverse intro!: arg_cong [where f = "sorted_reverse ledger_key"]
      filter_cong)

lemma prune_ledger_later:
  assumes "t \<le> t'"
  shows "prune_ledger (prune_ledger s t) t' = prune_ledger s t'"
proof -
  define young where "young e \<longleftrightarrow> t' - MAX_INACTIVE_LEDGER_AGE \<le> le_recorded_at e" for e :: LedgerEntry
  let ?n = MAX_INACTIVE_LEDGER_ENTRIES and ?p = "prune_pool (ps_ledger s) t"
  have desc: "sorted_wrt (\<lambda>x y. ledger_key y \<le> ledger_key x) ?p"
    unfolding prune_pool_def by (rule sorted_reverse_desc)
  have "filter young (take ?n ?p) = take ?n (filter young ?p)"
    by (rule filter_take_descending [OF desc]) (auto simp: young_def ledger_key_def less_eq_prod_def)
  also have "filter young ?p = prune_pool (ps_ledger s) t'"
    unfolding young_def by (rule prune_pool_later [OF assms])
  finally have kept: "filter young (take ?n ?p) = take ?n (prune_pool (ps_ledger s) t')" .
  have "prune_pool (ps_ledger (prune_ledger s t)) t' =
      sorted_reverse ledger_key (filter young (filter (\<lambda>e. \<not> is_active e) (ps_ledger (prune_ledger s t))))"
    by (simp add: prune_pool_def young_def conj_commute)
  also have "\<dots> = sorted_reverse ledger_key (take ?n (prune_pool (ps_ledger s) t'))"
    by (simp only: prune_ledger_inactive kept)
  also have "\<dots> = take ?n (prune_pool (ps_ledger s) t')"
    by (rule sorted_reverse_idem) (simp add: prune_pool_def sorted_reverse_desc sorted_wrt_take)
  finally show ?thesis
    unfolding prune_ledger_pool [of "prune_ledger s t"] prune_ledger_active
    by (simp add: prune_ledger_pool min_def)
qed

section \<open>Files and actions\<close>

datatype FeedName = Feed_ARCH_SECURITY | Feed_CISA_KEV

fun feed_name_value :: "FeedName \<Rightarrow> ustr" where
  "feed_name_value Feed_ARCH_SECURITY = lit ''arch-security''"
| "feed_name_value Feed_CISA_KEV = lit ''cisa-kev''"

record disk =
  d_state :: "bytes option"
  d_quarantine :: "ustr \<Rightarrow> bytes option"
  d_generation :: "bytes option"
  d_snapshot :: "bytes option"
  d_inventory :: "ItemSource \<Rightarrow> bytes option"
  d_feed :: "FeedName \<Rightarrow> bytes option"
  d_transport_body :: "FeedName \<Rightarrow> bytes option"
  d_transport_metadata :: "FeedName \<Rightarrow> bytes option"

type_synonym 'a act = "disk \<Rightarrow> 'a result \<times> disk"

definition retA :: "'a \<Rightarrow> 'a act" where
  "retA x d = (Inr x, d)"

definition liftA :: "'a result \<Rightarrow> 'a act" where
  "liftA r d = (r, d)"

definition bindA :: "'a act \<Rightarrow> ('a \<Rightarrow> 'b act) \<Rightarrow> 'b act" where
  "bindA m f d = (case m d of (Inl e, d') \<Rightarrow> (Inl e, d') | (Inr x, d') \<Rightarrow> f x d')"

definition doA :: "(disk \<Rightarrow> disk) \<Rightarrow> unit act" where
  "doA f d = (Inr (), f d)"

text \<open>\<open>except ProtocolError, StateCorruptError\<close> and \<open>except ProtocolError\<close>.\<close>

fun is_corruption :: "exn \<Rightarrow> bool" where
  "is_corruption (ProtocolError _) = True"
| "is_corruption (StateCorruptError _) = True"
| "is_corruption _ = False"

fun is_protocol_error :: "exn \<Rightarrow> bool" where
  "is_protocol_error (ProtocolError _) = True"
| "is_protocol_error _ = False"

section \<open>The generation file\<close>

definition load_generation_locked :: "(ustr \<Rightarrow> datetime option) \<Rightarrow> GenerationBundle option act" where
  "load_generation_locked fromisoformat d =
     (case d_generation d of
        None \<Rightarrow> (Inr None, d)
      | Some raw \<Rightarrow>
          (case decode_generation fromisoformat raw of
             Inr g \<Rightarrow> (Inr (Some g), d)
           | Inl e \<Rightarrow> if is_corruption e then (Inr None, d\<lparr>d_generation := None\<rparr>) else (Inl e, d)))"

definition write_generation_locked :: "GenerationBundle \<Rightarrow> datetime \<Rightarrow> unit act" where
  "write_generation_locked generation now =
     bindA (liftA (encode_generation generation now)) (\<lambda>b. doA (\<lambda>d. d\<lparr>d_generation := Some b\<rparr>))"

section \<open>The state file\<close>

definition write_state ::
  "(ustr \<Rightarrow> datetime option) \<Rightarrow> datetime \<Rightarrow> datetime \<Rightarrow> PersistentState \<Rightarrow> unit act" where
  "write_state fromisoformat t1 t2 state =
     bindA (load_generation_locked fromisoformat) (\<lambda>generation.
     bindA (case generation of
              None \<Rightarrow> retA ()
            | Some g \<Rightarrow> write_generation_locked (g\<lparr>gb_state := state\<rparr>) t1) (\<lambda>_.
     bindA (liftA (encode_state state t2)) (\<lambda>b.
       doA (\<lambda>d. d\<lparr>d_state := Some b\<rparr>))))"

definition quarantine :: "bytes \<Rightarrow> unit act" where
  "quarantine raw =
     doA (\<lambda>d. d\<lparr>d_quarantine := (d_quarantine d)
                    (lit ''state.json.corrupt-'' @ sha256_hexdigest raw := d_state d),
                d_state := None\<rparr>)"

text \<open>\<open>pruned = prune_ledger(decoded, clock()); if persist and pruned != decoded: write_state(...)\<close>.\<close>

definition prune_and_persist ::
  "(ustr \<Rightarrow> datetime option) \<Rightarrow> bool \<Rightarrow> datetime \<Rightarrow> datetime \<Rightarrow> datetime \<Rightarrow> PersistentState
     \<Rightarrow> StateLoad act" where
  "prune_and_persist fromisoformat persist_pruning t0 t1 t2 decoded =
     (let pruned = prune_ledger decoded t0
      in bindA (if persist_pruning \<and> pruned \<noteq> decoded then write_state fromisoformat t1 t2 pruned
                else retA ())
           (\<lambda>_. retA \<lparr>sl_state = pruned, sl_warning = None\<rparr>))"

definition load_state_locked ::
  "(ustr \<Rightarrow> datetime option) \<Rightarrow> bool \<Rightarrow> datetime \<Rightarrow> datetime \<Rightarrow> datetime \<Rightarrow> StateLoad act" where
  "load_state_locked fromisoformat persist_pruning t0 t1 t2 =
     bindA (load_generation_locked fromisoformat) (\<lambda>generation d.
       case generation of
         Some g \<Rightarrow> prune_and_persist fromisoformat persist_pruning t0 t1 t2 (gb_state g) d
       | None \<Rightarrow>
           (case d_state d of
              None \<Rightarrow> (Inr \<lparr>sl_state = empty_state, sl_warning = None\<rparr>, d)
            | Some raw \<Rightarrow>
                (case bindA (liftA (decode_state fromisoformat raw))
                        (prune_and_persist fromisoformat persist_pruning t0 t1 t2) d of
                   (Inl e, d') \<Rightarrow>
                     if is_corruption e
                     then bindA (quarantine raw)
                            (\<lambda>_. retA \<lparr>sl_state = empty_state, sl_warning = Some STATE_CORRUPT\<rparr>) d'
                     else (Inl e, d')
                 | r \<Rightarrow> r)))"

section \<open>Cached responses\<close>

definition read_snapshot_file :: "(ustr \<Rightarrow> datetime option) \<Rightarrow> SnapshotResponse option act" where
  "read_snapshot_file fromisoformat d =
     (case d_snapshot d of
        None \<Rightarrow> (Inr None, d)
      | Some raw \<Rightarrow>
          (case decode_response fromisoformat raw of
             Inr (SnapshotResp r) \<Rightarrow> (Inr (Some r), d)
           | Inr _ \<Rightarrow> (Inr None, d\<lparr>d_snapshot := None\<rparr>)
           | Inl e \<Rightarrow> if is_protocol_error e then (Inr None, d\<lparr>d_snapshot := None\<rparr>) else (Inl e, d)))"

definition read_inventory_file ::
  "(ustr \<Rightarrow> datetime option) \<Rightarrow> ItemSource \<Rightarrow> InventoryResponse option act" where
  "read_inventory_file fromisoformat source d =
     (let gone = d\<lparr>d_inventory := (d_inventory d)(source := None)\<rparr>
      in case d_inventory d source of
           None \<Rightarrow> (Inr None, d)
         | Some raw \<Rightarrow>
             (case decode_response fromisoformat raw of
                Inr (InventoryResp r) \<Rightarrow>
                  if ip_source (ir_payload r) = source then (Inr (Some r), d) else (Inr None, gone)
              | Inr _ \<Rightarrow> (Inr None, gone)
              | Inl e \<Rightarrow> if is_protocol_error e then (Inr None, gone) else (Inl e, d)))"

definition save_cached_snapshot ::
  "(ustr \<Rightarrow> datetime option) \<Rightarrow> datetime \<Rightarrow> SnapshotResponse \<Rightarrow> unit act" where
  "save_cached_snapshot fromisoformat now response =
     bindA (load_generation_locked fromisoformat) (\<lambda>generation.
       case generation of
         Some g \<Rightarrow> write_generation_locked (g\<lparr>gb_snapshot := response\<rparr>) now
       | None \<Rightarrow>
           bindA (liftA (encode_response (SnapshotResp response)))
             (\<lambda>b. doA (\<lambda>d. d\<lparr>d_snapshot := Some b\<rparr>)))"

definition read_cached_snapshot :: "(ustr \<Rightarrow> datetime option) \<Rightarrow> SnapshotResponse option act" where
  "read_cached_snapshot fromisoformat =
     bindA (load_generation_locked fromisoformat) (\<lambda>generation.
       case generation of
         Some g \<Rightarrow> retA (Some (gb_snapshot g))
       | None \<Rightarrow> read_snapshot_file fromisoformat)"

definition inventory_key :: "InventoryResponse \<Rightarrow> ustr" where
  "inventory_key r = item_source_value (ip_source (ir_payload r))"

definition save_cached_inventory ::
  "(ustr \<Rightarrow> datetime option) \<Rightarrow> datetime \<Rightarrow> InventoryResponse \<Rightarrow> unit act" where
  "save_cached_inventory fromisoformat now response =
     bindA (load_generation_locked fromisoformat) (\<lambda>generation.
       case generation of
         Some g \<Rightarrow>
           write_generation_locked (g\<lparr>gb_inventories := sort_key inventory_key
             (filter (\<lambda>r. ip_source (ir_payload r) \<noteq> ip_source (ir_payload response)) (gb_inventories g)
               @ [response])\<rparr>) now
       | None \<Rightarrow>
           bindA (liftA (encode_response (InventoryResp response)))
             (\<lambda>b. doA (\<lambda>d. d\<lparr>d_inventory := (d_inventory d)(ip_source (ir_payload response) := Some b)\<rparr>)))"

definition read_cached_inventory ::
  "(ustr \<Rightarrow> datetime option) \<Rightarrow> ItemSource \<Rightarrow> InventoryResponse option act" where
  "read_cached_inventory fromisoformat source =
     bindA (load_generation_locked fromisoformat) (\<lambda>generation.
       case generation of
         Some g \<Rightarrow> retA (find (\<lambda>r. ip_source (ir_payload r) = source) (gb_inventories g))
       | None \<Rightarrow> read_inventory_file fromisoformat source)"

fun read_inventory_files ::
  "(ustr \<Rightarrow> datetime option) \<Rightarrow> ItemSource list \<Rightarrow> InventoryResponse list act" where
  "read_inventory_files fromisoformat [] = retA []"
| "read_inventory_files fromisoformat (source # sources) =
     bindA (read_inventory_file fromisoformat source) (\<lambda>response.
     bindA (read_inventory_files fromisoformat sources) (\<lambda>responses.
       retA (case response of None \<Rightarrow> responses | Some r \<Rightarrow> r # responses)))"

definition read_current_inventories ::
  "(ustr \<Rightarrow> datetime option) \<Rightarrow> ItemSource list \<Rightarrow> InventoryResponse list act" where
  "read_current_inventories fromisoformat sources =
     bindA (load_generation_locked fromisoformat) (\<lambda>generation.
       case generation of
         Some g \<Rightarrow> retA (filter (\<lambda>r. ip_source (ir_payload r) \<in> set sources) (gb_inventories g))
       | None \<Rightarrow> read_inventory_files fromisoformat sources)"

section \<open>Feeds\<close>

text \<open>
  The feed body, which only a complete source validator may replace; the validator of a feed is an
  argument, as in the source.
\<close>

definition write_last_good_feed :: "FeedName \<Rightarrow> bytes \<Rightarrow> (bytes \<Rightarrow> bool) \<Rightarrow> bool act" where
  "write_last_good_feed feed body validator d =
     (if \<not> validator body then (Inr False, d)
      else (Inr True, d\<lparr>d_feed := (d_feed d)(feed := Some body)\<rparr>))"

definition read_last_good_feed :: "FeedName \<Rightarrow> (bytes \<Rightarrow> bool) \<Rightarrow> bytes option act" where
  "read_last_good_feed feed validator d =
     (let gone = d\<lparr>d_feed := (d_feed d)(feed := None)\<rparr>
      in case d_feed d feed of
           None \<Rightarrow> (Inr None, d)
         | Some raw \<Rightarrow>
             (case utf8_decode raw of
                None \<Rightarrow> (Inr None, gone)
              | Some s \<Rightarrow>
                  (case decode_json s of
                     Inl e \<Rightarrow> if is_protocol_error e then (Inr None, gone) else (Inl e, d)
                   | Inr _ \<Rightarrow> if validator raw then (Inr (Some raw), d) else (Inr None, gone))))"

section \<open>Public operations\<close>

definition storage_load_state ::
  "(ustr \<Rightarrow> datetime option) \<Rightarrow> datetime \<Rightarrow> datetime \<Rightarrow> datetime \<Rightarrow> StateLoad act" where
  "storage_load_state fromisoformat = load_state_locked fromisoformat True"

definition save_state ::
  "(ustr \<Rightarrow> datetime option) \<Rightarrow> datetime \<Rightarrow> datetime \<Rightarrow> datetime \<Rightarrow> PersistentState \<Rightarrow> unit act" where
  "save_state fromisoformat t0 t1 t2 state =
     bindA (liftA (validate_state state)) (\<lambda>_.
     bindA (load_state_locked fromisoformat False t0 t1 t2) (\<lambda>_.
       write_state fromisoformat t1 t2 state))"

definition update_state ::
  "(ustr \<Rightarrow> datetime option) \<Rightarrow> datetime \<Rightarrow> datetime \<Rightarrow> datetime
     \<Rightarrow> (PersistentState \<Rightarrow> PersistentState result) \<Rightarrow> StateLoad act" where
  "update_state fromisoformat t0 t1 t2 mutation =
     bindA (load_state_locked fromisoformat False t0 t1 t2) (\<lambda>loaded.
     bindA (liftA (mutation (sl_state loaded))) (\<lambda>updated.
     bindA (write_state fromisoformat t1 t2 updated) (\<lambda>_.
       retA \<lparr>sl_state = updated, sl_warning = sl_warning loaded\<rparr>)))"

definition update_state_with_inventories ::
  "(ustr \<Rightarrow> datetime option) \<Rightarrow> datetime \<Rightarrow> datetime \<Rightarrow> datetime \<Rightarrow> ItemSource list
     \<Rightarrow> (PersistentState \<Rightarrow> InventoryResponse list \<Rightarrow> SnapshotResponse option \<Rightarrow> PersistentState result)
     \<Rightarrow> StateLoad act" where
  "update_state_with_inventories fromisoformat t0 t1 t2 sources mutation =
     bindA (load_state_locked fromisoformat False t0 t1 t2) (\<lambda>loaded.
     bindA (read_current_inventories fromisoformat sources) (\<lambda>inventories.
     bindA (read_cached_snapshot fromisoformat) (\<lambda>snapshot.
     bindA (liftA (mutation (sl_state loaded) inventories snapshot)) (\<lambda>updated.
     bindA (write_state fromisoformat t1 t2 updated) (\<lambda>_.
       retA \<lparr>sl_state = updated, sl_warning = sl_warning loaded\<rparr>)))))"

definition commit_generation ::
  "(ustr \<Rightarrow> datetime option) \<Rightarrow> datetime \<Rightarrow> datetime \<Rightarrow> GenerationBundle \<Rightarrow> bool act" where
  "commit_generation fromisoformat t1 t2 generation =
     bindA (load_generation_locked fromisoformat) (\<lambda>current.
       if (case current of None \<Rightarrow> False | Some c \<Rightarrow> gb_order generation \<le> gb_order c)
       then retA False
       else
         bindA (write_generation_locked generation t1) (\<lambda>_.
         bindA (liftA (encode_state (gb_state generation) t2)) (\<lambda>b.
         bindA (doA (\<lambda>d. d\<lparr>d_state := Some b\<rparr>)) (\<lambda>_. retA True))))"

section \<open>The abstract store\<close>

text \<open>
  What the files stand for: one state, and the generation published last, whose own copy of the state
  is that same state. \<open>holds d a t\<close>: the files \<open>d\<close>, last written at time \<open>t\<close> or before, stand for \<open>a\<close>.
\<close>

record store =
  st_state :: PersistentState
  st_generation :: "GenerationBundle option"

definition put :: "store \<Rightarrow> PersistentState \<Rightarrow> store" where
  "put a u = \<lparr>st_state = u, st_generation = map_option (\<lambda>g. g\<lparr>gb_state := u\<rparr>) (st_generation a)\<rparr>"

definition publish :: "GenerationBundle \<Rightarrow> store" where
  "publish g = \<lparr>st_state = gb_state g, st_generation = Some g\<rparr>"

definition newer :: "GenerationBundle \<Rightarrow> store \<Rightarrow> bool" where
  "newer g a = (case st_generation a of None \<Rightarrow> True | Some c \<Rightarrow> gb_order c < gb_order g)"

definition holds :: "disk \<Rightarrow> store \<Rightarrow> datetime \<Rightarrow> bool" where
  "holds d a t \<longleftrightarrow> validate_state (st_state a) = Inr () \<and> state_text (st_state a) \<and>
     (case st_generation a of
        None \<Rightarrow> d_generation d = None \<and>
          (case d_state d of
             None \<Rightarrow> st_state a = empty_state
           | Some b \<Rightarrow> \<exists>w \<le> t. encode_state (st_state a) w = Inr b)
      | Some g \<Rightarrow> gb_state g = st_state a \<and> bundle_text g \<and>
          (\<exists>w \<le> t. \<exists>b. encode_generation g w = Inr b \<and> d_generation d = Some b))"

definition no_files :: disk where
  "no_files = \<lparr>d_state = None, d_quarantine = (\<lambda>_. None), d_generation = None, d_snapshot = None,
     d_inventory = (\<lambda>_. None), d_feed = (\<lambda>_. None),
     d_transport_body = (\<lambda>_. None), d_transport_metadata = (\<lambda>_. None)\<rparr>"

definition empty_store :: store where
  "empty_store = \<lparr>st_state = empty_state, st_generation = None\<rparr>"

lemma empty_state_text: "state_text empty_state"
  by (simp add: state_text_def empty_state_def)

lemma no_files_hold: "holds no_files empty_store t"
  by (simp add: holds_def no_files_def empty_store_def empty_state_text)

lemma prune_empty [simp]: "prune_ledger empty_state t = empty_state"
  by (simp add: prune_ledger_def empty_state_def sorted_reverse_def)

lemma bindA_simps [simp]:
  "m d = (Inr x, d') \<Longrightarrow> bindA m f d = f x d'"
  "m d = (Inl e, d') \<Longrightarrow> bindA m f d = (Inl e, d')"
  by (simp_all add: bindA_def)

lemma actions [simp]: "retA x d = (Inr x, d)" "liftA r d = (r, d)" "doA f d = (Inr (), f d)"
  by (simp_all add: retA_def liftA_def doA_def)

lemma bindA_lift: "bindA (liftA (Inr x)) f d = f x d" "bindA (liftA (Inl e)) f d = (Inl e, d)"
  by (simp_all add: bindA_def)

lemma bindA_ret: "bindA (retA x) f d = f x d"
  by (simp add: bindA_def)

lemma bindA_do: "bindA (doA g) f d = f () (g d)"
  by (simp add: bindA_def)

lemma load_generation_holds:
  assumes "reads_isoformat fiso" and "holds d a t"
  obtains w where "w \<le> t" "load_generation_locked fiso d =
    (Inr (map_option (\<lambda>g. g\<lparr>gb_state := prune_ledger (st_state a) w\<rparr>) (st_generation a)), d)"
proof (cases "st_generation a")
  case None
  with assms(2) that [of t] show ?thesis by (auto simp: holds_def load_generation_locked_def)
next
  case (Some g)
  with assms(2) obtain w b where w: "w \<le> t" "encode_generation g w = Inr b" "d_generation d = Some b"
      "bundle_text g" "gb_state g = st_state a"
    by (auto simp: holds_def)
  from decode_encode_generation [OF assms(1) w(4, 2)] w Some that [of w] show ?thesis
    by (simp add: load_generation_locked_def)
qed

lemma holds_generation:
  assumes "holds d a t" and "st_generation a = Some g"
  shows "validate_bundle g = Inr ()" "bundle_text g" "gb_state g = st_state a"
  using assms by (auto simp: holds_def encode_generation_def)

lemma load_state_holds:
  assumes "reads_isoformat fiso" and "holds d a t" and "t \<le> t0"
  shows "load_state_locked fiso False t0 t1 t2 d =
    (Inr \<lparr>sl_state = prune_ledger (st_state a) t0, sl_warning = None\<rparr>, d)"
proof -
  from load_generation_holds [OF assms(1, 2)] obtain w where w: "w \<le> t" "load_generation_locked fiso d =
    (Inr (map_option (\<lambda>g. g\<lparr>gb_state := prune_ledger (st_state a) w\<rparr>) (st_generation a)), d)" .
  show ?thesis
  proof (cases "st_generation a")
    case (Some g)
    with w assms(3) show ?thesis
      by (simp add: load_state_locked_def prune_and_persist_def bindA_ret prune_ledger_later)
  next
    case None
    show ?thesis
    proof (cases "d_state d")
      case None
      with \<open>st_generation a = None\<close> w assms(2) show ?thesis
        by (simp add: load_state_locked_def holds_def)
    next
      case (Some b)
      with \<open>st_generation a = None\<close> assms(2) obtain v where v: "v \<le> t" "encode_state (st_state a) v = Inr b"
          "validate_state (st_state a) = Inr ()" "state_text (st_state a)"
        by (auto simp: holds_def)
      from decode_encode_state [OF assms(1) v(3, 4), of v] v(2)
      have "decode_state fiso b = Inr (prune_ledger (st_state a) v)" by auto
      with \<open>st_generation a = None\<close> Some w v(1) assms(3) show ?thesis
        by (simp add: load_state_locked_def prune_and_persist_def bindA_ret bindA_lift prune_ledger_later)
    qed
  qed
qed

lemma write_state_holds:
  assumes "reads_isoformat fiso" and "holds d a t" and "validate_state u = Inr ()" and "state_text u"
    and "t \<le> t1" and "t1 \<le> t2"
  obtains d' where "write_state fiso t1 t2 u d = (Inr (), d')" "holds d' (put a u) t2"
    "d_snapshot d' = d_snapshot d" "d_inventory d' = d_inventory d" "d_quarantine d' = d_quarantine d"
proof -
  from load_generation_holds [OF assms(1, 2)] obtain w where w: "w \<le> t" "load_generation_locked fiso d =
    (Inr (map_option (\<lambda>g. g\<lparr>gb_state := prune_ledger (st_state a) w\<rparr>) (st_generation a)), d)" .
  from decode_encode_state [OF assms(1, 3, 4)] obtain b where b: "encode_state u t2 = Inr b" by blast
  show ?thesis
  proof (cases "st_generation a")
    case None
    with w b assms(2-4) show ?thesis
      by (intro that [of "d\<lparr>d_state := Some b\<rparr>"])
        (auto simp: write_state_def bindA_ret bindA_lift holds_def put_def)
  next
    case (Some g)
    note g = holds_generation [OF assms(2) Some]
    have texts: "bundle_text (g\<lparr>gb_state := u\<rparr>)" using g(2) assms(4) by (simp add: bundle_text_def)
    from encode_generation_ok [OF texts validate_bundle_replaced [OF g(1) assms(3, 4)]]
    obtain c where c: "encode_generation (g\<lparr>gb_state := u\<rparr>) t1 = Inr c" .
    with Some w b assms(3, 4, 6) texts show ?thesis
      by (intro that [of "d\<lparr>d_generation := Some c, d_state := Some b\<rparr>"])
        (auto simp: write_state_def write_generation_locked_def bindA_lift bindA_do holds_def put_def
          bindA_def)
  qed
qed

lemma write_state_rejects:
  assumes "reads_isoformat fiso" and "holds d a t" and "validate_state u = Inl e"
  shows "write_state fiso t1 t2 u d = (Inl e, d)"
proof -
  from load_generation_holds [OF assms(1, 2)] obtain w where w: "w \<le> t" "load_generation_locked fiso d =
    (Inr (map_option (\<lambda>g. g\<lparr>gb_state := prune_ledger (st_state a) w\<rparr>) (st_generation a)), d)" .
  have b: "encode_state u t2 = Inl e" using assms(3) by (simp add: encode_state_def)
  show ?thesis
  proof (cases "st_generation a")
    case None
    with w b show ?thesis by (simp add: write_state_def bindA_ret bindA_lift)
  next
    case (Some g)
    have "encode_generation (g\<lparr>gb_state := u\<rparr>) t1 = Inl e"
      using validate_bundle_rejects [OF holds_generation(1) [OF assms(2) Some] assms(3)]
      by (simp add: encode_generation_def)
    with Some w show ?thesis by (simp add: write_state_def write_generation_locked_def bindA_lift)
  qed
qed

end
