(* ===== verification/Storage_Refinement.thy ===== *)
theory Storage_Refinement
  imports Storage
begin

text \<open>
  The public operations of \<open>storage.py\<close> refine an abstract store that keeps one state and the newest
  generation. \<open>answer\<close> says what an operation does to the abstract store, \<open>perform\<close> what the code
  does to the files; the simulation \<open>holds\<close> is kept by every operation whose clock readings are
  in order, and the replies agree. Pruning is invisible: the abstract state is never pruned, a load
  shows it pruned at the time of the load.
\<close>

section \<open>Pruning commutes with writing\<close>

lemma encode_state_pruned:
  assumes "validate_state s = Inr ()" and "t0 \<le> t"
  shows "encode_state (prune_ledger s t0) t = encode_state s t"
  using assms by (simp add: encode_state_def prune_ledger_valid prune_ledger_later)

lemma encode_generation_pruned:
  assumes "validate_bundle g = Inr ()" and "state_text (gb_state g)" and "t0 \<le> t"
  shows "encode_generation (g\<lparr>gb_state := prune_ledger (gb_state g) t0\<rparr>) t = encode_generation g t"
  using assms validate_bundle_pruned [OF assms(1, 2), of t0] validate_bundle_state [OF assms(1)]
  by (simp add: encode_generation_def generation_value_def encoded_state_def encode_state_pruned)

lemma put_same: "holds d a t \<Longrightarrow> put a (st_state a) = a"
  by (cases "st_generation a") (auto simp: put_def holds_def)

lemma write_state_pruned:
  assumes "reads_isoformat fiso" and "holds d a t" and "t0 \<le> t1" and "t1 \<le> t2"
  shows "write_state fiso t1 t2 (prune_ledger (st_state a) t0) d = write_state fiso t1 t2 (st_state a) d"
proof -
  from load_generation_holds [OF assms(1, 2)] obtain w where w: "w \<le> t" "load_generation_locked fiso d =
    (Inr (map_option (\<lambda>g. g\<lparr>gb_state := prune_ledger (st_state a) w\<rparr>) (st_generation a)), d)" .
  have st: "validate_state (st_state a) = Inr ()" "state_text (st_state a)" using assms(2) by (auto simp: holds_def)
  have b: "encode_state (prune_ledger (st_state a) t0) t2 = encode_state (st_state a) t2"
    using st assms(3, 4) by (simp add: encode_state_pruned)
  show ?thesis
  proof (cases "st_generation a")
    case None
    with w b show ?thesis by (simp add: write_state_def bindA_ret)
  next
    case (Some g)
    note g = holds_generation [OF assms(2) Some]
    have same: "g\<lparr>gb_state := st_state a\<rparr> = g" unfolding g(3) [symmetric] by (cases g) simp
    have "encode_generation (g\<lparr>gb_state := prune_ledger (st_state a) t0\<rparr>) t1 =
        encode_generation (g\<lparr>gb_state := st_state a\<rparr>) t1"
      using encode_generation_pruned [OF g(1), of t0 t1, unfolded g(3)] st assms(3) same by simp
    with Some w b show ?thesis by (simp add: write_state_def write_generation_locked_def)
  qed
qed

section \<open>Each operation\<close>

lemma holds_later: "holds d a t \<Longrightarrow> t \<le> t' \<Longrightarrow> holds d a t'"
  by (auto simp: holds_def split: option.splits intro: order_trans)

lemma holds_valid: "holds d a t \<Longrightarrow> validate_state (st_state a) = Inr () \<and> state_text (st_state a)"
  by (simp add: holds_def)

lemma prune_and_persist_holds:
  assumes "reads_isoformat fiso" and "holds d a t" and "t \<le> t0" and "t0 \<le> t1" and "t1 \<le> t2" and "w \<le> t"
  obtains d' where "prune_and_persist fiso True t0 t1 t2 (prune_ledger (st_state a) w) d =
    (Inr \<lparr>sl_state = prune_ledger (st_state a) t0, sl_warning = None\<rparr>, d')" "holds d' a t2"
proof -
  note st = holds_valid [OF assms(2), THEN conjunct1] holds_valid [OF assms(2), THEN conjunct2]
  have "t \<le> t1" "w \<le> t0" using assms by simp_all
  from write_state_holds [OF assms(1, 2) st \<open>t \<le> t1\<close> assms(5)] obtain d' where
    d': "write_state fiso t1 t2 (st_state a) d = (Inr (), d')" "holds d' a t2"
    using put_same [OF assms(2)] by metis
  note d'(1) [folded write_state_pruned [OF assms(1, 2, 4, 5)]]
  moreover have "holds d a t2" using holds_later [OF assms(2)] assms(3-5) by simp
  ultimately show thesis
    using that [of d'] that [of d] d'(2) \<open>w \<le> t0\<close>
    by (cases "prune_ledger (st_state a) t0 = prune_ledger (st_state a) w")
      (simp_all add: prune_and_persist_def prune_ledger_later Let_def bindA_def)
qed

lemma storage_load_state_holds:
  assumes "reads_isoformat fiso" and "holds d a t" and "t \<le> t0" and "t0 \<le> t1" and "t1 \<le> t2"
  obtains d' where "storage_load_state fiso t0 t1 t2 d =
    (Inr \<lparr>sl_state = prune_ledger (st_state a) t0, sl_warning = None\<rparr>, d')" "holds d' a t2"
proof -
  note persist = prune_and_persist_holds [OF assms]
  from load_generation_holds [OF assms(1, 2)] obtain w where w: "w \<le> t" "load_generation_locked fiso d =
    (Inr (map_option (\<lambda>g. g\<lparr>gb_state := prune_ledger (st_state a) w\<rparr>) (st_generation a)), d)" .
  show thesis
  proof (cases "st_generation a")
    case (Some g)
    from persist [OF w(1)] obtain d' where "prune_and_persist fiso True t0 t1 t2 (prune_ledger (st_state a) w) d =
      (Inr \<lparr>sl_state = prune_ledger (st_state a) t0, sl_warning = None\<rparr>, d')" "holds d' a t2" .
    with Some w that [of d'] show thesis by (simp add: storage_load_state_def load_state_locked_def)
  next
    case None
    show thesis
    proof (cases "d_state d")
      case None
      with \<open>st_generation a = None\<close> w assms that [of d] show thesis
        by (auto simp: storage_load_state_def load_state_locked_def holds_def)
    next
      case (Some b)
      with \<open>st_generation a = None\<close> assms(2) obtain v where v: "v \<le> t" "encode_state (st_state a) v = Inr b"
          "validate_state (st_state a) = Inr ()" "state_text (st_state a)"
        by (auto simp: holds_def)
      from decode_encode_state [OF assms(1) v(3, 4), of v] v(2)
      have b: "decode_state fiso b = Inr (prune_ledger (st_state a) v)" by auto
      from persist [OF v(1)] obtain d' where "prune_and_persist fiso True t0 t1 t2 (prune_ledger (st_state a) v) d =
        (Inr \<lparr>sl_state = prune_ledger (st_state a) t0, sl_warning = None\<rparr>, d')" "holds d' a t2" .
      with \<open>st_generation a = None\<close> Some w b that [of d'] show thesis
        by (simp add: storage_load_state_def load_state_locked_def bindA_lift)
    qed
  qed
qed

lemma commit_generation_holds:
  assumes "reads_isoformat fiso" and "holds d a t" and "bundle_text g" and "validate_bundle g = Inr ()"
    and "t1 \<le> t2" and "newer g a"
  obtains d' where "commit_generation fiso t1 t2 g d = (Inr True, d')" "holds d' (publish g) t2"
proof -
  from load_generation_holds [OF assms(1, 2)] obtain w where w: "load_generation_locked fiso d =
    (Inr (map_option (\<lambda>g. g\<lparr>gb_state := prune_ledger (st_state a) w\<rparr>) (st_generation a)), d)" .
  from encode_generation_ok [OF assms(3, 4)] obtain c where c: "encode_generation g t1 = Inr c" .
  have st: "validate_state (gb_state g) = Inr ()" "state_text (gb_state g)"
    using validate_bundle_state [OF assms(4)] assms(3) by (simp_all add: bundle_text_def)
  from decode_encode_state [OF assms(1) st] obtain b where b: "encode_state (gb_state g) t2 = Inr b" by blast
  let ?d = "d\<lparr>d_generation := Some c, d_state := Some b\<rparr>"
  have "commit_generation fiso t1 t2 g d = (Inr True, ?d)"
    using w c b assms(6)
    by (cases "st_generation a")
      (simp_all add: commit_generation_def newer_def write_generation_locked_def bindA_lift bindA_do bindA_def)
  moreover have "holds ?d (publish g) t2"
    using st c assms(3, 5) by (auto simp: holds_def publish_def)
  ultimately show thesis by (rule that)
qed

lemma commit_generation_stale:
  assumes "reads_isoformat fiso" and "holds d a t" and "\<not> newer g a"
  shows "commit_generation fiso t1 t2 g d = (Inr False, d)"
proof -
  from load_generation_holds [OF assms(1, 2)] obtain w where w: "load_generation_locked fiso d =
    (Inr (map_option (\<lambda>g. g\<lparr>gb_state := prune_ledger (st_state a) w\<rparr>) (st_generation a)), d)" .
  with assms(3) show ?thesis
    by (cases "st_generation a") (simp_all add: commit_generation_def newer_def)
qed

lemma commit_generation_rejects:
  assumes "reads_isoformat fiso" and "holds d a t" and "newer g a" and "validate_bundle g = Inl e"
  shows "commit_generation fiso t1 t2 g d = (Inl e, d)"
proof -
  from load_generation_holds [OF assms(1, 2)] obtain w where w: "load_generation_locked fiso d =
    (Inr (map_option (\<lambda>g. g\<lparr>gb_state := prune_ledger (st_state a) w\<rparr>) (st_generation a)), d)" .
  with assms(3, 4) show ?thesis
    by (cases "st_generation a")
      (simp_all add: commit_generation_def newer_def write_generation_locked_def encode_generation_def bindA_lift)
qed

section \<open>Sequences of operations\<close>

datatype operation =
  LoadState
| SaveState PersistentState
| UpdateState "PersistentState \<Rightarrow> PersistentState result"
| CommitGeneration GenerationBundle

datatype reply = Loaded StateLoad | Saved | Committed bool | Raised exn

fun replied :: "('a \<Rightarrow> reply) \<Rightarrow> 'a result \<times> disk \<Rightarrow> reply \<times> disk" where
  "replied f (Inl e, d) = (Raised e, d)"
| "replied f (Inr x, d) = (f x, d)"

text \<open>The code: an operation with its three readings of the clock.\<close>

type_synonym clock = "datetime \<times> datetime \<times> datetime"

fun perform :: "(ustr \<Rightarrow> datetime option) \<Rightarrow> clock \<Rightarrow> operation \<Rightarrow> disk \<Rightarrow> reply \<times> disk" where
  "perform fiso (t0, t1, t2) LoadState d = replied Loaded (storage_load_state fiso t0 t1 t2 d)"
| "perform fiso (t0, t1, t2) (SaveState u) d = replied (\<lambda>_. Saved) (save_state fiso t0 t1 t2 u d)"
| "perform fiso (t0, t1, t2) (UpdateState m) d = replied Loaded (update_state fiso t0 t1 t2 m d)"
| "perform fiso (t0, t1, t2) (CommitGeneration g) d = replied Committed (commit_generation fiso t1 t2 g d)"

text \<open>The specification: the store changes as a whole or not at all.\<close>

fun answer :: "clock \<Rightarrow> operation \<Rightarrow> store \<Rightarrow> reply \<times> store" where
  "answer (t0, t1, t2) LoadState a =
     (Loaded \<lparr>sl_state = prune_ledger (st_state a) t0, sl_warning = None\<rparr>, a)"
| "answer (t0, t1, t2) (SaveState u) a =
     (case validate_state u of Inl e \<Rightarrow> (Raised e, a) | Inr _ \<Rightarrow> (Saved, put a u))"
| "answer (t0, t1, t2) (UpdateState m) a =
     (case m (prune_ledger (st_state a) t0) of
        Inl e \<Rightarrow> (Raised e, a)
      | Inr u \<Rightarrow>
          (case validate_state u of
             Inl e \<Rightarrow> (Raised e, a)
           | Inr _ \<Rightarrow> (Loaded \<lparr>sl_state = u, sl_warning = None\<rparr>, put a u)))"
| "answer (t0, t1, t2) (CommitGeneration g) a =
     (if \<not> newer g a then (Committed False, a)
      else case validate_bundle g of Inl e \<Rightarrow> (Raised e, a) | Inr _ \<Rightarrow> (Committed True, publish g))"

text \<open>Every string an operation writes has a UTF-8 encoding, every time a calendar date.\<close>

fun operation_text :: "operation \<Rightarrow> bool" where
  "operation_text LoadState = True"
| "operation_text (SaveState u) = state_text u"
| "operation_text (UpdateState m) = (\<forall>s u. state_text s \<longrightarrow> m s = Inr u \<longrightarrow> state_text u)"
| "operation_text (CommitGeneration g) = bundle_text g"

fun perform_all ::
  "(ustr \<Rightarrow> datetime option) \<Rightarrow> (clock \<times> operation) list \<Rightarrow> disk \<Rightarrow> reply list \<times> disk" where
  "perform_all fiso [] d = ([], d)"
| "perform_all fiso ((c, x) # steps) d =
     (let (r, d1) = perform fiso c x d; (rs, d2) = perform_all fiso steps d1 in (r # rs, d2))"

fun answer_all :: "(clock \<times> operation) list \<Rightarrow> store \<Rightarrow> reply list \<times> store" where
  "answer_all [] a = ([], a)"
| "answer_all ((c, x) # steps) a =
     (let (r, a1) = answer c x a; (rs, a2) = answer_all steps a1 in (r # rs, a2))"

text \<open>The clock does not run backwards; every time is at or after \<open>t\<close>.\<close>

fun timely :: "datetime \<Rightarrow> (clock \<times> operation) list \<Rightarrow> bool" where
  "timely t [] = True"
| "timely t (((t0, t1, t2), x) # steps) = (t \<le> t0 \<and> t0 \<le> t1 \<and> t1 \<le> t2 \<and> timely t2 steps)"

fun last_time :: "datetime \<Rightarrow> (clock \<times> operation) list \<Rightarrow> datetime" where
  "last_time t [] = t"
| "last_time t (((t0, t1, t2), x) # steps) = last_time t2 steps"

lemma update_state_holds:
  assumes "reads_isoformat fiso" and "holds d a t" and "t \<le> t0" and "t0 \<le> t1" and "t1 \<le> t2"
    and "m (prune_ledger (st_state a) t0) = Inr u" and "validate_state u = Inr ()" and "state_text u"
  obtains d' where "update_state fiso t0 t1 t2 m d = (Inr \<lparr>sl_state = u, sl_warning = None\<rparr>, d')"
    "holds d' (put a u) t2"
proof -
  have "t \<le> t1" using assms(3, 4) by simp
  from write_state_holds [OF assms(1, 2, 7, 8) this assms(5)] obtain d' where
    "write_state fiso t1 t2 u d = (Inr (), d')" "holds d' (put a u) t2" .
  with that [of d'] assms(6) load_state_holds [OF assms(1-3)] show thesis
    by (simp add: update_state_def bindA_lift)
qed

lemma save_state_holds:
  assumes "reads_isoformat fiso" and "holds d a t" and "t \<le> t0" and "t0 \<le> t1" and "t1 \<le> t2"
    and "validate_state u = Inr ()" and "state_text u"
  obtains d' where "save_state fiso t0 t1 t2 u d = (Inr (), d')" "holds d' (put a u) t2"
proof -
  have "t \<le> t1" using assms(3, 4) by simp
  from write_state_holds [OF assms(1, 2, 6, 7) this assms(5)] obtain d' where
    "write_state fiso t1 t2 u d = (Inr (), d')" "holds d' (put a u) t2" .
  with that [of d'] assms(6) load_state_holds [OF assms(1-3)] show thesis
    by (simp add: save_state_def bindA_lift)
qed

lemma update_state_raises:
  assumes "reads_isoformat fiso" and "holds d a t" and "t \<le> t0"
    and "m (prune_ledger (st_state a) t0) = Inl e \<or>
      (\<exists>u. m (prune_ledger (st_state a) t0) = Inr u \<and> validate_state u = Inl e)"
  shows "update_state fiso t0 t1 t2 m d = (Inl e, d)"
  using assms(4) load_state_holds [OF assms(1-3)]
  by (auto simp: update_state_def bindA_lift write_state_rejects [OF assms(1, 2)])

lemma perform_refines:
  assumes "reads_isoformat fiso" and "holds d a t" and "timely t [((t0, t1, t2), x)]" and "operation_text x"
  obtains d' where "perform fiso (t0, t1, t2) x d = (fst (answer (t0, t1, t2) x a), d')"
    "holds d' (snd (answer (t0, t1, t2) x a)) t2"
proof -
  have ord: "t \<le> t0" "t0 \<le> t1" "t1 \<le> t2" and "t \<le> t2" using assms(3) by simp_all
  note same = holds_later [OF assms(2) \<open>t \<le> t2\<close>]
  note st = holds_valid [OF assms(2)]
  show thesis
  proof (cases x)
    case LoadState
    from storage_load_state_holds [OF assms(1, 2) ord] obtain d' where
      "storage_load_state fiso t0 t1 t2 d =
        (Inr \<lparr>sl_state = prune_ledger (st_state a) t0, sl_warning = None\<rparr>, d')" "holds d' a t2" .
    with LoadState that [of d'] show thesis by simp
  next
    case (SaveState u)
    show thesis
    proof (cases "validate_state u")
      case (Inl e)
      with SaveState same that [of d] show thesis by (simp add: save_state_def bindA_lift)
    next
      case (Inr v)
      have "validate_state u = Inr ()" "state_text u" using Inr SaveState assms(4) by simp_all
      from save_state_holds [OF assms(1, 2) ord this] obtain d' where
        "save_state fiso t0 t1 t2 u d = (Inr (), d')" "holds d' (put a u) t2" .
      with SaveState Inr that [of d'] show thesis by simp
    qed
  next
    case (UpdateState m)
    let ?r = "m (prune_ledger (st_state a) t0)"
    show thesis
    proof (cases "\<exists>u. ?r = Inr u \<and> validate_state u = Inr ()")
      case True
      then obtain u where u: "?r = Inr u" "validate_state u = Inr ()" by blast
      have "state_text u" using u(1) UpdateState assms(4) st prune_ledger_text by fastforce
      from update_state_holds [where m = m, OF assms(1, 2) ord u this] obtain d' where
        "update_state fiso t0 t1 t2 m d = (Inr \<lparr>sl_state = u, sl_warning = None\<rparr>, d')"
        "holds d' (put a u) t2" .
      with UpdateState u that [of d'] show thesis by simp
    next
      case False
      then obtain e where e: "?r = Inl e \<or> (\<exists>u. ?r = Inr u \<and> validate_state u = Inl e)"
        by (metis (full_types) old.sum.exhaust old.unit.exhaust)
      from update_state_raises [where m = m, OF assms(1, 2) ord(1) e] UpdateState e same that [of d] show thesis by auto
    qed
  next
    case (CommitGeneration g)
    consider "\<not> newer g a" | e where "newer g a" "validate_bundle g = Inl e"
      | "newer g a" "validate_bundle g = Inr ()"
      by (metis (full_types) old.sum.exhaust old.unit.exhaust)
    then show thesis
    proof cases
      case 1
      with commit_generation_stale [OF assms(1, 2) 1] CommitGeneration same that [of d] show thesis by simp
    next
      case 2
      with commit_generation_rejects [OF assms(1, 2) 2] CommitGeneration same that [of d] show thesis by simp
    next
      case 3
      have "bundle_text g" using CommitGeneration assms(4) by simp
      from commit_generation_holds [OF assms(1, 2) this 3(2) ord(3) 3(1)] obtain d' where
        "commit_generation fiso t1 t2 g d = (Inr True, d')" "holds d' (publish g) t2" .
      with CommitGeneration 3 that [of d'] show thesis by simp
    qed
  qed
qed

lemma answer_all_Cons:
  "answer_all ((c, x) # steps) a =
     (fst (answer c x a) # fst (answer_all steps (snd (answer c x a))), snd (answer_all steps (snd (answer c x a))))"
  by (simp add: case_prod_unfold Let_def)

lemma perform_all_Cons:
  "perform fiso c x d = (r, d1) \<Longrightarrow> perform_all fiso steps d1 = (rs, d2) \<Longrightarrow>
   perform_all fiso ((c, x) # steps) d = (r # rs, d2)"
  by simp

lemma perform_all_refines:
  assumes "reads_isoformat fiso" and "holds d a t" and "timely t steps"
    and "\<And>c x. (c, x) \<in> set steps \<Longrightarrow> operation_text x"
  obtains d' where "perform_all fiso steps d = (fst (answer_all steps a), d')"
    "holds d' (snd (answer_all steps a)) (last_time t steps)"
  using assms(2-4)
proof (induction steps arbitrary: d a t thesis)
  case Nil
  then show ?case by simp
next
  case (Cons step steps)
  obtain t0 t1 t2 x where step: "step = ((t0, t1, t2), x)" by (metis prod.exhaust)
  let ?a = "snd (answer (t0, t1, t2) x a)"
  from Cons.prems(2-4) step
  have x: "operation_text x" and ok: "timely t [((t0, t1, t2), x)]" "timely t2 steps" by auto
  from perform_refines [OF assms(1) Cons.prems(2) ok(1) x] obtain d1 where
    d1: "perform fiso (t0, t1, t2) x d = (fst (answer (t0, t1, t2) x a), d1)" "holds d1 ?a t2" .
  have "operation_text y" if "(c, y) \<in> set steps" for c y using that by (intro Cons.prems(4) [of c]) simp
  then obtain d2 where d2: "perform_all fiso steps d1 = (fst (answer_all steps ?a), d2)"
      "holds d2 (snd (answer_all steps ?a)) (last_time t2 steps)"
    by (rule Cons.IH [rotated, OF d1(2) ok(2)])
  show ?case
    using perform_all_Cons [OF d1(1) d2(1)] d2(2) unfolding step
    by (intro Cons.prems(1) [of d2, unfolded step]) (simp_all only: answer_all_Cons fst_conv snd_conv last_time.simps)
qed

section \<open>The newest generation\<close>

text \<open>The orders of the generations a sequence of operations published, in order.\<close>

fun accepted :: "(clock \<times> operation) list \<Rightarrow> reply list \<Rightarrow> int list" where
  "accepted ((c, CommitGeneration g) # steps) (Committed True # rs) = gb_order g # accepted steps rs"
| "accepted (_ # steps) (_ # rs) = accepted steps rs"
| "accepted _ _ = []"

definition store_order :: "store \<Rightarrow> int option" where
  "store_order a = map_option gb_order (st_generation a)"

lemma store_order_publish [simp]: "store_order (publish g) = Some (gb_order g)"
  by (simp add: store_order_def publish_def)

lemma store_order_put [simp]: "store_order (put a u) = store_order a"
  by (simp add: store_order_def put_def option.map_comp comp_def)

text \<open>The order a step publishes, if it does.\<close>

fun published :: "operation \<Rightarrow> reply \<Rightarrow> int option" where
  "published (CommitGeneration g) (Committed True) = Some (gb_order g)"
| "published _ _ = None"

lemma accepted_Cons:
  "accepted ((c, x) # steps) (r # rs) =
     (case published x r of None \<Rightarrow> accepted steps rs | Some n \<Rightarrow> n # accepted steps rs)"
  by (cases "(x, r)" rule: published.cases) simp_all

lemma answer_order:
  "store_order (snd (answer c x a)) =
     (case published x (fst (answer c x a)) of None \<Rightarrow> store_order a | Some n \<Rightarrow> Some n)"
  by (cases x; cases c) (auto split: sum.splits)

lemma answer_accepts:
  assumes "published x (fst (answer c x a)) = Some m" and "store_order a = Some n"
  shows "n < m"
  using assms
  by (cases x; cases c) (auto simp: newer_def store_order_def split: if_splits option.splits sum.splits)

definition ascending :: "int option \<Rightarrow> int list \<Rightarrow> bool" where
  "ascending n ns \<longleftrightarrow> sorted_wrt (<) (case n of None \<Rightarrow> ns | Some m \<Rightarrow> m # ns)"

definition newest :: "int option \<Rightarrow> int list \<Rightarrow> int option" where
  "newest n ns = (if ns = [] then n else Some (last ns))"

lemma answer_all_ascending:
  "ascending (store_order a) (accepted steps (fst (answer_all steps a))) \<and>
   store_order (snd (answer_all steps a)) = newest (store_order a) (accepted steps (fst (answer_all steps a)))"
proof (induction steps arbitrary: a)
  case (Cons step steps)
  obtain c x where step: "step = (c, x)" by fastforce
  let ?r = "fst (answer c x a)"
  show ?case
  proof (cases "published x ?r")
    case None
    with Cons.IH [of "snd (answer c x a)"] step show ?thesis
      by (simp add: answer_all_Cons accepted_Cons answer_order del: answer_all.simps)
  next
    case (Some m)
    with Cons.IH [of "snd (answer c x a)"] step answer_accepts [OF Some] show ?thesis
      by (cases "store_order a")
        (force simp: answer_all_Cons accepted_Cons answer_order ascending_def newest_def
          simp del: answer_all.simps)+
  qed
qed (simp add: ascending_def newest_def split: option.split)

section \<open>Properties\<close>

text \<open>
  C17: The storage of the helper refines the abstract store. Take any sequence of loads, saves,
  updates and generation commits, of whatever processes, each with clock readings in order, beginning
  with no files. The replies of the code are those of the store: a load shows the last state written,
  pruned at the time of the load and with no warning; a save or an update whose mutation raises or
  whose result is invalid raises that error and changes nothing; any other is seen in the state and in
  the published generation at once; a commit publishes the generation and its state together, returns
  \<open>False\<close> and changes nothing unless its order is the newest, and raises and changes nothing if the
  bundle is invalid. The files hold the store again at the end.
\<close>

theorem storage_refines:
  assumes "reads_isoformat fiso" and "timely t steps"
    and "\<And>c x. (c, x) \<in> set steps \<Longrightarrow> operation_text x"
  shows "fst (perform_all fiso steps no_files) = fst (answer_all steps empty_store) \<and>
    holds (snd (perform_all fiso steps no_files)) (snd (answer_all steps empty_store)) (last_time t steps)"
  by (rule perform_all_refines [OF assms(1) no_files_hold assms(2, 3)]) simp_all

text \<open>
  C18: The newest generation wins. Whatever operations processes interleave, the generations whose
  commit was accepted have strictly increasing orders, so a scan that finishes late never replaces
  the result of a later one; and the generation read back is the last accepted one: its order is
  the greatest, and none is read when none was accepted.
\<close>

theorem newest_generation_wins:
  assumes "reads_isoformat fiso" and "timely t steps"
    and "\<And>c x. (c, x) \<in> set steps \<Longrightarrow> operation_text x"
  shows "\<exists>rs d r. perform_all fiso steps no_files = (rs, d) \<and> load_generation_locked fiso d = (Inr r, d) \<and>
    sorted_wrt (<) (accepted steps rs) \<and>
    map_option gb_order r = (if accepted steps rs = [] then None else Some (last (accepted steps rs)))"
proof -
  let ?a = "snd (answer_all steps empty_store)" and ?rs = "fst (answer_all steps empty_store)"
  from perform_all_refines [OF assms(1) no_files_hold assms(2, 3)] obtain d where
    d: "perform_all fiso steps no_files = (?rs, d)" "holds d ?a (last_time t steps)" .
  from load_generation_holds [OF assms(1) d(2)] obtain w where w: "load_generation_locked fiso d =
    (Inr (map_option (\<lambda>g. g\<lparr>gb_state := prune_ledger (st_state ?a) w\<rparr>) (st_generation ?a)), d)" .
  have "store_order empty_store = None" by (simp add: store_order_def empty_store_def)
  with answer_all_ascending [of empty_store steps] d(1) w show ?thesis
    by (simp add: ascending_def newest_def store_order_def option.map_comp comp_def)
qed

text \<open>Witnesses: a state is stored, a generation published, and the same generation refused.\<close>

definition storage_steps :: "(clock \<times> operation) list" where
  "storage_steps = [((0, 0, 0), UpdateState (\<lambda>s. Inr stored_state)), ((0, 1, 2), CommitGeneration quiet_bundle),
     ((2, 2, 2), CommitGeneration quiet_bundle), ((3, 3, 3), LoadState)]"

lemma storage_steps_ok:
  "timely 0 storage_steps" "(c, x) \<in> set storage_steps \<Longrightarrow> operation_text x"
  using stored_state_ok(2) quiet_bundle_encoded(1) by (auto simp: storage_steps_def)

lemma quiet_bundle_valid: "validate_bundle quiet_bundle = Inr ()"
  using quiet_bundle_encoded(2) by (auto simp: encode_generation_def)

lemma quiet_order: "gb_order quiet_bundle = 3"
  by (simp add: quiet_bundle_def)

theorem storage_refines_witness:
  "fst (perform_all canonical_fromisoformat storage_steps no_files) =
     [Loaded \<lparr>sl_state = stored_state, sl_warning = None\<rparr>, Committed True, Committed False,
      Loaded \<lparr>sl_state = prune_ledger (gb_state quiet_bundle) 3, sl_warning = None\<rparr>]"
  using storage_refines [OF canonical_reads storage_steps_ok]
  by (simp add: storage_steps_def stored_state_ok(1) quiet_bundle_valid newer_def put_def publish_def empty_store_def)

theorem newest_generation_wins_witness:
  "\<exists>d r. snd (perform_all canonical_fromisoformat storage_steps no_files) = d \<and>
     load_generation_locked canonical_fromisoformat d = (Inr r, d) \<and> map_option gb_order r = Some 3"
proof -
  have "fst (perform_all canonical_fromisoformat storage_steps no_files) = fst (answer_all storage_steps empty_store)"
    by (rule perform_all_refines [OF canonical_reads no_files_hold storage_steps_ok]) simp_all
  then have "accepted storage_steps (fst (perform_all canonical_fromisoformat storage_steps no_files)) = [3]"
    by (simp add: storage_steps_def stored_state_ok(1) quiet_bundle_valid quiet_order newer_def put_def
        publish_def empty_store_def)
  moreover from newest_generation_wins [OF canonical_reads storage_steps_ok(1)] storage_steps_ok(2)
  obtain rs d r where "perform_all canonical_fromisoformat storage_steps no_files = (rs, d)"
      "load_generation_locked canonical_fromisoformat d = (Inr r, d)"
      "map_option gb_order r =
        (if accepted storage_steps rs = [] then None else Some (last (accepted storage_steps rs)))"
    by blast
  ultimately show ?thesis by simp
qed

end
