(* ===== verification/Notification_Batch.thy ===== *)
theory Notification_Batch
  imports Stars Runner_Types
begin

text \<open>
  The lease protocol of \<open>notification_batch.py\<close>, by which concurrent helper processes share the
  notification ledger: one owner entry per notification kind, leased for thirty seconds, and one
  entry per notification fingerprint. \<open>claim_batch\<close> and \<open>complete_batch\<close> are given as functions of
  the state that \<open>Storage.update_state\<close> passes to the mutation under its lock; the token of
  \<open>uuid4().hex\<close> is an argument.
\<close>

section \<open>Data\<close>

datatype NotificationKind = NKind_WATCH | NKind_SECURITY | NKind_SECURITY_CONDITION

fun notification_kind_value :: "NotificationKind \<Rightarrow> ustr" where
  "notification_kind_value NKind_WATCH = lit ''watch''"
| "notification_kind_value NKind_SECURITY = lit ''security''"
| "notification_kind_value NKind_SECURITY_CONDITION = lit ''security-condition''"

definition notification_kind_members :: "NotificationKind list" where
  "notification_kind_members = [NKind_WATCH, NKind_SECURITY, NKind_SECURITY_CONDITION]"

interpretation notification_kind_enum: str_enum notification_kind_value notification_kind_members
proof
  show "set notification_kind_members = UNIV"
    by (auto simp: notification_kind_members_def) (metis NotificationKind.exhaust)
  show "notification_kind_value a = notification_kind_value b \<Longrightarrow> a = b" for a b
    by (cases a; cases b; simp)
qed

datatype NotificationChange = Change_FIRST | Change_NEW | Change_UNCHANGED

record NotificationSettings =
  ns_notify_permanent :: bool
  ns_notify_security :: bool
  ns_security_minimum_severity :: Severity

definition default_settings :: NotificationSettings where
  "default_settings = \<lparr>ns_notify_permanent = True, ns_notify_security = True,
     ns_security_minimum_severity = Sev_HIGH\<rparr>"

record NotificationCandidate =
  nc_fingerprint :: ustr
  nc_reference :: ustr
  nc_kind :: NotificationKind
  nc_change :: NotificationChange
  nc_title :: ustr
  nc_body :: ustr

record NotificationBatch =
  nb_kind :: NotificationKind
  nb_candidates :: "NotificationCandidate list"
  nb_lease_token :: ustr

section \<open>Operations\<close>

definition LEASE_DURATION :: timedelta where
  "LEASE_DURATION = seconds 30"

definition pending :: "NotificationStatus \<Rightarrow> bool" where
  "pending status =
     (case status of Notif_PENDING \<Rightarrow> True
      | Notif_DELIVERED \<Rightarrow> False | Notif_SUPPRESSED \<Rightarrow> False | Notif_FAILED \<Rightarrow> False)"

definition is_dispatchable :: "LedgerEntry option \<Rightarrow> bool" where
  "is_dispatchable entry = (case entry of None \<Rightarrow> True | Some e \<Rightarrow> pending (le_status e))"

definition failure_status :: "NotificationChange \<Rightarrow> NotificationStatus" where
  "failure_status change =
     (case change of Change_FIRST \<Rightarrow> Notif_PENDING | Change_NEW \<Rightarrow> Notif_PENDING
      | Change_UNCHANGED \<Rightarrow> Notif_PENDING)"

definition delivery_status :: "CommandResult \<Rightarrow> NotificationChange \<Rightarrow> NotificationStatus" where
  "delivery_status result change =
     (case result of
        CommandSucceeded _ _ \<Rightarrow> Notif_DELIVERED
      | CommandExited _ _ _ \<Rightarrow> failure_status change
      | CommandMissing _ \<Rightarrow> failure_status change
      | CommandOutputExceeded _ _ _ \<Rightarrow> failure_status change
      | CommandTimedOut _ _ \<Rightarrow> failure_status change
      | CommandRejected _ \<Rightarrow> Notif_FAILED)"

definition owner_fingerprint :: "NotificationKind \<Rightarrow> ustr" where
  "owner_fingerprint kind = lit ''notification-owner-v1:'' @ notification_kind_value kind"

definition ledger_find :: "LedgerEntry list \<Rightarrow> ustr \<Rightarrow> LedgerEntry option" where
  "ledger_find ledger fingerprint = find (\<lambda>e. le_fingerprint e = fingerprint) ledger"

definition ledger_entry :: "PersistentState \<Rightarrow> ustr \<Rightarrow> LedgerEntry option" where
  "ledger_entry state fingerprint = ledger_find (ps_ledger state) fingerprint"

definition live_lease :: "LedgerEntry \<Rightarrow> datetime \<Rightarrow> bool" where
  "live_lease entry now \<longleftrightarrow>
     le_lease_token entry \<noteq> None \<and>
     (case le_lease_expires_at entry of None \<Rightarrow> False | Some expires \<Rightarrow> now < expires)"

definition owned_by :: "LedgerEntry option \<Rightarrow> ustr \<Rightarrow> bool" where
  "owned_by entry token = (case entry of None \<Rightarrow> False | Some e \<Rightarrow> le_lease_token e = Some token)"

definition owns_owner :: "PersistentState \<Rightarrow> NotificationKind \<Rightarrow> ustr \<Rightarrow> bool" where
  "owns_owner state kind token = owned_by (ledger_entry state (owner_fingerprint kind)) token"

definition claimable :: "LedgerEntry option \<Rightarrow> datetime \<Rightarrow> bool" where
  "claimable entry now =
     (case entry of None \<Rightarrow> True | Some e \<Rightarrow> pending (le_status e) \<and> \<not> live_lease e now)"

definition upsert :: "LedgerEntry list \<Rightarrow> LedgerEntry \<Rightarrow> LedgerEntry list" where
  "upsert ledger updated =
     (if list_ex (\<lambda>e. le_fingerprint e = le_fingerprint updated) ledger
      then map (\<lambda>e. if le_fingerprint e = le_fingerprint updated then updated else e) ledger
      else ledger @ [updated])"

definition suppress_superseded ::
  "LedgerEntry list \<Rightarrow> NotificationCandidate list \<Rightarrow> LedgerEntry list" where
  "suppress_superseded ledger candidates =
     (let fingerprints = nc_fingerprint ` set candidates;
          references = map nc_reference candidates
      in map (\<lambda>e. if le_fingerprint e \<notin> fingerprints \<and> is_active e
                     \<and> list_ex (\<lambda>r. prefix r (le_fingerprint e)) references
                  then e\<lparr>le_status := Notif_SUPPRESSED\<rparr> else e) ledger)"

definition leased_entry :: "ustr \<Rightarrow> datetime \<Rightarrow> ustr \<Rightarrow> LedgerEntry" where
  "leased_entry fingerprint now token =
     \<lparr>le_fingerprint = fingerprint, le_status = Notif_PENDING, le_recorded_at = now,
      le_lease_token = Some token, le_lease_expires_at = Some (now + LEASE_DURATION)\<rparr>"

definition reserve_batch ::
  "PersistentState \<Rightarrow> NotificationKind \<Rightarrow> NotificationCandidate list \<Rightarrow> datetime \<Rightarrow> ustr
     \<Rightarrow> PersistentState" where
  "reserve_batch state kind candidates now token =
     (if (case ledger_entry state (owner_fingerprint kind) of
            None \<Rightarrow> False | Some owner \<Rightarrow> live_lease owner now)
      then state
      else
        let claimed = filter (\<lambda>c. claimable (ledger_entry state (nc_fingerprint c)) now) candidates
        in if claimed = [] then state
           else
             let ledger = suppress_superseded (ps_ledger state) claimed;
                 ledger = foldl (\<lambda>l c. upsert l (leased_entry (nc_fingerprint c) now token))
                            ledger claimed;
                 ledger = upsert ledger (leased_entry (owner_fingerprint kind) now token)
             in \<lparr>ps_watches = ps_watches state, ps_ledger = ledger,
                 ps_sources = ps_sources state\<rparr>)"

definition claim_batch ::
  "PersistentState \<Rightarrow> NotificationKind \<Rightarrow> NotificationCandidate list \<Rightarrow> datetime \<Rightarrow> ustr
     \<Rightarrow> PersistentState \<times> NotificationBatch option" where
  "claim_batch current kind candidates now token =
     (let state = reserve_batch current kind candidates now token;
          claimed = filter (\<lambda>c. owned_by (ledger_entry state (nc_fingerprint c)) token) candidates
      in (state,
          if claimed = [] \<or> \<not> owns_owner state kind token then None
          else Some \<lparr>nb_kind = kind, nb_candidates = claimed, nb_lease_token = token\<rparr>))"

definition complete_batch_state ::
  "PersistentState \<Rightarrow> NotificationBatch \<Rightarrow> CommandResult \<Rightarrow> PersistentState \<times> ustr set" where
  "complete_batch_state state batch result =
     (if \<not> owns_owner state (nb_kind batch) (nb_lease_token batch) then (state, {})
      else
        let updates = dict_of nc_fingerprint (\<lambda>c. delivery_status result (nc_change c))
              (nb_candidates batch);
            hit = (\<lambda>e. updates (le_fingerprint e) \<noteq> None
                       \<and> owned_by (Some e) (nb_lease_token batch));
            completed = le_fingerprint ` set (filter hit (ps_ledger state));
            ledger = map (\<lambda>e. if hit e
                              then e\<lparr>le_status := the (updates (le_fingerprint e)),
                                     le_lease_token := None, le_lease_expires_at := None\<rparr>
                              else e)
              (filter (\<lambda>e. le_fingerprint e \<noteq> owner_fingerprint (nb_kind batch)) (ps_ledger state))
        in (\<lparr>ps_watches = ps_watches state, ps_ledger = ledger, ps_sources = ps_sources state\<rparr>,
            completed))"

definition complete_batch ::
  "PersistentState \<Rightarrow> NotificationBatch \<Rightarrow> CommandResult
     \<Rightarrow> PersistentState \<times> NotificationOutcome list" where
  "complete_batch current batch result =
     (let (state, completed) = complete_batch_state current batch result
      in (state,
          map (\<lambda>c. \<lparr>no_fingerprint = nc_fingerprint c,
                    no_status = delivery_status result (nc_change c)\<rparr>)
            (filter (\<lambda>c. nc_fingerprint c \<in> completed) (nb_candidates batch))))"

section \<open>The ledger as a map\<close>

lemma pending_iff [simp]: "pending st \<longleftrightarrow> st = Notif_PENDING"
  by (cases st) (simp_all add: pending_def)

lemma failure_status_pending [simp]: "failure_status c = Notif_PENDING"
  by (cases c) (simp_all add: failure_status_def)

lemma owner_fingerprint_inject [simp]: "owner_fingerprint a = owner_fingerprint b \<longleftrightarrow> a = b"
  by (simp add: owner_fingerprint_def notification_kind_enum.val_eq_iff)

lemma leased_entry_select [simp]:
  "le_fingerprint (leased_entry f now tok) = f"
  "le_status (leased_entry f now tok) = Notif_PENDING"
  "le_lease_token (leased_entry f now tok) = Some tok"
  "le_lease_expires_at (leased_entry f now tok) = Some (now + LEASE_DURATION)"
  by (simp_all add: leased_entry_def)

lemma ledger_find_SomeD: "ledger_find l f = Some e \<Longrightarrow> e \<in> set l \<and> le_fingerprint e = f"
  unfolding ledger_find_def by (rule find_SomeD)

lemma ledger_find_None: "ledger_find l f = None \<longleftrightarrow> f \<notin> le_fingerprint ` set l"
  by (simp add: ledger_find_def find_key_None)

lemma ledger_find_upsert:
  "ledger_find (upsert l e) f = (if f = le_fingerprint e then Some e else ledger_find l f)"
proof (cases "list_ex (\<lambda>x. le_fingerprint x = le_fingerprint e) l")
  case True
  have map: "ledger_find (map (\<lambda>x. if le_fingerprint x = le_fingerprint e then e else x) l) f =
      map_option (\<lambda>x. if le_fingerprint x = le_fingerprint e then e else x) (ledger_find l f)"
    unfolding ledger_find_def by (rule find_map_const) simp
  from True have "ledger_find l (le_fingerprint e) \<noteq> None"
    by (auto simp: ledger_find_def find_None_iff list_ex_iff)
  with True map show ?thesis
    by (auto simp: upsert_def map_option_case dest: ledger_find_SomeD split: option.splits)
next
  case False
  then have "ledger_find l (le_fingerprint e) = None"
    by (auto simp: ledger_find_None list_ex_iff)
  with False show ?thesis
    by (auto simp: upsert_def ledger_find_def find_append split: option.splits)
qed

lemma ledger_find_foldl_upsert:
  "ledger_find (foldl (\<lambda>l c. upsert l (leased_entry (nc_fingerprint c) now tok)) l cs) f =
     (if f \<in> nc_fingerprint ` set cs then Some (leased_entry f now tok) else ledger_find l f)"
  by (induction cs arbitrary: l) (auto simp: ledger_find_upsert)

definition superseded :: "NotificationCandidate list \<Rightarrow> LedgerEntry \<Rightarrow> bool" where
  "superseded cs e \<longleftrightarrow> le_fingerprint e \<notin> nc_fingerprint ` set cs \<and> is_active e \<and>
     (\<exists>c \<in> set cs. prefix (nc_reference c) (le_fingerprint e))"

lemma suppress_superseded_map:
  "suppress_superseded l cs =
     map (\<lambda>e. if superseded cs e then e\<lparr>le_status := Notif_SUPPRESSED\<rparr> else e) l"
  by (simp add: suppress_superseded_def superseded_def Let_def list_ex_iff)

lemma ledger_find_suppress:
  "ledger_find (suppress_superseded l cs) f =
     map_option (\<lambda>e. if superseded cs e then e\<lparr>le_status := Notif_SUPPRESSED\<rparr> else e)
       (ledger_find l f)"
  unfolding ledger_find_def suppress_superseded_map by (rule find_map_const) simp

lemma upsert_keys_distinct:
  assumes "distinct (map le_fingerprint l)"
  shows "distinct (map le_fingerprint (upsert l e))"
proof -
  have "map le_fingerprint (map (\<lambda>x. if le_fingerprint x = le_fingerprint e then e else x) l) =
      map le_fingerprint l" by simp
  with assms show ?thesis
    by (auto simp: upsert_def list_ex_iff simp del: map_map)
qed

lemma upsert_ok: "ledger_ok l \<Longrightarrow> entry_ok e \<Longrightarrow> ledger_ok (upsert l e)"
  using upsert_keys_distinct [of l e] by (auto simp: ledger_ok_def upsert_def)

lemma foldl_upsert_ok:
  "ledger_ok l \<Longrightarrow> tok \<noteq> [] \<Longrightarrow>
   ledger_ok (foldl (\<lambda>l c. upsert l (leased_entry (nc_fingerprint c) now tok)) l cs)"
  by (induction cs arbitrary: l) (simp_all add: upsert_ok entry_ok_def)

lemma suppress_ok: "ledger_ok l \<Longrightarrow> ledger_ok (suppress_superseded l cs)"
proof -
  assume ok: "ledger_ok l"
  have "map le_fingerprint (suppress_superseded l cs) = map le_fingerprint l"
    by (simp add: suppress_superseded_map)
  with ok show ?thesis
    by (auto simp: ledger_ok_def) (auto simp: suppress_superseded_map entry_ok_def)
qed

section \<open>Claiming and completing\<close>

definition owner_live :: "PersistentState \<Rightarrow> NotificationKind \<Rightarrow> datetime \<Rightarrow> bool" where
  "owner_live s kind now \<longleftrightarrow>
     (\<exists>e. ledger_entry s (owner_fingerprint kind) = Some e \<and> live_lease e now)"

definition claimable_candidates ::
  "PersistentState \<Rightarrow> NotificationCandidate list \<Rightarrow> datetime \<Rightarrow> NotificationCandidate list" where
  "claimable_candidates s cs now =
     filter (\<lambda>c. claimable (ledger_entry s (nc_fingerprint c)) now) cs"

lemma reserve_batch_idle:
  "owner_live s kind now \<or> claimable_candidates s cs now = [] \<Longrightarrow>
   reserve_batch s kind cs now tok = s"
  by (auto simp: reserve_batch_def owner_live_def claimable_candidates_def Let_def
      split: option.splits)

lemma reserve_batch_select [simp]:
  "ps_watches (reserve_batch s kind cs now tok) = ps_watches s"
  "ps_sources (reserve_batch s kind cs now tok) = ps_sources s"
  by (simp_all add: reserve_batch_def Let_def)

lemma reserve_batch_ledger:
  "\<not> owner_live s kind now \<Longrightarrow> claimable_candidates s cs now \<noteq> [] \<Longrightarrow>
   ps_ledger (reserve_batch s kind cs now tok) =
     upsert (foldl (\<lambda>l c. upsert l (leased_entry (nc_fingerprint c) now tok))
       (suppress_superseded (ps_ledger s) (claimable_candidates s cs now))
       (claimable_candidates s cs now))
     (leased_entry (owner_fingerprint kind) now tok)"
  by (auto simp: reserve_batch_def owner_live_def claimable_candidates_def Let_def
      split: option.splits)

lemma reserve_batch_entry:
  assumes "\<not> owner_live s kind now" and "claimable_candidates s cs now \<noteq> []"
  shows "ledger_entry (reserve_batch s kind cs now tok) f =
    (if f = owner_fingerprint kind \<or> f \<in> nc_fingerprint ` set (claimable_candidates s cs now)
     then Some (leased_entry f now tok)
     else map_option (\<lambda>e. if superseded (claimable_candidates s cs now) e
                         then e\<lparr>le_status := Notif_SUPPRESSED\<rparr> else e) (ledger_entry s f))"
  using assms
  by (simp add: ledger_entry_def reserve_batch_ledger ledger_find_upsert ledger_find_foldl_upsert
      ledger_find_suppress)

lemma reserve_batch_valid:
  assumes "validate_state s = Inr ()" and "tok \<noteq> []"
  shows "validate_state (reserve_batch s kind cs now tok) = Inr ()"
proof (cases "owner_live s kind now \<or> claimable_candidates s cs now = []")
  case True
  with assms show ?thesis by (simp add: reserve_batch_idle)
next
  case False
  with assms have "ledger_ok (ps_ledger (reserve_batch s kind cs now tok))"
    by (simp add: reserve_batch_ledger validate_state_iff upsert_ok foldl_upsert_ok suppress_ok
        entry_ok_def)
  with assms show ?thesis by (simp add: validate_state_iff)
qed

text \<open>A token is fresh when no ledger entry carries it, as that of a new random UUID.\<close>

definition fresh_token :: "PersistentState \<Rightarrow> ustr \<Rightarrow> bool" where
  "fresh_token s tok \<longleftrightarrow> list_all (\<lambda>e. le_lease_token e \<noteq> Some tok) (ps_ledger s)"

lemma fresh_token_entry: "fresh_token s tok \<Longrightarrow> \<not> owned_by (ledger_entry s f) tok"
  by (auto simp: fresh_token_def owned_by_def ledger_entry_def list_all_iff
      dest: ledger_find_SomeD split: option.splits)

lemma owned_by_map_status:
  "owned_by (map_option (\<lambda>e. if P e then e\<lparr>le_status := st\<rparr> else e) x) tok = owned_by x tok"
  by (cases x) (simp_all add: owned_by_def)

lemma reserve_batch_owned:
  assumes "fresh_token s tok" and "\<not> owner_live s kind now"
    and "claimable_candidates s cs now \<noteq> []"
  shows "owned_by (ledger_entry (reserve_batch s kind cs now tok) f) tok \<longleftrightarrow>
    f = owner_fingerprint kind \<or> f \<in> nc_fingerprint ` set (claimable_candidates s cs now)"
  using assms fresh_token_entry [of s tok f]
  by (simp add: reserve_batch_entry owned_by_map_status) (simp add: owned_by_def)

lemma claim_batch_fresh:
  assumes fresh: "fresh_token s tok"
    and no_owner: "owner_fingerprint kind \<notin> nc_fingerprint ` set cs"
  shows "snd (claim_batch s kind cs now tok) =
    (if owner_live s kind now \<or> claimable_candidates s cs now = [] then None
     else Some \<lparr>nb_kind = kind, nb_candidates = claimable_candidates s cs now,
                nb_lease_token = tok\<rparr>)"
proof (cases "owner_live s kind now \<or> claimable_candidates s cs now = []")
  case True
  with fresh show ?thesis
    by (simp add: claim_batch_def Let_def reserve_batch_idle owns_owner_def fresh_token_entry)
next
  case False
  note owned = reserve_batch_owned [OF fresh, of kind now cs]
  have "filter (\<lambda>c. owned_by (ledger_entry (reserve_batch s kind cs now tok) (nc_fingerprint c)) tok) cs =
      claimable_candidates s cs now"
    unfolding claimable_candidates_def
  proof (rule filter_cong)
    fix c
    assume c: "c \<in> set cs"
    with no_owner have "nc_fingerprint c \<noteq> owner_fingerprint kind" by (metis image_eqI)
    with False c owned [of "nc_fingerprint c"]
    show "owned_by (ledger_entry (reserve_batch s kind cs now tok) (nc_fingerprint c)) tok =
        claimable (ledger_entry s (nc_fingerprint c)) now"
      by (auto simp: claimable_candidates_def)
  qed simp
  moreover have "owns_owner (reserve_batch s kind cs now tok) kind tok"
    using False owned by (simp add: owns_owner_def)
  ultimately show ?thesis using False by (simp add: claim_batch_def Let_def)
qed

definition batch_update ::
  "NotificationBatch \<Rightarrow> CommandResult \<Rightarrow> LedgerEntry \<Rightarrow> LedgerEntry" where
  "batch_update batch result e =
     (case dict_of nc_fingerprint (\<lambda>c. delivery_status result (nc_change c)) (nb_candidates batch)
        (le_fingerprint e) of
        None \<Rightarrow> e
      | Some st \<Rightarrow>
          if le_lease_token e = Some (nb_lease_token batch)
          then e\<lparr>le_status := st, le_lease_token := None, le_lease_expires_at := None\<rparr> else e)"

lemma batch_update_key [simp]: "le_fingerprint (batch_update b r e) = le_fingerprint e"
  by (simp add: batch_update_def split: option.split)

lemma complete_batch_foreign:
  "\<not> owns_owner s (nb_kind b) (nb_lease_token b) \<Longrightarrow> complete_batch s b r = (s, [])"
  by (simp add: complete_batch_def complete_batch_state_def)

lemma complete_batch_ledger:
  assumes "owns_owner s (nb_kind b) (nb_lease_token b)"
  shows "ps_ledger (fst (complete_batch s b r)) =
    map (batch_update b r)
      (filter (\<lambda>e. le_fingerprint e \<noteq> owner_fingerprint (nb_kind b)) (ps_ledger s))"
  using assms
  by (auto simp: complete_batch_def complete_batch_state_def Let_def batch_update_def owned_by_def
      intro!: map_cong split: option.splits)

lemma complete_batch_select [simp]:
  "ps_watches (fst (complete_batch s b r)) = ps_watches s"
  "ps_sources (fst (complete_batch s b r)) = ps_sources s"
  by (simp_all add: complete_batch_def complete_batch_state_def Let_def)

lemma complete_batch_valid:
  assumes s: "validate_state s = Inr ()"
  shows "validate_state (fst (complete_batch s b r)) = Inr ()"
proof (cases "owns_owner s (nb_kind b) (nb_lease_token b)")
  case True
  let ?l = "filter (\<lambda>e. le_fingerprint e \<noteq> owner_fingerprint (nb_kind b)) (ps_ledger s)"
  have l: "ledger_ok ?l" using s by (simp add: validate_state_iff ledger_ok_filter)
  have "map le_fingerprint (map (batch_update b r) ?l) = map le_fingerprint ?l" by simp
  moreover have "entry_ok (batch_update b r e)" if "entry_ok e" for e
    using that by (simp add: entry_ok_def batch_update_def split: option.split)
  ultimately have "ledger_ok (map (batch_update b r) ?l)"
    using l by (auto simp: ledger_ok_def simp del: map_map)
  with s True show ?thesis by (simp add: validate_state_iff complete_batch_ledger)
next
  case False
  with s show ?thesis by (simp add: complete_batch_foreign)
qed

lemma complete_batch_entry:
  assumes "validate_state s = Inr ()" and "owns_owner s (nb_kind b) (nb_lease_token b)"
  shows "ledger_entry (fst (complete_batch s b r)) f =
    (if f = owner_fingerprint (nb_kind b) then None
     else map_option (batch_update b r) (ledger_entry s f))"
proof -
  let ?P = "\<lambda>e. le_fingerprint e \<noteq> owner_fingerprint (nb_kind b)"
  have d: "distinct (map le_fingerprint (ps_ledger s))"
    using assms(1) by (simp add: validate_state_iff ledger_ok_def)
  have "ledger_find (map (batch_update b r) (filter ?P (ps_ledger s))) f =
      map_option (batch_update b r) (ledger_find (filter ?P (ps_ledger s)) f)"
    unfolding ledger_find_def by (rule find_map_const) simp
  moreover have "ledger_find (filter ?P (ps_ledger s)) f =
      (if f = owner_fingerprint (nb_kind b) then None else ledger_find (ps_ledger s) f)"
    unfolding ledger_find_def find_filter_key [OF d]
    by (auto dest: find_SomeD split: option.split)
  ultimately show ?thesis using assms(2) by (simp add: ledger_entry_def complete_batch_ledger)
qed

lemma complete_batch_state_completed:
  assumes s: "validate_state s = Inr ()" and own: "owns_owner s (nb_kind b) (nb_lease_token b)"
    and c: "c \<in> set (nb_candidates b)"
  shows "nc_fingerprint c \<in> snd (complete_batch_state s b r) \<longleftrightarrow>
    owned_by (ledger_entry s (nc_fingerprint c)) (nb_lease_token b)"
proof -
  let ?u = "dict_of nc_fingerprint (\<lambda>c. delivery_status r (nc_change c)) (nb_candidates b)"
  have d: "distinct (map le_fingerprint (ps_ledger s))"
    using s by (simp add: validate_state_iff ledger_ok_def)
  have u: "?u (nc_fingerprint c) \<noteq> None" using c by (auto simp: dict_of_None_iff)
  have "snd (complete_batch_state s b r) =
      le_fingerprint ` {e \<in> set (ps_ledger s). ?u (le_fingerprint e) \<noteq> None \<and>
        le_lease_token e = Some (nb_lease_token b)}"
    using own by (simp add: complete_batch_state_def Let_def owned_by_def)
  moreover have "owned_by (ledger_entry s (nc_fingerprint c)) (nb_lease_token b) \<longleftrightarrow>
      (\<exists>e \<in> set (ps_ledger s). le_fingerprint e = nc_fingerprint c \<and>
        le_lease_token e = Some (nb_lease_token b))"
  proof (cases "ledger_entry s (nc_fingerprint c)")
    case None
    then have "nc_fingerprint c \<notin> le_fingerprint ` set (ps_ledger s)"
      by (simp add: ledger_entry_def ledger_find_None)
    with None show ?thesis by (auto simp: owned_by_def image_iff)
  next
    case (Some e)
    then have e: "e \<in> set (ps_ledger s)" "le_fingerprint e = nc_fingerprint c"
      by (auto simp: ledger_entry_def dest: ledger_find_SomeD)
    from d have uniq: "x = e" if "x \<in> set (ps_ledger s)" "le_fingerprint x = nc_fingerprint c" for x
      using that e by (simp add: distinct_map inj_on_def)
    from Some have "owned_by (ledger_entry s (nc_fingerprint c)) (nb_lease_token b) \<longleftrightarrow>
        le_lease_token e = Some (nb_lease_token b)" by (simp add: owned_by_def)
    with e uniq show ?thesis by metis
  qed
  ultimately show ?thesis using u by (auto simp: image_iff)
qed

lemma complete_batch_outcomes:
  assumes s: "validate_state s = Inr ()" and own: "owns_owner s (nb_kind b) (nb_lease_token b)"
  shows "snd (complete_batch s b r) =
    map (\<lambda>c. \<lparr>no_fingerprint = nc_fingerprint c, no_status = delivery_status r (nc_change c)\<rparr>)
      (filter (\<lambda>c. owned_by (ledger_entry s (nc_fingerprint c)) (nb_lease_token b))
        (nb_candidates b))"
  using complete_batch_state_completed [OF s own, of _ r]
  by (auto simp: complete_batch_def split_beta intro!: arg_cong [where f = "map _"] filter_cong)

lemma claim_batch_fst [simp]: "fst (claim_batch s kind cs now tok) = reserve_batch s kind cs now tok"
  by (simp add: claim_batch_def Let_def)

section \<open>Interleaved ledger operations\<close>

text \<open>
  What the processes that share the state file do to the ledger, one locked update at a time:
  claims and completions of dispatchers, watch events, and the pruning of every write.
\<close>

datatype ledger_action =
    Act_Claim NotificationKind "NotificationCandidate list" datetime ustr
  | Act_Complete NotificationBatch CommandResult
  | Act_Watch WatchEvent
  | Act_Prune datetime

fun ledger_act :: "PersistentState \<Rightarrow> ledger_action \<Rightarrow> PersistentState \<times> NotificationOutcome list" where
  "ledger_act s (Act_Claim kind cs now tok) = (reserve_batch s kind cs now tok, [])"
| "ledger_act s (Act_Complete b r) = complete_batch s b r"
| "ledger_act s (Act_Watch e) = (case transition s e of Inr s' \<Rightarrow> (s', []) | Inl _ \<Rightarrow> (s, []))"
| "ledger_act s (Act_Prune now) = (prune_ledger s now, [])"

fun ledger_run :: "PersistentState \<Rightarrow> ledger_action list \<Rightarrow> PersistentState \<times> NotificationOutcome list" where
  "ledger_run s [] = (s, [])"
| "ledger_run s (a # acts) =
     (let (s', outs) = ledger_act s a; (s'', outs') = ledger_run s' acts in (s'', outs @ outs'))"

fun action_ok :: "ledger_action \<Rightarrow> bool" where
  "action_ok (Act_Claim kind cs now tok) \<longleftrightarrow> tok \<noteq> []"
| "action_ok _ \<longleftrightarrow> True"

text \<open>Pruning has not (yet) dropped the entry of a fingerprint anywhere in the run.\<close>

fun retained :: "ustr \<Rightarrow> PersistentState \<Rightarrow> ledger_action list \<Rightarrow> bool" where
  "retained f s [] \<longleftrightarrow> True"
| "retained f s (a # acts) \<longleftrightarrow>
     (case a of Act_Prune now \<Rightarrow> ledger_entry (prune_ledger s now) f \<noteq> None | _ \<Rightarrow> True) \<and>
     retained f (fst (ledger_act s a)) acts"

lemma ledger_act_valid:
  "validate_state s = Inr () \<Longrightarrow> action_ok a \<Longrightarrow> validate_state (fst (ledger_act s a)) = Inr ()"
  by (cases a) (auto simp: reserve_batch_valid complete_batch_valid prune_ledger_valid
      intro: transition_valid split: sum.splits)

lemma ledger_run_valid:
  "validate_state s = Inr () \<Longrightarrow> list_all action_ok acts \<Longrightarrow>
   validate_state (fst (ledger_run s acts)) = Inr ()"
proof (induction acts arbitrary: s)
  case (Cons a acts)
  then have "validate_state (fst (ledger_act s a)) = Inr ()" by (simp add: ledger_act_valid)
  with Cons show ?case by (simp add: split_beta)
qed simp

text \<open>A settled entry: neither pending nor leased.\<close>

definition settled :: "PersistentState \<Rightarrow> ustr \<Rightarrow> LedgerEntry \<Rightarrow> bool" where
  "settled s f e \<longleftrightarrow> ledger_entry s f = Some e \<and> le_status e \<noteq> Notif_PENDING \<and>
     le_lease_token e = None \<and> f \<notin> range owner_fingerprint"

lemma ledger_entry_in:
  assumes "validate_state s = Inr ()"
  shows "ledger_entry s f = Some e \<longleftrightarrow> e \<in> set (ps_ledger s) \<and> le_fingerprint e = f"
proof
  assume "ledger_entry s f = Some e"
  then show "e \<in> set (ps_ledger s) \<and> le_fingerprint e = f"
    unfolding ledger_entry_def by (rule ledger_find_SomeD)
next
  assume "e \<in> set (ps_ledger s) \<and> le_fingerprint e = f"
  moreover have "distinct (map le_fingerprint (ps_ledger s))"
    using assms by (simp add: validate_state_iff ledger_ok_def)
  ultimately show "ledger_entry s f = Some e"
    unfolding ledger_entry_def ledger_find_def by (auto intro: find_distinct)
qed

lemma settled_reserve:
  assumes "settled s f e"
  shows "settled (reserve_batch s kind cs now tok) f e"
proof (cases "owner_live s kind now \<or> claimable_candidates s cs now = []")
  case True
  with assms show ?thesis by (simp add: reserve_batch_idle)
next
  case False
  from assms have "f \<notin> nc_fingerprint ` set (claimable_candidates s cs now)"
    by (auto simp: settled_def claimable_candidates_def claimable_def)
  moreover have "\<not> superseded (claimable_candidates s cs now) e"
    using assms by (auto simp: settled_def superseded_def is_active_iff)
  ultimately show ?thesis
    using assms False by (auto simp: settled_def reserve_batch_entry)
qed

lemma settled_complete:
  assumes "settled s f e" and "validate_state s = Inr ()"
  shows "settled (fst (complete_batch s b r)) f e \<and> f \<notin> no_fingerprint ` set (snd (complete_batch s b r))"
proof (cases "owns_owner s (nb_kind b) (nb_lease_token b)")
  case True
  have "batch_update b r e = e"
    using assms(1) by (auto simp: settled_def batch_update_def split: option.split)
  with True assms show ?thesis
    by (auto simp: settled_def complete_batch_entry complete_batch_outcomes owned_by_def
        split: option.splits)
next
  case False
  with assms show ?thesis by (simp add: complete_batch_foreign)
qed

lemma settled_watch:
  assumes "settled s f e" and "validate_state s = Inr ()" and "transition s ev = Inr s'"
  shows "settled s' f e"
proof -
  have valid: "validate_state s' = Inr ()" using assms(2,3) by (rule transition_valid)
  have "e \<in> set (ps_ledger s)" "\<not> is_active e"
    using assms(1,2) by (auto simp: settled_def ledger_entry_in is_active_iff)
  then have "e \<in> set (ps_ledger s')"
    using assms(2,3)
    by (cases ev) (auto simp: transition_def fresh_scan_observed star_click_def click_existing_watch_def
        without_active_references_def Let_def split: option.splits if_splits WatchMode.splits)
  with assms(1) valid assms(2) show ?thesis by (auto simp: settled_def ledger_entry_in)
qed

lemma settled_prune:
  assumes "settled s f e" and "validate_state s = Inr ()"
    and "ledger_entry (prune_ledger s now) f \<noteq> None"
  shows "settled (prune_ledger s now) f e"
proof -
  obtain e' where e': "ledger_entry (prune_ledger s now) f = Some e'" using assms(3) by auto
  have "e' \<in> set (ps_ledger s)" "le_fingerprint e' = f"
    using e' prune_ledger_subset [of s now] prune_ledger_valid [OF assms(2)]
    by (auto simp: ledger_entry_in)
  then have "ledger_entry s f = Some e'" using assms(2) by (simp add: ledger_entry_in)
  with assms(1) e' show ?thesis by (auto simp: settled_def)
qed

lemma settled_run:
  assumes "settled s f e" and "validate_state s = Inr ()" and "list_all action_ok acts"
    and "retained f s acts"
  shows "settled (fst (ledger_run s acts)) f e \<and>
    f \<notin> no_fingerprint ` set (snd (ledger_run s acts))"
  using assms
proof (induction acts arbitrary: s)
  case (Cons a acts)
  have valid: "validate_state (fst (ledger_act s a)) = Inr ()"
    using Cons.prems by (simp add: ledger_act_valid)
  have "settled (fst (ledger_act s a)) f e \<and> f \<notin> no_fingerprint ` set (snd (ledger_act s a))"
    using Cons.prems settled_complete [of s f e] settled_watch [of s f e] settled_prune [of s f e]
    by (cases a) (auto simp: settled_reserve split: sum.splits)
  with Cons valid show ?case by (auto simp: split_beta)
qed simp

lemma claim_batch_SomeD:
  assumes "fresh_token s tok" and "owner_fingerprint kind \<notin> nc_fingerprint ` set cs"
    and "claim_batch s kind cs now tok = (s1, Some b)"
  shows "\<not> owner_live s kind now" "claimable_candidates s cs now \<noteq> []"
    "b = \<lparr>nb_kind = kind, nb_candidates = claimable_candidates s cs now, nb_lease_token = tok\<rparr>"
    "s1 = reserve_batch s kind cs now tok"
  using claim_batch_fresh [OF assms(1,2), of now] claim_batch_fst [of s kind cs now tok] assms(3)
  by (auto split: if_splits)

lemma claimed_entry:
  assumes "fresh_token s tok" and "owner_fingerprint kind \<notin> nc_fingerprint ` set cs"
    and "claim_batch s kind cs now tok = (s1, Some b)"
  shows "ledger_entry s1 (owner_fingerprint kind) = Some (leased_entry (owner_fingerprint kind) now tok)"
    and "c \<in> set (nb_candidates b) \<Longrightarrow>
      ledger_entry s1 (nc_fingerprint c) = Some (leased_entry (nc_fingerprint c) now tok)"
  using claim_batch_SomeD [OF assms] by (simp_all add: reserve_batch_entry)

lemma live_leased_entry: "live_lease (leased_entry f now tok) t \<longleftrightarrow> t < now + LEASE_DURATION"
  by (simp add: live_lease_def)

lemma fresh_after_reserve:
  assumes "fresh_token s tok" and "tok \<noteq> tok'" and "validate_state s = Inr ()" and "tok' \<noteq> []"
  shows "fresh_token (reserve_batch s kind cs now tok') tok"
proof (cases "owner_live s kind now \<or> claimable_candidates s cs now = []")
  case True
  with assms show ?thesis by (simp add: reserve_batch_idle)
next
  case False
  let ?s1 = "reserve_batch s kind cs now tok'"
  have v: "validate_state ?s1 = Inr ()" using assms by (simp add: reserve_batch_valid)
  have "le_lease_token e \<noteq> Some tok" if "e \<in> set (ps_ledger ?s1)" for e
  proof -
    from that v have e: "ledger_entry ?s1 (le_fingerprint e) = Some e"
      by (simp add: ledger_entry_in)
    have "\<not> owned_by (ledger_entry ?s1 (le_fingerprint e)) tok"
      using False assms(2) fresh_token_entry [OF assms(1), of "le_fingerprint e"]
      by (simp add: reserve_batch_entry owned_by_map_status) (simp add: owned_by_def)
    with e show ?thesis by (simp add: owned_by_def)
  qed
  then show ?thesis by (simp add: fresh_token_def list_all_iff)
qed

section \<open>Properties\<close>

definition sample_candidate :: NotificationCandidate where
  "sample_candidate = \<lparr>nc_fingerprint = lit ''watch-v1:arch:bash:bb'',
     nc_reference = lit ''watch-v1:arch:bash:'', nc_kind = NKind_WATCH,
     nc_change = Change_FIRST, nc_title = lit ''t'', nc_body = lit ''b''\<rparr>"

lemma sample_candidate_owner:
  "owner_fingerprint NKind_WATCH \<notin> nc_fingerprint ` set [sample_candidate]"
  by (simp add: sample_candidate_def owner_fingerprint_def lit_def)

lemma fresh_token_empty: "fresh_token empty_state tok"
  by (simp add: fresh_token_def empty_state_def)

definition sample_claimed :: PersistentState where
  "sample_claimed = reserve_batch empty_state NKind_WATCH [sample_candidate] 0 (lit ''a'')"

definition sample_batch :: NotificationBatch where
  "sample_batch = \<lparr>nb_kind = NKind_WATCH, nb_candidates = [sample_candidate],
     nb_lease_token = lit ''a''\<rparr>"

lemma sample_claimable: "claimable_candidates empty_state [sample_candidate] now = [sample_candidate]"
  by (simp add: claimable_candidates_def claimable_def ledger_entry_def ledger_find_def
      empty_state_def)

lemma sample_claim:
  "claim_batch empty_state NKind_WATCH [sample_candidate] 0 (lit ''a'') =
     (sample_claimed, Some sample_batch)"
proof -
  have "\<not> owner_live empty_state NKind_WATCH 0"
    by (simp add: owner_live_def ledger_entry_def ledger_find_def empty_state_def)
  then show ?thesis
    using claim_batch_fresh [OF fresh_token_empty sample_candidate_owner, of 0 "lit ''a''"]
    by (simp add: prod_eq_iff sample_claimable sample_batch_def sample_claimed_def)
qed

lemma sample_claimed_valid: "validate_state sample_claimed = Inr ()"
  by (simp add: sample_claimed_def reserve_batch_valid)

text \<open>
  Whatever dispatchers, watch clicks, scans and prunings do to the ledger, one locked update
  after the other, the state stays valid: fingerprints stay unique and every lease stays complete.
\<close>

theorem ledger_runs_valid:
  assumes "validate_state s = Inr ()" and "list_all action_ok acts"
  shows "validate_state (fst (ledger_run s acts)) = Inr ()"
  using assms by (rule ledger_run_valid)

theorem ledger_runs_valid_witness:
  "validate_state (fst (ledger_run sample_state
     [Act_Claim NKind_WATCH [sample_candidate] 0 (lit ''a''), Act_Prune 5,
      Act_Complete sample_batch (CommandMissing []), Act_Watch (StaleSourceScan Item_ARCH)])) = Inr ()"
  by (rule ledger_runs_valid [OF sample_state_valid]) simp

text \<open>
  C8: A claim with a fresh token takes nothing while another dispatcher's owner lease is live or
  nothing is claimable, and leaves the state untouched; otherwise the batch holds exactly the
  candidates that are new, or pending without a live lease, in their order, and the owner entry
  and the entry of each of them are pending under the token for thirty seconds from now. Entries
  of other fingerprints are left alone, except that a pending entry under the reference of a
  claimed candidate becomes suppressed.
\<close>

theorem claim_contract:
  assumes fresh: "fresh_token s tok" and owner: "owner_fingerprint kind \<notin> nc_fingerprint ` set cs"
  shows "case claim_batch s kind cs now tok of
      (s1, None) \<Rightarrow> s1 = s \<and> (owner_live s kind now \<or>
        list_all (\<lambda>c. \<not> claimable (ledger_entry s (nc_fingerprint c)) now) cs)
    | (s1, Some b) \<Rightarrow>
        \<not> owner_live s kind now \<and> nb_kind b = kind \<and> nb_lease_token b = tok \<and>
        nb_candidates b \<noteq> [] \<and>
        nb_candidates b = filter (\<lambda>c. claimable (ledger_entry s (nc_fingerprint c)) now) cs \<and>
        (\<forall>f. ledger_entry s1 f =
          (if f = owner_fingerprint kind \<or> f \<in> nc_fingerprint ` set (nb_candidates b)
           then Some \<lparr>le_fingerprint = f, le_status = Notif_PENDING, le_recorded_at = now,
                      le_lease_token = Some tok, le_lease_expires_at = Some (now + seconds 30)\<rparr>
           else map_option (\<lambda>e. if superseded (nb_candidates b) e
                               then e\<lparr>le_status := Notif_SUPPRESSED\<rparr> else e)
                  (ledger_entry s f)))"
proof (cases "snd (claim_batch s kind cs now tok)")
  case None
  then have "owner_live s kind now \<or> claimable_candidates s cs now = []"
    using claim_batch_fresh [OF fresh owner, of now] by (auto split: if_splits)
  with None show ?thesis
    by (auto simp: split_beta reserve_batch_idle claimable_candidates_def filter_empty_conv
        list_all_iff)
next
  case (Some b)
  then have "claim_batch s kind cs now tok = (reserve_batch s kind cs now tok, Some b)"
    by (simp add: prod_eq_iff)
  note b = claim_batch_SomeD [OF fresh owner this]
  show ?thesis
    using Some b(1,2)
    by (simp add: split_beta b(3) reserve_batch_entry leased_entry_def LEASE_DURATION_def)
      (simp add: claimable_candidates_def)
qed

theorem claim_contract_witness:
  "nb_candidates sample_batch =
     filter (\<lambda>c. claimable (ledger_entry empty_state (nc_fingerprint c)) 0) [sample_candidate]"
  using claim_contract [OF fresh_token_empty sample_candidate_owner, of 0 "lit ''a''"]
  by (simp add: sample_claim)

text \<open>
  C9: Completion by the process that still holds the owner entry records the result on exactly
  the entries of its batch that it holds (delivered on success, pending and unleased again on a
  failure, failed when the runner rejected the arguments), frees the owner entry, reports one
  outcome per candidate it recorded and changes nothing else. A process whose owner entry was
  taken over changes nothing and reports nothing.
\<close>

theorem complete_contract:
  assumes s: "validate_state s = Inr ()"
  shows "case complete_batch s b r of (s1, outs) \<Rightarrow>
    ps_watches s1 = ps_watches s \<and> ps_sources s1 = ps_sources s \<and>
    (if owns_owner s (nb_kind b) (nb_lease_token b)
     then
       outs = map (\<lambda>c. \<lparr>no_fingerprint = nc_fingerprint c, no_status = delivery_status r (nc_change c)\<rparr>)
         (filter (\<lambda>c. owned_by (ledger_entry s (nc_fingerprint c)) (nb_lease_token b))
           (nb_candidates b)) \<and>
       (\<forall>f. ledger_entry s1 f =
         (if f = owner_fingerprint (nb_kind b) then None
          else map_option (batch_update b r) (ledger_entry s f)))
     else s1 = s \<and> outs = [])"
proof (cases "owns_owner s (nb_kind b) (nb_lease_token b)")
  case True
  with s show ?thesis
    using complete_batch_outcomes [OF s True, of r] complete_batch_entry [OF s True, of r]
      complete_batch_select [of s b r]
    by (simp add: split_beta del: complete_batch_select)
next
  case False
  then show ?thesis by (simp add: complete_batch_foreign)
qed

theorem complete_contract_witness:
  "snd (complete_batch sample_claimed sample_batch (CommandSucceeded [] [])) =
     [\<lparr>no_fingerprint = nc_fingerprint sample_candidate, no_status = Notif_DELIVERED\<rparr>]"
proof -
  note e = claimed_entry [OF fresh_token_empty sample_candidate_owner sample_claim]
  have "owns_owner sample_claimed NKind_WATCH (lit ''a'')"
      "owned_by (ledger_entry sample_claimed (nc_fingerprint sample_candidate)) (lit ''a'')"
    using e(1) e(2) [of sample_candidate]
    by (simp_all add: owns_owner_def owned_by_def sample_batch_def)
  then show ?thesis
    using complete_contract [OF sample_claimed_valid, of sample_batch "CommandSucceeded [] []"]
    by (simp add: split_beta sample_batch_def delivery_status_def)
qed

text \<open>
  C6: Leases exclude each other. After a claim, no other token can claim a batch of the same kind
  before the thirty seconds are over, and the state is not touched; once they are over, another
  dispatcher that has something to claim takes over, and then the first one can no longer
  complete its batch.
\<close>

theorem lease_exclusion:
  assumes s: "validate_state s = Inr ()" and a: "fresh_token s a" "a \<noteq> []"
    and b: "fresh_token s b" "b \<noteq> []" "a \<noteq> b"
    and o: "owner_fingerprint kind \<notin> nc_fingerprint ` set cs"
      "owner_fingerprint kind \<notin> nc_fingerprint ` set cs'"
    and claim: "claim_batch s kind cs now a = (s1, Some ba)"
  shows "(now' < now + seconds 30 \<longrightarrow> claim_batch s1 kind cs' now' b = (s1, None)) \<and>
    (now + seconds 30 \<le> now' \<longrightarrow> claimable_candidates s1 cs' now' \<noteq> [] \<longrightarrow>
      (\<exists>s2 bb. claim_batch s1 kind cs' now' b = (s2, Some bb) \<and>
        (\<forall>r. complete_batch s2 ba r = (s2, []))))"
proof -
  note ba = claim_batch_SomeD [OF a(1) o(1) claim]
  have owner: "ledger_entry s1 (owner_fingerprint kind) =
      Some (leased_entry (owner_fingerprint kind) now a)"
    by (rule claimed_entry(1) [OF a(1) o(1) claim])
  then have live: "owner_live s1 kind now' \<longleftrightarrow> now' < now + seconds 30"
    by (simp add: owner_live_def live_leased_entry LEASE_DURATION_def)
  have fresh: "fresh_token s1 b" using fresh_after_reserve [OF b(1), of a kind cs now] b s a ba(4) by simp
  note claim_b = claim_batch_fresh [OF fresh o(2), of now']
  have early: "claim_batch s1 kind cs' now' b = (s1, None)" if "now' < now + seconds 30"
    using that live claim_b by (simp add: prod_eq_iff reserve_batch_idle)
  have late: "\<exists>s2 bb. claim_batch s1 kind cs' now' b = (s2, Some bb) \<and>
      (\<forall>r. complete_batch s2 ba r = (s2, []))"
    if "now + seconds 30 \<le> now'" "claimable_candidates s1 cs' now' \<noteq> []"
  proof -
    let ?s2 = "reserve_batch s1 kind cs' now' b"
    have "\<not> owns_owner ?s2 kind a"
      using that live b(3) by (simp add: owns_owner_def owned_by_def reserve_batch_entry)
    then have "complete_batch ?s2 ba r = (?s2, [])" for r
      using ba(3) by (simp add: complete_batch_foreign)
    with that live claim_b show ?thesis
      by (intro exI [of _ ?s2]) (auto simp: prod_eq_iff)
  qed
  from early late show ?thesis by blast
qed

theorem lease_exclusion_witness:
  "claim_batch sample_claimed NKind_WATCH [sample_candidate] (seconds 29) (lit ''b'') =
     (sample_claimed, None)"
  using lease_exclusion [of empty_state "lit ''a''" "lit ''b''", OF empty_state_valid fresh_token_empty
      _ fresh_token_empty _ _ sample_candidate_owner sample_candidate_owner sample_claim,
      of "seconds 29"]
  by (simp add: seconds_def)

text \<open>
  C7: No notification is lost. When the process that claimed a batch dies, a claim thirty seconds
  later takes every candidate of the batch again; when its delivery fails (the command is missing,
  exits with an error, times out or writes too much), the very next claim does.
\<close>

theorem unfinished_batch_reclaimed:
  assumes s: "validate_state s = Inr ()" and a: "fresh_token s a" "a \<noteq> []"
    and b: "fresh_token s b" "b \<noteq> []" "a \<noteq> b"
    and o: "owner_fingerprint kind \<notin> nc_fingerprint ` set cs"
    and claim: "claim_batch s kind cs now a = (s1, Some ba)"
  shows "(now + seconds 30 \<le> now' \<longrightarrow>
      (\<exists>bb. snd (claim_batch s1 kind cs now' b) = Some bb \<and>
        set (nb_candidates ba) \<subseteq> set (nb_candidates bb))) \<and>
    ((\<forall>x y. r \<noteq> CommandSucceeded x y) \<longrightarrow> (\<forall>d. r \<noteq> CommandRejected d) \<longrightarrow>
      (\<exists>bb. snd (claim_batch (fst (complete_batch s1 ba r)) kind cs now' b) = Some bb \<and>
        set (nb_candidates ba) \<subseteq> set (nb_candidates bb)))"
proof -
  note ba = claim_batch_SomeD [OF a(1) o claim]
  note entry = claimed_entry [OF a(1) o claim]
  have sub: "set (nb_candidates ba) \<subseteq> set cs" using ba(3) by (auto simp: claimable_candidates_def)
  have ne: "nb_candidates ba \<noteq> []" using ba by simp
  have v1: "validate_state s1 = Inr ()" using s a(2) ba(4) by (simp add: reserve_batch_valid)
  have fresh1: "fresh_token s1 b" using fresh_after_reserve [OF b(1), of a kind cs now] b s a ba(4) by simp
  have reclaim: "\<exists>bb. snd (claim_batch t kind cs now' b) = Some bb \<and>
      set (nb_candidates ba) \<subseteq> set (nb_candidates bb)"
    if "fresh_token t b" "\<not> owner_live t kind now'"
      "\<And>c. c \<in> set (nb_candidates ba) \<Longrightarrow> claimable (ledger_entry t (nc_fingerprint c)) now'" for t
  proof -
    have "set (nb_candidates ba) \<subseteq> set (claimable_candidates t cs now')"
      using that(3) sub by (auto simp: claimable_candidates_def)
    with that(1,2) ne o show ?thesis by (auto simp: claim_batch_fresh)
  qed
  have expired: "\<exists>bb. snd (claim_batch s1 kind cs now' b) = Some bb \<and>
      set (nb_candidates ba) \<subseteq> set (nb_candidates bb)" if "now + seconds 30 \<le> now'"
    using that entry
    by (intro reclaim fresh1)
      (auto simp: owner_live_def live_leased_entry LEASE_DURATION_def claimable_def)
  have kind: "nb_kind ba = kind" using ba(3) by simp
  let ?t = "fst (complete_batch s1 ba r)"
  have own: "owns_owner s1 (nb_kind ba) (nb_lease_token ba)"
    using entry(1) ba(3) by (simp add: owns_owner_def owned_by_def)
  have failed: "\<exists>bb. snd (claim_batch ?t kind cs now' b) = Some bb \<and>
      set (nb_candidates ba) \<subseteq> set (nb_candidates bb)"
    if r: "\<forall>x y. r \<noteq> CommandSucceeded x y" "\<forall>d. r \<noteq> CommandRejected d"
  proof (rule reclaim)
    have "le_lease_token (batch_update ba r e) \<noteq> Some b" if "le_lease_token e \<noteq> Some b" for e
      using that by (simp add: batch_update_def split: option.split)
    then show "fresh_token ?t b"
      using fresh1 own by (auto simp: fresh_token_def list_all_iff complete_batch_ledger)
    show "\<not> owner_live ?t kind now'"
      by (simp add: owner_live_def complete_batch_entry [OF v1 own] kind)
    have status: "delivery_status r ch = Notif_PENDING" for ch
      using r by (cases r) (simp_all add: delivery_status_def)
    show "claimable (ledger_entry ?t (nc_fingerprint c)) now'" if "c \<in> set (nb_candidates ba)" for c
      using entry(2) [OF that] status
      by (auto simp: complete_batch_entry [OF v1 own] claimable_def batch_update_def live_lease_def
          dest!: dict_of_SomeD split: option.split)
        (use that ba(3) in \<open>auto simp: dict_of_None_iff\<close>)
  qed
  from expired failed show ?thesis by blast
qed

theorem unfinished_batch_reclaimed_witness:
  "\<exists>bb. snd (claim_batch (fst (complete_batch sample_claimed sample_batch (CommandMissing [])))
      NKind_WATCH [sample_candidate] 1 (lit ''b'')) = Some bb \<and>
    set (nb_candidates sample_batch) \<subseteq> set (nb_candidates bb)"
  using unfinished_batch_reclaimed [of empty_state "lit ''a''" "lit ''b''", OF empty_state_valid
      fresh_token_empty _ fresh_token_empty _ _ sample_candidate_owner sample_claim,
      of 1 "CommandMissing []"]
  by simp

text \<open>
  C5: A settled notification (delivered, or failed for good, with no lease) is never sent again
  as long as pruning keeps its entry: over any interleaving of claims, completions, watch events
  and prunings its entry does not change and no completion reports an outcome for it.
\<close>

theorem settled_never_again:
  assumes "validate_state s = Inr ()" and "list_all action_ok acts" and "retained f s acts"
    and "ledger_entry s f = Some e" and "le_status e \<noteq> Notif_PENDING" and "le_lease_token e = None"
    and "f \<notin> range owner_fingerprint"
  shows "ledger_entry (fst (ledger_run s acts)) f = Some e \<and>
    f \<notin> no_fingerprint ` set (snd (ledger_run s acts))"
  using settled_run [of s f e acts] assms by (simp add: settled_def)

definition sample_delivered :: PersistentState where
  "sample_delivered = empty_state\<lparr>ps_ledger := [\<lparr>le_fingerprint = nc_fingerprint sample_candidate,
     le_status = Notif_DELIVERED, le_recorded_at = 0, le_lease_token = None,
     le_lease_expires_at = None\<rparr>]\<rparr>"

theorem settled_never_again_witness:
  "nc_fingerprint sample_candidate \<notin> no_fingerprint ` set (snd (ledger_run sample_delivered
     [Act_Claim NKind_WATCH [sample_candidate] 5 (lit ''a''),
      Act_Complete sample_batch (CommandSucceeded [] [])]))"
proof -
  have "validate_state sample_delivered = Inr ()"
    by (simp add: sample_delivered_def validate_state_iff ledger_ok_def watches_ok_def sources_ok_def
        entry_ok_def empty_state_def)
  moreover have "nc_fingerprint sample_candidate \<notin> range owner_fingerprint"
    by (auto simp: sample_candidate_def owner_fingerprint_def lit_def)
  ultimately show ?thesis
    using settled_never_again [of sample_delivered
        "[Act_Claim NKind_WATCH [sample_candidate] 5 (lit ''a''),
          Act_Complete sample_batch (CommandSucceeded [] [])]" "nc_fingerprint sample_candidate"
        "\<lparr>le_fingerprint = nc_fingerprint sample_candidate, le_status = Notif_DELIVERED,
          le_recorded_at = 0, le_lease_token = None, le_lease_expires_at = None\<rparr>"]
    by (simp add: sample_delivered_def ledger_entry_def ledger_find_def)
qed

end
