(* ===== verification/Scan_Facts.thy ===== *)
theory Scan_Facts
  imports Scan_Generation
begin

text \<open>
  Correctness of the scan pipeline: the sources of a generation always pass validation, evidence of
  a failing source is kept as last-good, the snapshot of a generation validates, retries are
  bounded, and a scan leaves watches and ledger alone.
\<close>

section \<open>Sources\<close>

definition input_for :: "SourceOutcome option \<Rightarrow> SourceName \<times> SourceScope option \<Rightarrow> bool" where
  "input_for current identity =
     (case current of None \<Rightarrow> True | Some oc \<Rightarrow> outcome_for (fst identity) (snd identity) oc)"

definition inputs_ok :: "ScanInputs \<Rightarrow> bool" where
  "inputs_ok i \<longleftrightarrow> list_all2 input_for (outcomes_of i) identities"

definition snapshot_sources_ok :: "SnapshotResponse \<Rightarrow> bool" where
  "snapshot_sources_ok r \<longleftrightarrow> validate_sources (sp_sources (sr_payload r)) = Inr ()"

definition previous_sources_ok :: "GenerationBundle option \<Rightarrow> bool" where
  "previous_sources_ok previous =
     (case previous of None \<Rightarrow> True
      | Some p \<Rightarrow> snapshot_sources_ok (gb_snapshot p) \<and> snapshot_sources_ok (gb_last_good p))"

definition cause_ok :: "ErrorInfo option \<Rightarrow> bool" where
  "cause_ok c \<longleftrightarrow> (\<forall>e. c = Some e \<longrightarrow> error_ok e)"

definition health_for :: "SourceName \<Rightarrow> SourceScope option \<Rightarrow> Health \<Rightarrow> bool" where
  "health_for source scope h =
     (case scope of
        None \<Rightarrow> \<exists>x. h = HSource x \<and> sh_source x = source \<and>
          (source \<noteq> Src_FLATPAK \<longrightarrow> sh_scopes x = []) \<and> cause_ok (sh_cause x)
      | Some s \<Rightarrow> \<exists>x. h = HScope x \<and> sc_scope x = s \<and> cause_ok (sc_cause x))"

definition resolved_for :: "ResolvedOutcome \<Rightarrow> SourceName \<times> SourceScope option \<Rightarrow> bool" where
  "resolved_for r identity \<longleftrightarrow>
     so_source (ro_outcome r) = fst identity \<and> so_scope (ro_outcome r) = snd identity \<and>
     health_for (fst identity) (snd identity) (ro_health r)"

lemma validate_sources_iff:
  "validate_sources hs = Inr u \<longleftrightarrow>
     distinct (map sh_source hs) \<and> set (map sh_source hs) = UNIV \<and>
     (\<forall>h \<in> set hs. cause_ok (sh_cause h) \<and> validate_scopes h = Inr ())"
  using source_name_enum.complete by (auto simp: validate_sources_def cause_ok_def)

lemma validate_scopes_iff:
  "validate_scopes h = Inr u \<longleftrightarrow> sh_scopes h = [] \<or>
     (sh_source h = Src_FLATPAK \<and> distinct (map sc_scope (sh_scopes h)) \<and>
      set (map sc_scope (sh_scopes h)) = UNIV \<and> (\<forall>s \<in> set (sh_scopes h). cause_ok (sc_cause s)))"
  using scope_enum.complete by (auto simp: validate_scopes_def cause_ok_def)

lemma validate_scopes_causes:
  assumes "validate_scopes h = Inr u"
  shows "\<forall>s \<in> set (sh_scopes h). cause_ok (sc_cause s)"
proof -
  from assms have "sh_scopes h = [] \<or> (\<forall>s \<in> set (sh_scopes h). cause_ok (sc_cause s))"
    unfolding validate_scopes_iff by blast
  then show ?thesis by auto
qed

lemma make_health_for:
  "cause_ok c \<Longrightarrow> health_for source scope (make_health source scope st p a b c)"
  by (simp add: health_for_def make_health_def split: option.split)

lemma previous_health_for:
  assumes "snapshot_sources_ok snap"
  shows "\<exists>h. previous_health snap source scope now = Inr h \<and> health_for source scope h"
proof -
  let ?hs = "sp_sources (sr_payload snap)"
  have ok: "distinct (map sh_source ?hs)" "set (map sh_source ?hs) = UNIV"
      "\<And>h. h \<in> set ?hs \<Longrightarrow> cause_ok (sh_cause h) \<and> validate_scopes h = Inr ()"
    using assms by (auto simp: snapshot_sources_ok_def validate_sources_iff)
  from ok(2) have "source \<in> sh_source ` set ?hs" by auto
  then obtain h where f: "find (\<lambda>h. sh_source h = source) ?hs = Some h"
    using find_key_None [of sh_source source ?hs] by (cases "find (\<lambda>h. sh_source h = source) ?hs") auto
  then have h: "h \<in> set ?hs" "sh_source h = source" by (auto dest: find_SomeD)
  with ok(3) have c: "cause_ok (sh_cause h)" "validate_scopes h = Inr ()" by auto
  show ?thesis
  proof (cases scope)
    case None
    with f h c show ?thesis by (auto simp: previous_health_def health_for_def validate_scopes_iff)
  next
    case (Some s)
    define d where "d = \<lparr>sc_scope = s, sc_status = Status_ERROR, sc_provenance = Prov_LIVE,
      sc_observed_at = now, sc_fresh_until = now, sc_cause = Some \<lparr>ei_code = SOURCE_UNAVAILABLE,
        ei_message = lit ''source scope has no cached evidence''\<rparr>\<rparr>"
    define v where "v = (case find (\<lambda>v. sc_scope v = s) (sh_scopes h) of Some v \<Rightarrow> v | None \<Rightarrow> d)"
    have "sc_scope v = s \<and> cause_ok (sc_cause v)"
    proof (cases "find (\<lambda>v. sc_scope v = s) (sh_scopes h)")
      case None
      then show ?thesis by (simp add: v_def d_def cause_ok_def error_ok_def)
    next
      case (Some w)
      then show ?thesis
        using find_SomeD [OF Some] validate_scopes_causes [OF c(2)] by (simp add: v_def)
    qed
    moreover have "previous_health snap source scope now = Inr (HScope v)"
      using f \<open>scope = Some s\<close> unfolding v_def d_def by (simp add: previous_health_def)
    ultimately show ?thesis using \<open>scope = Some s\<close> by (simp add: health_for_def)
  qed
qed

lemma outcome_for_cause: "outcome_for source scope oc \<Longrightarrow> cause_ok (so_cause oc)"
  by (simp add: outcome_for_def cause_ok_def)

lemma cached_outcome_resolved:
  assumes "previous_sources_ok previous"
  shows "\<exists>r. cached_outcome source scope previous now = Inr r \<and> resolved_for r (source, scope)"
proof (cases previous)
  case None
  have "cause_ok (Some \<lparr>ei_code = SOURCE_UNAVAILABLE, ei_message = lit ''source has no cached evidence''\<rparr>)"
    by (simp add: cause_ok_def error_ok_def)
  then show ?thesis
    using None by (auto simp: cached_outcome_def Let_def resolved_for_def failed_health_def make_health_for)
next
  case (Some prev)
  with assms previous_health_for [of "gb_snapshot prev" source scope now] show ?thesis
    by (auto simp: cached_outcome_def Let_def resolved_for_def previous_sources_ok_def)
qed

lemma resolve_resolved:
  assumes p: "previous_sources_ok previous" and i: "input_for current (source, scope)"
  shows "\<exists>r. resolve current source scope previous now = Inr r \<and> resolved_for r (source, scope)"
proof (cases current)
  case None
  with cached_outcome_resolved [OF p, of source scope now] show ?thesis by (simp add: resolve_def)
next
  case (Some oc)
  with i have oc: "so_source oc = source" "so_scope oc = scope" "cause_ok (so_cause oc)"
    by (auto simp: input_for_def outcome_for_def cause_ok_def)
  have healths: "health_for source scope (fresh_health oc now)"
      "health_for source scope (failed_health oc now)" "health_for source scope (stale_health oc h)" for h
    using oc make_health_for [of None] make_health_for [of "so_cause oc"]
    by (auto simp: fresh_health_def failed_health_def stale_health_def cause_ok_def)
  show ?thesis
  proof (cases "successful oc")
    case True
    with Some oc healths show ?thesis by (auto simp: resolve_def resolved_for_def)
  next
    case False
    show ?thesis
    proof (cases previous)
      case None
      with Some False oc healths show ?thesis by (auto simp: resolve_def resolved_for_def)
    next
      case (Some prev)
      then obtain h where "previous_health (gb_last_good prev) source scope now = Inr h"
        using p previous_health_for [of "gb_last_good prev" source scope now]
        by (auto simp: previous_sources_ok_def)
      with Some \<open>current = Some oc\<close> False oc healths show ?thesis
        by (auto simp: resolve_def resolved_for_def)
    qed
  qed
qed

lemma mapE_exists:
  "(\<And>x y. (x, y) \<in> set (zip xs ys) \<Longrightarrow> \<exists>z. f (x, y) = Inr z \<and> P z y) \<Longrightarrow> length xs = length ys \<Longrightarrow>
   \<exists>zs. mapE f (zip xs ys) = Inr zs \<and> list_all2 P zs ys"
proof (induction xs ys rule: list_induct2')
  case (4 x xs y ys)
  then obtain z zs where "f (x, y) = Inr z" "P z y" "mapE f (zip xs ys) = Inr zs" "list_all2 P zs ys"
    by fastforce
  then show ?case by auto
qed auto

lemma resolve_all_resolved:
  assumes "previous_sources_ok previous" and "inputs_ok i"
  shows "\<exists>rs. resolve_all (outcomes_of i) previous now = Inr rs \<and> list_all2 resolved_for rs identities"
proof -
  have len: "length (outcomes_of i) = length identities"
    using assms(2) by (simp add: inputs_ok_def list_all2_lengthD)
  have "\<exists>rs. mapE (\<lambda>(current, source, scope). resolve current source scope previous now)
      (zip (outcomes_of i) identities) = Inr rs \<and> list_all2 resolved_for rs identities"
  proof (rule mapE_exists)
    fix current and identity :: "SourceName \<times> SourceScope option"
    assume "(current, identity) \<in> set (zip (outcomes_of i) identities)"
    then have "input_for current identity"
      using assms(2) by (auto simp: inputs_ok_def list_all2_iff)
    then show "\<exists>r. (\<lambda>(current, source, scope). resolve current source scope previous now)
        (current, identity) = Inr r \<and> resolved_for r identity"
      using resolve_resolved [OF assms(1), of current "fst identity" "snd identity" now]
      by (simp add: split_beta)
  qed (rule len)
  with len show ?thesis by (auto simp: resolve_all_def)
qed

lemma list_all2_identities:
  assumes "list_all2 P rs identities"
  obtains a b c d e f g h where "rs = [a, b, c, d, e, f, g, h]"
    "P a (Src_OMARCHY, None)" "P b (Src_ARCH, None)" "P c (Src_AUR, None)"
    "P d (Src_FLATPAK, Some Scope_USER)" "P e (Src_FLATPAK, Some Scope_SYSTEM)"
    "P f (Src_MISE, None)" "P g (Src_SECURITY, None)" "P h (Src_CISA_KEV, None)"
  using assms by (auto simp: identities_def list_all2_Cons2)

lemma source_health_for:
  assumes "resolved_for r (source, None)" and "source \<noteq> Src_FLATPAK"
  shows "\<exists>h. source_health r = Inr h \<and> sh_source h = source \<and> sh_scopes h = [] \<and> cause_ok (sh_cause h)"
  using assms by (auto simp: resolved_for_def health_for_def source_health_def)

lemma scope_health_for:
  assumes "resolved_for r (Src_FLATPAK, Some s)"
  shows "\<exists>h. scope_health r = Inr h \<and> sc_scope h = s \<and> cause_ok (sc_cause h)"
proof -
  from assms obtain x where "ro_health r = HScope x" "sc_scope x = s" "cause_ok (sc_cause x)"
    by (auto simp: resolved_for_def health_for_def)
  then show ?thesis by (simp add: scope_health_def cause_ok_def)
qed

lemma flatpak_health_ok:
  assumes "sc_scope u = Scope_USER" "sc_scope y = Scope_SYSTEM"
    and "cause_ok (sc_cause u)" "cause_ok (sc_cause y)"
  shows "sh_source (flatpak_health u y now) = Src_FLATPAK"
    "cause_ok (sh_cause (flatpak_health u y now))"
    "validate_scopes (flatpak_health u y now) = Inr ()"
  using assms scope_enum.complete
  by (auto simp: flatpak_health_def flatpak_cause_def validate_scopes_iff scope_members_def)

lemma no_scopes: "sh_scopes h = [] \<Longrightarrow> validate_scopes h = Inr ()"
  by (simp add: validate_scopes_def)

lemma all_source_names:
  "set [Src_OMARCHY, Src_ARCH, Src_AUR, Src_MISE, Src_SECURITY, Src_CISA_KEV, Src_FLATPAK] = UNIV"
proof -
  have "x \<in> set [Src_OMARCHY, Src_ARCH, Src_AUR, Src_MISE, Src_SECURITY, Src_CISA_KEV, Src_FLATPAK]"
    for x by (cases x) simp_all
  then show ?thesis by blast
qed

lemma source_healths_ok:
  assumes "list_all2 resolved_for rs identities"
  shows "\<exists>hs. source_healths rs now = Inr hs \<and> validate_sources hs = Inr () \<and>
    sorted (map (\<lambda>h. source_name_value (sh_source h)) hs) \<and> length hs = 7"
  using assms
proof (rule list_all2_identities)
  fix a b c d e f g h
  assume rs: "rs = [a, b, c, d, e, f, g, h]"
    and r: "resolved_for a (Src_OMARCHY, None)" "resolved_for b (Src_ARCH, None)"
      "resolved_for c (Src_AUR, None)" "resolved_for d (Src_FLATPAK, Some Scope_USER)"
      "resolved_for e (Src_FLATPAK, Some Scope_SYSTEM)" "resolved_for f (Src_MISE, None)"
      "resolved_for g (Src_SECURITY, None)" "resolved_for h (Src_CISA_KEV, None)"
  have src: "so_source (ro_outcome a) = Src_OMARCHY" "so_source (ro_outcome b) = Src_ARCH"
      "so_source (ro_outcome c) = Src_AUR" "so_source (ro_outcome d) = Src_FLATPAK"
      "so_source (ro_outcome e) = Src_FLATPAK" "so_source (ro_outcome f) = Src_MISE"
      "so_source (ro_outcome g) = Src_SECURITY" "so_source (ro_outcome h) = Src_CISA_KEV"
    using r by (simp_all add: resolved_for_def)
  obtain ha hb hc hf hg hh where hs: "source_health a = Inr ha" "source_health b = Inr hb"
      "source_health c = Inr hc" "source_health f = Inr hf" "source_health g = Inr hg"
      "source_health h = Inr hh"
    and names: "map sh_source [ha, hb, hc, hf, hg, hh] =
      [Src_OMARCHY, Src_ARCH, Src_AUR, Src_MISE, Src_SECURITY, Src_CISA_KEV]"
    and basic: "\<forall>x \<in> set [ha, hb, hc, hf, hg, hh]. sh_scopes x = [] \<and> cause_ok (sh_cause x)"
    using source_health_for [OF r(1)] source_health_for [OF r(2)] source_health_for [OF r(3)]
      source_health_for [OF r(6)] source_health_for [OF r(7)] source_health_for [OF r(8)]
    by auto
  obtain u y where uy: "scope_health d = Inr u" "scope_health e = Inr y"
      "sc_scope u = Scope_USER" "sc_scope y = Scope_SYSTEM"
      "cause_ok (sc_cause u)" "cause_ok (sc_cause y)"
    using scope_health_for [OF r(4)] scope_health_for [OF r(5)] by blast
  let ?l = "[ha, hb, hc, hf, hg, hh, flatpak_health u y now]"
  let ?hs = "sort_key (\<lambda>h. source_name_value (sh_source h)) ?l"
  have eq: "source_healths rs now = Inr ?hs"
    using rs src hs uy(1,2) by (simp add: source_healths_def)
  note fp = flatpak_health_ok [OF uy(3-6), of now]
  have l: "map sh_source ?l =
      [Src_OMARCHY, Src_ARCH, Src_AUR, Src_MISE, Src_SECURITY, Src_CISA_KEV, Src_FLATPAK]"
    using names fp(1) by simp
  have "distinct (map sh_source ?l)" unfolding l by simp
  moreover have "set (map sh_source ?l) = UNIV" unfolding l by (rule all_source_names)
  moreover have "set (map sh_source ?hs) = set (map sh_source ?l)"
    unfolding set_map set_sort by (rule refl)
  moreover have "\<forall>x \<in> set ?hs. cause_ok (sh_cause x) \<and> validate_scopes x = Inr ()"
    unfolding set_sort using basic fp(2,3) by (simp add: no_scopes)
  ultimately have "validate_sources ?hs = Inr ()"
    unfolding validate_sources_iff distinct_map_sort_key by blast
  moreover have "sorted (map (\<lambda>h. source_name_value (sh_source h)) ?hs)" by (rule sorted_sort_key)
  moreover have "length ?hs = 7" by simp
  ultimately show ?thesis using eq by blast
qed

section \<open>Items and findings\<close>

definition base_item_ok :: "NormalizedItem \<Rightarrow> bool" where
  "base_item_ok i \<longleftrightarrow> (ni_watch_armed i \<longrightarrow> ni_watch_mode i = Watch_TEMPORARY) \<and>
     identifier_ok (ni_item_id i) \<and> identifier_ok (ni_label i) \<and>
     prefix (item_source_value (ni_source i) @ lit '':'') (ni_item_id i)"

definition group_ok :: "SecurityFindingGroup \<Rightarrow> bool" where
  "group_ok g \<longleftrightarrow> validate_group g (\<lambda>_. None) = Inr ()"

definition findings_ok :: "SecurityFindingGroup list \<Rightarrow> bool" where
  "findings_ok gs \<longleftrightarrow> distinct (map sg_item_id gs) \<and> (\<forall>g \<in> set gs. group_ok g)"

definition snapshot_ok :: "SnapshotResponse \<Rightarrow> bool" where
  "snapshot_ok r \<longleftrightarrow> validate_response (SnapshotResp r) = Inr () \<and>
     (\<forall>i \<in> set (sp_items (sr_payload r)). base_item_ok i)"

definition previous_ok :: "GenerationBundle option \<Rightarrow> bool" where
  "previous_ok previous =
     (case previous of None \<Rightarrow> True
      | Some p \<Rightarrow> snapshot_ok (gb_snapshot p) \<and> snapshot_ok (gb_last_good p))"

definition evidence_ok :: "SourceOutcome \<Rightarrow> bool" where
  "evidence_ok oc \<longleftrightarrow> (\<forall>i \<in> set (so_items oc). base_item_ok i) \<and> findings_ok (so_findings oc)"

definition inputs_evidence_ok :: "ScanInputs \<Rightarrow> bool" where
  "inputs_evidence_ok i \<longleftrightarrow> (\<forall>oc. Some oc \<in> set (outcomes_of i) \<longrightarrow> evidence_ok oc)"

lemma validate_group_iff:
  "validate_group g d = Inr u \<longleftrightarrow>
     group_ok g \<and> (d (sg_item_id g) = None \<or> d (sg_item_id g) = Some Item_ARCH)"
  by (auto simp: group_ok_def validate_group_def split: option.splits)

lemma group_ok_prefix: "group_ok g \<Longrightarrow> prefix (lit ''arch:'') (sg_item_id g)"
  by (simp add: group_ok_def validate_group_def)

lemma arch_prefix_source:
  assumes "prefix (lit ''arch:'') x" and "prefix (item_source_value s @ lit '':'') x"
  shows "s = Item_ARCH"
proof -
  from assms have "prefix (lit ''arch:'') (item_source_value s @ lit '':'') \<or>
      prefix (item_source_value s @ lit '':'') (lit ''arch:'')"
    by (rule prefix_same_cases)
  then show ?thesis by (cases s) (simp_all flip: lit_append)
qed

lemma validate_groups_base:
  assumes "findings_ok gs" and "\<forall>i \<in> set items. base_item_ok i"
  shows "validate_groups gs items = Inr ()"
proof -
  have "dict_of ni_item_id ni_source items (sg_item_id g) = None \<or>
      dict_of ni_item_id ni_source items (sg_item_id g) = Some Item_ARCH" if "g \<in> set gs" for g
  proof (cases "dict_of ni_item_id ni_source items (sg_item_id g)")
    case (Some src)
    then obtain i where "i \<in> set items" "ni_item_id i = sg_item_id g" "ni_source i = src"
      by (blast dest: dict_of_SomeD)
    with assms that have "src = Item_ARCH"
      by (intro arch_prefix_source [of "sg_item_id g"])
        (auto simp: base_item_ok_def findings_ok_def intro: group_ok_prefix)
    with Some show ?thesis by simp
  qed simp
  with assms(1) show ?thesis by (auto simp: validate_groups_def findings_ok_def validate_group_iff)
qed

lemma snapshot_ok_findings: "snapshot_ok r \<Longrightarrow> findings_ok (sp_findings (sr_payload r))"
  by (auto simp: snapshot_ok_def validate_response_def validate_snapshot_def validate_groups_def
      findings_ok_def validate_group_iff)

lemma snapshot_ok_sources: "snapshot_ok r \<Longrightarrow> snapshot_sources_ok r"
  by (auto simp: snapshot_ok_def validate_response_def validate_snapshot_def snapshot_sources_ok_def)

lemma previous_ok_sources: "previous_ok p \<Longrightarrow> previous_sources_ok p"
  by (auto simp: previous_ok_def previous_sources_ok_def snapshot_ok_sources split: option.splits)

lemma last_good_items_ok:
  "snapshot_ok r \<Longrightarrow> i \<in> set (last_good_items r source scope) \<Longrightarrow> base_item_ok i"
  by (auto simp: last_good_items_def snapshot_ok_def base_item_ok_def)

definition content_ok :: "SourceName \<Rightarrow> ResolvedOutcome \<Rightarrow> bool" where
  "content_ok source r \<longleftrightarrow> (\<forall>i \<in> set (ro_items r). base_item_ok i) \<and>
     findings_ok (ro_findings r) \<and> (source \<noteq> Src_SECURITY \<longrightarrow> ro_findings r = [])"

lemma findings_ok_Nil [simp]: "findings_ok []"
  by (simp add: findings_ok_def)

lemma content_last_good:
  "snapshot_ok snap \<Longrightarrow> ro_items r = last_good_items snap source scope \<Longrightarrow>
   ro_findings r = last_good_findings snap source \<Longrightarrow> content_ok source r"
  by (auto simp: content_ok_def last_good_findings_def snapshot_ok_findings dest: last_good_items_ok)

lemma resolve_content:
  assumes p: "previous_ok previous" and r: "resolve current source scope previous now = Inr r"
    and c: "\<forall>oc. current = Some oc \<longrightarrow> outcome_for source scope oc \<and> evidence_ok oc"
  shows "content_ok source r"
proof (cases current)
  case None
  with r p show ?thesis
    by (cases previous)
      (auto simp: resolve_def cached_outcome_def Let_def previous_ok_def content_ok_def [of _ "\<lparr>ro_outcome = _, ro_health = _, ro_items = [], ro_findings = [], ro_usable = _\<rparr>"]
        intro: content_last_good)
next
  case (Some oc)
  show ?thesis
  proof (cases "successful oc")
    case True
    with Some r c show ?thesis
      by (auto simp: resolve_def content_ok_def evidence_ok_def outcome_for_def)
  next
    case False
    with Some r p show ?thesis
      by (cases previous)
        (auto simp: resolve_def previous_ok_def content_ok_def [of _ "\<lparr>ro_outcome = _, ro_health = _, ro_items = [], ro_findings = [], ro_usable = _\<rparr>"]
          intro: content_last_good split: if_splits)
  qed
qed

lemma list_all2_in1: "list_all2 P xs ys \<Longrightarrow> x \<in> set xs \<Longrightarrow> \<exists>y \<in> set ys. P x y"
  by (induction rule: list_all2_induct) auto

lemma list_all2_mapE_zip:
  assumes "mapE f (zip xs ys) = Inr zs" and "length xs = length ys"
    and "\<And>x y z. (x, y) \<in> set (zip xs ys) \<Longrightarrow> f (x, y) = Inr z \<Longrightarrow> P z y"
  shows "list_all2 P zs ys"
  using assms
proof (induction xs ys arbitrary: zs rule: list_induct2')
  case (4 x xs y ys)
  then obtain z zs' where z: "f (x, y) = Inr z" "mapE f (zip xs ys) = Inr zs'" "zs = z # zs'"
    by auto
  have "list_all2 P zs' ys" using 4 z by (intro "4.IH") auto
  moreover have "P z y" using 4 z by auto
  ultimately show ?case using z by simp
qed auto

lemma resolve_all_content:
  assumes p: "previous_ok previous" and i: "inputs_ok i" and e: "inputs_evidence_ok i"
    and r: "resolve_all (outcomes_of i) previous now = Inr rs"
  shows "list_all2 (\<lambda>r identity. content_ok (fst identity) r) rs identities"
proof -
  have len: "length (outcomes_of i) = length identities"
    using i by (simp add: inputs_ok_def list_all2_lengthD)
  have m: "mapE (\<lambda>(current, source, scope). resolve current source scope previous now)
      (zip (outcomes_of i) identities) = Inr rs"
    using r by (auto simp: resolve_all_def)
  show ?thesis
  proof (rule list_all2_mapE_zip [OF m len])
    fix current r and identity :: "SourceName \<times> SourceScope option"
    assume in_zip: "(current, identity) \<in> set (zip (outcomes_of i) identities)"
      and res: "(\<lambda>(current, source, scope). resolve current source scope previous now)
        (current, identity) = Inr r"
    have "input_for current identity" "current \<in> set (outcomes_of i)"
      using in_zip i by (auto simp: inputs_ok_def list_all2_iff dest: set_zip_leftD)
    then show "content_ok (fst identity) r"
      using res e
      by (intro resolve_content [OF p, of current "fst identity" "snd identity" now])
        (auto simp: split_beta input_for_def inputs_evidence_ok_def)
  qed
qed

lemma identifier_ok_hexdigest: "identifier_ok (sha256_hexdigest m)"
  by (simp add: identifier_ok_def)

lemma fingerprinted_select [simp]:
  "ni_item_id (fingerprinted i) = ni_item_id i" "ni_source (fingerprinted i) = ni_source i"
  "ni_label (fingerprinted i) = ni_label i" "ni_watch_mode (fingerprinted i) = ni_watch_mode i"
  "ni_watch_armed (fingerprinted i) = ni_watch_armed i"
  "ni_provenance (fingerprinted i) = ni_provenance i"
  "ni_installed (fingerprinted i) = ni_installed i" "ni_candidate (fingerprinted i) = ni_candidate i"
  by (simp_all add: fingerprinted_def)

lemma fingerprinted_base: "base_item_ok (fingerprinted i) = base_item_ok i"
  by (simp add: base_item_ok_def)

lemma fingerprinted_ok: "base_item_ok i \<Longrightarrow> item_ok (fingerprinted i)"
  by (auto simp: item_ok_def base_item_ok_def)
    (auto simp: fingerprinted_def fingerprint_of_def identifier_ok_hexdigest split: option.splits)

lemma normalized_items_ok:
  assumes "normalized_items rs = Inr items" and "\<forall>r \<in> set rs. \<forall>i \<in> set (ro_items r). base_item_ok i"
  shows "distinct (map ni_item_id items) \<and> sorted (map ni_item_id items) \<and>
    (\<forall>i \<in> set items. item_ok i \<and> base_item_ok i)"
  using assms by (auto simp: normalized_items_def Let_def fingerprinted_ok fingerprinted_base)

lemma normalized_findings_ok:
  assumes "list_all2 (\<lambda>r identity. content_ok (fst identity) r) rs identities"
  shows "findings_ok (normalized_findings rs) \<and> sorted (map sg_item_id (normalized_findings rs))"
  using assms
proof (rule list_all2_identities)
  fix a b c d e f g h
  assume rs: "rs = [a, b, c, d, e, f, g, h]"
    and r: "content_ok (fst (Src_OMARCHY, None :: SourceScope option)) a"
      "content_ok (fst (Src_ARCH, None :: SourceScope option)) b"
      "content_ok (fst (Src_AUR, None :: SourceScope option)) c"
      "content_ok (fst (Src_FLATPAK, Some Scope_USER)) d"
      "content_ok (fst (Src_FLATPAK, Some Scope_SYSTEM)) e"
      "content_ok (fst (Src_MISE, None :: SourceScope option)) f"
      "content_ok (fst (Src_SECURITY, None :: SourceScope option)) g"
      "content_ok (fst (Src_CISA_KEV, None :: SourceScope option)) h"
  have "concat (map ro_findings rs) = ro_findings g" "findings_ok (ro_findings g)"
    using r by (simp_all add: rs content_ok_def)
  then show ?thesis by (auto simp: normalized_findings_def findings_ok_def)
qed

lemma build_generation_elim:
  assumes "build_generation gid order inputs previous state now = Inr b"
  obtains rs hs items where
    "resolve_all (outcomes_of inputs) previous now = Inr rs" "source_healths rs now = Inr hs"
    "normalized_items rs = Inr items"
    "gb_snapshot b = \<lparr>sr_generated_at = now, sr_generation_id = gid,
       sr_payload = \<lparr>sp_scan_state = scan_state_of rs, sp_sources = hs,
         sp_summary = summary_of items (normalized_findings rs) hs, sp_items = items,
         sp_findings = normalized_findings rs, sp_notifications = []\<rparr>,
       sr_protocol_version = PROTOCOL_VERSION\<rparr>"
    "gb_order b = order" "gb_inventories b = inventories_of now gid items"
    "gb_state b = state\<lparr>ps_sources := metadata_of (ps_sources state) (source_outcomes_of inputs) now\<rparr>"
    "gb_last_good b = gb_snapshot b" "gb_last_good_keys b = last_good_keys_of previous rs"
  using assms by (auto simp: build_generation_def Let_def)

lemma build_generation_snapshot:
  assumes p: "previous_ok previous" and i: "inputs_ok inputs" and e: "inputs_evidence_ok inputs"
    and g: "identifier_ok gid"
    and b: "build_generation gid order inputs previous state now = Inr b"
  shows "snapshot_ok (gb_snapshot b)"
  using b
proof (rule build_generation_elim)
  fix rs hs items
  assume rs: "resolve_all (outcomes_of inputs) previous now = Inr rs" "source_healths rs now = Inr hs"
      "normalized_items rs = Inr items"
    and snap: "gb_snapshot b = \<lparr>sr_generated_at = now, sr_generation_id = gid,
       sr_payload = \<lparr>sp_scan_state = scan_state_of rs, sp_sources = hs,
         sp_summary = summary_of items (normalized_findings rs) hs, sp_items = items,
         sp_findings = normalized_findings rs, sp_notifications = []\<rparr>,
       sr_protocol_version = PROTOCOL_VERSION\<rparr>"
  have content: "list_all2 (\<lambda>r identity. content_ok (fst identity) r) rs identities"
    by (rule resolve_all_content [OF p i e rs(1)])
  then have "\<forall>r \<in> set rs. \<forall>i \<in> set (ro_items r). base_item_ok i"
    by (auto simp: content_ok_def dest: list_all2_in1)
  then have items: "distinct (map ni_item_id items)" "\<forall>i \<in> set items. item_ok i \<and> base_item_ok i"
    using normalized_items_ok [OF rs(3)] by blast+
  have "list_all2 resolved_for rs identities"
    using resolve_all_resolved [OF previous_ok_sources [OF p] i, of now] rs(1) by auto
  then have "validate_sources hs = Inr ()" using source_healths_ok [of rs now] rs(2) by auto
  moreover have "validate_groups (normalized_findings rs) items = Inr ()"
    using normalized_findings_ok [OF content] items(2) by (intro validate_groups_base) auto
  ultimately show "snapshot_ok (gb_snapshot b)"
    using items g
    by (simp add: snap snapshot_ok_def validate_response_def validate_snapshot_def summary_of_def)
qed

section \<open>Last-good evidence\<close>

text \<open>Items that belong to the outcome they come with.\<close>

definition owned_items :: "SourceOutcome \<Rightarrow> bool" where
  "owned_items oc \<longleftrightarrow> (\<forall>i \<in> set (so_items oc). belongs_to i (so_source oc) (so_scope oc))"

text \<open>A snapshot as \<open>build_generation\<close> writes it: sorted, fingerprinted, without system ids.\<close>

definition snapshot_normal :: "SnapshotResponse \<Rightarrow> bool" where
  "snapshot_normal r \<longleftrightarrow> sorted (map ni_item_id (sp_items (sr_payload r))) \<and>
     (\<forall>i \<in> set (sp_items (sr_payload r)). fingerprinted i = i \<and> ni_item_id i \<notin> OMARCHY_SYSTEM_IDS)"

lemma fingerprinted_idem: "fingerprinted (fingerprinted i) = fingerprinted i"
  by (simp add: fingerprinted_def)

lemma fingerprinted_provenance:
  "fingerprinted (i\<lparr>ni_provenance := p\<rparr>) = (fingerprinted i)\<lparr>ni_provenance := p\<rparr>"
  by (simp add: fingerprinted_def)

lemma belongs_to_cong:
  "ni_source i = ni_source j \<Longrightarrow> ni_item_id i = ni_item_id j \<Longrightarrow>
   belongs_to i source scope = belongs_to j source scope"
  by (cases source) (simp_all add: belongs_to_def)

lemma belongs_to_fingerprinted [simp]: "belongs_to (fingerprinted i) s sc = belongs_to i s sc"
  by (rule belongs_to_cong) simp_all

lemma belongs_to_provenance [simp]: "belongs_to (i\<lparr>ni_provenance := p\<rparr>) s sc = belongs_to i s sc"
  by (rule belongs_to_cong) simp_all

lemma belongs_to_unique:
  assumes "a \<in> set identities" "b \<in> set identities"
    and "belongs_to i (fst a) (snd a)" "belongs_to i (fst b) (snd b)"
  shows "a = b"
proof -
  have "\<not> (prefix (lit ''flatpak:user:'') x \<and> prefix (lit ''flatpak:system:'') x)" for x
    using prefix_same_cases [of "lit ''flatpak:user:''" x "lit ''flatpak:system:''"] by auto
  then have scopes: "\<not> (prefix (lit ''flatpak:'' @ lit ''user'' @ lit '':'') x \<and>
      prefix (lit ''flatpak:'' @ lit ''system'' @ lit '':'') x)" for x
    by (simp flip: lit_append)
  with assms show ?thesis by (auto simp: identities_def belongs_to_def)
qed

lemma concat_owned:
  assumes "list_all2 (\<lambda>r a. \<forall>i \<in> set (ro_items r). belongs_to i (fst a) (snd a)) rs ids"
    and "distinct ids" and "set ids \<subseteq> set identities" and "(r, a) \<in> set (zip rs ids)"
  shows "filter (\<lambda>i. belongs_to i (fst a) (snd a)) (concat (map ro_items rs)) = ro_items r"
  using assms
proof (induction rule: list_all2_induct)
  case (Cons q rs b ids)
  have others: "filter (\<lambda>i. belongs_to i (fst a) (snd a)) (ro_items q') = []"
    if "\<forall>i \<in> set (ro_items q'). belongs_to i (fst b') (snd b')" "b' \<in> set identities" "b' \<noteq> a"
      "a \<in> set identities" for q' b'
    using that belongs_to_unique [of b' a] by (auto simp: filter_empty_conv)
  show ?case
  proof (cases "a = b")
    case True
    with Cons.prems have "(r, a) \<notin> set (zip rs ids)" by (auto dest: set_zip_rightD)
    with Cons.prems True have "r = q" by simp
    have "filter (\<lambda>i. belongs_to i (fst a) (snd a)) (concat (map ro_items rs)) = []"
    proof (rule ccontr)
      assume "\<not> ?thesis"
      then obtain q' i where q': "q' \<in> set rs" "i \<in> set (ro_items q')" "belongs_to i (fst a) (snd a)"
        by (auto simp: filter_empty_conv)
      then obtain b' where "b' \<in> set ids" "\<forall>i \<in> set (ro_items q'). belongs_to i (fst b') (snd b')"
        using list_all2_in1 [OF Cons.hyps(2)] by blast
      with q' Cons.prems True belongs_to_unique [of b' a i] show False by auto
    qed
    moreover have "filter (\<lambda>i. belongs_to i (fst a) (snd a)) (ro_items q) = ro_items q"
      using Cons.hyps(1) True by (simp add: filter_id_conv)
    ultimately show ?thesis using \<open>r = q\<close> by simp
  next
    case False
    then have ra: "(r, a) \<in> set (zip rs ids)" using Cons.prems(3) by simp
    then have "a \<in> set identities" using Cons.prems(2) by (auto dest: set_zip_rightD)
    with others [OF Cons.hyps(1)] False Cons.prems(2)
    have "filter (\<lambda>i. belongs_to i (fst a) (snd a)) (ro_items q) = []" by auto
    then show ?thesis using Cons.IH ra Cons.prems by simp
  qed
qed simp

definition inputs_owned :: "ScanInputs \<Rightarrow> bool" where
  "inputs_owned i \<longleftrightarrow> (\<forall>oc. Some oc \<in> set (outcomes_of i) \<longrightarrow> owned_items oc)"

lemma last_good_items_belong:
  "i \<in> set (last_good_items r source scope) \<Longrightarrow> belongs_to i source scope"
  by (auto simp: last_good_items_def)

lemma resolve_owned:
  assumes "resolve current source scope previous now = Inr r"
    and "\<forall>oc. current = Some oc \<longrightarrow> outcome_for source scope oc \<and> owned_items oc"
  shows "\<forall>i \<in> set (ro_items r). belongs_to i source scope"
  using assms
  by (auto simp: resolve_def cached_outcome_def Let_def owned_items_def outcome_for_def
      dest: last_good_items_belong split: option.splits if_splits)

lemma zip_resolve_all:
  assumes "resolve_all (outcomes_of i) previous now = Inr rs" and "inputs_ok i"
  shows "mapE (\<lambda>(current, source, scope). resolve current source scope previous now)
      (zip (outcomes_of i) identities) = Inr rs" "length (outcomes_of i) = length identities"
  using assms by (auto simp: resolve_all_def inputs_ok_def list_all2_lengthD)

lemma resolve_all_owned:
  assumes r: "resolve_all (outcomes_of i) previous now = Inr rs" and i: "inputs_ok i"
    and own: "inputs_owned i"
  shows "list_all2 (\<lambda>r a. \<forall>x \<in> set (ro_items r). belongs_to x (fst a) (snd a)) rs identities"
proof (rule list_all2_mapE_zip [OF zip_resolve_all [OF r i]])
  fix current q and a :: "SourceName \<times> SourceScope option"
  assume in_zip: "(current, a) \<in> set (zip (outcomes_of i) identities)"
    and res: "(\<lambda>(current, source, scope). resolve current source scope previous now)
      (current, a) = Inr q"
  have "input_for current a" "current \<in> set (outcomes_of i)"
    using in_zip i by (auto simp: inputs_ok_def list_all2_iff dest: set_zip_leftD)
  then show "\<forall>x \<in> set (ro_items q). belongs_to x (fst a) (snd a)"
    using res own
    by (intro resolve_owned [of current "fst a" "snd a" previous now])
      (auto simp: split_beta input_for_def inputs_owned_def)
qed

lemma mapE_zip_nth:
  "mapE f (zip xs ys) = Inr zs \<Longrightarrow> length xs = length ys \<Longrightarrow> (x, y) \<in> set (zip xs ys) \<Longrightarrow>
   \<exists>z. (z, y) \<in> set (zip zs ys) \<and> f (x, y) = Inr z"
proof (induction xs ys arbitrary: zs rule: list_induct2')
  case (4 a xs b ys)
  then obtain z zs' where "f (a, b) = Inr z" "mapE f (zip xs ys) = Inr zs'" "zs = z # zs'" by auto
  with 4 show ?case by (cases "(x, y) = (a, b)") auto
qed auto

lemma sort_filter_normal:
  assumes "snapshot_normal r"
  shows "sort_key ni_item_id (map fingerprinted
      (filter (\<lambda>i. ni_item_id i \<notin> OMARCHY_SYSTEM_IDS) (last_good_items r source scope))) =
    last_good_items r source scope"
proof -
  let ?l = "last_good_items r source scope"
  have "\<forall>i \<in> set ?l. fingerprinted i = i \<and> ni_item_id i \<notin> OMARCHY_SYSTEM_IDS"
    using assms by (auto simp: last_good_items_def snapshot_normal_def fingerprinted_provenance)
  then have "map fingerprinted (filter (\<lambda>i. ni_item_id i \<notin> OMARCHY_SYSTEM_IDS) ?l) = ?l"
    by (simp add: filter_id_conv map_idI)
  moreover have "sorted (map ni_item_id ?l)"
    using assms by (auto simp: last_good_items_def snapshot_normal_def comp_def sorted_filter)
  ultimately show ?thesis by (simp add: sort_key_id_if_sorted)
qed

lemma build_generation_normal:
  assumes "build_generation gid order inputs previous state now = Inr b"
  shows "snapshot_normal (gb_snapshot b) \<and> gb_last_good b = gb_snapshot b"
  using assms
proof (rule build_generation_elim)
  fix rs hs items
  assume n: "normalized_items rs = Inr items" and l: "gb_last_good b = gb_snapshot b"
    and snap: "gb_snapshot b = \<lparr>sr_generated_at = now, sr_generation_id = gid,
       sr_payload = \<lparr>sp_scan_state = scan_state_of rs, sp_sources = hs,
         sp_summary = summary_of items (normalized_findings rs) hs, sp_items = items,
         sp_findings = normalized_findings rs, sp_notifications = []\<rparr>,
       sr_protocol_version = PROTOCOL_VERSION\<rparr>"
  from n have "sorted (map ni_item_id items) \<and>
      (\<forall>i \<in> set items. fingerprinted i = i \<and> ni_item_id i \<notin> OMARCHY_SYSTEM_IDS)"
    by (auto simp: normalized_items_def Let_def fingerprinted_idem)
  with l snap show ?thesis by (simp add: snapshot_normal_def)
qed

text \<open>The source was not due, or was tried and failed.\<close>

definition not_refreshed :: "ScanInputs \<Rightarrow> SourceName \<times> SourceScope option \<Rightarrow> bool" where
  "not_refreshed i a \<longleftrightarrow>
     (\<exists>current. (current, a) \<in> set (zip (outcomes_of i) identities) \<and>
        (\<forall>oc. current = Some oc \<longrightarrow> \<not> successful oc))"

lemma retained_step:
  assumes b: "build_generation gid order inputs (Some prev) state now = Inr b"
    and i: "inputs_ok inputs" "inputs_owned inputs" and a: "not_refreshed inputs a"
    and prev: "snapshot_normal (gb_snapshot prev)" "gb_last_good prev = gb_snapshot prev"
    and key: "source_key (fst a) (snd a) \<in> set (gb_last_good_keys prev)"
  shows "filter (\<lambda>x. belongs_to x (fst a) (snd a)) (sp_items (sr_payload (gb_snapshot b))) =
      last_good_items (gb_snapshot prev) (fst a) (snd a) \<and>
    source_key (fst a) (snd a) \<in> set (gb_last_good_keys b)"
  using b
proof (rule build_generation_elim)
  fix rs hs items
  let ?B = "\<lambda>x. belongs_to x (fst a) (snd a)" and ?N = "\<lambda>x. ni_item_id x \<notin> OMARCHY_SYSTEM_IDS"
  assume rs: "resolve_all (outcomes_of inputs) (Some prev) now = Inr rs"
    and n: "normalized_items rs = Inr items" and keys: "gb_last_good_keys b = last_good_keys_of (Some prev) rs"
    and snap: "gb_snapshot b = \<lparr>sr_generated_at = now, sr_generation_id = gid,
       sr_payload = \<lparr>sp_scan_state = scan_state_of rs, sp_sources = hs,
         sp_summary = summary_of items (normalized_findings rs) hs, sp_items = items,
         sp_findings = normalized_findings rs, sp_notifications = []\<rparr>,
       sr_protocol_version = PROTOCOL_VERSION\<rparr>"
  obtain current where c: "(current, a) \<in> set (zip (outcomes_of inputs) identities)"
      "\<And>oc. current = Some oc \<Longrightarrow> \<not> successful oc"
    using a by (auto simp: not_refreshed_def)
  obtain r where r: "(r, a) \<in> set (zip rs identities)"
      "resolve current (fst a) (snd a) (Some prev) now = Inr r"
    using mapE_zip_nth [OF zip_resolve_all [OF rs i(1)] c(1)] by (auto simp: split_beta)
  have "input_for current a" using c(1) i(1) by (auto simp: inputs_ok_def list_all2_iff)
  then have oc: "so_key oc = source_key (fst a) (snd a)" if "current = Some oc" for oc
    using that by (simp add: input_for_def outcome_for_def so_key_def)
  have items_r: "ro_items r = last_good_items (gb_snapshot prev) (fst a) (snd a)"
    using r(2) c(2) oc key prev(2)
    by (cases current) (auto simp: resolve_def cached_outcome_def Let_def)
  have all: "filter ?B (concat (map ro_items rs)) = ro_items r"
    by (rule concat_owned [OF resolve_all_owned [OF rs i] _ _ r(1)]) (simp_all add: identities_def)
  have "filter ?B items = sort_key ni_item_id (filter ?B (map fingerprinted (filter ?N (concat (map ro_items rs)))))"
    using n by (auto simp: normalized_items_def Let_def filter_sort)
  also have "\<dots> = sort_key ni_item_id (map fingerprinted (filter ?N (filter ?B (concat (map ro_items rs)))))"
    by (simp add: filter_map comp_def conj_commute)
  also have "\<dots> = last_good_items (gb_snapshot prev) (fst a) (snd a)"
    unfolding all items_r by (rule sort_filter_normal [OF prev(1)])
  finally show ?thesis using key by (simp add: snap keys last_good_keys_of_def)
qed

inductive stale_run :: "SourceName \<times> SourceScope option \<Rightarrow> GenerationBundle \<Rightarrow> GenerationBundle \<Rightarrow> bool"
  for a where
  start: "stale_run a b b"
| scan: "stale_run a b b' \<Longrightarrow> inputs_ok inputs \<Longrightarrow> inputs_owned inputs \<Longrightarrow> not_refreshed inputs a \<Longrightarrow>
    build_generation gid order inputs (Some b') state now = Inr b'' \<Longrightarrow> stale_run a b b''"

lemma last_good_items_filter:
  assumes "filter (\<lambda>x. belongs_to x s sc) (sp_items (sr_payload r)) = last_good_items q s sc"
  shows "last_good_items r s sc = last_good_items q s sc"
  using assms by (simp add: last_good_items_def [of r]) (simp add: last_good_items_def)

lemma stale_run_retains:
  assumes "stale_run a b b'" and "snapshot_normal (gb_snapshot b)" "gb_last_good b = gb_snapshot b"
    and "source_key (fst a) (snd a) \<in> set (gb_last_good_keys b)"
  shows "snapshot_normal (gb_snapshot b') \<and> gb_last_good b' = gb_snapshot b' \<and>
    source_key (fst a) (snd a) \<in> set (gb_last_good_keys b') \<and>
    last_good_items (gb_snapshot b') (fst a) (snd a) = last_good_items (gb_snapshot b) (fst a) (snd a)"
  using assms
proof (induction rule: stale_run.induct)
  case (scan b b' inputs gid order state now b'')
  then have IH: "snapshot_normal (gb_snapshot b')" "gb_last_good b' = gb_snapshot b'"
      "source_key (fst a) (snd a) \<in> set (gb_last_good_keys b')"
      "last_good_items (gb_snapshot b') (fst a) (snd a) = last_good_items (gb_snapshot b) (fst a) (snd a)"
    by auto
  note step = retained_step [OF scan.hyps(5,2,3,4) IH(1,2,3)]
  with IH(4) last_good_items_filter build_generation_normal [OF scan.hyps(5)] show ?case by auto
qed simp

section \<open>Retry metadata\<close>

lemma retry_delay_cases:
  assumes "1 \<le> n"
  shows "retry_delay n = (if n = 1 then minutes 5 else if n = 2 then minutes 15
    else if n = 3 then hours 1 else hours 6)"
proof -
  consider "n = 1" | "n = 2" | "n = 3" | "4 \<le> n" using assms by linarith
  then show ?thesis by cases (simp_all add: retry_delay_def RETRY_DELAYS_def min_def)
qed

lemma retry_delay_bounds:
  "1 \<le> n \<Longrightarrow> minutes 5 \<le> retry_delay n \<and> retry_delay n \<le> hours 6"
  by (simp add: retry_delay_cases timedelta_defs)

lemma collect_some_id_empty: "collect_some (\<lambda>x. x) xs = [] \<longleftrightarrow> (\<forall>y. Some y \<notin> set xs)"
  by (induction xs) (auto split: option.splits)

lemma in_collect_some_id: "y \<in> set (collect_some (\<lambda>x. x) xs) \<longleftrightarrow> Some y \<in> set xs"
  by (auto simp: in_set_collect_some)

definition old_metadata :: "SourceName \<Rightarrow> SourceMetadata option \<Rightarrow> SourceMetadata" where
  "old_metadata source previous =
     (case previous of
        None \<Rightarrow> \<lparr>sm_source = source, sm_last_success = None, sm_backoff_until = None,
                sm_failure_count = 0, sm_permanent_failure = False\<rparr>
      | Some p \<Rightarrow> p)"

lemma next_metadata_cases:
  "next_metadata source current previous now =
     (if \<forall>oc. Some oc \<notin> set current then old_metadata source previous
      else case find (\<lambda>oc. \<not> successful oc) (collect_some (\<lambda>oc. oc) current) of
          None \<Rightarrow> \<lparr>sm_source = source, sm_last_success = Some now, sm_backoff_until = None,
                  sm_failure_count = 0, sm_permanent_failure = False\<rparr>
        | Some failure \<Rightarrow>
            \<lparr>sm_source = source, sm_last_success = sm_last_success (old_metadata source previous),
             sm_backoff_until = Some (now + (if so_permanent failure then hours 6
               else retry_delay (sm_failure_count (old_metadata source previous) + 1))),
             sm_failure_count = sm_failure_count (old_metadata source previous) + 1,
             sm_permanent_failure = so_permanent failure\<rparr>)"
  unfolding collect_some_id_empty [symmetric]
  by (cases "collect_some (\<lambda>oc. oc) current")
    (auto simp: next_metadata_def Let_def old_metadata_def RETRY_DELAYS_def split: option.split)

lemma metadata_sources_ok:
  assumes "sources_ok previous"
  shows "sources_ok (metadata_of previous (source_outcomes_of inputs) now)"
proof -
  let ?m = "\<lambda>source current. next_metadata source current (find (\<lambda>e. sm_source e = source) previous) now"
  have old: "sm_source (old_metadata source (find (\<lambda>e. sm_source e = source) previous)) = source \<and>
      0 \<le> sm_failure_count (old_metadata source (find (\<lambda>e. sm_source e = source) previous))" for source
    using assms by (auto simp: old_metadata_def sources_ok_def dest: find_SomeD split: option.split)
  have m: "sm_source (?m source current) = source \<and> 0 \<le> sm_failure_count (?m source current)"
    for source current
    using old [of source] by (auto simp: next_metadata_cases split: option.split)
  have names: "map sm_source (metadata_of previous outs now) = map fst outs" for outs
    using m by (induction outs) (auto simp: metadata_of_def)
  have counts: "\<forall>x \<in> set (metadata_of previous outs now). 0 \<le> sm_failure_count x" for outs
    using m by (auto simp: metadata_of_def)
  show ?thesis
    unfolding sources_ok_def names using counts by (simp add: source_outcomes_of_def)
qed

definition scheduled :: "datetime \<Rightarrow> SourceMetadata \<Rightarrow> bool" where
  "scheduled t m \<longleftrightarrow> 0 \<le> sm_failure_count m \<and>
     (\<forall>b. sm_backoff_until m = Some b \<longrightarrow> b \<le> t + hours 6) \<and>
     (\<forall>l. sm_last_success m = Some l \<longrightarrow> l \<le> t)"

lemma scheduled_due: "scheduled t0 m \<Longrightarrow> t0 + hours 6 \<le> t \<Longrightarrow> due (Some m) t force"
  by (auto simp: scheduled_def due_def FRESHNESS_def split: option.splits)

lemma scheduled_mono: "scheduled t m \<Longrightarrow> t \<le> t' \<Longrightarrow> scheduled t' m"
  by (fastforce simp: scheduled_def)

lemma next_metadata_scheduled:
  assumes "\<forall>p. previous = Some p \<longrightarrow> scheduled t p" and "t \<le> now"
  shows "scheduled now (next_metadata source current previous now)"
proof -
  have old: "scheduled now (old_metadata source previous)"
    using assms by (auto simp: old_metadata_def scheduled_def split: option.split)
  have "(if permanent then hours 6 else retry_delay (n + 1)) \<le> hours 6" if "0 \<le> n" for permanent n
    using that retry_delay_bounds [of "n + 1"] by simp
  with old show ?thesis
    by (auto simp: next_metadata_cases scheduled_def split: option.split)
qed

section \<open>Properties\<close>

text \<open>
  C26: Every source is tried again within six hours. If no source metadata of the stored state is
  scheduled later than six hours after the last scan, the metadata a scan at \<open>now\<close> writes is
  scheduled no later than six hours after \<open>now\<close>, whatever the outcomes were, so that from then on
  every source is due without force.
\<close>

theorem sources_due_within_six_hours:
  assumes "\<forall>p \<in> set previous. scheduled t p" and "t \<le> now"
    and "m \<in> set (metadata_of previous (source_outcomes_of inputs) now)" and "now + hours 6 \<le> later"
  shows "scheduled now m \<and> due (Some m) later False"
proof -
  from assms(3) obtain source current where
    "m = next_metadata source current (find (\<lambda>e. sm_source e = source) previous) now"
    by (auto simp: metadata_of_def)
  moreover have "\<forall>p. find (\<lambda>e. sm_source e = source) previous = Some p \<longrightarrow> scheduled t p"
    using assms(1) by (auto dest: find_SomeD)
  ultimately have "scheduled now m" using assms(2) by (simp add: next_metadata_scheduled)
  with assms(4) show ?thesis by (blast intro: scheduled_due)
qed

definition no_inputs :: ScanInputs where
  "no_inputs = \<lparr>si_omarchy = None, si_arch = None, si_aur = None, si_flatpak_user = None,
     si_flatpak_system = None, si_mise = None, si_security = None, si_cisa_kev = None\<rparr>"

definition failing_arch :: SourceOutcome where
  "failing_arch = source_failure Src_ARCH Status_TIMEOUT (lit ''checkupdates'') False True"

theorem sources_due_within_six_hours_witness:
  "due (Some (next_metadata Src_ARCH [Some failing_arch] None 0)) (hours 6) False"
proof -
  let ?inputs = "no_inputs\<lparr>si_arch := Some failing_arch\<rparr>"
  have "next_metadata Src_ARCH [Some failing_arch] None 0 \<in>
      set (metadata_of [] (source_outcomes_of ?inputs) 0)"
    by (simp add: metadata_of_def source_outcomes_of_def)
  then show ?thesis
    using sources_due_within_six_hours [of "[]" 0 0 _ ?inputs "hours 6"] by simp
qed



text \<open>
  A generation is always publishable. For outcomes of the right sources with well-formed
  evidence, over a previous generation that was itself valid, \<open>build_generation\<close> raises nothing but
  the duplicate-id error; the snapshot it builds passes \<open>validate_response\<close>, is sorted by item id and
  serves as its own last-good snapshot, so that the next generation is again built over a valid
  one; and each of the four inventories validates, the inventories and the omarchy items together
  being all items.
\<close>

theorem build_generation_valid:
  assumes p: "previous_ok previous" and i: "inputs_ok inputs" and e: "inputs_evidence_ok inputs"
    and g: "identifier_ok gid"
  shows "case build_generation gid order inputs previous state now of
      Inl x \<Rightarrow> x = failv DUPLICATE_ITEM_ID ''scan item IDs are duplicated''
    | Inr b \<Rightarrow>
        validate_response (SnapshotResp (gb_snapshot b)) = Inr () \<and> previous_ok (Some b) \<and>
        sorted (map ni_item_id (sp_items (sr_payload (gb_snapshot b)))) \<and>
        (\<forall>r \<in> set (gb_inventories b). validate_response (InventoryResp r) = Inr ()) \<and>
        map (\<lambda>r. ip_source (ir_payload r)) (gb_inventories b) =
          [Item_ARCH, Item_AUR, Item_FLATPAK, Item_MISE] \<and>
        set (sp_items (sr_payload (gb_snapshot b))) =
          (\<Union>r \<in> set (gb_inventories b). set (ip_items (ir_payload r))) \<union>
          {x \<in> set (sp_items (sr_payload (gb_snapshot b))). ni_source x = Item_OMARCHY}"
proof (cases "build_generation gid order inputs previous state now")
  case (Inl x)
  obtain rs where rs: "resolve_all (outcomes_of inputs) previous now = Inr rs"
      "list_all2 resolved_for rs identities"
    using resolve_all_resolved [OF previous_ok_sources [OF p] i, of now] by blast
  then obtain hs where "source_healths rs now = Inr hs" using source_healths_ok [of rs now] by blast
  with Inl rs(1) have "normalized_items rs = Inl x"
    by (cases "normalized_items rs") (simp_all add: build_generation_def Let_def)
  with Inl show ?thesis by (simp add: normalized_items_def Let_def bindE_eq_Inl)
next
  case (Inr b)
  have snap: "snapshot_ok (gb_snapshot b)" by (rule build_generation_snapshot [OF p i e g Inr])
  have normal: "snapshot_normal (gb_snapshot b)" "gb_last_good b = gb_snapshot b"
    using build_generation_normal [OF Inr] by simp_all
  let ?items = "sp_items (sr_payload (gb_snapshot b))"
  have inv: "gb_inventories b = inventories_of now gid ?items"
    using Inr by (rule build_generation_elim) simp
  have items: "distinct (map ni_item_id ?items)" "\<forall>x \<in> set ?items. item_ok x"
    using snap by (auto simp: snapshot_ok_def validate_response_def validate_snapshot_def)
  have "\<forall>r \<in> set (gb_inventories b). validate_response (InventoryResp r) = Inr ()"
    using items g
    by (auto simp: inv inventories_of_def Let_def validate_response_def validate_inventory_iff)
  moreover have "set ?items = (\<Union>r \<in> set (gb_inventories b). set (ip_items (ir_payload r))) \<union>
      {x \<in> set ?items. ni_source x = Item_OMARCHY}"
  proof -
    have "x \<in> (\<Union>r \<in> set (gb_inventories b). set (ip_items (ir_payload r))) \<or>
        ni_source x = Item_OMARCHY" if "x \<in> set ?items" for x
      using that by (cases "ni_source x") (auto simp: inv inventories_of_def Let_def)
    moreover have "(\<Union>r \<in> set (gb_inventories b). set (ip_items (ir_payload r))) \<subseteq> set ?items"
      by (auto simp: inv inventories_of_def Let_def)
    ultimately show ?thesis by blast
  qed
  moreover have "map (\<lambda>r. ip_source (ir_payload r)) (gb_inventories b) =
      [Item_ARCH, Item_AUR, Item_FLATPAK, Item_MISE]"
    by (simp add: inv inventories_of_def Let_def)
  moreover have "validate_response (SnapshotResp (gb_snapshot b)) = Inr ()" "previous_ok (Some b)"
      "sorted (map ni_item_id ?items)"
    using snap normal by (simp_all add: previous_ok_def snapshot_ok_def snapshot_normal_def)
  ultimately show ?thesis unfolding Inr sum.case by blast
qed

lemma no_inputs_ok: "inputs_ok no_inputs" "inputs_evidence_ok no_inputs" "inputs_owned no_inputs"
  by (simp_all add: inputs_ok_def inputs_evidence_ok_def inputs_owned_def no_inputs_def
      outcomes_of_def identities_def input_for_def)

text \<open>
  C24: Evidence is never lost to failures. Once a source (or a Flatpak scope) has delivered, its
  items stay in the snapshot through any number of later scans in which it is not due or fails:
  the items of the snapshot that belong to it are exactly the delivered ones, marked as last-good.
\<close>

theorem last_good_retained:
  assumes run: "stale_run a b b'"
    and b: "snapshot_normal (gb_snapshot b)" "gb_last_good b = gb_snapshot b"
    and key: "source_key (fst a) (snd a) \<in> set (gb_last_good_keys b)"
    and i: "inputs_ok inputs" "inputs_owned inputs" "not_refreshed inputs a"
    and built: "build_generation gid order inputs (Some b') state now = Inr b''"
  shows "filter (\<lambda>x. belongs_to x (fst a) (snd a)) (sp_items (sr_payload (gb_snapshot b''))) =
    map (\<lambda>x. x\<lparr>ni_provenance := Prov_LAST_GOOD\<rparr>)
      (filter (\<lambda>x. belongs_to x (fst a) (snd a)) (sp_items (sr_payload (gb_snapshot b))))"
proof -
  note b' = stale_run_retains [OF run b key]
  then show ?thesis
    using retained_step [OF built i, of] by (auto simp: last_good_items_def)
qed

definition bash_item :: NormalizedItem where
  "bash_item = new_item (lit ''arch:bash'') Item_ARCH (lit ''bash'') (Some (lit ''1'')) (Some (lit ''2'')) True"

definition arch_inputs :: ScanInputs where
  "arch_inputs = no_inputs\<lparr>si_arch := Some (current_outcome Src_ARCH [bash_item] Prov_LIVE [] None)\<rparr>"

lemma bash_item_base: "base_item_ok bash_item"
  by (simp add: bash_item_def base_item_ok_def identifier_ok_def flip: lit_append)

lemma arch_inputs_ok: "inputs_ok arch_inputs" "inputs_evidence_ok arch_inputs"
proof -
  show "inputs_ok arch_inputs"
    by (simp add: inputs_ok_def arch_inputs_def no_inputs_def outcomes_of_def identities_def input_for_def
        current_outcome_for)
  show "inputs_evidence_ok arch_inputs"
    using bash_item_base
    by (auto simp: inputs_evidence_ok_def arch_inputs_def no_inputs_def outcomes_of_def evidence_ok_def
        current_outcome_def)
qed

lemma build_generation_exists:
  assumes "previous_sources_ok previous" and "inputs_ok inputs"
    and "resolve_all (outcomes_of inputs) previous now = Inr rs"
    and "distinct (map ni_item_id (concat (map ro_items rs)))"
  shows "\<exists>b. build_generation gid order inputs previous state now = Inr b"
proof -
  have "list_all2 resolved_for rs identities"
    using resolve_all_resolved [OF assms(1,2), of now] assms(3) by auto
  then obtain hs where "source_healths rs now = Inr hs" using source_healths_ok [of rs now] by blast
  moreover obtain items where "normalized_items rs = Inr items"
    using assms(4) by (auto simp: normalized_items_def Let_def comp_def)
  ultimately show ?thesis using assms(3) by (simp add: build_generation_def Let_def)
qed

lemma arch_generation:
  "\<exists>b. build_generation (lit ''g1'') 0 arch_inputs None empty_state 0 = Inr b \<and>
     previous_ok (Some b) \<and> snapshot_normal (gb_snapshot b) \<and> gb_last_good b = gb_snapshot b \<and>
     sp_items (sr_payload (gb_snapshot b)) = [fingerprinted bash_item] \<and>
     source_key Src_ARCH None \<in> set (gb_last_good_keys b)"
proof -
  obtain rs where rs: "resolve_all (outcomes_of arch_inputs) None 0 = Inr rs"
      "concat (map ro_items rs) = [bash_item]" "\<exists>r \<in> set rs. successful (ro_outcome r) \<and>
        so_key (ro_outcome r) = source_key Src_ARCH None"
    by (simp add: resolve_all_def outcomes_of_def arch_inputs_def no_inputs_def identities_def resolve_def
        cached_outcome_def Let_def successful_def successful_status_def current_outcome_def so_key_def)
  obtain b where b: "build_generation (lit ''g1'') 0 arch_inputs None empty_state 0 = Inr b"
    using build_generation_exists [OF _ arch_inputs_ok(1) rs(1), of "lit ''g1''" 0 empty_state] rs(2)
    by (auto simp: previous_sources_ok_def)
  have "snapshot_ok (gb_snapshot b)"
    using build_generation_snapshot [OF _ arch_inputs_ok _ b]
    by (simp add: previous_ok_def identifier_ok_def)
  moreover have "sp_items (sr_payload (gb_snapshot b)) = [fingerprinted bash_item]"
    using b rs(1,2)
    by (auto elim!: build_generation_elim simp: normalized_items_def Let_def bash_item_def
        OMARCHY_SYSTEM_IDS_def)
  moreover have "source_key Src_ARCH None \<in> set (gb_last_good_keys b)"
  proof -
    have keys: "gb_last_good_keys b = last_good_keys_of None rs"
      using b by (rule build_generation_elim) (use rs(1) in simp)
    obtain r where r: "r \<in> set rs" "successful (ro_outcome r)"
        "so_key (ro_outcome r) = source_key Src_ARCH None" using rs(3) by blast
    have "so_key (ro_outcome r) \<in> set (last_good_keys_of None rs)"
      using r(1,2) by (simp add: last_good_keys_of_def)
    with keys r(3) show ?thesis by simp
  qed
  ultimately show ?thesis
    using b build_generation_normal [OF b] by (auto simp: previous_ok_def)
qed

theorem last_good_retained_witness:
  "\<exists>b b'. build_generation (lit ''g1'') 0 arch_inputs None empty_state 0 = Inr b \<and>
     build_generation (lit ''g2'') 1 no_inputs (Some b) empty_state (hours 1) = Inr b' \<and>
     filter (\<lambda>x. belongs_to x Src_ARCH None) (sp_items (sr_payload (gb_snapshot b'))) =
       [(fingerprinted bash_item)\<lparr>ni_provenance := Prov_LAST_GOOD\<rparr>]"
proof -
  obtain b where b: "build_generation (lit ''g1'') 0 arch_inputs None empty_state 0 = Inr b"
      "previous_ok (Some b)" "snapshot_normal (gb_snapshot b)" "gb_last_good b = gb_snapshot b"
      "sp_items (sr_payload (gb_snapshot b)) = [fingerprinted bash_item]"
      "source_key Src_ARCH None \<in> set (gb_last_good_keys b)"
    using arch_generation by blast
  obtain rs where rs: "resolve_all (outcomes_of no_inputs) (Some b) (hours 1) = Inr rs"
    using resolve_all_resolved [OF previous_ok_sources [OF b(2)] no_inputs_ok(1)] by blast
  have "list_all2 (\<lambda>r a. ro_items r = last_good_items (gb_snapshot b) (fst a) (snd a)) rs identities"
    by (rule list_all2_mapE_zip [OF zip_resolve_all [OF rs no_inputs_ok(1)]])
      (auto simp: outcomes_of_def no_inputs_def identities_def resolve_def cached_outcome_def Let_def)
  then have "map ro_items rs = map (\<lambda>a. last_good_items (gb_snapshot b) (fst a) (snd a)) identities"
    by (induction rule: list_all2_induct) auto
  then have "distinct (map ni_item_id (concat (map ro_items rs)))"
    by (simp add: identities_def last_good_items_def b(5) bash_item_def belongs_to_def)
  then obtain b' where b': "build_generation (lit ''g2'') 1 no_inputs (Some b) empty_state (hours 1) = Inr b'"
    using build_generation_exists [OF previous_ok_sources [OF b(2)] no_inputs_ok(1) rs] by blast
  have stale: "not_refreshed no_inputs (Src_ARCH, None)"
    by (auto simp: not_refreshed_def outcomes_of_def no_inputs_def identities_def)
  have "belongs_to (fingerprinted bash_item) Src_ARCH None"
    by (simp add: bash_item_def belongs_to_def)
  then show ?thesis
    using last_good_retained [OF stale_run.start b(3,4) _ no_inputs_ok(1,3) stale b'] b(1,5,6) b'
    by auto
qed

text \<open>
  A scan changes nothing of the durable state but the source metadata: the watches and the
  ledger of the state it writes are those it was given, so no scan arms, clears or creates a
  watch, and a valid state stays valid.
\<close>

theorem scan_keeps_watches:
  assumes "build_generation gid order inputs previous state now = Inr b"
    and "validate_state state = Inr ()"
  shows "ps_watches (gb_state b) = ps_watches state \<and> ps_ledger (gb_state b) = ps_ledger state \<and>
    validate_state (gb_state b) = Inr ()"
  using assms metadata_sources_ok [of "ps_sources state" inputs now]
  by (auto elim!: build_generation_elim simp: validate_state_iff)

theorem scan_keeps_watches_witness:
  "\<exists>b. build_generation (lit ''g1'') 0 arch_inputs None empty_state 0 = Inr b \<and>
     ps_watches (gb_state b) = [] \<and> validate_state (gb_state b) = Inr ()"
proof -
  obtain b where b: "build_generation (lit ''g1'') 0 arch_inputs None empty_state 0 = Inr b"
    using arch_generation by blast
  from scan_keeps_watches [OF b empty_state_valid] b show ?thesis by (simp add: empty_state_def)
qed

text \<open>
  The scan state tells the truth. A scan is complete only if every applicable source was
  refreshed in this scan or is cached as healthy, so a source that failed in this scan is never
  behind a complete scan unless it is an absent Flatpak installation or does not apply; it is
  failed only if no mandatory source, or no applicable source, has usable evidence.
\<close>

theorem scan_state_truthful:
  "(scan_state_of rs = Scan_COMPLETE \<longrightarrow>
     (\<forall>r \<in> set rs. so_applicable (ro_outcome r) \<longrightarrow>
        successful (ro_outcome r) \<and> health_status (ro_health r) = Status_OK \<or>
        so_source (ro_outcome r) = Src_FLATPAK \<and>
        so_status (ro_outcome r) = Status_MISSING_DEPENDENCY)) \<and>
   (scan_state_of rs = Scan_FAILED \<longrightarrow>
     (\<forall>r \<in> set rs. so_source (ro_outcome r) \<in> {Src_OMARCHY, Src_ARCH, Src_SECURITY} \<longrightarrow> \<not> ro_usable r) \<or>
     (\<forall>r \<in> set rs. is_applicable r \<longrightarrow> \<not> ro_usable r)) \<and>
   (scan_state_of rs \<noteq> Scan_FAILED \<longrightarrow>
     (\<exists>r \<in> set rs. ro_usable r \<and> so_source (ro_outcome r) \<in> {Src_OMARCHY, Src_ARCH, Src_SECURITY, Src_AUR}))"
  by (auto simp: scan_state_of_def Let_def list_ex_iff list_all_iff is_applicable_def
      MANDATORY_SOURCES_def split: if_splits)

theorem scan_state_truthful_witness:
  "scan_state_of [] = Scan_FAILED \<and> \<not> (\<exists>r \<in> set ([] :: ResolvedOutcome list). ro_usable r)"
  using scan_state_truthful [of "[]"] by (cases "scan_state_of []") auto

end
