(* ===== verification/Runner.thy ===== *)
theory Runner
  imports Runner_Types Python_Text
begin

text \<open>
  The closed command runner: the registries of \<open>runner_registry.py\<close>, \<open>redact_diagnostic\<close> of
  \<open>runner_types.py\<close>, and \<open>run_spec\<close> with its output collection of \<open>runner_process.py\<close>. What the
  operating system does is an argument: whether the executable can be started, what each round of
  \<open>select\<close> finds readable at which monotonic time, and what \<open>wait\<close> returns.
\<close>

section \<open>Registries\<close>

definition MIB :: int where
  "MIB = 1024 * 1024"

definition DEFAULT_OUTPUT :: int where
  "DEFAULT_OUTPUT = 2 * MIB"

definition command_spec :: "ustr \<Rightarrow> ustr list \<Rightarrow> ArgumentPolicy \<Rightarrow> int \<Rightarrow> ustr option \<Rightarrow> CommandSpec" where
  "command_spec executable base_argv policy timeout cwd =
     \<lparr>cs_executable = executable, cs_base_argv = base_argv, cs_argument_policy = policy,
      cs_timeout_seconds = timeout, cs_stdout_limit = DEFAULT_OUTPUT,
      cs_stderr_limit = DEFAULT_OUTPUT, cs_cwd = cwd\<rparr>"

definition flatpak_list :: "string \<Rightarrow> string \<Rightarrow> CommandSpec" where
  "flatpak_list scope kind =
     command_spec (lit ''/usr/bin/flatpak'')
       [lit scope, lit ''list'', lit kind, lit ''--columns=application,arch,branch,version,origin'']
       Policy_NONE 60 None"

definition flatpak_updates :: "string \<Rightarrow> CommandSpec" where
  "flatpak_updates scope =
     command_spec (lit ''/usr/bin/flatpak'')
       [lit scope, lit ''remote-ls'', lit ''--updates'', lit ''--columns=ref,version,origin'']
       Policy_NONE 60 None"

fun COMMAND_SPECS :: "ustr \<Rightarrow> CommandName \<Rightarrow> CommandSpec" where
  "COMMAND_SPECS home OMARCHY_UPDATE_AVAILABLE =
     command_spec (lit ''/usr/bin/omarchy-update-available'') [] Policy_NONE 15 None"
| "COMMAND_SPECS home PACMAN_NATIVE =
     command_spec (lit ''/usr/bin/pacman'') [lit ''-Qn''] Policy_NONE 30 None"
| "COMMAND_SPECS home CHECKUPDATES =
     command_spec (lit ''/usr/bin/checkupdates'') [lit ''--nocolor''] Policy_NONE 120 None"
| "COMMAND_SPECS home VERCMP =
     command_spec (lit ''/usr/bin/vercmp'') [] Policy_VERSION_PAIR 15 None"
| "COMMAND_SPECS home PACMAN_FOREIGN =
     command_spec (lit ''/usr/bin/pacman'') [lit ''-Qm''] Policy_NONE 30 None"
| "COMMAND_SPECS home YAY_UPDATES =
     command_spec (lit ''/usr/bin/yay'') [lit ''-Qua'', lit ''--color'', lit ''never''] Policy_NONE 60 None"
| "COMMAND_SPECS home PARU_UPDATES =
     command_spec (lit ''/usr/bin/paru'') [lit ''-Qua'', lit ''--color'', lit ''never''] Policy_NONE 60 None"
| "COMMAND_SPECS home FLATPAK_USER_APP_LIST = flatpak_list ''--user'' ''--app''"
| "COMMAND_SPECS home FLATPAK_USER_RUNTIME_LIST = flatpak_list ''--user'' ''--runtime''"
| "COMMAND_SPECS home FLATPAK_SYSTEM_APP_LIST = flatpak_list ''--system'' ''--app''"
| "COMMAND_SPECS home FLATPAK_SYSTEM_RUNTIME_LIST = flatpak_list ''--system'' ''--runtime''"
| "COMMAND_SPECS home FLATPAK_USER_UPDATES = flatpak_updates ''--user''"
| "COMMAND_SPECS home FLATPAK_SYSTEM_UPDATES = flatpak_updates ''--system''"
| "COMMAND_SPECS home MISE_OUTDATED =
     command_spec (lit ''/usr/bin/mise'') [lit ''outdated'', lit ''--json''] Policy_NONE 60 (Some home)"
| "COMMAND_SPECS home ARCH_AUDIT =
     command_spec (lit ''/usr/bin/arch-audit'') [lit ''--json''] Policy_NONE 30 None"
| "COMMAND_SPECS home NOTIFY =
     command_spec (lit ''/usr/bin/notify-send'') [lit ''-a'', lit ''Opatchy'', lit ''-u'', lit ''normal'']
       Policy_NOTIFICATION_TEXT 15 None"

fun ENDPOINT_SPECS :: "EndpointName \<Rightarrow> EndpointSpec" where
  "ENDPOINT_SPECS Endpoint_ARCH_SECURITY =
     \<lparr>es_url = lit ''https://security.archlinux.org/all.json'',
      es_allowed_hosts = [lit ''security.archlinux.org''], es_allowed_paths = [lit ''/all.json''],
      es_redirect_limit = 3, es_body_limit = 25 * MIB, es_timeout_seconds = 20\<rparr>"
| "ENDPOINT_SPECS Endpoint_CISA_KEV =
     \<lparr>es_url = lit ''https://www.cisa.gov/sites/default/files/feeds/known_exploited_vulnerabilities.json'',
      es_allowed_hosts = [lit ''www.cisa.gov''],
      es_allowed_paths = [lit ''/sites/default/files/feeds/known_exploited_vulnerabilities.json''],
      es_redirect_limit = 3, es_body_limit = 10 * MIB, es_timeout_seconds = 20\<rparr>"

section \<open>Redaction\<close>

text \<open>
  The regular expression \<open>(?i)(?:bearer\s+|(?:token|api[_-]?key|password|secret)[=:]\s*)[^\s,;]+\<close>.
  Its alternatives begin with different letters and what follows white space is not white space,
  so that matching never backtracks: \<open>match_header\<close> gives what is left after the keyword, its
  separator and the white space. Ignoring case, \<open>s\<close> also matches U+017F and \<open>k\<close> U+212A.
\<close>

definition same_letter :: "nat \<Rightarrow> nat \<Rightarrow> bool" where
  "same_letter l c \<longleftrightarrow> c = l \<or> c = l - 32 \<or> (l = 115 \<and> c = 383) \<or> (l = 107 \<and> c = 8490)"

fun strip_word :: "ustr \<Rightarrow> ustr \<Rightarrow> ustr option" where
  "strip_word [] s = Some s"
| "strip_word (l # ls) [] = None"
| "strip_word (l # ls) (c # cs) = (if same_letter l c then strip_word ls cs else None)"

definition strip_separator :: "ustr \<Rightarrow> ustr option" where
  "strip_separator s =
     (case s of [] \<Rightarrow> None
      | c # cs \<Rightarrow> if c = 61 \<or> c = 58 then Some (dropWhile is_space cs) else None)"

definition strip_optional :: "ustr \<Rightarrow> ustr" where
  "strip_optional s = (case s of [] \<Rightarrow> [] | c # cs \<Rightarrow> if c = 95 \<or> c = 45 then cs else s)"

definition strip_spaces :: "ustr \<Rightarrow> ustr option" where
  "strip_spaces s =
     (case s of [] \<Rightarrow> None | c # cs \<Rightarrow> if is_space c then Some (dropWhile is_space cs) else None)"

definition keyword :: "string \<Rightarrow> ustr \<Rightarrow> ustr option" where
  "keyword w s = Option.bind (strip_word (lit w) s) strip_separator"

fun first_some :: "('a \<Rightarrow> 'b option) list \<Rightarrow> 'a \<Rightarrow> 'b option" where
  "first_some [] s = None"
| "first_some (f # fs) s = (case f s of Some r \<Rightarrow> Some r | None \<Rightarrow> first_some fs s)"

definition match_header :: "ustr \<Rightarrow> ustr option" where
  "match_header = first_some
     [\<lambda>s. Option.bind (strip_word (lit ''bearer'') s) strip_spaces,
      keyword ''token'',
      \<lambda>s. Option.bind (strip_word (lit ''api'') s) (\<lambda>r. keyword ''key'' (strip_optional r)),
      keyword ''password'',
      keyword ''secret'']"

definition value_char :: "nat \<Rightarrow> bool" where
  "value_char c \<longleftrightarrow> \<not> is_space c \<and> c \<noteq> 44 \<and> c \<noteq> 59"

definition token_match :: "ustr \<Rightarrow> ustr option" where
  "token_match s =
     (case match_header s of
        Some (c # cs) \<Rightarrow> if value_char c then Some (dropWhile value_char cs) else None
      | _ \<Rightarrow> None)"

lemma strip_word_split:
  "strip_word ls s = Some r \<Longrightarrow>
   \<exists>h. s = h @ r \<and> length h = length ls \<and> list_all2 same_letter ls h \<and> (\<forall>t. strip_word ls (h @ t) = Some t)"
proof (induction ls s rule: strip_word.induct)
  case (3 l ls c cs)
  then obtain h where "cs = h @ r" "length h = length ls" "list_all2 same_letter ls h"
      "\<forall>t. strip_word ls (h @ t) = Some t" and "same_letter l c"
    by (auto split: if_splits)
  then show ?case by (intro exI [of _ "c # h"]) simp
qed simp_all

definition lower_letter :: "nat \<Rightarrow> bool" where
  "lower_letter l \<longleftrightarrow> 97 \<le> l \<and> l \<le> 122"

lemma same_letter_not_less: "same_letter l c \<Longrightarrow> lower_letter l \<Longrightarrow> c \<noteq> 60"
  by (auto simp: same_letter_def lower_letter_def)

lemma strip_word_prefix:
  assumes "strip_word (l # ls) s = Some r" and "list_all lower_letter (l # ls)"
  shows "\<exists>c h. s = c # h @ r \<and> same_letter l c \<and> 60 \<notin> set (c # h) \<and>
    (\<forall>t. strip_word (l # ls) (c # h @ t) = Some t)"
proof -
  obtain h' where h': "s = h' @ r" "list_all2 same_letter (l # ls) h'"
      "\<forall>t. strip_word (l # ls) (h' @ t) = Some t"
    using strip_word_split [OF assms(1)] by blast
  then obtain c h where c: "h' = c # h" "same_letter l c" by (auto simp: list_all2_Cons1)
  have "x \<noteq> 60" if "x \<in> set h'" for x
  proof -
    from that obtain i where i: "i < length h'" "x = h' ! i" by (auto simp: in_set_conv_nth)
    with h'(2) have "same_letter ((l # ls) ! i) x" "i < length (l # ls)"
      by (auto simp: list_all2_conv_all_nth)
    moreover from this have "lower_letter ((l # ls) ! i)"
      using assms(2) by (simp only: list_all_length)
    ultimately show ?thesis by (blast dest: same_letter_not_less)
  qed
  then have "60 \<notin> set h'" by blast
  with h' c show ?thesis by (intro exI [of _ c] exI [of _ h]) simp
qed

lemma drop_space_split:
  "\<exists>h. cs = h @ dropWhile is_space cs \<and> list_all is_space h"
  by (intro exI [of _ "takeWhile is_space cs"]) (auto simp: list_all_iff dest: set_takeWhileD)

lemma drop_space_append:
  "list_all is_space h \<Longrightarrow> \<not> is_space x \<Longrightarrow> dropWhile is_space (h @ x # t) = x # t"
  by (induction h) auto

lemma spaces_not_less: "list_all is_space h \<Longrightarrow> 60 \<notin> set h"
  by (auto simp: list_all_iff is_space_def)

lemma strip_separator_split:
  assumes "strip_separator s = Some r"
  shows "\<exists>h. s = h @ r \<and> 60 \<notin> set h \<and>
    (\<forall>x t. \<not> is_space x \<longrightarrow> strip_separator (h @ x # t) = Some (x # t))"
proof -
  from assms obtain c cs where c: "s = c # cs" "c = 61 \<or> c = 58" "r = dropWhile is_space cs"
    by (auto simp: strip_separator_def split: list.splits if_splits)
  obtain h where "cs = h @ r" "list_all is_space h" using drop_space_split c(3) by blast
  with c(1,2) show ?thesis
    by (intro exI [of _ "c # h"]) (auto simp: strip_separator_def drop_space_append dest: spaces_not_less)
qed

text \<open>A word of the pattern followed by what \<open>f\<close> accepts.\<close>

definition header_form :: "(ustr \<Rightarrow> ustr option) \<Rightarrow> bool" where
  "header_form f \<longleftrightarrow> (\<forall>s r. f s = Some r \<longrightarrow>
     (\<exists>h. s = h @ r \<and> 60 \<notin> set h \<and> (\<forall>x t. \<not> is_space x \<longrightarrow> f (h @ x # t) = Some (x # t))))"

lemma header_formD:
  "header_form f \<Longrightarrow> f s = Some r \<Longrightarrow>
   \<exists>h. s = h @ r \<and> 60 \<notin> set h \<and> (\<forall>x t. \<not> is_space x \<longrightarrow> f (h @ x # t) = Some (x # t))"
  by (simp add: header_form_def)

lemma header_form_separator: "header_form strip_separator"
  using strip_separator_split by (simp add: header_form_def)

lemma header_form_word:
  assumes "header_form f" and "list_all lower_letter w"
  shows "header_form (\<lambda>s. Option.bind (strip_word w s) f)"
proof (cases w)
  case Nil
  with assms(1) show ?thesis by (simp add: header_form_def)
next
  case (Cons l ls)
  show ?thesis unfolding header_form_def
  proof (intro allI impI)
    fix s r assume "Option.bind (strip_word w s) f = Some r"
    then obtain m where m: "strip_word w s = Some m" "f m = Some r" by (cases "strip_word w s") auto
    obtain c h where h: "s = c # h @ m" "60 \<notin> set (c # h)" "\<forall>t. strip_word w (c # h @ t) = Some t"
      using strip_word_prefix [of l ls s m] m(1) assms(2) unfolding Cons by blast
    obtain h' where h': "m = h' @ r" "60 \<notin> set h'" "\<forall>x t. \<not> is_space x \<longrightarrow> f (h' @ x # t) = Some (x # t)"
      using header_formD [OF assms(1) m(2)] by blast
    show "\<exists>h. s = h @ r \<and> 60 \<notin> set h \<and>
        (\<forall>x t. \<not> is_space x \<longrightarrow> Option.bind (strip_word w (h @ x # t)) f = Some (x # t))"
      using h h' by (intro exI [of _ "c # h @ h'"]) auto
  qed
qed

lemma header_form_optional:
  assumes "header_form f" and "\<And>c cs. f (c # cs) \<noteq> None \<Longrightarrow> c \<noteq> 95 \<and> c \<noteq> 45" and "f [] = None"
  shows "header_form (\<lambda>s. f (strip_optional s))"
  unfolding header_form_def
proof (intro allI impI)
  fix s r assume f: "f (strip_optional s) = Some r"
  obtain h where h: "strip_optional s = h @ r" "60 \<notin> set h"
      "\<forall>x t. \<not> is_space x \<longrightarrow> f (h @ x # t) = Some (x # t)"
    using header_formD [OF assms(1) f] by blast
  from f assms(3) obtain c cs where c: "s = c # cs" by (cases s) (auto simp: strip_optional_def)
  show "\<exists>h. s = h @ r \<and> 60 \<notin> set h \<and>
      (\<forall>x t. \<not> is_space x \<longrightarrow> f (strip_optional (h @ x # t)) = Some (x # t))"
  proof (cases "c = 95 \<or> c = 45")
    case True
    with c h show ?thesis by (intro exI [of _ "c # h"]) (auto simp: strip_optional_def)
  next
    case False
    with c have s: "strip_optional s = s" by (simp add: strip_optional_def)
    have "strip_optional (h @ x # t) = h @ x # t" if "\<not> is_space x" for x t
    proof -
      from h(3) that have "f (h @ x # t) \<noteq> None" by simp
      then show ?thesis using assms(2)
        by (cases "h @ x # t") (auto simp: strip_optional_def)
    qed
    with s h show ?thesis by (intro exI [of _ h]) auto
  qed
qed

lemma header_form_spaces: "header_form strip_spaces"
  unfolding header_form_def
proof (intro allI impI)
  fix s r assume "strip_spaces s = Some r"
  then obtain c cs where c: "s = c # cs" "is_space c" and r: "r = dropWhile is_space cs"
    by (auto simp: strip_spaces_def split: list.splits if_splits)
  obtain h where "cs = h @ r" "list_all is_space h" using drop_space_split r by blast
  with c show "\<exists>h. s = h @ r \<and> 60 \<notin> set h \<and> (\<forall>x t. \<not> is_space x \<longrightarrow> strip_spaces (h @ x # t) = Some (x # t))"
    using spaces_not_less [of "c # h"]
    by (intro exI [of _ "c # h"]) (auto simp: strip_spaces_def drop_space_append)
qed

definition starts :: "nat \<Rightarrow> (ustr \<Rightarrow> ustr option) \<Rightarrow> bool" where
  "starts l f \<longleftrightarrow> lower_letter l \<and> (\<forall>s. f s \<noteq> None \<longrightarrow> (\<exists>c cs. s = c # cs \<and> same_letter l c))"

lemma same_letter_unique:
  "same_letter a c \<Longrightarrow> same_letter b c \<Longrightarrow> lower_letter a \<Longrightarrow> lower_letter b \<Longrightarrow> a = b"
  by (auto simp: same_letter_def lower_letter_def)

lemma starts_word: "lower_letter l \<Longrightarrow> starts l (\<lambda>s. Option.bind (strip_word (l # ls) s) f)"
  unfolding starts_def
proof (intro conjI allI impI)
  fix s assume "Option.bind (strip_word (l # ls) s) f \<noteq> None"
  then show "\<exists>c cs. s = c # cs \<and> same_letter l c" by (cases s) (auto split: if_splits)
qed

lemma header_form_first_some:
  assumes "list_all2 starts ls fs" and "distinct ls" and "list_all header_form fs"
  shows "header_form (first_some fs)"
  using assms
proof (induction ls fs rule: list_all2_induct)
  case Nil
  then show ?case by (simp add: header_form_def)
next
  case (Cons l ls f fs)
  have rest: "header_form (first_some fs)" using Cons by simp
  have none: "f s = None" if "first_some fs s \<noteq> None" for s
  proof -
    from that obtain g where "g \<in> set fs" "g s \<noteq> None"
      by (induction fs) (auto split: option.splits)
    with Cons.hyps(2) obtain l' where "l' \<in> set ls" "starts l' g"
      by (auto simp: list_all2_conv_all_nth in_set_conv_nth) metis
    show ?thesis
    proof (rule ccontr)
      assume "f s \<noteq> None"
      with Cons.hyps(1) obtain c cs where "s = c # cs" "same_letter l c" "lower_letter l"
        unfolding starts_def by blast
      moreover from \<open>starts l' g\<close> \<open>g s \<noteq> None\<close> \<open>s = c # cs\<close> have "same_letter l' c" "lower_letter l'"
        unfolding starts_def by blast+
      ultimately have "l = l'" using same_letter_unique by blast
      with \<open>l' \<in> set ls\<close> Cons.prems(1) show False by simp
    qed
  qed
  show ?case unfolding header_form_def
  proof (intro allI impI)
    fix s r assume s: "first_some (f # fs) s = Some r"
    show "\<exists>h. s = h @ r \<and> 60 \<notin> set h \<and>
        (\<forall>x t. \<not> is_space x \<longrightarrow> first_some (f # fs) (h @ x # t) = Some (x # t))"
    proof (cases "f s")
      case None
      with s have "first_some fs s = Some r" by simp
      from header_formD [OF rest this] obtain h where h: "s = h @ r" "60 \<notin> set h"
        "\<forall>x t. \<not> is_space x \<longrightarrow> first_some fs (h @ x # t) = Some (x # t)" by blast
      then have "first_some (f # fs) (h @ x # t) = Some (x # t)" if "\<not> is_space x" for x t
        using none [of "h @ x # t"] that by simp
      with h show ?thesis by (intro exI [of _ h]) blast
    next
      case (Some r')
      with s have "f s = Some r" by simp
      moreover have "header_form f" using Cons.prems by simp
      ultimately show ?thesis using header_formD [of f s r] by auto
    qed
  qed
qed

lemma match_header_form: "header_form match_header"
  unfolding match_header_def
proof (rule header_form_first_some [of "[98, 116, 97, 112, 115]"])
  have sep: "header_form (keyword w)" if "list_all lower_letter (lit w)" for w
    unfolding keyword_def using header_form_word [OF header_form_separator that] .
  have key: "header_form (\<lambda>s. keyword ''key'' (strip_optional s))"
  proof (rule header_form_optional)
    show "header_form (keyword ''key'')" by (rule sep) (simp add: lit_def lower_letter_def)
    show "keyword ''key'' (c # cs) \<noteq> None \<Longrightarrow> c \<noteq> 95 \<and> c \<noteq> 45" for c cs
      by (auto simp: keyword_def lit_def same_letter_def split: if_splits)
    show "keyword ''key'' [] = None" by (simp add: keyword_def lit_def)
  qed
  show "list_all header_form
     [\<lambda>s. Option.bind (strip_word (lit ''bearer'') s) strip_spaces, keyword ''token'',
      \<lambda>s. Option.bind (strip_word (lit ''api'') s) (\<lambda>r. keyword ''key'' (strip_optional r)),
      keyword ''password'', keyword ''secret'']"
    using sep header_form_word [OF header_form_spaces] header_form_word [OF key]
    by (simp add: lit_def lower_letter_def)
  show "list_all2 starts [98, 116, 97, 112, 115]
     [\<lambda>s. Option.bind (strip_word (lit ''bearer'') s) strip_spaces, keyword ''token'',
      \<lambda>s. Option.bind (strip_word (lit ''api'') s) (\<lambda>r. keyword ''key'' (strip_optional r)),
      keyword ''password'', keyword ''secret'']"
    unfolding keyword_def lit_def by (simp add: starts_word lower_letter_def)
qed simp

lemma token_match_iff:
  "token_match s \<noteq> None \<longleftrightarrow> (\<exists>x t. match_header s = Some (x # t) \<and> value_char x)"
  by (auto simp: token_match_def split: option.splits list.splits)

lemma token_match_header:
  "match_header s = Some (y # u) \<Longrightarrow> value_char y \<Longrightarrow> token_match s \<noteq> None"
  unfolding token_match_iff by blast

lemma token_match_split:
  assumes "token_match s \<noteq> None"
  shows "\<exists>h x t. s = h @ x # t \<and> value_char x \<and> 60 \<notin> set h \<and>
    (\<forall>y u. value_char y \<longrightarrow> token_match (h @ y # u) \<noteq> None)"
proof -
  from assms obtain x t where m: "match_header s = Some (x # t)" "value_char x"
    unfolding token_match_iff by blast
  obtain h where h: "s = h @ x # t" "60 \<notin> set h"
      "\<forall>y u. \<not> is_space y \<longrightarrow> match_header (h @ y # u) = Some (y # u)"
    using header_formD [OF match_header_form m(1)] by blast
  have "token_match (h @ y # u) \<noteq> None" if "value_char y" for y u
    using h(3) that by (intro token_match_header [of _ y u]) (auto simp: value_char_def)
  with h m(2) show ?thesis by blast
qed

lemma token_match_starts: "token_match (c # cs) \<noteq> None \<Longrightarrow> value_char c"
proof -
  assume "token_match (c # cs) \<noteq> None"
  then have "match_header (c # cs) \<noteq> None" unfolding token_match_iff by auto
  then have "\<exists>l \<in> {98, 116, 97, 112, 115}. same_letter l c"
    by (auto simp: match_header_def keyword_def lit_def split: option.splits if_splits)
  then show "value_char c" by (auto simp: same_letter_def value_char_def is_space_def)
qed

lemma token_match_shorter: "token_match s = Some r \<Longrightarrow> length r < length s"
proof -
  assume "token_match s = Some r"
  then obtain x t where m: "match_header s = Some (x # t)" and r: "r = dropWhile value_char t"
    by (auto simp: token_match_def split: option.splits list.splits if_splits)
  obtain h where "s = h @ x # t" using header_formD [OF match_header_form m] by blast
  then show "length r < length s" using length_dropWhile_le [of value_char t] r by simp
qed

text \<open>
  \<open>TOKEN.sub\<close> replaces the leftmost match and goes on behind it. A match is never empty; the
  length of what is left bounds the recursion.
\<close>

function (sequential) redact_tokens :: "ustr \<Rightarrow> ustr" where
  "redact_tokens [] = []"
| "redact_tokens (c # cs) =
     (case token_match (c # cs) of
        Some r \<Rightarrow> lit ''<redacted>'' @ redact_tokens r
      | None \<Rightarrow> c # redact_tokens cs)"
  by pat_completeness auto
termination by (relation "measure length") (auto dest: token_match_shorter)

definition replace_text :: "ustr \<Rightarrow> ustr \<Rightarrow> ustr \<Rightarrow> ustr" where
  "replace_text old new s = join new (split_sep old s)"

definition redact_diagnostic :: "ustr \<Rightarrow> ustr \<Rightarrow> ustr" where
  "redact_diagnostic home s = take 512 (redact_tokens (replace_text home (lit ''<home>'') s))"

text \<open>
  The redacted text agrees with the original up to the first match, where it has a bracket.
\<close>

lemma redact_tokens_agree:
  "\<exists>p t. s = p @ t \<and>
     (t = [] \<and> redact_tokens s = p \<or>
      token_match t \<noteq> None \<and> (\<exists>u. redact_tokens s = p @ 60 # u))"
proof (induction s rule: redact_tokens.induct)
  case (2 c cs)
  show ?case
  proof (cases "token_match (c # cs)")
    case (Some r)
    then show ?thesis by (intro exI [of _ "[]"] exI [of _ "c # cs"]) (auto simp: lit_def)
  next
    case None
    from "2.IH"(1) [OF None] obtain p t where "cs = p @ t"
      "t = [] \<and> redact_tokens cs = p \<or> token_match t \<noteq> None \<and> (\<exists>u. redact_tokens cs = p @ 60 # u)"
      by blast
    with None show ?thesis by (intro exI [of _ "c # p"] exI [of _ t]) auto
  qed
qed simp

lemma no_match_kept:
  assumes "token_match (c # cs) = None"
  shows "token_match (c # redact_tokens cs) = None"
proof (rule ccontr)
  assume "token_match (c # redact_tokens cs) \<noteq> None"
  then obtain h x v where h: "c # redact_tokens cs = h @ x # v" "value_char x" "60 \<notin> set h"
      "\<And>y u. value_char y \<Longrightarrow> token_match (h @ y # u) \<noteq> None"
    using token_match_split by blast
  obtain p t where p: "cs = p @ t" "t = [] \<and> redact_tokens cs = p \<or>
      token_match t \<noteq> None \<and> (\<exists>u. redact_tokens cs = p @ 60 # u)"
    using redact_tokens_agree by blast
  have "\<exists>y u. c # cs = h @ y # u \<and> value_char y" using p(2)
  proof (elim disjE conjE exE)
    assume "t = []" "redact_tokens cs = p"
    with h p(1) show ?thesis by auto
  next
    fix u assume t: "token_match t \<noteq> None" and "redact_tokens cs = p @ 60 # u"
    with h(1) have "(c # p) @ 60 # u = h @ x # v" by simp
    then consider us where "c # p = h @ us" "us @ 60 # u = x # v" | us where "(c # p) @ us = h" "60 # u = us @ x # v"
      by (auto simp only: append_eq_append_conv2)
    then show ?thesis
    proof cases
      case (1 us)
      show ?thesis
      proof (cases us)
        case Nil
        from t obtain y ys where y: "t = y # ys" "value_char y"
          using token_match_starts by (cases t) (auto simp: token_match_def match_header_def keyword_def lit_def)
        with 1 Nil p(1) show ?thesis by (intro exI [of _ y] exI [of _ ys]) simp
      next
        case (Cons y ys)
        with 1 have "y = x" by simp
        moreover from 1 Cons p(1) have "c # cs = h @ y # ys @ t" by simp
        ultimately show ?thesis using h(2) by blast
      qed
    next
      case (2 us)
      with h(3) have "us = []" by (cases us) auto
      from t obtain y ys where y: "t = y # ys" "value_char y"
        using token_match_starts by (cases t) (auto simp: token_match_def match_header_def keyword_def lit_def)
      with 2 \<open>us = []\<close> p(1) show ?thesis by (intro exI [of _ y] exI [of _ ys]) simp
    qed
  qed
  with h(4) assms show False by metis
qed

fun credential_free :: "ustr \<Rightarrow> bool" where
  "credential_free [] \<longleftrightarrow> True"
| "credential_free (c # cs) \<longleftrightarrow> token_match (c # cs) = None \<and> credential_free cs"

lemma token_match_append: "token_match s \<noteq> None \<Longrightarrow> token_match (s @ t) \<noteq> None"
proof -
  assume "token_match s \<noteq> None"
  then obtain h x u where "s = h @ x # u" "value_char x"
      "\<forall>y u. value_char y \<longrightarrow> token_match (h @ y # u) \<noteq> None"
    using token_match_split by blast
  then show "token_match (s @ t) \<noteq> None" by simp
qed

lemma credential_free_take: "credential_free s \<Longrightarrow> credential_free (take n s)"
proof (induction s arbitrary: n)
  case (Cons c cs)
  then show ?case
    using token_match_append [of "take n (c # cs)" "drop n (c # cs)"]
    by (cases n; cases "token_match (take n (c # cs))") auto
qed simp

lemma no_match_first:
  "\<forall>l \<in> {98, 116, 97, 112, 115}. \<not> same_letter l c \<Longrightarrow> token_match (c # cs) = None"
  by (simp add: token_match_def match_header_def keyword_def lit_def)

lemma credential_free_mark: "credential_free s \<Longrightarrow> credential_free (lit ''<redacted>'' @ s)"
  by (simp add: lit_def no_match_first same_letter_def)
    (simp add: token_match_def match_header_def keyword_def lit_def same_letter_def)

lemma redact_tokens_free: "credential_free (redact_tokens s)"
proof (induction s rule: redact_tokens.induct)
  case (2 c cs)
  then show ?case
    by (cases "token_match (c # cs)") (simp_all add: credential_free_mark no_match_kept)
qed simp

lemma redact_tokens_id: "credential_free s \<Longrightarrow> redact_tokens s = s"
  by (induction s rule: redact_tokens.induct) auto

lemma split_sep_acc_none: "\<not> sublist sep s \<Longrightarrow> split_sep_acc sep acc s = [rev acc @ s]"
  by (induction sep acc s rule: split_sep_acc.induct) (auto simp: sublist_Cons_right)

lemma replace_text_none: "\<not> sublist old s \<Longrightarrow> replace_text old new s = s"
  by (simp add: replace_text_def split_sep_def split_sep_acc_none)



section \<open>Running a command\<close>

text \<open>
  \<open>_collect\<close> reads the two pipes of the child until both are closed, the deadline passes or one
  stream exceeds its limit. One round of its loop is a \<open>Poll\<close>: the monotonic time at the head of
  the loop and, in the order of \<open>select\<close>, the descriptors that were readable with the chunk
  \<open>os.read\<close> returned, empty at the end of the stream. \<open>select\<close> is given the open pipes only; what a
  poll says of a closed pipe is not seen. The times are in microseconds.
\<close>

datatype PipeStream = Pipe_STDOUT | Pipe_STDERR

fun pipe_stream_name :: "PipeStream \<Rightarrow> ustr" where
  "pipe_stream_name Pipe_STDOUT = lit ''stdout''"
| "pipe_stream_name Pipe_STDERR = lit ''stderr''"

record Collected =
  co_stdout_open :: bool
  co_stderr_open :: bool
  co_stdout :: bytes
  co_stderr :: bytes

record Poll =
  po_now :: int
  po_reads :: "(PipeStream \<times> bytes) list"

fun pipe_open :: "Collected \<Rightarrow> PipeStream \<Rightarrow> bool" where
  "pipe_open c Pipe_STDOUT = co_stdout_open c"
| "pipe_open c Pipe_STDERR = co_stderr_open c"

fun close_pipe :: "Collected \<Rightarrow> PipeStream \<Rightarrow> Collected" where
  "close_pipe c Pipe_STDOUT = c\<lparr>co_stdout_open := False\<rparr>"
| "close_pipe c Pipe_STDERR = c\<lparr>co_stderr_open := False\<rparr>"

fun pipe_target :: "Collected \<Rightarrow> PipeStream \<Rightarrow> bytes" where
  "pipe_target c Pipe_STDOUT = co_stdout c"
| "pipe_target c Pipe_STDERR = co_stderr c"

fun set_target :: "Collected \<Rightarrow> PipeStream \<Rightarrow> bytes \<Rightarrow> Collected" where
  "set_target c Pipe_STDOUT b = c\<lparr>co_stdout := b\<rparr>"
| "set_target c Pipe_STDERR b = c\<lparr>co_stderr := b\<rparr>"

fun pipe_limit :: "CommandSpec \<Rightarrow> PipeStream \<Rightarrow> int" where
  "pipe_limit spec Pipe_STDOUT = cs_stdout_limit spec"
| "pipe_limit spec Pipe_STDERR = cs_stderr_limit spec"

definition pipes_open :: "Collected \<Rightarrow> bool" where
  "pipes_open c \<longleftrightarrow> co_stdout_open c \<or> co_stderr_open c"

definition pipe_available :: "CommandSpec \<Rightarrow> Collected \<Rightarrow> PipeStream \<Rightarrow> int" where
  "pipe_available spec c stream = pipe_limit spec stream - int (length (pipe_target c stream))"

definition extend_target :: "CommandSpec \<Rightarrow> Collected \<Rightarrow> PipeStream \<Rightarrow> bytes \<Rightarrow> Collected" where
  "extend_target spec c stream chunk =
     set_target c stream (pipe_target c stream @ take (nat (max (pipe_available spec c stream) 0)) chunk)"

fun read_pipes ::
  "CommandSpec \<Rightarrow> (PipeStream \<times> bytes) list \<Rightarrow> Collected \<Rightarrow> (PipeStream \<times> Collected) + Collected" where
  "read_pipes spec [] c = Inr c"
| "read_pipes spec ((stream, chunk) # reads) c =
     (if \<not> pipe_open c stream then read_pipes spec reads c
      else if chunk = [] then read_pipes spec reads (close_pipe c stream)
      else if pipe_available spec c stream < int (length chunk)
        then Inl (stream, extend_target spec c stream chunk)
      else read_pipes spec reads (extend_target spec c stream chunk))"

fun drain_reads :: "CommandSpec \<Rightarrow> (PipeStream \<times> bytes) list \<Rightarrow> Collected \<Rightarrow> Collected" where
  "drain_reads spec [] c = c"
| "drain_reads spec ((stream, chunk) # reads) c =
     (if \<not> pipe_open c stream then drain_reads spec reads c
      else if chunk = [] then drain_reads spec reads (close_pipe c stream)
      else drain_reads spec reads (extend_target spec c stream chunk))"

fun drain :: "CommandSpec \<Rightarrow> int \<Rightarrow> Poll list \<Rightarrow> Collected \<Rightarrow> Collected" where
  "drain spec deadline [] c = c"
| "drain spec deadline (p # ps) c =
     (if pipes_open c \<and> po_now p < deadline
      then drain spec deadline ps (drain_reads spec (po_reads p) c) else c)"

text \<open>
  The child as the operating system shows it: the polls of the loop, the polls of the drain after
  the process group was stopped with the time it starts at, the time after the loop, and what
  \<open>wait\<close> returns, \<open>None\<close> when it runs into its timeout.
\<close>

record Child =
  ch_polls :: "Poll list"
  ch_stopped_at :: int
  ch_drain :: "Poll list"
  ch_closed_at :: int
  ch_wait :: "int option"

definition finish :: "Child \<Rightarrow> int \<Rightarrow> Collected \<Rightarrow> CommandResult" where
  "finish child deadline c =
     (if deadline - ch_closed_at child \<le> 0 then CommandTimedOut (co_stdout c) (co_stderr c)
      else case ch_wait child of
             None \<Rightarrow> CommandTimedOut (co_stdout c) (co_stderr c)
           | Some returncode \<Rightarrow>
               if returncode = 0 then CommandSucceeded (co_stdout c) (co_stderr c)
               else CommandExited returncode (co_stdout c) (co_stderr c))"

definition drained :: "CommandSpec \<Rightarrow> Child \<Rightarrow> Collected \<Rightarrow> Collected" where
  "drained spec child c = drain spec (ch_stopped_at child + 200000) (ch_drain child) c"

fun collect_loop :: "CommandSpec \<Rightarrow> Child \<Rightarrow> int \<Rightarrow> Poll list \<Rightarrow> Collected \<Rightarrow> CommandResult option" where
  "collect_loop spec child deadline polls c =
     (if \<not> pipes_open c then Some (finish child deadline c)
      else case polls of
             [] \<Rightarrow> None
           | p # ps \<Rightarrow>
               if deadline - po_now p \<le> 0
               then let d = drained spec child c in Some (CommandTimedOut (co_stdout d) (co_stderr d))
               else (case read_pipes spec (po_reads p) c of
                       Inl (stream, c') \<Rightarrow>
                         let d = drained spec child c'
                         in Some (CommandOutputExceeded (pipe_stream_name stream) (co_stdout d) (co_stderr d))
                     | Inr c' \<Rightarrow> collect_loop spec child deadline ps c'))"

declare collect_loop.simps [simp del]

definition collect_output :: "CommandSpec \<Rightarrow> Child \<Rightarrow> int \<Rightarrow> CommandResult option" where
  "collect_output spec child started =
     collect_loop spec child (started + cs_timeout_seconds spec * 1000000) (ch_polls child)
       \<lparr>co_stdout_open = True, co_stderr_open = True, co_stdout = [], co_stderr = []\<rparr>"

text \<open>
  What starting a command meets: the executable is absent or not executable, \<open>Popen\<close> raises, the
  child has no output pipes, or a child with the given command line is started. \<open>None\<close> is a child that neither ends nor lets the
  clock reach its deadline.
\<close>

datatype Spawn =
    Not_Executable
  | Popen_Not_Found
  | Popen_Not_Permitted ustr
  | Without_Pipes
  | Spawned int Child

definition run_spec ::
  "ustr \<Rightarrow> (ustr list \<Rightarrow> Spawn) \<Rightarrow> CommandSpec \<Rightarrow> ustr list \<Rightarrow> CommandResult option" where
  "run_spec home spawn spec arguments =
     (if \<not> arguments_allowed (cs_argument_policy spec) arguments
      then Some (CommandRejected (lit ''arguments are not permitted for this command''))
      else case spawn (cs_executable spec # cs_base_argv spec @ arguments) of
             Not_Executable \<Rightarrow> Some (CommandMissing (redact_diagnostic home (cs_executable spec)))
           | Popen_Not_Found \<Rightarrow> Some (CommandMissing (redact_diagnostic home (cs_executable spec)))
           | Popen_Not_Permitted e \<Rightarrow> Some (CommandMissing (redact_diagnostic home e))
           | Without_Pipes \<Rightarrow> Some (CommandMissing (lit ''command output pipes are unavailable''))
           | Spawned started child \<Rightarrow> collect_output spec child started)"

definition run_command ::
  "ustr \<Rightarrow> (ustr list \<Rightarrow> Spawn) \<Rightarrow> CommandName \<Rightarrow> ustr list \<Rightarrow> CommandResult option" where
  "run_command home spawn name arguments = run_spec home spawn (COMMAND_SPECS home name) arguments"

section \<open>What a run returns\<close>

fun stream_output :: "PipeStream \<Rightarrow> (PipeStream \<times> bytes) list \<Rightarrow> bytes" where
  "stream_output s [] = []"
| "stream_output s ((s', chunk) # reads) =
     (if s' = s then if chunk = [] then [] else chunk @ stream_output s reads
      else stream_output s reads)"

definition whole_output :: "Collected \<Rightarrow> PipeStream \<Rightarrow> (PipeStream \<times> bytes) list \<Rightarrow> bytes" where
  "whole_output c s reads = pipe_target c s @ (if pipe_open c s then stream_output s reads else [])"

definition within :: "CommandSpec \<Rightarrow> Collected \<Rightarrow> bool" where
  "within spec c \<longleftrightarrow> (\<forall>s. int (length (pipe_target c s)) \<le> pipe_limit spec s)"

lemma close_pipe_select [simp]:
  "pipe_target (close_pipe c s) s' = pipe_target c s'"
  "pipe_open (close_pipe c s) s' \<longleftrightarrow> pipe_open c s' \<and> s' \<noteq> s"
  by (cases s; cases s'; simp)+

lemma set_target_select [simp]:
  "pipe_target (set_target c s b) s' = (if s' = s then b else pipe_target c s')"
  "pipe_open (set_target c s b) s' = pipe_open c s'"
  by (cases s; cases s'; simp)+

lemma extend_target_open [simp]: "pipe_open (extend_target spec c s b) s' = pipe_open c s'"
  by (simp add: extend_target_def)

lemma extend_target_within: "within spec c \<Longrightarrow> within spec (extend_target spec c s b)"
proof -
  assume w: "within spec c"
  then have "int (length (pipe_target c s)) \<le> pipe_limit spec s" by (simp add: within_def)
  then have "int (length (pipe_target c s @ take (nat (max (pipe_available spec c s) 0)) b)) \<le> pipe_limit spec s"
    by (simp add: pipe_available_def)
  with w show ?thesis by (auto simp: within_def extend_target_def)
qed

lemma close_pipe_within: "within spec c \<Longrightarrow> within spec (close_pipe c s)"
  by (simp add: within_def)

lemma extend_target_fits:
  "int (length b) \<le> pipe_available spec c s \<Longrightarrow>
   extend_target spec c s b = set_target c s (pipe_target c s @ b)"
  by (simp add: extend_target_def)

lemma read_pipes_within:
  "within spec c \<Longrightarrow> read_pipes spec reads c = Inr c' \<Longrightarrow> within spec c'"
  "within spec c \<Longrightarrow> read_pipes spec reads c = Inl (s, c') \<Longrightarrow> within spec c'"
  by (induction spec reads c rule: read_pipes.induct)
    (auto simp: extend_target_within close_pipe_within split: if_splits)

lemma read_pipes_whole:
  "read_pipes spec reads c = Inr c' \<Longrightarrow> whole_output c' s rest = whole_output c s (reads @ rest)"
  by (induction spec reads c rule: read_pipes.induct)
    (auto simp: whole_output_def extend_target_fits split: if_splits)

lemma drain_reads_within: "within spec c \<Longrightarrow> within spec (drain_reads spec reads c)"
  by (induction spec reads c rule: drain_reads.induct)
    (auto simp: extend_target_within close_pipe_within)

lemma drain_within: "within spec c \<Longrightarrow> within spec (drain spec deadline ps c)"
  by (induction spec deadline ps c rule: drain.induct) (auto simp: drain_reads_within)

fun result_within :: "CommandSpec \<Rightarrow> CommandResult \<Rightarrow> bool" where
  "result_within spec (CommandSucceeded a b) \<longleftrightarrow>
     int (length a) \<le> cs_stdout_limit spec \<and> int (length b) \<le> cs_stderr_limit spec"
| "result_within spec (CommandExited _ a b) \<longleftrightarrow>
     int (length a) \<le> cs_stdout_limit spec \<and> int (length b) \<le> cs_stderr_limit spec"
| "result_within spec (CommandTimedOut a b) \<longleftrightarrow>
     int (length a) \<le> cs_stdout_limit spec \<and> int (length b) \<le> cs_stderr_limit spec"
| "result_within spec (CommandOutputExceeded _ a b) \<longleftrightarrow>
     int (length a) \<le> cs_stdout_limit spec \<and> int (length b) \<le> cs_stderr_limit spec"
| "result_within spec (CommandMissing d) \<longleftrightarrow> length d \<le> 512"
| "result_within spec (CommandRejected d) \<longleftrightarrow> length d \<le> 512"

lemma within_outputs:
  "within spec c \<Longrightarrow>
   int (length (co_stdout c)) \<le> cs_stdout_limit spec \<and> int (length (co_stderr c)) \<le> cs_stderr_limit spec"
  unfolding within_def by (metis pipe_limit.simps pipe_target.simps)

lemma drained_outputs:
  "within spec c \<Longrightarrow>
   int (length (co_stdout (drained spec child c))) \<le> cs_stdout_limit spec \<and>
   int (length (co_stderr (drained spec child c))) \<le> cs_stderr_limit spec"
  unfolding drained_def by (rule within_outputs, rule drain_within)

lemma finish_within: "within spec c \<Longrightarrow> result_within spec (finish child deadline c)"
  using within_outputs [of spec c] by (simp add: finish_def split: option.split)

lemma collect_loop_within:
  "within spec c \<Longrightarrow> collect_loop spec child deadline polls c = Some r \<Longrightarrow> result_within spec r"
proof (induction polls arbitrary: c)
  case Nil
  then show ?case by (auto simp: collect_loop.simps [of _ _ _ "[]"] finish_within split: if_splits)
next
  case (Cons p ps)
  show ?case
  proof (cases "read_pipes spec (po_reads p) c")
    case (Inl x)
    then obtain s c' where "read_pipes spec (po_reads p) c = Inl (s, c')" by (cases x) auto
    with Cons.prems read_pipes_within(2) show ?thesis
      by (auto simp: collect_loop.simps [of _ _ _ "p # ps"] Let_def finish_within drained_outputs
          split: if_splits)
  next
    case (Inr c')
    with Cons.prems(1) have "within spec c'" by (rule read_pipes_within(1))
    with Inr Cons.prems Cons.IH [of c'] show ?thesis
      by (auto simp: collect_loop.simps [of _ _ _ "p # ps"] Let_def finish_within drained_outputs
          split: if_splits)
  qed
qed

lemma collect_loop_complete:
  "collect_loop spec child deadline polls c = Some (CommandSucceeded a b) \<Longrightarrow>
   a = whole_output c Pipe_STDOUT (concat (map po_reads polls)) \<and>
   b = whole_output c Pipe_STDERR (concat (map po_reads polls)) \<and>
   ch_wait child = Some 0 \<and> ch_closed_at child < deadline"
proof (induction spec child deadline polls c rule: collect_loop.induct)
  case (1 spec child deadline polls c)
  show ?case
  proof (cases "pipes_open c")
    case False
    with 1(2) show ?thesis
      by (auto simp: collect_loop.simps [of spec child deadline polls c] finish_def whole_output_def
          pipes_open_def split: if_splits option.splits)
  next
    case True
    with 1(2) obtain p ps c' where "polls = p # ps" "\<not> deadline - po_now p \<le> 0"
      "read_pipes spec (po_reads p) c = Inr c'"
      "collect_loop spec child deadline ps c' = Some (CommandSucceeded a b)"
      by (auto simp: collect_loop.simps [of spec child deadline polls c] Let_def
          split: if_splits list.splits sum.splits)
    with 1(1) True show ?thesis by (simp add: read_pipes_whole)
  qed
qed

lemma collect_loop_returns:
  "\<exists>p \<in> set polls. deadline \<le> po_now p \<Longrightarrow> \<exists>r. collect_loop spec child deadline polls c = Some r"
proof (induction polls arbitrary: c)
  case (Cons p ps)
  then show ?case
    by (auto simp: collect_loop.simps [of _ _ _ "p # ps"] Let_def split: sum.split)
qed simp

lemma COMMAND_SPECS_limits [simp]:
  "cs_stdout_limit (COMMAND_SPECS home name) = 2097152"
  "cs_stderr_limit (COMMAND_SPECS home name) = 2097152"
  by (cases name; simp add: command_spec_def flatpak_list_def flatpak_updates_def
      DEFAULT_OUTPUT_def MIB_def)+

lemma COMMAND_SPECS_checked: "command_spec_check (COMMAND_SPECS home name) = Inr ()"
  by (cases name; simp add: command_spec_def flatpak_list_def flatpak_updates_def
      command_spec_check_def DEFAULT_OUTPUT_def MIB_def)

lemma COMMAND_SPECS_policy:
  "cs_argument_policy (COMMAND_SPECS home name) =
     (if name = VERCMP then Policy_VERSION_PAIR
      else if name = NOTIFY then Policy_NOTIFICATION_TEXT else Policy_NONE)"
  by (cases name; simp add: command_spec_def flatpak_list_def flatpak_updates_def)

lemma COMMAND_SPECS_executable: "prefix (lit ''/usr/bin/'') (cs_executable (COMMAND_SPECS home name))"
  by (cases name; simp add: command_spec_def flatpak_list_def flatpak_updates_def)

lemma redact_diagnostic_length: "length (redact_diagnostic home s) \<le> 512"
  by (simp add: redact_diagnostic_def)

text \<open>
  C32: A command always comes back with bounded output. If the clock of every child that may be
  started reaches its deadline, as a clock does, \<open>run_command\<close> returns for every command and
  every arguments, and neither stream of the result is longer than two MiB, nor a diagnostic
  longer than 512 characters, however much the child writes.
\<close>

theorem run_command_returns:
  assumes "\<And>argv started child. spawn argv = Spawned started child \<Longrightarrow>
    \<exists>p \<in> set (ch_polls child).
      started + cs_timeout_seconds (COMMAND_SPECS home name) * 1000000 \<le> po_now p"
  shows "\<exists>r. run_command home spawn name arguments = Some r \<and>
    result_within (COMMAND_SPECS home name) r \<and>
    cs_stdout_limit (COMMAND_SPECS home name) = 2 * 1024 * 1024 \<and>
    cs_stderr_limit (COMMAND_SPECS home name) = 2 * 1024 * 1024"
proof -
  let ?spec = "COMMAND_SPECS home name"
  have within: "within ?spec \<lparr>co_stdout_open = True, co_stderr_open = True, co_stdout = [], co_stderr = []\<rparr>"
    unfolding within_def
  proof
    fix s show "int (length (pipe_target \<lparr>co_stdout_open = True, co_stderr_open = True,
        co_stdout = [], co_stderr = []\<rparr> s)) \<le> pipe_limit ?spec s" by (cases s) simp_all
  qed
  have "\<exists>r. collect_output ?spec child started = Some r \<and> result_within ?spec r"
    if "spawn argv = Spawned started child" for argv started child
    using assms [OF that] collect_loop_returns collect_loop_within [OF within]
    unfolding collect_output_def by blast
  then show ?thesis
    by (auto simp: run_command_def run_spec_def redact_diagnostic_length split: Spawn.split)
qed

definition echo_child :: "int \<Rightarrow> Spawn" where
  "echo_child t = Spawned 0 \<lparr>ch_polls = [\<lparr>po_now = t, po_reads = []\<rparr>], ch_stopped_at = t,
     ch_drain = [], ch_closed_at = t, ch_wait = None\<rparr>"

theorem run_command_returns_witness:
  "\<exists>r. run_command [] (\<lambda>_. echo_child 15000000) VERCMP [lit ''1'', lit ''2''] = Some r"
  using run_command_returns [of "\<lambda>_. echo_child 15000000" "[]" VERCMP "[lit ''1'', lit ''2'']"]
  by (auto simp: echo_child_def command_spec_def)

text \<open>
  C33: Success is never partial. A run is reported as succeeded only if the arguments are permitted,
  the child of the registry's command line was started and ended with status 0 before the deadline,
  and then both outputs are everything the child wrote up to the end of each stream.
\<close>

theorem run_command_complete:
  assumes "run_command home spawn name arguments = Some (CommandSucceeded out err)"
  shows "\<exists>started child.
    arguments_allowed (cs_argument_policy (COMMAND_SPECS home name)) arguments \<and>
    spawn (cs_executable (COMMAND_SPECS home name) # cs_base_argv (COMMAND_SPECS home name) @ arguments) =
      Spawned started child \<and>
    ch_wait child = Some 0 \<and>
    ch_closed_at child < started + cs_timeout_seconds (COMMAND_SPECS home name) * 1000000 \<and>
    out = stream_output Pipe_STDOUT (concat (map po_reads (ch_polls child))) \<and>
    err = stream_output Pipe_STDERR (concat (map po_reads (ch_polls child)))"
  using assms
  by (auto simp: run_command_def run_spec_def collect_output_def whole_output_def
      dest!: collect_loop_complete split: if_splits Spawn.splits)

definition version_child :: Child where
  "version_child = \<lparr>ch_polls = [\<lparr>po_now = 1, po_reads = [(Pipe_STDOUT, [49]), (Pipe_STDERR, [])]\<rparr>,
     \<lparr>po_now = 2, po_reads = [(Pipe_STDOUT, [10])]\<rparr>, \<lparr>po_now = 3, po_reads = [(Pipe_STDOUT, [])]\<rparr>],
     ch_stopped_at = 0, ch_drain = [], ch_closed_at = 4, ch_wait = Some 0\<rparr>"

lemma version_child_runs:
  "run_command [] (\<lambda>_. Spawned 0 version_child) VERCMP [lit ''2'', lit ''1''] =
     Some (CommandSucceeded [49, 10] [])"
  by (simp add: run_command_def run_spec_def command_spec_def arguments_allowed_def lit_def
      collect_output_def version_child_def collect_loop.simps pipes_open_def pipe_available_def
      extend_target_def finish_def DEFAULT_OUTPUT_def MIB_def)

theorem run_command_complete_witness:
  "stream_output Pipe_STDOUT (concat (map po_reads (ch_polls version_child))) = [49, 10]"
  using run_command_complete [OF version_child_runs] by auto

text \<open>
  C34: The command line is closed. Every specification of the registry passes the checks of its
  constructor. What \<open>run_command\<close> starts is an executable under \<open>/usr/bin\<close> with
  the arguments of the registry; only \<open>vercmp\<close> and \<open>notify-send\<close> take further arguments, two of at
  most 4096 characters without NUL, and with other arguments nothing is started: the result does
  not depend on what the operating system would do for any other command line.
\<close>

theorem run_command_confined:
  "command_spec_check (COMMAND_SPECS home name) = Inr () \<and>
   prefix (lit ''/usr/bin/'') (cs_executable (COMMAND_SPECS home name)) \<and>
   (spawn (cs_executable (COMMAND_SPECS home name) # cs_base_argv (COMMAND_SPECS home name) @ arguments) =
    spawn' (cs_executable (COMMAND_SPECS home name) # cs_base_argv (COMMAND_SPECS home name) @ arguments) \<or>
    arguments \<noteq> [] \<and> name \<notin> {VERCMP, NOTIFY} \<or>
    name \<in> {VERCMP, NOTIFY} \<and> (length arguments \<noteq> 2 \<or> (\<exists>a \<in> set arguments. 0 \<in> set a \<or> 4096 < length a)) \<longrightarrow>
    run_command home spawn name arguments = run_command home spawn' name arguments)"
  by (auto simp: COMMAND_SPECS_checked COMMAND_SPECS_executable run_command_def run_spec_def COMMAND_SPECS_policy
      arguments_allowed_def list_all_iff)

theorem run_command_confined_witness:
  "run_command [] (\<lambda>_. Not_Executable) PACMAN_NATIVE [lit ''-S''] =
   run_command [] (\<lambda>_. Popen_Not_Found) PACMAN_NATIVE [lit ''-S'']"
  using run_command_confined [of "[]" PACMAN_NATIVE "\<lambda>_. Not_Executable" "[lit ''-S'']" "\<lambda>_. Popen_Not_Found"]
  by simp

end
