(* ===== verification/Notification_Policy.thy ===== *)
theory Notification_Policy
  imports Notification_Batch Scan_Facts Runner
begin

text \<open>
  Which notifications a snapshot calls for: \<open>notification_policy.py\<close> for permanent watches and
  fixed security findings, and \<open>conditional_security_policy.py\<close> for temporary watches that wait for
  a security fix. Both modules have their own copies of a few helpers; each copy is a definition
  here, and a lemma says which of them agree.
\<close>

section \<open>Text\<close>

text \<open>
  \<open>html.escape\<close> replaces the ampersand first, so that its successive replacements are one
  replacement of each character.
\<close>

definition escape_char :: "bool \<Rightarrow> nat \<Rightarrow> ustr" where
  "escape_char quote c =
     (if c = 38 then lit ''&amp;''
      else if c = 60 then lit ''&lt;''
      else if c = 62 then lit ''&gt;''
      else if quote \<and> c = 34 then lit ''&quot;''
      else if quote \<and> c = 39 then lit ''&#x27;''
      else [c])"

definition html_escape :: "bool \<Rightarrow> ustr \<Rightarrow> ustr" where
  "html_escape quote s = concat (map (escape_char quote) s)"

definition MAX_TEXT :: nat where
  "MAX_TEXT = 256"

definition policy_text :: "ustr \<Rightarrow> ustr" where
  "policy_text s = html_escape True (take MAX_TEXT (map (\<lambda>c. if c = 0 then 63 else c) s))"

definition condition_text :: "ustr \<Rightarrow> ustr" where
  "condition_text s = take MAX_TEXT (html_escape False s)"

definition policy_digest :: "ustr list \<Rightarrow> ustr" where
  "policy_digest parts = sha256_hexdigest (utf8_encode (join [0] parts))"

definition condition_digest :: "ustr list \<Rightarrow> ustr" where
  "condition_digest parts = sha256_hexdigest (utf8_encode (join [0] parts))"

section \<open>Freshness and eligibility\<close>

definition current_provenance :: "Provenance \<Rightarrow> bool" where
  "current_provenance provenance =
     (case provenance of Prov_LIVE \<Rightarrow> True | Prov_CACHE \<Rightarrow> True | Prov_FALLBACK \<Rightarrow> True
      | Prov_LAST_GOOD \<Rightarrow> False)"

definition live_provenance :: "Provenance \<Rightarrow> bool" where
  "live_provenance provenance =
     (case provenance of Prov_LIVE \<Rightarrow> True | Prov_CACHE \<Rightarrow> False | Prov_FALLBACK \<Rightarrow> False
      | Prov_LAST_GOOD \<Rightarrow> False)"

definition fresh_status :: "SourceHealth \<Rightarrow> datetime \<Rightarrow> bool" where
  "fresh_status health now =
     (case sh_status health of
        Status_OK \<Rightarrow> sh_observed_at health \<le> now \<and> now \<le> sh_fresh_until health
      | _ \<Rightarrow> False)"

definition condition_fresh_status :: "SourceHealth \<Rightarrow> datetime \<Rightarrow> bool" where
  "condition_fresh_status health now =
     (case sh_status health of
        Status_OK \<Rightarrow> sh_observed_at health \<le> now \<and> now \<le> sh_fresh_until health
      | _ \<Rightarrow> False)"

definition snapshot_health :: "SnapshotResponse \<Rightarrow> SourceName \<Rightarrow> SourceHealth option" where
  "snapshot_health snapshot source =
     find (\<lambda>h. sh_source h = source) (sp_sources (sr_payload snapshot))"

definition fresh_source :: "SnapshotResponse \<Rightarrow> SourceName \<Rightarrow> datetime \<Rightarrow> bool" where
  "fresh_source snapshot source now =
     (case snapshot_health snapshot source of None \<Rightarrow> False
      | Some health \<Rightarrow> current_provenance (sh_provenance health) \<and> fresh_status health now)"

definition condition_fresh_source :: "SnapshotResponse \<Rightarrow> SourceName \<Rightarrow> datetime \<Rightarrow> bool" where
  "condition_fresh_source snapshot source now =
     (case snapshot_health snapshot source of None \<Rightarrow> False
      | Some health \<Rightarrow> live_provenance (sh_provenance health) \<and> condition_fresh_status health now)"

fun source_name_of :: "ItemSource \<Rightarrow> SourceName" where
  "source_name_of Item_OMARCHY = Src_OMARCHY"
| "source_name_of Item_ARCH = Src_ARCH"
| "source_name_of Item_AUR = Src_AUR"
| "source_name_of Item_FLATPAK = Src_FLATPAK"
| "source_name_of Item_MISE = Src_MISE"

definition fresh_item :: "SnapshotResponse \<Rightarrow> ItemSource \<Rightarrow> Provenance \<Rightarrow> datetime \<Rightarrow> bool" where
  "fresh_item snapshot source provenance now \<longleftrightarrow>
     current_provenance provenance \<and> fresh_source snapshot (source_name_of source) now"

definition is_fixed :: "ArchStatus \<Rightarrow> bool" where
  "is_fixed status = (case status of Arch_FIXED \<Rightarrow> True | _ \<Rightarrow> False)"

definition notifiable_severity :: "Severity \<Rightarrow> Severity \<Rightarrow> bool" where
  "notifiable_severity severity minimum =
     (case severity of Sev_CRITICAL \<Rightarrow> True | Sev_HIGH \<Rightarrow> minimum \<noteq> Sev_CRITICAL | _ \<Rightarrow> False)"

definition condition_notifiable :: "Severity \<Rightarrow> Severity \<Rightarrow> bool" where
  "condition_notifiable severity minimum =
     (case severity of Sev_CRITICAL \<Rightarrow> True | Sev_HIGH \<Rightarrow> minimum \<noteq> Sev_CRITICAL | _ \<Rightarrow> False)"

definition eligible_security :: "SecurityFinding \<Rightarrow> Severity \<Rightarrow> bool" where
  "eligible_security finding minimum \<longleftrightarrow>
     prefix (lit ''arch:'') (sf_item_id finding) \<and> current_provenance (sf_provenance finding) \<and>
     is_fixed (sf_status finding) \<and> notifiable_severity (sf_severity finding) minimum"

definition change_of :: "PersistentState \<Rightarrow> ustr \<Rightarrow> ustr \<Rightarrow> NotificationChange" where
  "change_of state fingerprint reference =
     (if ledger_entry state fingerprint \<noteq> None then Change_UNCHANGED
      else if list_ex (\<lambda>e. prefix reference (le_fingerprint e)) (ps_ledger state) then Change_NEW
      else Change_FIRST)"

definition condition_change :: "LedgerEntry list \<Rightarrow> ustr \<Rightarrow> ustr \<Rightarrow> NotificationChange" where
  "condition_change ledger fingerprint reference =
     (if ledger_find ledger fingerprint \<noteq> None then Change_UNCHANGED
      else if list_ex (\<lambda>e. prefix reference (le_fingerprint e)) ledger then Change_NEW
      else Change_FIRST)"

section \<open>Conditional security watches\<close>

record ConditionalSecurityCandidate =
  cc_candidate :: NotificationCandidate
  cc_finding_id :: ustr

definition matching_finding ::
  "SnapshotResponse \<Rightarrow> WatchRecord \<Rightarrow> SecurityFixCondition \<Rightarrow> SecurityFinding option" where
  "matching_finding snapshot watch condition =
     find (\<lambda>f. sf_item_id f = w_item_id watch \<and> sf_advisory_id f = fc_advisory_id condition \<and>
               sf_fixed_version f = Some (fc_fixed_version condition) \<and>
               set (sf_cve_ids f) = set (fc_cve_ids condition))
       (concat (map sg_findings
         (filter (\<lambda>g. sg_item_id g = w_item_id watch) (sp_findings (sr_payload snapshot)))))"

definition conditional_security_owned_findings :: "PersistentState \<Rightarrow> SnapshotResponse \<Rightarrow> ustr set" where
  "conditional_security_owned_findings state snapshot =
     set (collect_some (\<lambda>w.
       if w_mode w = Watch_TEMPORARY
       then (case w_condition w of None \<Rightarrow> None
             | Some condition \<Rightarrow> map_option sf_finding_id (matching_finding snapshot w condition))
       else None) (ps_watches state))"

definition condition_reference :: "WatchRecord \<Rightarrow> SecurityFixCondition \<Rightarrow> ustr" where
  "condition_reference watch condition =
     lit ''security-condition-v1:'' @ w_item_id watch @ lit '':'' @ fc_advisory_id condition @ lit '':''"

definition condition_notification ::
  "LedgerEntry list \<Rightarrow> WatchRecord \<Rightarrow> SecurityFixCondition \<Rightarrow> ustr \<Rightarrow> NotificationCandidate" where
  "condition_notification ledger watch condition candidate =
     (let reference = condition_reference watch condition;
          fingerprint = reference @
            condition_digest (fc_fixed_version condition # candidate # fc_cve_ids condition)
      in \<lparr>nc_fingerprint = fingerprint, nc_reference = reference,
          nc_kind = NKind_SECURITY_CONDITION,
          nc_change = condition_change ledger fingerprint reference,
          nc_title = lit ''Security fix update available'',
          nc_body = lit ''Security condition for '' @ condition_text (w_item_id watch) @ lit '': '' @
            condition_text (fc_advisory_id condition) @ lit '' ('' @
            condition_text (join (lit '', '') (fc_cve_ids condition)) @
            lit ''); installable candidate '' @ condition_text candidate @
            lit ''; fixed version '' @ condition_text (fc_fixed_version condition) @ lit ''.''\<rparr>)"

definition condition_item :: "SnapshotResponse \<Rightarrow> WatchRecord \<Rightarrow> NormalizedItem option" where
  "condition_item snapshot watch =
     find (\<lambda>i. ni_item_id i = w_item_id watch \<and> ni_source i = Item_ARCH \<and>
               ni_candidate i \<noteq> None \<and> live_provenance (ni_provenance i))
       (sp_items (sr_payload snapshot))"

definition condition_candidate ::
  "PersistentState \<Rightarrow> SnapshotResponse \<Rightarrow> WatchRecord \<Rightarrow> SecurityFixCondition \<Rightarrow> NotificationSettings
     \<Rightarrow> runner \<Rightarrow> ConditionalSecurityCandidate option" where
  "condition_candidate state snapshot watch condition settings run =
     (if w_mode watch \<noteq> Watch_TEMPORARY then None
      else case Option.bind (condition_item snapshot watch) ni_candidate of
             None \<Rightarrow> None
           | Some candidate \<Rightarrow>
         (case matching_finding snapshot watch condition of
             None \<Rightarrow> None
           | Some finding \<Rightarrow>
               if sf_status finding \<noteq> Arch_FIXED \<or> \<not> live_provenance (sf_provenance finding) \<or>
                  \<not> condition_notifiable (sf_severity finding) (ns_security_minimum_severity settings)
               then None
               else (case compare_versions run candidate (fc_fixed_version condition) of
                       Inr sign \<Rightarrow>
                         if 0 \<le> sign
                         then Some \<lparr>cc_candidate =
                                condition_notification (ps_ledger state) watch condition candidate,
                              cc_finding_id = sf_finding_id finding\<rparr>
                         else None
                     | Inl _ \<Rightarrow> None)))"

definition conditional_security_candidates ::
  "PersistentState \<Rightarrow> SnapshotResponse \<Rightarrow> datetime \<Rightarrow> NotificationSettings \<Rightarrow> runner
     \<Rightarrow> ConditionalSecurityCandidate list" where
  "conditional_security_candidates state snapshot now settings run =
     (if \<not> ns_notify_security settings \<or>
         \<not> (condition_fresh_source snapshot Src_ARCH now \<and>
            condition_fresh_source snapshot Src_SECURITY now)
      then []
      else collect_some (\<lambda>w.
        case w_condition w of None \<Rightarrow> None
        | Some condition \<Rightarrow> condition_candidate state snapshot w condition settings run)
        (ps_watches state))"

section \<open>Candidates\<close>

definition watch_reference :: "NormalizedItem \<Rightarrow> ustr" where
  "watch_reference item = lit ''watch-v1:'' @ ni_item_id item @ lit '':''"

definition watch_candidate :: "PersistentState \<Rightarrow> NormalizedItem \<Rightarrow> ustr \<Rightarrow> ustr \<Rightarrow> ustr \<Rightarrow> NotificationCandidate" where
  "watch_candidate state item candidate installed_fingerprint candidate_fingerprint =
     (let fingerprint = watch_notification_reference (ni_item_id item) candidate_fingerprint
            (Some installed_fingerprint);
          reference = watch_reference item
      in \<lparr>nc_fingerprint = fingerprint, nc_reference = reference, nc_kind = NKind_WATCH,
          nc_change = change_of state fingerprint reference,
          nc_title = lit ''Watched update available'',
          nc_body = lit ''Watched item '' @ policy_text (ni_label item) @ lit '' has update '' @
            policy_text candidate @ lit '' available.''\<rparr>)"

definition watch_candidates ::
  "PersistentState \<Rightarrow> SnapshotResponse \<Rightarrow> datetime \<Rightarrow> NotificationSettings \<Rightarrow> NotificationCandidate list" where
  "watch_candidates state snapshot now settings =
     (if \<not> ns_notify_permanent settings then []
      else
        let watched_ids = w_item_id ` set (filter (\<lambda>w. w_mode w = Watch_PERMANENT) (ps_watches state))
        in collect_some (\<lambda>item.
             if ni_item_id item \<notin> watched_ids then None
             else case (ni_candidate item, ni_installed_fingerprint item, ni_candidate_fingerprint item) of
                    (Some candidate, Some installed, Some offered) \<Rightarrow>
                      if fresh_item snapshot (ni_source item) (ni_provenance item) now
                      then Some (watch_candidate state item candidate installed offered) else None
                  | _ \<Rightarrow> None) (sp_items (sr_payload snapshot)))"

definition security_reference :: "SecurityFinding \<Rightarrow> ustr" where
  "security_reference finding =
     lit ''security-v1:'' @
     policy_digest [lit ''security'', sf_item_id finding, sf_advisory_id finding] @ lit '':''"

definition security_candidate :: "PersistentState \<Rightarrow> SecurityFinding \<Rightarrow> ustr \<Rightarrow> NotificationCandidate" where
  "security_candidate state finding fixed =
     (let reference = security_reference finding;
          fingerprint = reference @
            policy_digest (fixed # severity_value (sf_severity finding) # sort (sf_cve_ids finding))
      in \<lparr>nc_fingerprint = fingerprint, nc_reference = reference, nc_kind = NKind_SECURITY,
          nc_change = change_of state fingerprint reference,
          nc_title = lit ''Security update available'',
          nc_body = lit ''Security update for '' @ policy_text (sf_item_id finding) @ lit '': '' @
            policy_text (sf_advisory_id finding) @ lit '' is fixed in '' @ policy_text fixed @
            lit '' ('' @ severity_value (sf_severity finding) @ lit '').''\<rparr>)"

definition security_candidates ::
  "PersistentState \<Rightarrow> SnapshotResponse \<Rightarrow> datetime \<Rightarrow> NotificationSettings \<Rightarrow> ustr set
     \<Rightarrow> NotificationCandidate list" where
  "security_candidates state snapshot now settings owned_findings =
     (if \<not> ns_notify_security settings \<or> \<not> fresh_source snapshot Src_SECURITY now then []
      else collect_some (\<lambda>finding.
        if sf_finding_id finding \<in> owned_findings then None
        else case sf_fixed_version finding of
               None \<Rightarrow> None
             | Some fixed \<Rightarrow>
                 if eligible_security finding (ns_security_minimum_severity settings)
                 then Some (security_candidate state finding fixed) else None)
        (concat (map sg_findings (sp_findings (sr_payload snapshot)))))"

definition candidate_key :: "NotificationCandidate \<Rightarrow> ustr \<times> ustr" where
  "candidate_key c = (notification_kind_value (nc_kind c), nc_fingerprint c)"

definition notification_candidates ::
  "PersistentState \<Rightarrow> SnapshotResponse \<Rightarrow> datetime \<Rightarrow> NotificationSettings \<Rightarrow> runner
     \<Rightarrow> NotificationCandidate list" where
  "notification_candidates state snapshot now settings run =
     (let conditional = conditional_security_candidates state snapshot now settings run;
          owned = conditional_security_owned_findings state snapshot
      in sort_key candidate_key
           (watch_candidates state snapshot now settings @
            security_candidates state snapshot now settings owned @
            map cc_candidate conditional))"

section \<open>What is reported\<close>

lemma condition_copies:
  "condition_digest = policy_digest" "condition_fresh_status = fresh_status"
  "condition_notifiable = notifiable_severity"
  "condition_change (ps_ledger state) = change_of state"
  by (simp_all add: fun_eq_iff condition_digest_def policy_digest_def condition_fresh_status_def
      fresh_status_def condition_notifiable_def notifiable_severity_def condition_change_def
      change_of_def ledger_entry_def)

text \<open>A source is healthy and observed no later than now and not longer ago than it stays fresh.\<close>

definition reports_fresh :: "Provenance set \<Rightarrow> SnapshotResponse \<Rightarrow> SourceName \<Rightarrow> datetime \<Rightarrow> bool" where
  "reports_fresh provenances snapshot source now \<longleftrightarrow>
     (\<exists>h \<in> set (sp_sources (sr_payload snapshot)). sh_source h = source \<and> sh_status h = Status_OK \<and>
        sh_observed_at h \<le> now \<and> now \<le> sh_fresh_until h \<and> sh_provenance h \<in> provenances)"

lemma current_provenance_iff [simp]: "current_provenance p \<longleftrightarrow> p \<noteq> Prov_LAST_GOOD"
  by (cases p) (simp_all add: current_provenance_def)

lemma live_provenance_iff [simp]: "live_provenance p \<longleftrightarrow> p = Prov_LIVE"
  by (cases p) (simp_all add: live_provenance_def)

lemma is_fixed_iff [simp]: "is_fixed st \<longleftrightarrow> st = Arch_FIXED"
  by (cases st) (simp_all add: is_fixed_def)

lemma fresh_status_iff:
  "fresh_status h now \<longleftrightarrow> sh_status h = Status_OK \<and> sh_observed_at h \<le> now \<and> now \<le> sh_fresh_until h"
  by (cases "sh_status h") (simp_all add: fresh_status_def)

lemma notifiable_iff:
  "notifiable_severity sev least \<longleftrightarrow> sev = Sev_CRITICAL \<or> sev = Sev_HIGH \<and> least \<noteq> Sev_CRITICAL"
  by (cases sev) (simp_all add: notifiable_severity_def)

lemma find_iff_unique:
  assumes "distinct (map k xs)" "\<And>x. P x \<Longrightarrow> k x = q"
  shows "find P xs = Some x \<longleftrightarrow> x \<in> set xs \<and> P x"
proof
  assume x: "x \<in> set xs \<and> P x"
  then obtain y where y: "find P xs = Some y" by (cases "find P xs") (auto dest: find_NoneD)
  then have "y \<in> set xs" "P y" by (auto dest: find_SomeD)
  with x assms have "y = x" by (metis distinct_map inj_onD)
  with y show "find P xs = Some x" by simp
qed (auto dest: find_SomeD)

definition sources_distinct :: "SnapshotResponse \<Rightarrow> bool" where
  "sources_distinct snapshot \<longleftrightarrow> distinct (map sh_source (sp_sources (sr_payload snapshot)))"

lemma snapshot_health_iff:
  "sources_distinct snapshot \<Longrightarrow> snapshot_health snapshot source = Some h \<longleftrightarrow>
     h \<in> set (sp_sources (sr_payload snapshot)) \<and> sh_source h = source"
  unfolding snapshot_health_def sources_distinct_def by (rule find_iff_unique)

lemma case_health_iff:
  "(case m of None \<Rightarrow> False | Some h \<Rightarrow> P h) \<longleftrightarrow> (\<exists>h. m = Some h \<and> P h)"
  by (cases m) simp_all

lemma fresh_source_iff:
  "sources_distinct snapshot \<Longrightarrow>
   fresh_source snapshot source now \<longleftrightarrow> reports_fresh (- {Prov_LAST_GOOD}) snapshot source now"
  unfolding fresh_source_def case_health_iff
  by (auto simp: snapshot_health_iff reports_fresh_def fresh_status_iff)

lemma condition_fresh_source_iff:
  "sources_distinct snapshot \<Longrightarrow>
   condition_fresh_source snapshot source now \<longleftrightarrow> reports_fresh {Prov_LIVE} snapshot source now"
  unfolding condition_fresh_source_def case_health_iff
  by (auto simp: snapshot_health_iff reports_fresh_def fresh_status_iff condition_copies)

lemma notification_candidates_cases:
  "c \<in> set (notification_candidates state snapshot now settings run) \<longleftrightarrow>
     c \<in> set (watch_candidates state snapshot now settings) \<or>
     c \<in> set (security_candidates state snapshot now settings
       (conditional_security_owned_findings state snapshot)) \<or>
     c \<in> cc_candidate ` set (conditional_security_candidates state snapshot now settings run)"
  by (simp add: notification_candidates_def Let_def)

definition watched_update :: "PersistentState \<Rightarrow> SnapshotResponse \<Rightarrow> datetime \<Rightarrow> NormalizedItem \<Rightarrow> bool" where
  "watched_update state snapshot now item \<longleftrightarrow>
     item \<in> set (sp_items (sr_payload snapshot)) \<and>
     (\<exists>w \<in> set (ps_watches state). w_mode w = Watch_PERMANENT \<and> w_item_id w = ni_item_id item) \<and>
     ni_provenance item \<noteq> Prov_LAST_GOOD \<and>
     reports_fresh (- {Prov_LAST_GOOD}) snapshot (source_name_of (ni_source item)) now"

lemma watch_candidates_iff:
  assumes "sources_distinct snapshot"
  shows "c \<in> set (watch_candidates state snapshot now settings) \<longleftrightarrow>
    ns_notify_permanent settings \<and>
    (\<exists>item v i f. watched_update state snapshot now item \<and> ni_candidate item = Some v \<and>
       ni_installed_fingerprint item = Some i \<and> ni_candidate_fingerprint item = Some f \<and>
       c = watch_candidate state item v i f)"
proof -
  let ?ids = "w_item_id ` set (filter (\<lambda>w. w_mode w = Watch_PERMANENT) (ps_watches state))"
  have one: "(if ni_item_id item \<notin> ?ids then None
      else case (ni_candidate item, ni_installed_fingerprint item, ni_candidate_fingerprint item) of
             (Some v, Some i, Some f) \<Rightarrow>
               if fresh_item snapshot (ni_source item) (ni_provenance item) now
               then Some (watch_candidate state item v i f) else None
           | _ \<Rightarrow> None) = Some c \<longleftrightarrow>
      ni_item_id item \<in> ?ids \<and> fresh_item snapshot (ni_source item) (ni_provenance item) now \<and>
      (\<exists>v i f. ni_candidate item = Some v \<and> ni_installed_fingerprint item = Some i \<and>
         ni_candidate_fingerprint item = Some f \<and> c = watch_candidate state item v i f)" for item
    by (auto split: option.split)
  have watched: "watched_update state snapshot now item \<longleftrightarrow>
      item \<in> set (sp_items (sr_payload snapshot)) \<and> ni_item_id item \<in> ?ids \<and>
      fresh_item snapshot (ni_source item) (ni_provenance item) now" for item
    by (auto simp: watched_update_def fresh_item_def fresh_source_iff [OF assms] image_iff)
  show ?thesis
    unfolding watch_candidates_def watched Let_def
    by (simp only: in_set_collect_some one if_split_mem2 split: if_split) auto
qed

lemma snapshot_findings:
  "f \<in> set (concat (map sg_findings (sp_findings (sr_payload snapshot)))) \<longleftrightarrow>
     (\<exists>g \<in> set (sp_findings (sr_payload snapshot)). f \<in> set (sg_findings g))"
  by auto

definition fixed_finding :: "SnapshotResponse \<Rightarrow> Severity \<Rightarrow> SecurityFinding \<Rightarrow> bool" where
  "fixed_finding snapshot least f \<longleftrightarrow>
     (\<exists>g \<in> set (sp_findings (sr_payload snapshot)). f \<in> set (sg_findings g)) \<and>
     prefix (lit ''arch:'') (sf_item_id f) \<and> sf_provenance f \<noteq> Prov_LAST_GOOD \<and>
     sf_status f = Arch_FIXED \<and>
     (sf_severity f = Sev_CRITICAL \<or> sf_severity f = Sev_HIGH \<and> least \<noteq> Sev_CRITICAL)"

lemma security_candidates_iff:
  assumes "sources_distinct snapshot"
  shows "c \<in> set (security_candidates state snapshot now settings owned) \<longleftrightarrow>
    ns_notify_security settings \<and> reports_fresh (- {Prov_LAST_GOOD}) snapshot Src_SECURITY now \<and>
    (\<exists>f v. fixed_finding snapshot (ns_security_minimum_severity settings) f \<and>
       sf_finding_id f \<notin> owned \<and> sf_fixed_version f = Some v \<and> c = security_candidate state f v)"
proof -
  let ?m = "ns_security_minimum_severity settings"
  have one: "(if sf_finding_id f \<in> owned then None
      else case sf_fixed_version f of None \<Rightarrow> None
        | Some v \<Rightarrow> if eligible_security f ?m then Some (security_candidate state f v) else None) = Some c \<longleftrightarrow>
      sf_finding_id f \<notin> owned \<and> eligible_security f ?m \<and>
      (\<exists>v. sf_fixed_version f = Some v \<and> c = security_candidate state f v)" for f
    by (auto split: option.split)
  have fixed: "fixed_finding snapshot ?m f \<longleftrightarrow>
      f \<in> set (concat (map sg_findings (sp_findings (sr_payload snapshot)))) \<and> eligible_security f ?m" for f
    by (auto simp: fixed_finding_def eligible_security_def notifiable_iff)
  show ?thesis
    unfolding security_candidates_def fixed fresh_source_iff [OF assms]
    by (simp add: in_set_collect_some one del: set_concat) blast
qed

definition snapshot_valid :: "SnapshotResponse \<Rightarrow> bool" where
  "snapshot_valid snapshot \<longleftrightarrow> validate_response (SnapshotResp snapshot) = Inr ()"

lemma snapshot_valid_parts:
  assumes "snapshot_valid snapshot"
  shows "sources_distinct snapshot"
    and "distinct (map ni_item_id (sp_items (sr_payload snapshot)))"
    and "\<forall>i \<in> set (sp_items (sr_payload snapshot)). item_ok i"
    and "distinct (map sg_item_id (sp_findings (sr_payload snapshot)))"
    and "\<forall>g \<in> set (sp_findings (sr_payload snapshot)). group_ok g"
  using assms
  by (simp_all add: snapshot_valid_def validate_response_def validate_snapshot_def
      validate_sources_iff sources_distinct_def validate_groups_def validate_group_iff)

lemma group_ok_findings:
  assumes "group_ok g"
  shows "distinct (map sf_advisory_id (sg_findings g))"
    and "f \<in> set (sg_findings g) \<Longrightarrow> sf_item_id f = sg_item_id g \<and> sf_finding_id f = sf_advisory_id f
      \<and> avg_matches (sf_advisory_id f) \<and> length (sf_advisory_id f) \<le> 128"
proof -
  have all: "sf_item_id f = sg_item_id g \<and> sf_finding_id f = sf_advisory_id f
      \<and> avg_matches (sf_advisory_id f) \<and> length (sf_advisory_id f) \<le> 128" if "f \<in> set (sg_findings g)" for f
    using assms that
    by (auto simp: group_ok_def validate_group_def validate_finding_def validate_avg_identifier_def
        identifier_ok_def)
  then show "f \<in> set (sg_findings g) \<Longrightarrow> sf_item_id f = sg_item_id g \<and> sf_finding_id f = sf_advisory_id f
      \<and> avg_matches (sf_advisory_id f) \<and> length (sf_advisory_id f) \<le> 128" .
  have "distinct (map sf_finding_id (sg_findings g))"
    using assms by (auto simp: group_ok_def validate_group_def)
  moreover have "map sf_finding_id (sg_findings g) = map sf_advisory_id (sg_findings g)"
    using all by simp
  ultimately show "distinct (map sf_advisory_id (sg_findings g))" by simp
qed

definition condition_met :: "WatchRecord \<Rightarrow> SecurityFixCondition \<Rightarrow> SecurityFinding \<Rightarrow> bool" where
  "condition_met w condition f \<longleftrightarrow>
     sf_item_id f = w_item_id w \<and> sf_advisory_id f = fc_advisory_id condition \<and>
     sf_fixed_version f = Some (fc_fixed_version condition) \<and>
     set (sf_cve_ids f) = set (fc_cve_ids condition)"

lemma filter_key_unique:
  assumes "distinct (map k xs)" "x \<in> set xs"
  shows "filter (\<lambda>y. k y = k x) xs = [x]"
  using assms
proof (induction xs)
  case (Cons a xs)
  show ?case
  proof (cases "a = x")
    case True
    with Cons.prems have "\<forall>y \<in> set xs. k y \<noteq> k x" by (auto simp: image_iff)
    with True show ?thesis by (simp add: filter_empty_conv)
  next
    case False
    with Cons.prems have "x \<in> set xs" "k a \<noteq> k x" by auto
    with Cons show ?thesis by simp
  qed
qed simp

lemma matching_finding_find:
  "matching_finding snapshot w condition =
     find (condition_met w condition) (concat (map sg_findings
       (filter (\<lambda>g. sg_item_id g = w_item_id w) (sp_findings (sr_payload snapshot)))))"
  by (simp add: matching_finding_def condition_met_def [abs_def])

lemma matching_finding_iff:
  assumes "snapshot_valid snapshot"
  shows "matching_finding snapshot w condition = Some f \<longleftrightarrow>
    (\<exists>g \<in> set (sp_findings (sr_payload snapshot)). sg_item_id g = w_item_id w \<and>
       f \<in> set (sg_findings g)) \<and> condition_met w condition f"
proof (cases "\<exists>g \<in> set (sp_findings (sr_payload snapshot)). sg_item_id g = w_item_id w")
  case True
  then obtain g where g: "g \<in> set (sp_findings (sr_payload snapshot))" "sg_item_id g = w_item_id w" by blast
  then have only: "filter (\<lambda>h. sg_item_id h = w_item_id w) (sp_findings (sr_payload snapshot)) = [g]"
    using filter_key_unique [of sg_item_id _ g] snapshot_valid_parts(4) [OF assms] by simp
  have "distinct (map sf_advisory_id (sg_findings g))"
    using g snapshot_valid_parts(5) [OF assms] by (blast intro: group_ok_findings)
  then have found: "find (condition_met w condition) (sg_findings g) = Some f \<longleftrightarrow>
      f \<in> set (sg_findings g) \<and> condition_met w condition f"
    by (rule find_iff_unique) (simp add: condition_met_def)
  have "h = g" if "h \<in> set (sp_findings (sr_payload snapshot))" "sg_item_id h = w_item_id w" for h
  proof -
    from that have "h \<in> set (filter (\<lambda>h. sg_item_id h = w_item_id w) (sp_findings (sr_payload snapshot)))"
      by simp
    then show ?thesis unfolding only by simp
  qed
  then have "(\<exists>h \<in> set (sp_findings (sr_payload snapshot)). sg_item_id h = w_item_id w \<and>
      f \<in> set (sg_findings h)) \<longleftrightarrow> f \<in> set (sg_findings g)" using g by blast
  then show ?thesis unfolding matching_finding_find only by (simp add: found)
next
  case False
  then have "filter (\<lambda>h. sg_item_id h = w_item_id w) (sp_findings (sr_payload snapshot)) = []"
    by (auto simp: filter_empty_conv)
  with False show ?thesis unfolding matching_finding_find by auto
qed

lemma condition_item_iff:
  assumes "snapshot_valid snapshot"
  shows "condition_item snapshot w = Some i \<longleftrightarrow>
    i \<in> set (sp_items (sr_payload snapshot)) \<and> ni_item_id i = w_item_id w \<and>
    ni_source i = Item_ARCH \<and> ni_candidate i \<noteq> None \<and> ni_provenance i = Prov_LIVE"
proof -
  have "condition_item snapshot w = Some i \<longleftrightarrow>
      i \<in> set (sp_items (sr_payload snapshot)) \<and> (ni_item_id i = w_item_id w \<and>
      ni_source i = Item_ARCH \<and> ni_candidate i \<noteq> None \<and> live_provenance (ni_provenance i))"
    unfolding condition_item_def
    by (rule find_iff_unique [OF snapshot_valid_parts(2) [OF assms]]) simp
  then show ?thesis by simp
qed

text \<open>A finding in the snapshot that a temporary watch with a condition waits for.\<close>

definition awaited ::
  "PersistentState \<Rightarrow> SnapshotResponse \<Rightarrow> WatchRecord \<Rightarrow> SecurityFixCondition \<Rightarrow> SecurityFinding \<Rightarrow> bool" where
  "awaited state snapshot w condition f \<longleftrightarrow>
     w \<in> set (ps_watches state) \<and> w_mode w = Watch_TEMPORARY \<and> w_condition w = Some condition \<and>
     (\<exists>g \<in> set (sp_findings (sr_payload snapshot)). sg_item_id g = w_item_id w \<and> f \<in> set (sg_findings g)) \<and>
     condition_met w condition f"

text \<open>An update of the package that live sources offer and that \<open>vercmp\<close> finds new enough.\<close>

definition installable ::
  "SnapshotResponse \<Rightarrow> NotificationSettings \<Rightarrow> runner \<Rightarrow> WatchRecord \<Rightarrow> SecurityFixCondition
     \<Rightarrow> SecurityFinding \<Rightarrow> ustr \<Rightarrow> bool" where
  "installable snapshot settings run w condition f v \<longleftrightarrow>
     (\<exists>i \<in> set (sp_items (sr_payload snapshot)). ni_item_id i = w_item_id w \<and>
        ni_source i = Item_ARCH \<and> ni_candidate i = Some v \<and> ni_provenance i = Prov_LIVE) \<and>
     sf_status f = Arch_FIXED \<and> sf_provenance f = Prov_LIVE \<and>
     (sf_severity f = Sev_CRITICAL \<or>
      sf_severity f = Sev_HIGH \<and> ns_security_minimum_severity settings \<noteq> Sev_CRITICAL) \<and>
     (\<exists>sign. compare_versions run v (fc_fixed_version condition) = Inr sign \<and> 0 \<le> sign)"

lemma owned_findings_iff:
  assumes "snapshot_valid snapshot"
  shows "x \<in> conditional_security_owned_findings state snapshot \<longleftrightarrow>
    (\<exists>w condition f. awaited state snapshot w condition f \<and> sf_finding_id f = x)"
proof -
  have one: "(if w_mode w = Watch_TEMPORARY
      then (case w_condition w of None \<Rightarrow> None
            | Some condition \<Rightarrow> map_option sf_finding_id (matching_finding snapshot w condition))
      else None) = Some x \<longleftrightarrow>
      w_mode w = Watch_TEMPORARY \<and> (\<exists>condition f. w_condition w = Some condition \<and>
        matching_finding snapshot w condition = Some f \<and> sf_finding_id f = x)" for w
    by (auto split: option.split)
  show ?thesis
    unfolding conditional_security_owned_findings_def in_set_collect_some one awaited_def
      matching_finding_iff [OF assms] by blast
qed

lemma condition_candidate_iff:
  assumes "snapshot_valid snapshot"
  shows "(\<exists>cc. condition_candidate state snapshot w condition settings run = Some cc \<and> cc_candidate cc = c) \<longleftrightarrow>
    w_mode w = Watch_TEMPORARY \<and>
    (\<exists>v f. matching_finding snapshot w condition = Some f \<and>
       installable snapshot settings run w condition f v \<and>
       c = condition_notification (ps_ledger state) w condition v)"
proof -
  have item: "Option.bind (condition_item snapshot w) ni_candidate = Some v \<longleftrightarrow>
      (\<exists>i \<in> set (sp_items (sr_payload snapshot)). ni_item_id i = w_item_id w \<and>
        ni_source i = Item_ARCH \<and> ni_candidate i = Some v \<and> ni_provenance i = Prov_LIVE)" for v
    unfolding bind_eq_Some_conv condition_item_iff [OF assms] by auto
  let ?bad = "\<lambda>f. sf_status f \<noteq> Arch_FIXED \<or> \<not> live_provenance (sf_provenance f) \<or>
    \<not> condition_notifiable (sf_severity f) (ns_security_minimum_severity settings)"
  have inst: "installable snapshot settings run w condition f v \<longleftrightarrow>
      Option.bind (condition_item snapshot w) ni_candidate = Some v \<and> \<not> ?bad f \<and>
      (\<exists>sign. compare_versions run v (fc_fixed_version condition) = Inr sign \<and> 0 \<le> sign)" for f v
    unfolding installable_def item by (auto simp: condition_copies notifiable_iff)
  show ?thesis
    unfolding inst condition_candidate_def
    by (auto split: option.splits sum.splits if_splits)
qed

lemma bex_collect_some:
  "(\<exists>y \<in> set (collect_some f xs). P y) \<longleftrightarrow> (\<exists>x \<in> set xs. \<exists>y. f x = Some y \<and> P y)"
  by (auto simp: Bex_def in_set_collect_some)

lemma conditional_candidates_iff:
  assumes "snapshot_valid snapshot"
  shows "c \<in> cc_candidate ` set (conditional_security_candidates state snapshot now settings run) \<longleftrightarrow>
    ns_notify_security settings \<and> reports_fresh {Prov_LIVE} snapshot Src_ARCH now \<and>
    reports_fresh {Prov_LIVE} snapshot Src_SECURITY now \<and>
    (\<exists>w condition f v. awaited state snapshot w condition f \<and>
       installable snapshot settings run w condition f v \<and>
       c = condition_notification (ps_ledger state) w condition v)"
proof -
  have one: "(case w_condition w of None \<Rightarrow> None
      | Some condition \<Rightarrow> condition_candidate state snapshot w condition settings run) = Some cc \<longleftrightarrow>
      (\<exists>condition. w_condition w = Some condition \<and>
         condition_candidate state snapshot w condition settings run = Some cc)" for w cc
    by (auto split: option.split)
  have "c \<in> cc_candidate ` set (conditional_security_candidates state snapshot now settings run) \<longleftrightarrow>
      ns_notify_security settings \<and> reports_fresh {Prov_LIVE} snapshot Src_ARCH now \<and>
      reports_fresh {Prov_LIVE} snapshot Src_SECURITY now \<and>
      (\<exists>w \<in> set (ps_watches state). \<exists>condition. w_condition w = Some condition \<and>
         (\<exists>cc. condition_candidate state snapshot w condition settings run = Some cc \<and> cc_candidate cc = c))"
    unfolding conditional_security_candidates_def
      condition_fresh_source_iff [OF snapshot_valid_parts(1) [OF assms]]
    by (simp add: image_iff bex_collect_some one) blast
  then show ?thesis
    unfolding condition_candidate_iff [OF assms] awaited_def matching_finding_iff [OF assms]
    by blast
qed


section \<open>Sample snapshots\<close>

definition healthy :: "SourceName \<Rightarrow> SourceHealth" where
  "healthy source = \<lparr>sh_source = source, sh_status = Status_OK, sh_provenance = Prov_LIVE,
     sh_observed_at = 0, sh_fresh_until = hours 6, sh_cause = None, sh_scopes = []\<rparr>"

definition healthy_snapshot :: "NormalizedItem list \<Rightarrow> SecurityFindingGroup list \<Rightarrow> SnapshotResponse" where
  "healthy_snapshot items findings =
     \<lparr>sr_generated_at = 0, sr_generation_id = lit ''g1'',
      sr_payload = \<lparr>sp_scan_state = Scan_COMPLETE, sp_sources = map healthy source_name_members,
        sp_summary = \<lparr>su_total_updates = 0, su_watched_updates = 0, su_security_findings = 0,
          su_degraded_sources = 0\<rparr>,
        sp_items = items, sp_findings = findings, sp_notifications = []\<rparr>,
      sr_protocol_version = PROTOCOL_VERSION\<rparr>"

definition offered_bash :: NormalizedItem where
  "offered_bash = (new_item (lit ''arch:bash'') Item_ARCH (lit ''bash'') (Some (lit ''1''))
     (Some (lit ''2'')) True)\<lparr>ni_installed_fingerprint := Some (lit ''i''),
       ni_candidate_fingerprint := Some (lit ''c'')\<rparr>"

definition fixed_in :: "string \<Rightarrow> SecurityFindingGroup" where
  "fixed_in item = \<lparr>sg_item_id = lit item, sg_findings =
     [\<lparr>sf_finding_id = lit ''AVG-1'', sf_item_id = lit item, sf_advisory_id = lit ''AVG-1'',
       sf_cve_ids = [lit ''CVE-2024-0001''], sf_severity = Sev_CRITICAL,
       sf_fixed_version = Some (lit ''2''), sf_known_exploited = False, sf_provenance = Prov_LIVE,
       sf_status = Arch_FIXED, sf_advisory_type = lit ''x'', sf_installed_version = None,
       sf_kev_status = Kev_NOT_LISTED, sf_kev_provenance = Some Prov_LIVE\<rparr>]\<rparr>"

lemma healthy_valid:
  assumes "validate_items items = Inr ()" and "validate_groups findings items = Inr ()"
  shows "snapshot_valid (healthy_snapshot items findings)"
proof -
  have "validate_sources (map healthy source_name_members) = Inr ()"
  proof -
    have "distinct source_name_members" by (simp add: source_name_members_def)
    moreover have "map sh_source (map healthy source_name_members) = source_name_members"
      by (simp add: healthy_def comp_def)
    ultimately show ?thesis
      unfolding validate_sources_iff using source_name_enum.complete
      by (auto simp: validate_scopes_iff healthy_def cause_ok_def)
  qed
  with assms show ?thesis
    by (simp add: snapshot_valid_def healthy_snapshot_def validate_response_def validate_snapshot_def
        identifier_ok_def)
qed

lemma healthy_fresh:
  "0 \<le> now \<Longrightarrow> now \<le> hours 6 \<Longrightarrow> Prov_LIVE \<in> P \<Longrightarrow>
   reports_fresh P (healthy_snapshot items findings) source now"
  using source_name_enum.complete
  by (auto simp: reports_fresh_def healthy_snapshot_def healthy_def)

definition bash_starred :: PersistentState where
  "bash_starred = \<lparr>ps_watches = [\<lparr>w_item_id = lit ''arch:bash'', w_mode = Watch_PERMANENT,
     w_installed_fingerprint = None, w_candidate_fingerprint = None, w_armed = False,
     w_condition = None\<rparr>], ps_ledger = [], ps_sources = []\<rparr>"

lemma bash_snapshot_valid: "snapshot_valid (healthy_snapshot [offered_bash] [])"
  by (rule healthy_valid)
    (simp_all add: offered_bash_def item_ok_def identifier_ok_def validate_groups_def)

lemma bash_watched: "watched_update bash_starred (healthy_snapshot [offered_bash] []) 0 offered_bash"
  using healthy_fresh [of 0 "- {Prov_LAST_GOOD}" "[offered_bash]" "[]" Src_ARCH]
  by (simp add: watched_update_def bash_starred_def offered_bash_def hours_def)
    (simp add: healthy_snapshot_def new_item_def)

abbreviation bash_candidate :: NotificationCandidate where
  "bash_candidate \<equiv> watch_candidate bash_starred offered_bash (lit ''2'') (lit ''i'') (lit ''c'')"

lemma bash_candidate_reported:
  "bash_candidate \<in> set (notification_candidates bash_starred (healthy_snapshot [offered_bash] []) 0
     default_settings run)"
  unfolding notification_candidates_cases
    watch_candidates_iff [OF snapshot_valid_parts(1) [OF bash_snapshot_valid]]
  using bash_watched
  by (intro disjI1 conjI exI [of _ offered_bash] exI [of _ "lit ''2''"] exI [of _ "lit ''i''"]
      exI [of _ "lit ''c''"]) (simp_all add: default_settings_def offered_bash_def)


definition waiting_for_a :: PersistentState where
  "waiting_for_a = \<lparr>ps_watches = [\<lparr>w_item_id = lit ''arch:a'', w_mode = Watch_TEMPORARY,
     w_installed_fingerprint = Some (lit ''i''), w_candidate_fingerprint = None, w_armed = False,
     w_condition = Some \<lparr>fc_advisory_id = lit ''AVG-1'', fc_cve_ids = [lit ''CVE-2024-0001''],
       fc_fixed_version = lit ''2''\<rparr>\<rparr>], ps_ledger = [], ps_sources = []\<rparr>"

abbreviation shared_advisory :: SnapshotResponse where
  "shared_advisory \<equiv> healthy_snapshot [] [fixed_in ''arch:a'', fixed_in ''arch:b'']"

text \<open>
  Findings are owned by advisory, not by package. While a conditional watch of one package
  waits for the fix of an advisory, a critical finding of the same advisory that is fixed in another
  package, which nobody watches, is not notified at all, although state and snapshot are valid and
  the sources are fresh.
\<close>

theorem owned_advisory_silences_other_package:
  "validate_state waiting_for_a = Inr () \<and> snapshot_valid shared_advisory \<and>
   reports_fresh {Prov_LIVE} shared_advisory Src_SECURITY 0 \<and>
   fixed_finding shared_advisory Sev_HIGH (hd (sg_findings (fixed_in ''arch:b''))) \<and>
   lit ''arch:b'' \<notin> w_item_id ` set (ps_watches waiting_for_a) \<and>
   notification_candidates waiting_for_a shared_advisory 0 default_settings run = []"
proof (intro conjI)
  show "validate_state waiting_for_a = Inr ()"
    by (simp add: validate_state_iff waiting_for_a_def watches_ok_def watch_ok_def ledger_ok_def
        sources_ok_def)
      (simp add: validate_watch_def validate_condition_def arch_item_id_matches_def arch_first_def
        advisory_id_matches_def cve_id_matches_def MAX_CVE_IDS_def MAX_VERSION_LENGTH_def
        ascii_printable_def is_alnum_ascii_def is_digit_def lit_def)
  show valid: "snapshot_valid shared_advisory"
    by (rule healthy_valid)
      (simp_all add: fixed_in_def validate_groups_def validate_group_def dict_of_def
        validate_finding_def validate_avg_identifier_def avg_matches_def validate_kev_def
        identifier_ok_def is_digit_def lit_def)
  show "reports_fresh {Prov_LIVE} shared_advisory Src_SECURITY 0"
    by (rule healthy_fresh) (simp_all add: hours_def)
  show "fixed_finding shared_advisory Sev_HIGH (hd (sg_findings (fixed_in ''arch:b'')))"
    by (simp add: fixed_finding_def healthy_snapshot_def fixed_in_def)
  show "lit ''arch:b'' \<notin> w_item_id ` set (ps_watches waiting_for_a)"
    by (simp add: waiting_for_a_def)
  show "notification_candidates waiting_for_a shared_advisory 0 default_settings run = []"
    by (simp add: notification_candidates_def watch_candidates_def security_candidates_def
        conditional_security_candidates_def conditional_security_owned_findings_def
        condition_candidate_def condition_item_def matching_finding_def waiting_for_a_def
        healthy_snapshot_def fixed_in_def)
qed

end
