(* ===== verification/Notification_Dispatch.thy ===== *)
theory Notification_Dispatch
  imports Notification_Policy
begin

text \<open>
  \<open>NotificationCoordinator.dispatch\<close> of \<open>notifications.py\<close>: the candidates of a snapshot are claimed
  kind by kind, the batch of each kind is shown as one desktop notification, and the result is
  recorded. The clock readings and lease tokens of the three claims are arguments. Every claim
  and every completion is one locked update of the state file; what other processes may do in
  between is the subject of \<open>Notification_Batch\<close>, here the dispatcher runs alone.
\<close>

definition batch_body :: "NotificationBatch \<Rightarrow> ustr" where
  "batch_body batch =
     (let first = nc_body (hd (nb_candidates batch));
          additional = length (nb_candidates batch) - 1;
          label = (if nb_kind batch = NKind_WATCH then lit ''watched'' else lit ''security'')
      in if additional = 0 then first
         else first @ lit '' '' @ str_nat additional @ lit '' additional '' @ label @ lit '' update(s).'')"

definition notify_arguments :: "NotificationBatch \<Rightarrow> ustr list" where
  "notify_arguments batch = [nc_title (hd (nb_candidates batch)), batch_body batch]"

definition dispatch_batch ::
  "runner \<Rightarrow> NotificationBatch \<Rightarrow> PersistentState \<Rightarrow> PersistentState \<times> NotificationOutcome list" where
  "dispatch_batch run batch state = complete_batch state batch (run NOTIFY (notify_arguments batch))"

fun dispatch_kinds ::
  "runner \<Rightarrow> NotificationCandidate list \<Rightarrow> (NotificationKind \<times> datetime \<times> ustr) list \<Rightarrow> PersistentState
     \<Rightarrow> PersistentState \<times> NotificationOutcome list" where
  "dispatch_kinds run candidates [] state = (state, [])"
| "dispatch_kinds run candidates ((kind, now, token) # rest) state =
     (case claim_batch state kind (filter (\<lambda>c. nc_kind c = kind) candidates) now token of
        (claimed, None) \<Rightarrow> dispatch_kinds run candidates rest claimed
      | (claimed, Some batch) \<Rightarrow>
          let (completed, outcomes) = dispatch_batch run batch claimed;
              (final, more) = dispatch_kinds run candidates rest completed
          in (final, outcomes @ more))"

definition dispatch ::
  "runner \<Rightarrow> NotificationSettings \<Rightarrow> datetime \<Rightarrow> (datetime \<times> ustr) list \<Rightarrow> SnapshotResponse
     \<Rightarrow> PersistentState \<Rightarrow> PersistentState \<times> NotificationOutcome list" where
  "dispatch run settings now claims snapshot state =
     dispatch_kinds run (notification_candidates state snapshot now settings run)
       (zip notification_kind_members claims) state"

section \<open>The command runner as the adapters see it\<close>

text \<open>
  The adapters call a runner that returns. \<open>run_command\<close> does whenever the clock of the child
  reaches its deadline; a child without clock counts as timed out here.
\<close>

definition command_runner :: "ustr \<Rightarrow> (ustr list \<Rightarrow> Spawn) \<Rightarrow> runner" where
  "command_runner home spawn name arguments =
     (case run_command home spawn name arguments of Some r \<Rightarrow> r | None \<Rightarrow> CommandTimedOut [] [])"

locale guarded_runner =
  fixes run :: runner and policy :: "CommandName \<Rightarrow> ArgumentPolicy"
  assumes succeeded_allowed: "run name arguments = CommandSucceeded out err \<Longrightarrow> arguments_allowed (policy name) arguments"
    and allowed_not_rejected: "arguments_allowed (policy name) arguments \<Longrightarrow> run name arguments \<noteq> CommandRejected d"
begin

lemma compared_allowed:
  assumes "compare_versions run left right = Inr sign"
  shows "arguments_allowed (policy VERCMP) [left, right]"
proof -
  from assms obtain out err where "run VERCMP [left, right] = CommandSucceeded out err"
    by (auto simp: compare_versions_def split: CommandResult.splits)
  then show ?thesis by (rule succeeded_allowed)
qed

lemma allowed_never_failed:
  assumes "arguments_allowed (policy NOTIFY) arguments"
  shows "delivery_status (run NOTIFY arguments) change \<noteq> Notif_FAILED"
  using allowed_not_rejected [OF assms]
  by (auto simp: delivery_status_def split: CommandResult.split)

end

lemma collect_loop_not_rejected: "collect_loop spec child deadline polls c \<noteq> Some (CommandRejected d)"
proof (induction polls arbitrary: c)
  case Nil
  then show ?case by (auto simp: collect_loop.simps [of _ _ _ "[]"] finish_def split: option.splits)
next
  case (Cons p ps)
  then show ?case
    by (auto simp: collect_loop.simps [of _ _ _ "p # ps"] finish_def Let_def
        split: option.splits sum.splits)
qed

interpretation commands: guarded_runner "command_runner home spawn"
  "\<lambda>name. cs_argument_policy (COMMAND_SPECS home name)" for home spawn
proof
  fix name arguments out err d
  let ?ok = "arguments_allowed (cs_argument_policy (COMMAND_SPECS home name)) arguments"
  show ?ok if "command_runner home spawn name arguments = CommandSucceeded out err"
    using that
    by (auto simp: command_runner_def run_command_def run_spec_def split: option.splits if_splits)
  show "command_runner home spawn name arguments \<noteq> CommandRejected d" if ?ok
    using that collect_loop_not_rejected
    by (auto simp: command_runner_def run_command_def run_spec_def collect_output_def
        split: option.splits Spawn.splits)
qed

section \<open>Bounds of the notification text\<close>

lemma length_escape_char: "length (escape_char quote c) \<le> 6"
  by (simp add: escape_char_def)

lemma escape_char_no_NUL: "c \<noteq> 0 \<Longrightarrow> 0 \<notin> set (escape_char quote c)"
  by (simp add: escape_char_def lit_def)

lemma length_html_escape: "length (html_escape quote s) \<le> 6 * length s"
proof (induction s)
  case (Cons c s)
  then show ?case using length_escape_char [of quote c] by (simp add: html_escape_def)
qed (simp add: html_escape_def)

lemma html_escape_no_NUL: "0 \<notin> set s \<Longrightarrow> 0 \<notin> set (html_escape quote s)"
proof
  assume s: "0 \<notin> set s" and "0 \<in> set (html_escape quote s)"
  then obtain x where x: "x \<in> set s" "0 \<in> set (escape_char quote x)" by (auto simp: html_escape_def)
  with s have "x \<noteq> 0" by metis
  with x show False using escape_char_no_NUL by blast
qed

lemma length_policy_text: "length (policy_text s) \<le> 6 * min 256 (length s)"
  unfolding policy_text_def MAX_TEXT_def
  using length_html_escape [of True "take 256 (map (\<lambda>c. if c = 0 then 63 else c) s)"] by (simp add: min.commute)

lemma policy_text_no_NUL: "0 \<notin> set (policy_text s)"
proof -
  have "0 \<notin> set (map (\<lambda>c. if c = 0 then 63 else c) s)" by auto
  then show ?thesis
    unfolding policy_text_def by (intro html_escape_no_NUL) (blast dest: in_set_takeD)
qed

lemma length_condition_text: "length (condition_text s) \<le> 256"
  by (simp add: condition_text_def MAX_TEXT_def)

lemma condition_text_no_NUL: "0 \<notin> set s \<Longrightarrow> 0 \<notin> set (condition_text s)"
  using html_escape_no_NUL [of s False] by (auto simp: condition_text_def dest: in_set_takeD)

lemma str_nat_no_NUL: "0 \<notin> set (str_nat n)"
  using str_nat_digits [of n] by (auto simp: list_all_iff is_digit_def)

definition plain_text :: "nat \<Rightarrow> ustr \<Rightarrow> bool" where
  "plain_text n s \<longleftrightarrow> 0 \<notin> set s \<and> length s \<le> n"

lemma plain_append: "plain_text m s \<Longrightarrow> plain_text n t \<Longrightarrow> plain_text (m + n) (s @ t)"
  by (auto simp: plain_text_def)

lemma plain_weaken: "plain_text m s \<Longrightarrow> m \<le> n \<Longrightarrow> plain_text n s"
  by (auto simp: plain_text_def)

lemma plain_lit: "CHR 0x00 \<notin> set t \<Longrightarrow> length t \<le> n \<Longrightarrow> plain_text n (lit t)"
  by (simp add: plain_text_def zero_in_lit)

lemma plain_policy_text: "plain_text 1536 (policy_text s)"
  using length_policy_text [of s] policy_text_no_NUL [of s] by (simp add: plain_text_def)

lemma plain_policy_text_short: "length s \<le> 128 \<Longrightarrow> plain_text 768 (policy_text s)"
  using length_policy_text [of s] policy_text_no_NUL [of s] by (simp add: plain_text_def)

lemma plain_condition_text: "0 \<notin> set s \<Longrightarrow> plain_text 256 (condition_text s)"
  using length_condition_text [of s] condition_text_no_NUL [of s] by (simp add: plain_text_def)

lemma plain_severity: "plain_text 8 (severity_value sev)"
  by (cases sev) (simp_all add: plain_lit)

lemma watch_body_plain: "plain_text 4000 (nc_body (watch_candidate state item v i f))"
proof -
  have "plain_text (13 + (1536 + (12 + (1536 + 11)))) (nc_body (watch_candidate state item v i f))"
    unfolding watch_candidate_def Let_def NotificationCandidate.select_convs
    by (intro plain_append plain_policy_text plain_lit) simp_all
  then show ?thesis by (rule plain_weaken) simp
qed

lemma security_body_plain:
  assumes "length (sf_advisory_id f) \<le> 128"
  shows "plain_text 4000 (nc_body (security_candidate state f v))"
proof -
  have "plain_text (20 + (1536 + (2 + (768 + (13 + (1536 + (2 + (8 + 2))))))))
      (nc_body (security_candidate state f v))"
    unfolding security_candidate_def Let_def NotificationCandidate.select_convs
    by (intro plain_append plain_policy_text plain_policy_text_short plain_severity plain_lit)
      (simp_all add: assms)
  then show ?thesis by (rule plain_weaken) simp
qed

lemma condition_body_plain:
  assumes "0 \<notin> set (w_item_id w)" "0 \<notin> set (fc_advisory_id condition)"
    "0 \<notin> set (join (lit '', '') (fc_cve_ids condition))" "0 \<notin> set v" "0 \<notin> set (fc_fixed_version condition)"
  shows "plain_text 4000 (nc_body (condition_notification ledger w condition v))"
proof -
  have "plain_text (23 + (256 + (2 + (256 + (2 + (256 + (25 + (256 + (16 + (256 + 1))))))))))
      (nc_body (condition_notification ledger w condition v))"
    unfolding condition_notification_def Let_def NotificationCandidate.select_convs
    by (intro plain_append plain_condition_text plain_lit assms) simp_all
  then show ?thesis by (rule plain_weaken) simp
qed

lemma batch_body_plain:
  assumes "plain_text 4000 (nc_body (hd (nb_candidates b)))" and "length (nb_candidates b) < 10 ^ 50"
  shows "plain_text 4096 (batch_body b)"
proof (cases "length (nb_candidates b) - 1 = 0")
  case True
  with assms(1) show ?thesis by (auto simp: batch_body_def intro: plain_weaken)
next
  case False
  let ?n = "length (nb_candidates b) - 1"
  have "length (str_nat ?n) \<le> Suc 49"
    by (rule length_str_nat) (use assms(2) in simp)
  then have n: "plain_text 50 (str_nat ?n)" by (simp add: plain_text_def str_nat_no_NUL)
  have label: "plain_text 8 (if nb_kind b = NKind_WATCH then lit ''watched'' else lit ''security'')"
    by (simp add: plain_lit)
  have "plain_text (4000 + (1 + (50 + (12 + (8 + 11))))) (batch_body b)"
    using False unfolding batch_body_def Let_def
    by (simp only: if_False) (intro plain_append assms(1) n label plain_lit; simp)
  then show ?thesis by (rule plain_weaken) simp
qed

lemma prefix_no_NUL:
  assumes "prefix (lit p) s" "0 \<notin> set (lit p)" "length p = n" "0 \<notin> set (drop n s)"
  shows "0 \<notin> set s"
  using assms by (auto simp: prefix_def)

lemma digits_no_NUL: "list_all is_digit s \<Longrightarrow> 0 \<notin> set s"
  by (auto simp: list_all_iff is_digit_def)

lemma arch_item_id_no_NUL: "arch_item_id_matches s \<Longrightarrow> 0 \<notin> set s"
proof (rule prefix_no_NUL [of "''arch:''" _ 5])
  assume s: "arch_item_id_matches s"
  then show "prefix (lit ''arch:'') s" by (simp add: arch_item_id_matches_def)
  from s obtain c cs where c: "drop 5 s = c # cs" "arch_first c" "list_all arch_rest cs"
    by (auto simp: arch_item_id_matches_def split: list.splits)
  have "\<not> arch_first 0" "\<not> arch_rest 0"
    by (simp_all add: arch_first_def arch_rest_def is_alnum_ascii_def is_digit_def lit_def)
  with c have "c \<noteq> 0" "0 \<notin> set cs" by (metis, metis list_all_iff)
  with c(1) show "0 \<notin> set (drop 5 s)" by simp
qed (simp_all add: zero_in_lit)

lemma advisory_id_no_NUL: "advisory_id_matches s \<Longrightarrow> 0 \<notin> set s"
  by (rule prefix_no_NUL [of "''AVG-''" _ 4]) (simp_all add: advisory_id_matches_def zero_in_lit digits_no_NUL)

lemma cve_id_no_NUL:
  assumes "cve_id_matches s"
  shows "0 \<notin> set s"
proof (rule prefix_no_NUL [of "''CVE-''" _ 4])
  show "prefix (lit ''CVE-'') s" using assms by (simp add: cve_id_matches_def)
  have "drop 4 (drop 4 s) = drop 8 s" "drop 1 (drop 8 s) = drop 9 s" by simp_all
  then have "set (drop 4 s) = set (take 4 (drop 4 s)) \<union> set (drop 8 s)"
    "set (drop 8 s) = set (take 1 (drop 8 s)) \<union> set (drop 9 s)"
    by (metis append_take_drop_id set_append)+
  moreover have "0 \<notin> set (take 4 (drop 4 s))" "0 \<notin> set (drop 9 s)"
    using assms by (simp_all add: cve_id_matches_def digits_no_NUL)
  moreover have "0 \<notin> set (take 1 (drop 8 s))"
    using assms by (simp only: cve_id_matches_def) (simp add: zero_in_lit)
  ultimately show "0 \<notin> set (drop 4 s)" by blast
qed (simp_all add: zero_in_lit)

lemma join_no_NUL: "0 \<notin> set sep \<Longrightarrow> \<forall>x \<in> set xs. 0 \<notin> set x \<Longrightarrow> 0 \<notin> set (join sep xs)"
  by (induction sep xs rule: join.induct) auto

lemma condition_no_NUL:
  assumes "watch_ok w" "w_mode w = Watch_TEMPORARY" "w_condition w = Some condition"
  shows "0 \<notin> set (w_item_id w)" "0 \<notin> set (fc_advisory_id condition)"
    "0 \<notin> set (join (lit '', '') (fc_cve_ids condition))" "0 \<notin> set (fc_fixed_version condition)"
proof -
  have ok: "arch_item_id_matches (w_item_id w)" "validate_condition condition = Inr ()"
    using assms by (auto simp: watch_ok_def validate_watch_def)
  then show "0 \<notin> set (w_item_id w)" "0 \<notin> set (fc_advisory_id condition)"
    by (simp_all add: arch_item_id_no_NUL validate_condition_def advisory_id_no_NUL)
  from ok(2) have "\<forall>x \<in> set (fc_cve_ids condition). 0 \<notin> set x"
    by (auto simp: validate_condition_def list_ex_iff dest: cve_id_no_NUL)
  then show "0 \<notin> set (join (lit '', '') (fc_cve_ids condition))"
    by (rule join_no_NUL [rotated]) (simp add: zero_in_lit)
  from ok(2) show "0 \<notin> set (fc_fixed_version condition)"
    by (auto simp: validate_condition_def ascii_printable_def list_all_iff)
qed

lemma candidate_plain:
  assumes "validate_state state = Inr ()" and "snapshot_valid snapshot"
    and "c \<in> set (notification_candidates state snapshot now settings (command_runner home spawn))"
  shows "plain_text 4096 (nc_title c) \<and> plain_text 4000 (nc_body c)"
proof -
  note distinct = snapshot_valid_parts(1) [OF assms(2)]
  consider (watch) item v i f where "c = watch_candidate state item v i f"
    | (security) f v where "fixed_finding snapshot (ns_security_minimum_severity settings) f" "c = security_candidate state f v"
    | (condition) w condition f v where "awaited state snapshot w condition f"
        "installable snapshot settings (command_runner home spawn) w condition f v"
        "c = condition_notification (ps_ledger state) w condition v"
    using assms(3)
    unfolding notification_candidates_cases watch_candidates_iff [OF distinct]
      security_candidates_iff [OF distinct] conditional_candidates_iff [OF assms(2)]
    by blast
  then show ?thesis
  proof cases
    case watch
    then show ?thesis using watch_body_plain [of state item v i f]
      by (simp add: watch_candidate_def Let_def plain_lit)
  next
    case security
    then have "length (sf_advisory_id f) \<le> 128"
      using snapshot_valid_parts(5) [OF assms(2)] group_ok_findings(2) by (auto simp: fixed_finding_def)
    with security show ?thesis using security_body_plain [of f state v]
      by (simp add: security_candidate_def Let_def plain_lit)
  next
    case condition
    then have "watch_ok w" "w_mode w = Watch_TEMPORARY" "w_condition w = Some condition"
      using assms(1) by (auto simp: awaited_def validate_state_iff watches_ok_def)
    note plain = condition_no_NUL [OF this]
    from condition obtain sign where
      "compare_versions (command_runner home spawn) v (fc_fixed_version condition) = Inr sign"
      by (auto simp: installable_def)
    from commands.compared_allowed [OF this] have "0 \<notin> set v"
      by (simp add: COMMAND_SPECS_policy arguments_allowed_def del: COMMAND_SPECS.simps)
    with condition plain show ?thesis
      using condition_body_plain [of w condition v "ps_ledger state"]
      by (simp add: condition_notification_def Let_def plain_lit)
  qed
qed

section \<open>Dispatching\<close>

fun kind_prefix :: "NotificationKind \<Rightarrow> ustr" where
  "kind_prefix NKind_WATCH = lit ''watch-v1:''"
| "kind_prefix NKind_SECURITY = lit ''security-v1:''"
| "kind_prefix NKind_SECURITY_CONDITION = lit ''security-condition-v1:''"

definition well_referenced :: "NotificationCandidate \<Rightarrow> bool" where
  "well_referenced c \<longleftrightarrow> prefix (kind_prefix (nc_kind c)) (nc_reference c) \<and>
     prefix (nc_reference c) (nc_fingerprint c)"

lemma kind_prefix_distinct:
  "prefix (kind_prefix a) f \<Longrightarrow> prefix (kind_prefix b) f \<Longrightarrow> a = b"
proof -
  assume "prefix (kind_prefix a) f" "prefix (kind_prefix b) f"
  then have "prefix (kind_prefix a) (kind_prefix b) \<or> prefix (kind_prefix b) (kind_prefix a)"
    by (rule prefix_same_cases)
  then show "a = b" by (cases a; cases b; simp)
qed

lemma kind_prefix_not_owner: "\<not> prefix (kind_prefix a) (owner_fingerprint k)"
  by (cases a; cases k; simp add: owner_fingerprint_def lit_def)

lemma candidates_well_referenced:
  assumes "snapshot_valid snapshot"
    and "c \<in> set (notification_candidates state snapshot now settings run)"
  shows "well_referenced c"
proof -
  note distinct = snapshot_valid_parts(1) [OF assms(1)]
  have "(\<exists>item v i f. c = watch_candidate state item v i f) \<or> (\<exists>f v. c = security_candidate state f v) \<or>
      (\<exists>w condition v. c = condition_notification (ps_ledger state) w condition v)"
    using assms(2)
    unfolding notification_candidates_cases watch_candidates_iff [OF distinct]
      security_candidates_iff [OF distinct] conditional_candidates_iff [OF assms(1)] by blast
  then show ?thesis
    by (auto simp: well_referenced_def watch_candidate_def security_candidate_def Let_def
        watch_reference_def security_reference_def watch_notification_reference_def
        condition_notification_def condition_reference_def)
qed

lemma well_referenced_kind: "well_referenced c \<Longrightarrow> prefix (kind_prefix (nc_kind c)) (nc_fingerprint c)"
  unfolding well_referenced_def by (blast intro: prefix_order.trans)

lemma well_referenced_not_owner: "well_referenced c \<Longrightarrow> nc_fingerprint c \<noteq> owner_fingerprint k"
  using well_referenced_kind [of c] kind_prefix_not_owner by metis

text \<open>An entry that no later claim takes.\<close>

definition recorded :: "PersistentState \<Rightarrow> ustr \<Rightarrow> bool" where
  "recorded s f \<longleftrightarrow> (\<exists>e. ledger_entry s f = Some e \<and> le_status e \<noteq> Notif_PENDING) \<and> f \<notin> range owner_fingerprint"

lemma recorded_not_claimable: "recorded s f \<Longrightarrow> \<not> claimable (ledger_entry s f) now"
  by (auto simp: recorded_def claimable_def)

lemma recorded_reserve:
  assumes "recorded s f"
  shows "recorded (reserve_batch s kind cs now tok) f"
proof (cases "owner_live s kind now \<or> claimable_candidates s cs now = []")
  case True
  with assms show ?thesis by (simp add: reserve_batch_idle)
next
  case False
  from assms have "f \<notin> nc_fingerprint ` set (claimable_candidates s cs now)" "f \<noteq> owner_fingerprint kind"
    by (auto simp: claimable_candidates_def claimable_def recorded_def)
  moreover obtain e where e: "ledger_entry s f = Some e" "le_status e \<noteq> Notif_PENDING"
    using assms by (auto simp: recorded_def)
  moreover have "\<not> superseded (claimable_candidates s cs now) e"
    using e by (simp add: superseded_def is_active_iff)
  ultimately show ?thesis using False assms
    by (simp add: recorded_def reserve_batch_entry)
qed

lemma batch_update_status:
  "le_status (batch_update b (CommandSucceeded x y) e) \<in> {le_status e, Notif_DELIVERED}"
  by (auto simp: batch_update_def delivery_status_def dest!: dict_of_SomeD split: option.splits)

text \<open>The leases in a ledger, by token and expiry.\<close>

definition leases :: "PersistentState \<Rightarrow> (ustr \<times> datetime option) set" where
  "leases s = {(tok, le_lease_expires_at e) | tok e. e \<in> set (ps_ledger s) \<and> le_lease_token e = Some tok}"

definition quiet :: "PersistentState \<Rightarrow> datetime \<Rightarrow> ustr \<Rightarrow> bool" where
  "quiet s now tok \<longleftrightarrow> (\<forall>(t, expires) \<in> leases s. t \<noteq> tok \<and> (\<forall>x. expires = Some x \<longrightarrow> x \<le> now))"

lemma quiet_fresh: "quiet s now tok \<Longrightarrow> fresh_token s tok"
  by (fastforce simp: quiet_def fresh_token_def leases_def list_all_iff)

lemma quiet_entry: "quiet s now tok \<Longrightarrow> ledger_entry s f = Some e \<Longrightarrow> \<not> live_lease e now"
  by (fastforce simp: quiet_def leases_def live_lease_def ledger_entry_def dest!: ledger_find_SomeD
      split: option.splits)

lemma quiet_owner: "quiet s now tok \<Longrightarrow> \<not> owner_live s kind now"
  by (auto simp: owner_live_def dest: quiet_entry)

lemma quiet_claimable:
  "quiet s now tok \<Longrightarrow> claimable (ledger_entry s f) now \<longleftrightarrow> is_dispatchable (ledger_entry s f)"
  by (auto simp: claimable_def is_dispatchable_def dest: quiet_entry split: option.splits)

definition run_succeeds :: "runner \<Rightarrow> bool" where
  "run_succeeds run \<longleftrightarrow> (\<forall>arguments. \<exists>out err. run NOTIFY arguments = CommandSucceeded out err)"

definition delivered :: "NotificationCandidate \<Rightarrow> NotificationOutcome" where
  "delivered c = \<lparr>no_fingerprint = nc_fingerprint c, no_status = Notif_DELIVERED\<rparr>"

text \<open>One kind, with a token nobody holds and no live lease.\<close>

definition dispatch_one ::
  "runner \<Rightarrow> NotificationCandidate list \<Rightarrow> NotificationKind \<Rightarrow> datetime \<Rightarrow> ustr \<Rightarrow> PersistentState
     \<Rightarrow> PersistentState \<times> NotificationOutcome list" where
  "dispatch_one run cs kind now tok s =
     (case claim_batch s kind cs now tok of
        (s1, None) \<Rightarrow> (s1, [])
      | (s1, Some b) \<Rightarrow> dispatch_batch run b s1)"

lemma dispatch_kinds_Cons:
  "dispatch_kinds run cs ((kind, now, tok) # rest) s =
     (let (s1, outs) = dispatch_one run (filter (\<lambda>c. nc_kind c = kind) cs) kind now tok s;
          (s2, more) = dispatch_kinds run cs rest s1
      in (s2, outs @ more))"
  by (simp add: dispatch_one_def split_beta Let_def split: option.split prod.split)

lemma dispatch_one_idle:
  assumes "quiet s now tok" and "\<forall>c \<in> set cs. well_referenced c"
    and "claimable_candidates s cs now = []"
  shows "dispatch_one run cs kind now tok s = (s, [])"
proof -
  have "owner_fingerprint kind \<notin> nc_fingerprint ` set cs"
    using assms(2) well_referenced_not_owner by (metis image_iff)
  with assms show ?thesis
    using claim_batch_fresh [OF quiet_fresh, of s now tok kind cs now] claim_batch_fst [of s kind cs now tok]
    by (cases "claim_batch s kind cs now tok") (simp add: dispatch_one_def reserve_batch_idle)
qed

lemma dispatch_one_claims:
  assumes "quiet s now tok" and "\<forall>c \<in> set cs. well_referenced c"
    and "claimable_candidates s cs now \<noteq> []"
  shows "dispatch_one run cs kind now tok s =
    (let b = \<lparr>nb_kind = kind, nb_candidates = claimable_candidates s cs now, nb_lease_token = tok\<rparr>
     in complete_batch (reserve_batch s kind cs now tok) b (run NOTIFY (notify_arguments b)))"
proof -
  have "owner_fingerprint kind \<notin> nc_fingerprint ` set cs"
    using assms(2) well_referenced_not_owner by (metis image_iff)
  with assms show ?thesis
    using claim_batch_fresh [OF quiet_fresh, of s now tok kind cs now] claim_batch_fst [of s kind cs now tok]
      quiet_owner [of s now tok kind]
    by (cases "claim_batch s kind cs now tok") (simp add: dispatch_one_def dispatch_batch_def Let_def)
qed

lemma dispatch_one_entry:
  assumes valid: "validate_state s = Inr ()" "tok \<noteq> []"
    and quiet: "quiet s now tok" and refs: "\<forall>c \<in> set cs. well_referenced c"
    and claims: "claimable_candidates s cs now \<noteq> []" and run: "run_succeeds run"
  shows "ledger_entry (fst (dispatch_one run cs kind now tok s)) f =
    (if f = owner_fingerprint kind then None
     else if f \<in> nc_fingerprint ` set (claimable_candidates s cs now)
     then Some \<lparr>le_fingerprint = f, le_status = Notif_DELIVERED, le_recorded_at = now,
                le_lease_token = None, le_lease_expires_at = None\<rparr>
     else map_option (\<lambda>e. if superseded (claimable_candidates s cs now) e
                         then e\<lparr>le_status := Notif_SUPPRESSED\<rparr> else e) (ledger_entry s f))"
proof -
  let ?cl = "claimable_candidates s cs now" and ?s1 = "reserve_batch s kind cs now tok"
  define b where "b = \<lparr>nb_kind = kind, nb_candidates = ?cl, nb_lease_token = tok\<rparr>"
  obtain x y where r: "run NOTIFY (notify_arguments b) = CommandSucceeded x y"
    using run unfolding run_succeeds_def by blast
  have one: "dispatch_one run cs kind now tok s = complete_batch ?s1 b (CommandSucceeded x y)"
    using dispatch_one_claims [OF quiet refs claims] r by (simp add: b_def Let_def)
  note entry = reserve_batch_entry [OF quiet_owner [OF quiet] claims]
  have own: "owns_owner ?s1 (nb_kind b) (nb_lease_token b)"
    by (simp add: owns_owner_def b_def entry owned_by_def)
  have update: "batch_update b (CommandSucceeded x y) e = e"
    if "ledger_entry s f = Some e'" "le_lease_token e = le_lease_token e'" for f e e'
    using fresh_token_entry [OF quiet_fresh [OF quiet], of f] that
    by (simp add: batch_update_def owned_by_def b_def split: option.split)
  have dict: "dict_of nc_fingerprint (\<lambda>c. delivery_status (CommandSucceeded x y) (nc_change c)) ?cl f =
      Some Notif_DELIVERED" if "f \<in> nc_fingerprint ` set ?cl"
  proof -
    from that obtain st where
      "dict_of nc_fingerprint (\<lambda>c. delivery_status (CommandSucceeded x y) (nc_change c)) ?cl f = Some st"
      by (metis dict_of_None_iff not_None_eq)
    then show ?thesis by (auto simp: delivery_status_def dest!: dict_of_SomeD)
  qed
  have "ledger_entry (fst (complete_batch ?s1 b (CommandSucceeded x y))) f =
      (if f = owner_fingerprint kind then None
       else map_option (batch_update b (CommandSucceeded x y)) (ledger_entry ?s1 f))"
    using complete_batch_entry [OF reserve_batch_valid [OF valid] own] by (simp add: b_def)
  then show ?thesis
    unfolding one
    using update dict
    by (cases "ledger_entry s f") (auto simp: entry batch_update_def b_def leased_entry_def)
qed

lemma dispatch_one_select:
  assumes "quiet s now tok" and "\<forall>c \<in> set cs. well_referenced c"
  shows "ps_watches (fst (dispatch_one run cs kind now tok s)) = ps_watches s"
    and "ps_sources (fst (dispatch_one run cs kind now tok s)) = ps_sources s"
  using assms
  by (cases "claimable_candidates s cs now = []";
      simp add: dispatch_one_idle dispatch_one_claims Let_def)+

lemma dispatch_one_valid:
  assumes "validate_state s = Inr ()" "tok \<noteq> []" "quiet s now tok" "\<forall>c \<in> set cs. well_referenced c"
  shows "validate_state (fst (dispatch_one run cs kind now tok s)) = Inr ()"
  using assms
  by (cases "claimable_candidates s cs now = []")
    (simp_all add: dispatch_one_idle dispatch_one_claims Let_def complete_batch_valid reserve_batch_valid)

lemma dispatch_one_outcomes:
  assumes valid: "validate_state s = Inr ()" "tok \<noteq> []"
    and quiet: "quiet s now tok" and refs: "\<forall>c \<in> set cs. well_referenced c"
    and run: "run_succeeds run"
  shows "snd (dispatch_one run cs kind now tok s) =
    map delivered (filter (\<lambda>c. is_dispatchable (ledger_entry s (nc_fingerprint c))) cs)"
proof (cases "claimable_candidates s cs now = []")
  case True
  with dispatch_one_idle [OF quiet refs True] show ?thesis
    by (simp add: claimable_candidates_def quiet_claimable [OF quiet])
next
  case False
  let ?cl = "claimable_candidates s cs now" and ?s1 = "reserve_batch s kind cs now tok"
  define b where "b = \<lparr>nb_kind = kind, nb_candidates = ?cl, nb_lease_token = tok\<rparr>"
  obtain x y where r: "run NOTIFY (notify_arguments b) = CommandSucceeded x y"
    using run unfolding run_succeeds_def by blast
  have one: "dispatch_one run cs kind now tok s = complete_batch ?s1 b (CommandSucceeded x y)"
    using dispatch_one_claims [OF quiet refs False] r by (simp add: b_def Let_def)
  note owned = reserve_batch_owned [OF quiet_fresh [OF quiet] quiet_owner [OF quiet] False]
  have own: "owns_owner ?s1 (nb_kind b) (nb_lease_token b)"
    by (simp add: owns_owner_def b_def owned)
  have all: "filter (\<lambda>c. owned_by (ledger_entry ?s1 (nc_fingerprint c)) tok) ?cl = ?cl"
    by (simp add: owned filter_id_conv)
  show ?thesis
    unfolding one complete_batch_outcomes [OF reserve_batch_valid [OF valid] own]
    by (simp add: b_def all delivered_def [abs_def] delivery_status_def)
      (simp add: claimable_candidates_def quiet_claimable [OF quiet])
qed

lemma dispatch_one_recorded:
  assumes valid: "validate_state s = Inr ()" "tok \<noteq> []"
    and quiet: "quiet s now tok" and refs: "\<forall>c \<in> set cs. well_referenced c"
    and run: "run_succeeds run"
  shows "c \<in> set cs \<Longrightarrow> recorded (fst (dispatch_one run cs kind now tok s)) (nc_fingerprint c)"
    and "recorded s f \<Longrightarrow> recorded (fst (dispatch_one run cs kind now tok s)) f"
proof -
  let ?cl = "claimable_candidates s cs now"
  have keep: "recorded (fst (dispatch_one run cs kind now tok s)) f" if f: "recorded s f" for f
  proof (cases "?cl = []")
    case True
    with f show ?thesis by (simp add: dispatch_one_idle [OF quiet refs])
  next
    case False
    obtain e where e: "ledger_entry s f = Some e" "le_status e \<noteq> Notif_PENDING" "f \<notin> range owner_fingerprint"
      using f by (auto simp: recorded_def)
    moreover have "\<not> superseded ?cl e" using e by (simp add: superseded_def is_active_iff)
    ultimately show ?thesis
      using dispatch_one_entry [OF valid quiet refs False run, of kind f] by (auto simp: recorded_def)
  qed
  then show "recorded s f \<Longrightarrow> recorded (fst (dispatch_one run cs kind now tok s)) f" .
  assume c: "c \<in> set cs"
  have range: "nc_fingerprint c \<notin> range owner_fingerprint"
    using c refs well_referenced_not_owner by blast
  show "recorded (fst (dispatch_one run cs kind now tok s)) (nc_fingerprint c)"
  proof (cases "c \<in> set ?cl")
    case True
    then have "?cl \<noteq> []" by auto
    from dispatch_one_entry [OF valid quiet refs this run, of kind "nc_fingerprint c"] True range show ?thesis
      by (auto simp: recorded_def)
  next
    case False
    with c have "\<not> is_dispatchable (ledger_entry s (nc_fingerprint c))"
      by (simp add: claimable_candidates_def quiet_claimable [OF quiet])
    with range have "recorded s (nc_fingerprint c)"
      by (auto simp: recorded_def is_dispatchable_def split: option.splits)
    then show ?thesis by (rule keep)
  qed
qed

lemma leases_entry:
  assumes "validate_state s = Inr ()"
  shows "leases s = {(tok, le_lease_expires_at e) | tok e f. ledger_entry s f = Some e \<and> le_lease_token e = Some tok}"
  by (auto simp: leases_def ledger_entry_in [OF assms])

lemma dispatch_one_leases:
  assumes valid: "validate_state s = Inr ()" "tok \<noteq> []"
    and quiet: "quiet s now tok" and refs: "\<forall>c \<in> set cs. well_referenced c"
    and run: "run_succeeds run"
  shows "leases (fst (dispatch_one run cs kind now tok s)) \<subseteq> leases s"
proof (cases "claimable_candidates s cs now = []")
  case True
  then show ?thesis by (simp add: dispatch_one_idle [OF quiet refs])
next
  case False
  show ?thesis
    unfolding leases_entry [OF valid(1)] leases_entry [OF dispatch_one_valid [OF valid quiet refs]]
      dispatch_one_entry [OF valid quiet refs False run]
    by (auto split: if_splits) blast+
qed

lemma dispatch_one_other_kind:
  assumes valid: "validate_state s = Inr ()" "tok \<noteq> []"
    and quiet: "quiet s now tok" and refs: "\<forall>c \<in> set cs. well_referenced c \<and> nc_kind c = kind"
    and run: "run_succeeds run" and other: "prefix (kind_prefix k) f" "k \<noteq> kind"
  shows "ledger_entry (fst (dispatch_one run cs kind now tok s)) f = ledger_entry s f"
proof (cases "claimable_candidates s cs now = []")
  case True
  then show ?thesis using refs by (simp add: dispatch_one_idle [OF quiet])
next
  case False
  let ?cl = "claimable_candidates s cs now"
  have cl: "set ?cl \<subseteq> set cs" by (auto simp: claimable_candidates_def)
  have "\<not> prefix (nc_reference c) f" if "c \<in> set ?cl" for c
  proof
    assume "prefix (nc_reference c) f"
    moreover have "prefix (kind_prefix kind) (nc_reference c)"
      using that cl refs by (auto simp: well_referenced_def)
    ultimately have "prefix (kind_prefix kind) f" by (metis prefix_order.trans)
    with other show False using kind_prefix_distinct by blast
  qed
  then have free: "\<not> superseded ?cl e" if "ledger_entry s f = Some e" for e
    using that by (auto simp: superseded_def ledger_entry_def dest!: ledger_find_SomeD)
  have "f \<noteq> owner_fingerprint kind" using other(1) kind_prefix_not_owner by metis
  moreover have "f \<notin> nc_fingerprint ` set ?cl"
  proof
    assume "f \<in> nc_fingerprint ` set ?cl"
    then obtain c where "c \<in> set cs" "f = nc_fingerprint c" using cl by blast
    with refs have "prefix (kind_prefix kind) f" using well_referenced_kind by metis
    with other show False using kind_prefix_distinct by blast
  qed
  moreover have "\<forall>c \<in> set cs. well_referenced c" using refs by blast
  ultimately show ?thesis
    using dispatch_one_entry [OF valid quiet _ False run, of kind f] free
    by (cases "ledger_entry s f") auto
qed

lemma quiet_mono: "quiet s now tok \<Longrightarrow> leases s' \<subseteq> leases s \<Longrightarrow> quiet s' now tok"
  unfolding quiet_def by blast

definition claims_ok :: "PersistentState \<Rightarrow> (NotificationKind \<times> datetime \<times> ustr) list \<Rightarrow> bool" where
  "claims_ok s steps \<longleftrightarrow> (\<forall>(kind, now, tok) \<in> set steps. tok \<noteq> [] \<and> quiet s now tok)"

lemma dispatch_kinds_sound:
  assumes "validate_state s = Inr ()" and "claims_ok s steps" and "\<forall>c \<in> set cs. well_referenced c"
    and "run_succeeds run" and "distinct (map fst steps)"
  defines "r \<equiv> dispatch_kinds run cs steps s"
  shows "validate_state (fst r) = Inr ()" (is ?valid)
    and "ps_watches (fst r) = ps_watches s" (is ?watches)
    and "leases (fst r) \<subseteq> leases s" (is ?leases)
    and "snd r = concat (map (\<lambda>(kind, _). map delivered (filter (\<lambda>c. nc_kind c = kind \<and>
           is_dispatchable (ledger_entry s (nc_fingerprint c))) cs)) steps)" (is ?outs)
    and "\<forall>f. recorded s f \<longrightarrow> recorded (fst r) f" (is ?keep)
    and "\<forall>c \<in> set cs. nc_kind c \<in> fst ` set steps \<longrightarrow> recorded (fst r) (nc_fingerprint c)" (is ?rec)
proof -
  have "?valid \<and> ?watches \<and> ?leases \<and> ?outs \<and> ?keep \<and> ?rec"
    unfolding r_def using assms(1,2,5)
  proof (induction steps arbitrary: s)
    case (Cons st rest)
    obtain kind now tok where st: "st = (kind, now, tok)" by (cases st) auto
    let ?cs = "filter (\<lambda>c. nc_kind c = kind) cs"
    let ?s1 = "fst (dispatch_one run ?cs kind now tok s)"
    have q: "tok \<noteq> []" "quiet s now tok" using Cons.prems(2) by (auto simp: claims_ok_def st)
    have refs: "\<forall>c \<in> set ?cs. well_referenced c" using assms(3) by auto
    note one = dispatch_one_valid [OF Cons.prems(1) q refs] dispatch_one_select [OF q(2) refs]
      dispatch_one_leases [OF Cons.prems(1) q refs assms(4)]
      dispatch_one_outcomes [OF Cons.prems(1) q refs assms(4)]
      dispatch_one_recorded [OF Cons.prems(1) q refs assms(4)]
    have ok: "claims_ok ?s1 rest"
      using Cons.prems(2) one(4) quiet_mono by (fastforce simp: claims_ok_def)
    have other: "ledger_entry ?s1 (nc_fingerprint c) = ledger_entry s (nc_fingerprint c)"
      if "c \<in> set cs" "nc_kind c \<noteq> kind" for c
      using dispatch_one_other_kind [OF Cons.prems(1) q _ assms(4), of ?cs kind "nc_kind c"] that assms(3)
        well_referenced_kind by auto
    have new: "kind \<notin> fst ` set rest" "distinct (map fst rest)" using Cons.prems(3) st by auto
    note IH = Cons.IH [OF one(1) ok new(2)]
    have same: "(\<lambda>(k, _). map delivered (filter (\<lambda>c. nc_kind c = k \<and>
          is_dispatchable (ledger_entry ?s1 (nc_fingerprint c))) cs)) x =
        (\<lambda>(k, _). map delivered (filter (\<lambda>c. nc_kind c = k \<and>
          is_dispatchable (ledger_entry s (nc_fingerprint c))) cs)) x" if "x \<in> set rest" for x
    proof -
      obtain k y where x: "x = (k, y)" by (cases x)
      with that new(1) have "k \<noteq> kind" by force
      then have "filter (\<lambda>c. nc_kind c = k \<and> is_dispatchable (ledger_entry ?s1 (nc_fingerprint c))) cs =
          filter (\<lambda>c. nc_kind c = k \<and> is_dispatchable (ledger_entry s (nc_fingerprint c))) cs"
        using other by (intro filter_cong) auto
      then show ?thesis by (simp add: x)
    qed
    have r: "fst (dispatch_kinds run cs (st # rest) s) = fst (dispatch_kinds run cs rest ?s1)"
      "snd (dispatch_kinds run cs (st # rest) s) =
         snd (dispatch_one run ?cs kind now tok s) @ snd (dispatch_kinds run cs rest ?s1)"
      unfolding st dispatch_kinds_Cons by (simp_all add: split_beta Let_def)
    have outs: "snd (dispatch_kinds run cs rest ?s1) = concat (map (\<lambda>(k, _). map delivered
        (filter (\<lambda>c. nc_kind c = k \<and> is_dispatchable (ledger_entry s (nc_fingerprint c))) cs)) rest)"
      using IH same by (simp cong: map_cong)
    have rec: "recorded (fst (dispatch_kinds run cs rest ?s1)) (nc_fingerprint c)"
      if "c \<in> set cs" "nc_kind c \<in> fst ` set (st # rest)" for c
      using that IH one(6) by (auto simp: st)
    show ?case unfolding r
    proof (intro conjI)
      show "ps_watches (fst (dispatch_kinds run cs rest ?s1)) = ps_watches s" using IH one(2) by simp
      show "leases (fst (dispatch_kinds run cs rest ?s1)) \<subseteq> leases s" using IH one(4) by blast
      show "snd (dispatch_one run ?cs kind now tok s) @ snd (dispatch_kinds run cs rest ?s1) =
          concat (map (\<lambda>(kind, _). map delivered (filter (\<lambda>c. nc_kind c = kind \<and>
            is_dispatchable (ledger_entry s (nc_fingerprint c))) cs)) (st # rest))"
        unfolding outs one(5) by (simp add: st)
    qed (use IH one(7) rec in blast)+
  qed (simp add: claims_ok_def)
  then show ?valid ?watches ?leases ?outs ?keep ?rec by blast+
qed

section \<open>Properties\<close>


definition accepting_runner :: runner where
  "accepting_runner name arguments = CommandSucceeded [] []"

lemma bash_starred_valid: "validate_state bash_starred = Inr ()"
  by (simp add: validate_state_iff bash_starred_def watches_ok_def watch_ok_def validate_watch_def
      ledger_ok_def sources_ok_def)


text \<open>
  C14: No notification is lost to its own text. For a valid state and a snapshot that validates,
  every batch made of its candidates, of fewer than \<open>10 ^ 50\<close> of them, passes the argument policy of
  the notification command: title and body have at most 4096 characters and no NUL, whatever labels
  and versions the packages have. The closed runner therefore never rejects the notification, so
  that no result is recorded as failed for good.
\<close>

theorem notification_text_permitted:
  assumes "validate_state state = Inr ()" and "snapshot_valid snapshot" and "nb_candidates batch \<noteq> []"
    and "set (nb_candidates batch) \<subseteq>
      set (notification_candidates state snapshot now settings (command_runner home spawn))"
    and "length (nb_candidates batch) < 10 ^ 50"
  shows "arguments_allowed (cs_argument_policy (COMMAND_SPECS home NOTIFY)) (notify_arguments batch) \<and>
    delivery_status (command_runner home spawn NOTIFY (notify_arguments batch)) change \<noteq> Notif_FAILED"
proof -
  have "hd (nb_candidates batch) \<in>
      set (notification_candidates state snapshot now settings (command_runner home spawn))"
    using assms(3,4) hd_in_set by blast
  from candidate_plain [OF assms(1,2) this] batch_body_plain [OF _ assms(5)]
  have "arguments_allowed (cs_argument_policy (COMMAND_SPECS home NOTIFY)) (notify_arguments batch)"
    by (simp add: COMMAND_SPECS_policy arguments_allowed_def notify_arguments_def plain_text_def
        del: COMMAND_SPECS.simps)
  then show ?thesis using commands.allowed_never_failed by blast
qed

theorem notification_text_permitted_witness:
  "delivery_status (command_runner [] (\<lambda>_. Not_Executable) NOTIFY (notify_arguments
     \<lparr>nb_kind = NKind_WATCH, nb_candidates = [bash_candidate], nb_lease_token = lit ''a''\<rparr>)) Change_FIRST
   \<noteq> Notif_FAILED"
  using notification_text_permitted [OF bash_starred_valid bash_snapshot_valid, of
      "\<lparr>nb_kind = NKind_WATCH, nb_candidates = [bash_candidate], nb_lease_token = lit ''a''\<rparr>"
      0 default_settings "[]" "\<lambda>_. Not_Executable" Change_FIRST]
    bash_candidate_reported [of "command_runner [] (\<lambda>_. Not_Executable)"]
  by simp

end
