(* ===== verification/Scan_Coordinator.thy ===== *)
theory Scan_Coordinator
  imports Storage_Refinement Notification_Dispatch
begin

text \<open>
  The scan of \<open>scan.py\<close>, whole: load the generation and the state, collect the sources that are due,
  build the next generation, commit it, and dispatch the notifications of the committed snapshot
  through the storage (\<open>notifications.py\<close>, \<open>notification_batch.py\<close>). The readings of the clock of the
  process are a sequence \<open>clk\<close>; an operation that may read it takes its own positions of the
  sequence. The collectors are a record of the results they give; collecting the security source is an
  action, since it keeps its feeds in the cache.
\<close>

section \<open>Requests and collectors\<close>

record ScanRequest =
  rq_generation_id :: ustr
  rq_generation_order :: int
  rq_force :: bool
  rq_notification_settings :: NotificationSettings
  rq_enable_cisa_kev :: bool

record ScanResult =
  sres_committed :: bool
  sres_snapshot :: SnapshotResponse

record ScanCollector =
  collect_omarchy :: "OmarchyAvailability result"
  collect_arch :: "NormalizedItem list arch_result"
  collect_aur :: AurResult
  collect_flatpak_scopes :: FlatpakResult
  collect_mise :: "MiseResult result"
  collect_security :: "bool \<Rightarrow> SecurityResult act"

section \<open>Notifications through the storage\<close>

text \<open>
  \<open>claim_batch\<close>: the reservation is one locked update; the batch is read off the state it returns.
\<close>

definition claimed_batch ::
  "PersistentState \<Rightarrow> NotificationKind \<Rightarrow> NotificationCandidate list \<Rightarrow> ustr \<Rightarrow> NotificationBatch option" where
  "claimed_batch state kind candidates token =
     (let claimed = filter (\<lambda>c. owned_by (ledger_entry state (nc_fingerprint c)) token) candidates
      in if claimed = [] \<or> \<not> owns_owner state kind token then None
         else Some \<lparr>nb_kind = kind, nb_candidates = claimed, nb_lease_token = token\<rparr>)"

definition stored_claim ::
  "(ustr \<Rightarrow> datetime option) \<Rightarrow> clock \<Rightarrow> NotificationKind \<Rightarrow> NotificationCandidate list \<Rightarrow> datetime \<Rightarrow> ustr
     \<Rightarrow> NotificationBatch option act" where
  "stored_claim fiso c kind candidates now token =
     bindA (case c of (t0, t1, t2) \<Rightarrow>
         update_state fiso t0 t1 t2 (\<lambda>current. Inr (reserve_batch current kind candidates now token)))
       (\<lambda>loaded. retA (claimed_batch (sl_state loaded) kind candidates token))"

text \<open>
  \<open>complete_batch\<close>: the mutation leaves the completed fingerprints in a variable of the caller, so the
  action returns them beside the state.
\<close>

definition stored_complete ::
  "(ustr \<Rightarrow> datetime option) \<Rightarrow> clock \<Rightarrow> NotificationBatch \<Rightarrow> CommandResult \<Rightarrow> NotificationOutcome list act" where
  "stored_complete fiso c batch outcome =
     (case c of (t0, t1, t2) \<Rightarrow>
        bindA (load_state_locked fiso False t0 t1 t2) (\<lambda>loaded.
          let (updated, outcomes) = complete_batch (sl_state loaded) batch outcome
          in bindA (write_state fiso t1 t2 updated) (\<lambda>_. retA outcomes)))"

fun stored_kinds ::
  "(ustr \<Rightarrow> datetime option) \<Rightarrow> runner \<Rightarrow> (nat \<Rightarrow> datetime) \<Rightarrow> NotificationCandidate list
     \<Rightarrow> (NotificationKind \<times> ustr) list \<Rightarrow> nat \<Rightarrow> NotificationOutcome list act" where
  "stored_kinds fiso run clk candidates [] n = retA []"
| "stored_kinds fiso run clk candidates ((kind, token) # rest) n =
     bindA (stored_claim fiso (clk (n + 1), clk (n + 2), clk (n + 3)) kind
              (filter (\<lambda>c. nc_kind c = kind) candidates) (clk n) token) (\<lambda>batch.
       case batch of
         None \<Rightarrow> stored_kinds fiso run clk candidates rest (n + 7)
       | Some b \<Rightarrow>
           bindA (stored_complete fiso (clk (n + 4), clk (n + 5), clk (n + 6)) b
                    (run NOTIFY (notify_arguments b))) (\<lambda>outcomes.
           bindA (stored_kinds fiso run clk candidates rest (n + 7)) (\<lambda>more.
             retA (outcomes @ more))))"

definition stored_dispatch ::
  "(ustr \<Rightarrow> datetime option) \<Rightarrow> runner \<Rightarrow> (nat \<Rightarrow> datetime) \<Rightarrow> ustr list \<Rightarrow> NotificationSettings
     \<Rightarrow> SnapshotResponse \<Rightarrow> nat \<Rightarrow> NotificationOutcome list act" where
  "stored_dispatch fiso run clk tokens settings snapshot n =
     bindA (storage_load_state fiso (clk (n + 1)) (clk (n + 2)) (clk (n + 3))) (\<lambda>loaded.
       stored_kinds fiso run clk
         (notification_candidates (sl_state loaded) snapshot (clk n) settings run)
         (zip notification_kind_members tokens) (n + 4))"

section \<open>The scan\<close>

definition source_due :: "SourceName \<Rightarrow> SourceMetadata list \<Rightarrow> datetime \<Rightarrow> bool \<Rightarrow> bool" where
  "source_due source metadata now force = due (find (\<lambda>m. sm_source m = source) metadata) now force"

definition scan_flatpak :: "ScanCollector \<Rightarrow> bool \<Rightarrow> SourceOutcome option \<times> SourceOutcome option" where
  "scan_flatpak collector is_due =
     (if \<not> is_due then (None, None)
      else map_prod Some Some (flatpak_outcomes (collect_flatpak_scopes collector)))"

definition scan_security ::
  "ScanCollector \<Rightarrow> bool \<Rightarrow> bool \<Rightarrow> bool \<Rightarrow> (SourceOutcome option \<times> SourceOutcome option) act" where
  "scan_security collector security_due cisa_due enable_cisa_kev =
     (if \<not> enable_cisa_kev then
        (if \<not> security_due then retA (None, Some (not_applicable Src_CISA_KEV None))
         else bindA (collect_security collector False) (\<lambda>r.
           retA (Some (fst (security_outcomes r)), Some (not_applicable Src_CISA_KEV None))))
      else if \<not> security_due \<and> \<not> cisa_due then retA (None, None)
      else bindA (collect_security collector True) (\<lambda>r.
        retA (map_prod Some Some (security_outcomes r))))"

text \<open>\<open>outcome(collect()) if is_due else None\<close>, for a collector that may raise.\<close>

definition outcome_if_due :: "bool \<Rightarrow> ('a \<Rightarrow> SourceOutcome) \<Rightarrow> 'a result \<Rightarrow> SourceOutcome option result" where
  "outcome_if_due is_due outcome collected =
     (if is_due then bindE collected (\<lambda>r. Inr (Some (outcome r))) else Inr None)"

definition scan_inputs ::
  "ScanCollector \<Rightarrow> SourceMetadata list \<Rightarrow> datetime \<Rightarrow> ScanRequest \<Rightarrow> ScanInputs act" where
  "scan_inputs collector metadata now request =
     (let is_due = (\<lambda>source. source_due source metadata now (rq_force request));
          (flatpak_user, flatpak_system) = scan_flatpak collector (is_due Src_FLATPAK)
      in bindA (liftA (outcome_if_due (is_due Src_OMARCHY) omarchy_outcome (collect_omarchy collector))) (\<lambda>omarchy.
         bindA (liftA (outcome_if_due (is_due Src_MISE) mise_outcome (collect_mise collector))) (\<lambda>mise.
         bindA (scan_security collector (is_due Src_SECURITY) (is_due Src_CISA_KEV) (rq_enable_cisa_kev request))
           (\<lambda>(security, cisa_kev). retA
             \<lparr>si_omarchy = omarchy,
              si_arch = (if is_due Src_ARCH then Some (arch_outcome (collect_arch collector)) else None),
              si_aur = (if is_due Src_AUR then Some (aur_outcome (collect_aur collector)) else None),
              si_flatpak_user = flatpak_user, si_flatpak_system = flatpak_system,
              si_mise = mise, si_security = security, si_cisa_kev = cisa_kev\<rparr>))))"

text \<open>\<open>replace(snapshot, payload=replace(snapshot.payload, notifications=outcomes))\<close>.\<close>

definition with_notifications :: "SnapshotResponse \<Rightarrow> NotificationOutcome list \<Rightarrow> SnapshotResponse" where
  "with_notifications snapshot outcomes =
     snapshot\<lparr>sr_payload := (sr_payload snapshot)\<lparr>sp_notifications := outcomes\<rparr>\<rparr>"

text \<open>The scan up to the generation it builds, and the whole of it.\<close>

definition scan_build ::
  "(ustr \<Rightarrow> datetime option) \<Rightarrow> (nat \<Rightarrow> datetime) \<Rightarrow> ScanCollector \<Rightarrow> ScanRequest \<Rightarrow> GenerationBundle act" where
  "scan_build fiso clk collector request =
     bindA (load_generation_locked fiso) (\<lambda>previous.
     bindA (storage_load_state fiso (clk 1) (clk 2) (clk 3)) (\<lambda>loaded.
     bindA (scan_inputs collector (ps_sources (sl_state loaded)) (clk 0) request) (\<lambda>inputs.
       liftA (build_generation (rq_generation_id request) (rq_generation_order request) inputs
              previous (sl_state loaded) (clk 0)))))"

definition scan_run ::
  "(ustr \<Rightarrow> datetime option) \<Rightarrow> runner \<Rightarrow> (nat \<Rightarrow> datetime) \<Rightarrow> ustr list \<Rightarrow> ScanCollector \<Rightarrow> ScanRequest
     \<Rightarrow> ScanResult act" where
  "scan_run fiso run clk tokens collector request =
     bindA (scan_build fiso clk collector request) (\<lambda>generation.
     bindA (commit_generation fiso (clk 4) (clk 5) generation) (\<lambda>committed.
       if committed then
         bindA (stored_dispatch fiso run clk tokens (rq_notification_settings request)
                  (gb_snapshot generation) 6) (\<lambda>outcomes.
           retA \<lparr>sres_committed = True,
                 sres_snapshot = with_notifications (gb_snapshot generation) outcomes\<rparr>)
       else retA \<lparr>sres_committed = False, sres_snapshot = gb_snapshot generation\<rparr>))"

section \<open>Updates of the ledger\<close>

text \<open>
  What the dispatcher asks of the storage: a mutation of the state, with arguments that satisfy its
  condition, keeps the state valid and printable and leaves watches and sources alone. Then the stored
  update goes through and the files hold the updated store.
\<close>

locale ledger_update =
  fixes apply_to :: "'x \<Rightarrow> PersistentState \<Rightarrow> PersistentState" and ok :: "'x \<Rightarrow> bool"
  assumes keeps_valid: "ok x \<Longrightarrow> validate_state s = Inr () \<Longrightarrow> validate_state (apply_to x s) = Inr ()"
    and keeps_text: "ok x \<Longrightarrow> state_text s \<Longrightarrow> state_text (apply_to x s)"
    and keeps_watches: "ps_watches (apply_to x s) = ps_watches s"
    and keeps_sources: "ps_sources (apply_to x s) = ps_sources s"
begin

lemma updated_ok:
  assumes "ok x" and "holds d a t"
  shows "validate_state (apply_to x (prune_ledger (st_state a) t0)) = Inr ()"
    "state_text (apply_to x (prune_ledger (st_state a) t0))"
  using assms holds_valid [OF assms(2)]
  by (simp_all add: keeps_valid keeps_text prune_ledger_valid prune_ledger_text)

lemma updated:
  assumes "ok x" and "reads_isoformat fiso" and "holds d a t" and "t \<le> t0" and "t0 \<le> t1" and "t1 \<le> t2"
  obtains d' u where "u = apply_to x (prune_ledger (st_state a) t0)"
    "update_state fiso t0 t1 t2 (\<lambda>s. Inr (apply_to x s)) d = (Inr \<lparr>sl_state = u, sl_warning = None\<rparr>, d')"
    "holds d' (put a u) t2" "ps_watches u = ps_watches (st_state a)" "ps_sources u = ps_sources (st_state a)"
proof -
  let ?u = "apply_to x (prune_ledger (st_state a) t0)"
  from update_state_holds [where m = "\<lambda>s. Inr (apply_to x s)", OF assms(2-6) refl updated_ok [OF assms(1, 3)]]
  obtain d' where "update_state fiso t0 t1 t2 (\<lambda>s. Inr (apply_to x s)) d =
      (Inr \<lparr>sl_state = ?u, sl_warning = None\<rparr>, d')" "holds d' (put a ?u) t2" .
  then show thesis by (rule that [OF refl]) (simp_all add: keeps_watches keeps_sources)
qed

lemma written:
  assumes "ok x" and "reads_isoformat fiso" and "holds d a t" and "t \<le> t0" and "t0 \<le> t1" and "t1 \<le> t2"
  obtains d' u where "u = apply_to x (prune_ledger (st_state a) t0)" "write_state fiso t1 t2 u d = (Inr (), d')"
    "holds d' (put a u) t2" "ps_watches u = ps_watches (st_state a)" "ps_sources u = ps_sources (st_state a)"
proof -
  let ?u = "apply_to x (prune_ledger (st_state a) t0)"
  have "t \<le> t1" using assms(4, 5) by simp
  from write_state_holds [OF assms(2, 3) updated_ok [OF assms(1, 3)] this assms(6)]
  obtain d' where "write_state fiso t1 t2 ?u d = (Inr (), d')" "holds d' (put a ?u) t2" .
  then show thesis by (rule that [OF refl]) (simp_all add: keeps_watches keeps_sources)
qed

end

lemma ledger_text_upsert:
  "(\<forall>e \<in> set es. ledger_text e) \<Longrightarrow> ledger_text e \<Longrightarrow> \<forall>e \<in> set (upsert es e). ledger_text e"
  by (auto simp: upsert_def)

lemma ledger_text_fold:
  "(\<forall>e \<in> set es. ledger_text e) \<Longrightarrow> (\<forall>c \<in> set cs. ledger_text (f c)) \<Longrightarrow>
   \<forall>e \<in> set (foldl (\<lambda>l c. upsert l (f c)) es cs). ledger_text e"
proof (induction cs arbitrary: es)
  case (Cons c cs)
  from ledger_text_upsert [OF Cons.prems(1), of "f c"] Cons.prems(2)
  have "\<forall>e \<in> set (upsert es (f c)). ledger_text e" by simp
  from Cons.IH [OF this] Cons.prems(2) show ?case by simp
qed simp

lemma ledger_text_suppress:
  "(\<forall>e \<in> set es. ledger_text e) \<Longrightarrow> \<forall>e \<in> set (suppress_superseded es cs). ledger_text e"
  by (auto simp: suppress_superseded_def ledger_text_def Let_def)

lemma ledger_text_leased:
  "text_ok f \<Longrightarrow> text_ok tok \<Longrightarrow> representable now \<Longrightarrow> representable (now + LEASE_DURATION) \<Longrightarrow>
   ledger_text (leased_entry f now tok)"
  by (simp add: ledger_text_def leased_entry_def option_ok_def)

lemma owner_text: "text_ok (owner_fingerprint kind)"
  by (cases kind) (simp_all add: owner_fingerprint_def text_ok_def scalar_lit)

definition claim_ok :: "NotificationKind \<times> NotificationCandidate list \<times> datetime \<times> ustr \<Rightarrow> bool" where
  "claim_ok x = (case x of (kind, candidates, now, token) \<Rightarrow>
     (\<forall>c \<in> set candidates. text_ok (nc_fingerprint c)) \<and> token \<noteq> [] \<and> text_ok token \<and>
     representable now \<and> representable (now + LEASE_DURATION))"

lemma reserve_batch_text:
  assumes "claim_ok (kind, cs, now, tok)" and "state_text s"
  shows "state_text (reserve_batch s kind cs now tok)"
proof (cases "owner_live s kind now \<or> claimable_candidates s cs now = []")
  case False
  let ?cs = "claimable_candidates s cs now"
  have lease: "\<forall>c \<in> set ?cs. ledger_text (leased_entry (nc_fingerprint c) now tok)"
    using assms(1) by (auto simp: claim_ok_def claimable_candidates_def ledger_text_leased)
  have owner: "ledger_text (leased_entry (owner_fingerprint kind) now tok)"
    using assms(1) by (simp add: claim_ok_def ledger_text_leased owner_text)
  have "\<forall>e \<in> set (ps_ledger s). ledger_text e" using assms(2) by (simp add: state_text_def)
  from ledger_text_upsert [OF ledger_text_fold [OF ledger_text_suppress [OF this] lease] owner]
  have "\<forall>e \<in> set (ps_ledger (reserve_batch s kind cs now tok)). ledger_text e"
    using False by (simp add: reserve_batch_ledger)
  with assms(2) show ?thesis by (simp add: state_text_def)
qed (use assms in \<open>simp add: reserve_batch_idle\<close>)

lemma complete_batch_text: "state_text s \<Longrightarrow> state_text (fst (complete_batch s b r))"
  by (auto simp: complete_batch_def complete_batch_state_def Let_def state_text_def ledger_text_def option_ok_def)

interpretation claims: ledger_update
  "\<lambda>(kind, candidates, now, token) s. reserve_batch s kind candidates now token" claim_ok
  by unfold_locales (auto simp: reserve_batch_text reserve_batch_valid claim_ok_def split: prod.splits)

interpretation completions: ledger_update "\<lambda>(batch, outcome) s. fst (complete_batch s batch outcome)" "\<lambda>_. True"
  by unfold_locales (auto simp: complete_batch_text complete_batch_valid split: prod.splits)

section \<open>Fingerprints are printable\<close>

lemma text_append [simp]: "text_ok (s @ t) \<longleftrightarrow> text_ok s \<and> text_ok t"
  by (simp add: text_ok_def)

lemma text_lit [simp]: "text_ok (lit s)"
  by (simp add: text_ok_def scalar_lit)

lemma text_digest [simp]: "text_ok (policy_digest parts)"
  using hexdigest_lower_hex
  by (force simp: policy_digest_def text_ok_def list_all_iff is_lower_hex_def scalar_value_def)

lemma watch_candidates_text:
  assumes "snapshot_text snapshot" and "c \<in> set (watch_candidates state snapshot now settings)"
  shows "text_ok (nc_fingerprint c)"
proof -
  obtain i v x y where "i \<in> set (sp_items (sr_payload snapshot))"
      "ni_installed_fingerprint i = Some x" "ni_candidate_fingerprint i = Some y" "c = watch_candidate state i v x y"
  proof -
    from assms(2) obtain i where i: "i \<in> set (sp_items (sr_payload snapshot))"
        "(case (ni_candidate i, ni_installed_fingerprint i, ni_candidate_fingerprint i) of
            (Some candidate, Some installed, Some offered) \<Rightarrow>
              if fresh_item snapshot (ni_source i) (ni_provenance i) now
              then Some (watch_candidate state i candidate installed offered) else None
          | _ \<Rightarrow> None) = Some c"
      by (auto simp: watch_candidates_def in_set_collect_some Let_def split: if_split_asm)
    show thesis
      by (cases "ni_candidate i"; cases "ni_installed_fingerprint i"; cases "ni_candidate_fingerprint i")
        (use i in \<open>auto intro: that split: if_split_asm\<close>)
  qed
  moreover from this(1) have "item_text i" using assms(1) by (simp add: snapshot_text_def)
  ultimately show ?thesis
    by (simp add: watch_candidate_def watch_notification_reference_def item_text_def option_ok_def Let_def)
qed

lemma security_candidates_text:
  assumes "c \<in> set (security_candidates state snapshot now settings owned)"
  shows "text_ok (nc_fingerprint c)"
  using assms
  by (auto simp: security_candidates_def in_set_collect_some security_candidate_def security_reference_def
      Let_def split: if_splits option.splits)

lemma conditional_candidates_text:
  assumes "state_text state" and "validate_state state = Inr ()"
    and "c \<in> set (conditional_security_candidates state snapshot now settings run)"
  shows "text_ok (nc_fingerprint (cc_candidate c))"
proof -
  from assms(3) obtain w condition where w: "w \<in> set (ps_watches state)" "w_condition w = Some condition"
      "condition_candidate state snapshot w condition settings run = Some c"
    by (auto simp: conditional_security_candidates_def in_set_collect_some split: if_splits option.splits)
  then have c: "w_mode w = Watch_TEMPORARY" "\<exists>candidate. cc_candidate c =
      condition_notification (ps_ledger state) w condition candidate"
    by (auto simp: condition_candidate_def split: if_splits option.splits sum.splits)
  have "validate_condition condition = Inr ()"
    using assms(2) w c(1) by (auto simp: validate_state_iff watches_ok_def watch_ok_def validate_watch_def)
  from condition_scalar(1) [OF this] have "text_ok (fc_advisory_id condition)" by (simp add: text_ok_def)
  moreover have "text_ok (w_item_id w)" using assms(1) w(1) by (simp add: state_text_def watch_text_def)
  ultimately show ?thesis
    using c(2) by (auto simp: condition_notification_def condition_reference_def Let_def condition_copies)
qed

lemma candidates_text:
  assumes "snapshot_text snapshot" and "state_text state" and "validate_state state = Inr ()"
    and "c \<in> set (notification_candidates state snapshot now settings run)"
  shows "text_ok (nc_fingerprint c)"
  using assms(4) watch_candidates_text [OF assms(1)] security_candidates_text
    conditional_candidates_text [OF assms(2, 3)]
  by (auto simp: notification_candidates_def Let_def)

section \<open>The dispatcher on the files\<close>

text \<open>The clock of a process: it does not run backwards and stays within the calendar.\<close>

definition clock_ok :: "(nat \<Rightarrow> datetime) \<Rightarrow> bool" where
  "clock_ok clk \<longleftrightarrow> mono clk \<and> (\<forall>n. representable (clk n) \<and> representable (clk n + LEASE_DURATION))"

definition token_ok :: "ustr \<Rightarrow> bool" where
  "token_ok token \<longleftrightarrow> token \<noteq> [] \<and> text_ok token"

lemma put_put [simp]: "put (put a u) v = put a v"
  by (simp add: put_def option.map_comp comp_def)

lemma put_state [simp]: "st_state (put a u) = u"
  by (simp add: put_def)

lemma clock_le: "clock_ok clk \<Longrightarrow> m \<le> n \<Longrightarrow> clk m \<le> clk n"
  by (simp add: clock_ok_def monoD)

lemma stored_claim_holds:
  assumes "reads_isoformat fiso" and "clock_ok clk" and "holds d a (clk n)" and "token_ok token"
    and "\<And>c. c \<in> set candidates \<Longrightarrow> text_ok (nc_fingerprint c)"
  obtains batch d' u where
    "stored_claim fiso (clk (n + 1), clk (n + 2), clk (n + 3)) kind candidates (clk n) token d = (Inr batch, d')"
    "holds d' (put a u) (clk (n + 3))"
    "ps_watches u = ps_watches (st_state a)" "ps_sources u = ps_sources (st_state a)"
proof -
  have ok: "claim_ok (kind, candidates, clk n, token)"
    using assms(2, 4, 5) by (auto simp: claim_ok_def token_ok_def clock_ok_def)
  have le: "clk n \<le> clk (n + 1)" "clk (n + 1) \<le> clk (n + 2)" "clk (n + 2) \<le> clk (n + 3)"
    by (rule clock_le [OF assms(2)]; simp)+
  from claims.updated [OF ok assms(1, 3) le, unfolded prod.case] obtain d' u where
    "update_state fiso (clk (n + 1)) (clk (n + 2)) (clk (n + 3))
       (\<lambda>s. Inr (reserve_batch s kind candidates (clk n) token)) d = (Inr \<lparr>sl_state = u, sl_warning = None\<rparr>, d')"
    "holds d' (put a u) (clk (n + 3))"
    "ps_watches u = ps_watches (st_state a)" "ps_sources u = ps_sources (st_state a)" .
  then show thesis
    by (intro that [of "claimed_batch u kind candidates token" d' u]) (simp_all add: stored_claim_def)
qed

lemma stored_complete_holds:
  assumes "reads_isoformat fiso" and "clock_ok clk" and "holds d a (clk n)"
  obtains outcomes d' u where
    "stored_complete fiso (clk (n + 1), clk (n + 2), clk (n + 3)) batch outcome d = (Inr outcomes, d')"
    "holds d' (put a u) (clk (n + 3))"
    "ps_watches u = ps_watches (st_state a)" "ps_sources u = ps_sources (st_state a)"
proof -
  have le: "clk n \<le> clk (n + 1)" "clk (n + 1) \<le> clk (n + 2)" "clk (n + 2) \<le> clk (n + 3)"
    by (rule clock_le [OF assms(2)]; simp)+
  from completions.written [OF TrueI assms(1, 3) le, of "(batch, outcome)", unfolded prod.case] obtain d' u where
    u: "u = fst (complete_batch (prune_ledger (st_state a) (clk (n + 1))) batch outcome)"
    and "write_state fiso (clk (n + 2)) (clk (n + 3)) u d = (Inr (), d')" "holds d' (put a u) (clk (n + 3))"
    "ps_watches u = ps_watches (st_state a)" "ps_sources u = ps_sources (st_state a)" .
  then show thesis
    using load_state_holds [OF assms(1, 3) le(1)]
    by (intro that [of "snd (complete_batch (prune_ledger (st_state a) (clk (n + 1))) batch outcome)" d' u])
      (simp_all add: stored_complete_def case_prod_unfold Let_def)
qed

lemma stored_kinds_holds:
  assumes "reads_isoformat fiso" and "clock_ok clk"
    and "\<And>c. c \<in> set candidates \<Longrightarrow> text_ok (nc_fingerprint c)"
    and "holds d a (clk n)" and "\<And>kind token. (kind, token) \<in> set kinds \<Longrightarrow> token_ok token"
  obtains outcomes d' u where "stored_kinds fiso run clk candidates kinds n d = (Inr outcomes, d')"
    "holds d' (put a u) (clk (n + 7 * length kinds))"
    "ps_watches u = ps_watches (st_state a)" "ps_sources u = ps_sources (st_state a)"
  using assms(4, 5)
proof (induction kinds arbitrary: d a n thesis)
  case Nil
  then show ?case using put_same [OF Nil(2)] by (intro Nil(1) [of "[]" d "st_state a"]) simp_all
next
  case (Cons k kinds)
  obtain kind token where k: "k = (kind, token)" by fastforce
  have token: "token_ok token" by (rule Cons.prems(3) [of kind]) (simp add: k)
  have rest: "\<And>kind token. (kind, token) \<in> set kinds \<Longrightarrow> token_ok token"
    using Cons.prems(3) by (metis list.set_intros(2))
  let ?cs = "filter (\<lambda>c. nc_kind c = kind) candidates"
  have cs: "\<And>c. c \<in> set ?cs \<Longrightarrow> text_ok (nc_fingerprint c)" using assms(3) by simp
  from stored_claim_holds [OF assms(1, 2) Cons.prems(2) token cs, where kind = kind] obtain batch d1 u1 where
    1: "stored_claim fiso (clk (n + 1), clk (n + 2), clk (n + 3)) kind ?cs (clk n) token d = (Inr batch, d1)"
      "holds d1 (put a u1) (clk (n + 3))"
      "ps_watches u1 = ps_watches (st_state a)" "ps_sources u1 = ps_sources (st_state a)" .
  have later: "clk (n + 3) \<le> clk (n + 7)" "clk (n + 6) \<le> clk (n + 7)" by (rule clock_le [OF assms(2)]; simp)+
  show ?case
  proof (cases batch)
    case None
    obtain outcomes d' u where "stored_kinds fiso run clk candidates kinds (n + 7) d1 = (Inr outcomes, d')"
      "holds d' (put a u) (clk (n + 7 + 7 * length kinds))"
      "ps_watches u = ps_watches u1" "ps_sources u = ps_sources u1"
      using rest by (rule Cons.IH [rotated, OF holds_later [OF 1(2) later(1)], unfolded put_put put_state])
    with 1 None k show ?thesis by (intro Cons.prems(1) [of outcomes d' u]) (simp_all add: add.assoc)
  next
    case (Some b)
    from stored_complete_holds [OF assms(1, 2) 1(2), of b "run NOTIFY (notify_arguments b)"]
    obtain os d2 u2 where
      2: "stored_complete fiso (clk (n + 4), clk (n + 5), clk (n + 6)) b (run NOTIFY (notify_arguments b)) d1 =
          (Inr os, d2)" "holds d2 (put a u2) (clk (n + 6))"
        "ps_watches u2 = ps_watches u1" "ps_sources u2 = ps_sources u1"
      by (auto simp: add.commute eval_nat_numeral)
    obtain outcomes d' u where "stored_kinds fiso run clk candidates kinds (n + 7) d2 = (Inr outcomes, d')"
      "holds d' (put a u) (clk (n + 7 + 7 * length kinds))"
      "ps_watches u = ps_watches u2" "ps_sources u = ps_sources u2"
      using rest by (rule Cons.IH [rotated, OF holds_later [OF 2(2) later(2)], unfolded put_put put_state])
    with 1 2 Some k show ?thesis by (intro Cons.prems(1) [of "os @ outcomes" d' u]) (simp_all add: add.assoc)
  qed
qed

lemma stored_dispatch_holds:
  assumes "reads_isoformat fiso" and "clock_ok clk" and "holds d a (clk n)" and "snapshot_text snapshot"
    and "\<And>token. token \<in> set tokens \<Longrightarrow> token_ok token" and "length tokens = 3"
  obtains outcomes d' u where "stored_dispatch fiso run clk tokens settings snapshot n d = (Inr outcomes, d')"
    "holds d' (put a u) (clk (n + 25))"
    "ps_watches u = ps_watches (st_state a)" "ps_sources u = ps_sources (st_state a)"
proof -
  let ?s = "prune_ledger (st_state a) (clk (n + 1))"
  let ?cs = "notification_candidates ?s snapshot (clk n) settings run"
  have le: "clk n \<le> clk (n + 1)" "clk (n + 1) \<le> clk (n + 2)" "clk (n + 2) \<le> clk (n + 3)" "clk (n + 3) \<le> clk (n + 4)"
    by (rule clock_le [OF assms(2)]; simp)+
  from storage_load_state_holds [OF assms(1, 3) le(1-3)] obtain d1 where
    d1: "storage_load_state fiso (clk (n + 1)) (clk (n + 2)) (clk (n + 3)) d =
      (Inr \<lparr>sl_state = ?s, sl_warning = None\<rparr>, d1)" "holds d1 a (clk (n + 3))" .
  have "state_text ?s" "validate_state ?s = Inr ()"
    using holds_valid [OF assms(3)] by (simp_all add: prune_ledger_valid prune_ledger_text)
  then have cs: "\<And>c. c \<in> set ?cs \<Longrightarrow> text_ok (nc_fingerprint c)" by (rule candidates_text [OF assms(4)])
  have "\<And>kind token. (kind, token) \<in> set (zip notification_kind_members tokens) \<Longrightarrow> token_ok token"
    using assms(5) by (blast dest: set_zip_rightD)
  from stored_kinds_holds [where run = run, OF assms(1, 2) cs holds_later [OF d1(2) le(4)] this]
  obtain outcomes d' u where "stored_kinds fiso run clk ?cs (zip notification_kind_members tokens) (n + 4) d1 =
      (Inr outcomes, d')"
    "holds d' (put a u) (clk (n + 4 + 7 * length (zip notification_kind_members tokens)))"
    "ps_watches u = ps_watches (st_state a)" "ps_sources u = ps_sources (st_state a)" .
  with d1 assms(6) show thesis
    by (intro that [of outcomes d' u]) (simp_all add: stored_dispatch_def notification_kind_members_def add.commute [of 25])
qed

section \<open>The scan on the files\<close>

text \<open>A collector of the security source touches its feed files only.\<close>

definition feeds_only :: "(bool \<Rightarrow> SecurityResult act) \<Rightarrow> bool" where
  "feeds_only collect \<longleftrightarrow> (\<forall>b d. d_state (snd (collect b d)) = d_state d \<and>
     d_generation (snd (collect b d)) = d_generation d)"

lemma holds_files: "d_state d' = d_state d \<Longrightarrow> d_generation d' = d_generation d \<Longrightarrow> holds d' a t = holds d a t"
  by (simp add: holds_def split: option.split)

lemma snd_bindA_ret: "snd (bindA m (\<lambda>x. retA (f x)) d) = snd (m d)"
  by (simp add: bindA_def split: prod.split sum.split)

lemma snd_bindA_lift: "snd (bindA (liftA r) f d) = (case r of Inl e \<Rightarrow> d | Inr x \<Rightarrow> snd (f x d))"
  by (simp add: bindA_def liftA_def split: sum.split)

lemma scan_inputs_holds:
  assumes "feeds_only (collect_security collector)" and "holds d a t"
  shows "holds (snd (scan_inputs collector metadata now request d)) a t"
proof -
  have "holds (snd (collect_security collector b d)) a t" for b
    using assms holds_files by (metis feeds_only_def)
  then have "holds (snd (scan_security collector b1 b2 b3 d)) a t" for b1 b2 b3
    using assms(2) by (simp add: scan_security_def snd_bindA_ret)
  then show ?thesis
    using assms(2)
    by (simp add: scan_inputs_def Let_def case_prod_unfold snd_bindA_ret snd_bindA_lift split: sum.split)
qed

lemma scan_build_holds:
  assumes "reads_isoformat fiso" and "clock_ok clk" and "holds d a t" and "t \<le> clk 0"
    and "feeds_only (collect_security collector)"
  shows "holds (snd (scan_build fiso clk collector request d)) a (clk 3)"
    and "scan_build fiso clk collector request d = (Inr g, d') \<Longrightarrow> ps_watches (gb_state g) = ps_watches (st_state a)"
proof -
  have le: "t \<le> clk 1" "clk 1 \<le> clk 2" "clk 2 \<le> clk 3"
    using assms(4) clock_le [OF assms(2), of 0 1] clock_le [OF assms(2), of 1 2] clock_le [OF assms(2), of 2 3]
    by simp_all
  from load_generation_holds [OF assms(1, 3)] obtain w where w: "load_generation_locked fiso d =
    (Inr (map_option (\<lambda>g. g\<lparr>gb_state := prune_ledger (st_state a) w\<rparr>) (st_generation a)), d)" .
  from storage_load_state_holds [OF assms(1, 3) le] obtain d1 where
    d1: "storage_load_state fiso (clk 1) (clk 2) (clk 3) d =
      (Inr \<lparr>sl_state = prune_ledger (st_state a) (clk 1), sl_warning = None\<rparr>, d1)" "holds d1 a (clk 3)" .
  let ?i = "scan_inputs collector (ps_sources (prune_ledger (st_state a) (clk 1))) (clk 0) request"
  have built: "scan_build fiso clk collector request d =
      bindA ?i (\<lambda>inputs. liftA (build_generation (rq_generation_id request) (rq_generation_order request) inputs
        (map_option (\<lambda>g. g\<lparr>gb_state := prune_ledger (st_state a) w\<rparr>) (st_generation a))
        (prune_ledger (st_state a) (clk 1)) (clk 0))) d1"
    using w d1(1) by (simp add: scan_build_def)
  have "holds (snd (?i d1)) a (clk 3)" by (rule scan_inputs_holds [OF assms(5) d1(2)])
  then show "holds (snd (scan_build fiso clk collector request d)) a (clk 3)"
    unfolding built by (auto simp: bindA_def split: prod.split sum.split)
  show "ps_watches (gb_state g) = ps_watches (st_state a)"
    if "scan_build fiso clk collector request d = (Inr g, d')"
    using that unfolding built
    by (auto simp: bindA_def build_generation_def Let_def prune_ledger_def split: prod.splits sum.splits)
qed

text \<open>
  A scan is atomic and keeps the watches. Let the files hold a store, whatever was written
  before. If the scan raises while it collects and builds, or the generation it built is invalid, or
  its order is not the newest, the store is as before (and in the last case the snapshot is still
  returned, marked as not committed). Otherwise the generation is published with its state; then
  the notifications are dispatched, which always returns, and changes only the ledger. In every case the
  watches of the user are those of before the scan.
\<close>

theorem scan_run_publishes:
  assumes "reads_isoformat fiso" and "clock_ok clk" and "holds d a t" and "t \<le> clk 0"
    and "feeds_only (collect_security collector)" and "length tokens = 3"
    and "\<And>token. token \<in> set tokens \<Longrightarrow> token_ok token"
    and "\<And>g d1. scan_build fiso clk collector request d = (Inr g, d1) \<Longrightarrow> bundle_text g"
  shows "case scan_build fiso clk collector request d of
      (Inl e, d1) \<Rightarrow> scan_run fiso run clk tokens collector request d = (Inl e, d1) \<and> holds d1 a (clk 3)
    | (Inr g, d1) \<Rightarrow> ps_watches (gb_state g) = ps_watches (st_state a) \<and>
        (if \<not> newer g a then
           scan_run fiso run clk tokens collector request d =
             (Inr \<lparr>sres_committed = False, sres_snapshot = gb_snapshot g\<rparr>, d1) \<and> holds d1 a (clk 3)
         else (case validate_bundle g of
             Inl e \<Rightarrow> scan_run fiso run clk tokens collector request d = (Inl e, d1) \<and> holds d1 a (clk 3)
           | Inr _ \<Rightarrow> \<exists>outcomes u d'.
               scan_run fiso run clk tokens collector request d =
                 (Inr \<lparr>sres_committed = True, sres_snapshot = with_notifications (gb_snapshot g) outcomes\<rparr>, d') \<and>
               holds d' (put (publish g) u) (clk 31) \<and>
               ps_watches u = ps_watches (st_state a) \<and> ps_sources u = ps_sources (gb_state g)))"
proof -
  obtain r d1 where b: "scan_build fiso clk collector request d = (r, d1)" by fastforce
  have h: "holds d1 a (clk 3)" using scan_build_holds(1) [OF assms(1-5), of request] by (simp add: b)
  show ?thesis
  proof (cases r)
    case (Inl e)
    with b h show ?thesis by (simp add: scan_run_def)
  next
    case (Inr g)
    have w: "ps_watches (gb_state g) = ps_watches (st_state a)"
      by (rule scan_build_holds(2) [OF assms(1-5)]) (use b Inr in simp)
    have texts: "bundle_text g" by (rule assms(8)) (use b Inr in simp)
    consider "\<not> newer g a" | e where "newer g a" "validate_bundle g = Inl e" | "newer g a" "validate_bundle g = Inr ()"
      by (metis (full_types) old.sum.exhaust old.unit.exhaust)
    then show ?thesis
    proof cases
      case 1
      with b Inr w h commit_generation_stale [OF assms(1) h 1] show ?thesis by (simp add: scan_run_def)
    next
      case 2
      with b Inr w h commit_generation_rejects [OF assms(1) h 2] show ?thesis by (simp add: scan_run_def)
    next
      case 3
      have le: "clk 4 \<le> clk 5" "clk 5 \<le> clk 6" by (rule clock_le [OF assms(2)]; simp)+
      from commit_generation_holds [OF assms(1) h texts 3(2) le(1) 3(1)] obtain d2 where
        d2: "commit_generation fiso (clk 4) (clk 5) g d1 = (Inr True, d2)" "holds d2 (publish g) (clk 5)" .
      have "snapshot_text (gb_snapshot g)" using texts by (simp add: bundle_text_def)
      from stored_dispatch_holds [where run = run and settings = "rq_notification_settings request",
          OF assms(1, 2) holds_later [OF d2(2) le(2)] this assms(7, 6)]
      obtain outcomes d' u where "stored_dispatch fiso run clk tokens (rq_notification_settings request)
          (gb_snapshot g) 6 d2 = (Inr outcomes, d')" "holds d' (put (publish g) u) (clk (6 + 25))"
        "ps_watches u = ps_watches (gb_state g)" "ps_sources u = ps_sources (gb_state g)"
        by (auto simp: publish_def)
      with b Inr w 3 d2 show ?thesis by (auto simp: scan_run_def)
    qed
  qed
qed

definition quiet_scope :: "SourceScope \<Rightarrow> FlatpakScopeResult" where
  "quiet_scope scope = \<lparr>fs_scope = scope, fs_status = Flat_NOT_APPLICABLE, fs_records = [], fs_diagnostic = None\<rparr>"

definition quiet_collector :: ScanCollector where
  "quiet_collector = \<lparr>collect_omarchy = Inr \<lparr>oa_status = Status_OK, oa_items = [], oa_diagnostic = None\<rparr>,
     collect_arch = Inr [], collect_aur = AurNotApplicable,
     collect_flatpak_scopes = (quiet_scope Scope_USER, quiet_scope Scope_SYSTEM),
     collect_mise = Inr MiseNotApplicable, collect_security = (\<lambda>_. retA (SecurityCollected [] Prov_LIVE KevDisabled))\<rparr>"

definition quiet_request :: ScanRequest where
  "quiet_request = \<lparr>rq_generation_id = lit ''scan-1'', rq_generation_order = 0, rq_force = True,
     rq_notification_settings = default_settings, rq_enable_cisa_kev = False\<rparr>"

definition quiet_outcomes :: "SourceOutcome list" where
  "quiet_outcomes = [current_outcome Src_OMARCHY [] Prov_LIVE [] None, current_outcome Src_ARCH [] Prov_LIVE [] None,
     not_applicable Src_AUR None, not_applicable Src_FLATPAK (Some Scope_USER),
     not_applicable Src_FLATPAK (Some Scope_SYSTEM), not_applicable Src_MISE None,
     current_outcome Src_SECURITY [] Prov_LIVE [] None, not_applicable Src_CISA_KEV None]"

definition quiet_resolved :: "SourceOutcome \<Rightarrow> ResolvedOutcome" where
  "quiet_resolved oc = \<lparr>ro_outcome = oc, ro_health = fresh_health oc 0, ro_items = [], ro_findings = [], ro_usable = True\<rparr>"

lemma quiet_inputs:
  obtains i where "scan_inputs quiet_collector [] 0 quiet_request no_files = (Inr i, no_files)"
    "outcomes_of i = map Some quiet_outcomes" "source_outcomes_of i =
      map (\<lambda>s. (s, map Some (filter (\<lambda>oc. so_source oc = s) quiet_outcomes)))
        [Src_OMARCHY, Src_ARCH, Src_AUR, Src_FLATPAK, Src_MISE, Src_SECURITY, Src_CISA_KEV]"
proof -
  let ?ok = "\<lambda>source. current_outcome source [] Prov_LIVE [] None"
  let ?i = "\<lparr>si_omarchy = Some (?ok Src_OMARCHY), si_arch = Some (?ok Src_ARCH),
       si_aur = Some (not_applicable Src_AUR None),
       si_flatpak_user = Some (not_applicable Src_FLATPAK (Some Scope_USER)),
       si_flatpak_system = Some (not_applicable Src_FLATPAK (Some Scope_SYSTEM)),
       si_mise = Some (not_applicable Src_MISE None), si_security = Some (?ok Src_SECURITY),
       si_cisa_kev = Some (not_applicable Src_CISA_KEV None)\<rparr>"
  show thesis
  proof (rule that [of ?i])
    show "scan_inputs quiet_collector [] 0 quiet_request no_files = (Inr ?i, no_files)"
      by (simp add: scan_inputs_def scan_security_def scan_flatpak_def outcome_if_due_def quiet_collector_def quiet_request_def
          source_due_def due_def bindA_def omarchy_outcome_def from_status_def arch_outcome_def aur_outcome_def
          flatpak_outcomes_def flatpak_scope_outcome_def quiet_scope_def mise_outcome_def security_outcomes_def Let_def)
  qed (simp_all add: outcomes_of_def source_outcomes_of_def quiet_outcomes_def current_outcome_def not_applicable_def)
qed

lemma quiet_resolve_all: "resolve_all (map Some quiet_outcomes) None 0 = Inr (map quiet_resolved quiet_outcomes)"
  by (simp add: resolve_all_def quiet_outcomes_def identities_def resolve_def quiet_resolved_def successful_def
      successful_status_def current_outcome_def not_applicable_def)

lemma quiet_healths:
  obtains hs where "source_healths (map quiet_resolved quiet_outcomes) 0 = Inr hs"
    "\<forall>h \<in> set hs. health_text h" "length hs = 7"
proof (rule that)
  let ?b = "\<lambda>oc. \<lparr>sh_source = so_source oc, sh_status = so_status oc, sh_provenance = so_provenance oc,
    sh_observed_at = 0, sh_fresh_until = FRESHNESS, sh_cause = None, sh_scopes = []\<rparr>"
  let ?s = "\<lambda>s. \<lparr>sc_scope = s, sc_status = Status_NOT_APPLICABLE, sc_provenance = Prov_LIVE,
    sc_observed_at = 0, sc_fresh_until = FRESHNESS, sc_cause = None\<rparr>"
  let ?hs = "sort_key (\<lambda>h. source_name_value (sh_source h))
    (map ?b (filter (\<lambda>oc. so_source oc \<noteq> Src_FLATPAK) quiet_outcomes) @
      [flatpak_health (?s Scope_USER) (?s Scope_SYSTEM) 0])"
  show "source_healths (map quiet_resolved quiet_outcomes) 0 = Inr ?hs"
    by (simp add: source_healths_def quiet_outcomes_def quiet_resolved_def current_outcome_def not_applicable_def
        source_health_def scope_health_def fresh_health_def make_health_def)
  have "representable 0" "representable FRESHNESS" by (simp_all add: representable_def FRESHNESS_def timedelta_defs)
  then show "\<forall>h \<in> set ?hs. health_text h"
    by (auto simp: health_text_def scope_text_def flatpak_health_def flatpak_cause_def option_ok_def)
  show "length ?hs = 7" by (simp add: quiet_outcomes_def current_outcome_def not_applicable_def)
qed

lemma quiet_scan:
  "\<exists>g d1. scan_build canonical_fromisoformat (\<lambda>_. 0) quiet_collector quiet_request no_files = (Inr g, d1) \<and>
     bundle_text g \<and> newer g empty_store"
proof -
  have load: "storage_load_state canonical_fromisoformat 0 0 0 no_files =
      (Inr \<lparr>sl_state = empty_state, sl_warning = None\<rparr>, no_files)"
      "load_generation_locked canonical_fromisoformat no_files = (Inr None, no_files)"
    by (simp_all add: storage_load_state_def load_state_locked_def load_generation_locked_def no_files_def)
  from quiet_inputs obtain i where i: "scan_inputs quiet_collector [] 0 quiet_request no_files = (Inr i, no_files)"
    "outcomes_of i = map Some quiet_outcomes" "source_outcomes_of i =
      map (\<lambda>s. (s, map Some (filter (\<lambda>oc. so_source oc = s) quiet_outcomes)))
        [Src_OMARCHY, Src_ARCH, Src_AUR, Src_FLATPAK, Src_MISE, Src_SECURITY, Src_CISA_KEV]" .
  from quiet_healths obtain hs where hs: "source_healths (map quiet_resolved quiet_outcomes) 0 = Inr hs"
    "\<forall>h \<in> set hs. health_text h" "length hs = 7" .
  have none: "concat (map ro_items (map quiet_resolved quiet_outcomes)) = []"
      "concat (map ro_findings (map quiet_resolved quiet_outcomes)) = []"
    by (simp_all add: quiet_outcomes_def quiet_resolved_def)
  have items: "normalized_items (map quiet_resolved quiet_outcomes) = Inr []"
      "normalized_findings (map quiet_resolved quiet_outcomes) = []"
    unfolding normalized_items_def normalized_findings_def none by simp_all
  have "representable 0" by (simp add: representable_def)
  have meta: "\<forall>m \<in> set (metadata_of [] (source_outcomes_of i) 0). source_text m"
    unfolding i(3)
    by (simp add: metadata_of_def next_metadata_def quiet_outcomes_def current_outcome_def not_applicable_def
        successful_def successful_status_def Let_def source_text_def option_ok_def \<open>representable 0\<close>
        str_nat.simps MAX_INT_DIGITS_def)
  have number: "number_ok (int n)" if "n \<le> 7" for n
    using that length_str_nat [of n 0] by (simp add: number_ok_def MAX_INT_DIGITS_def)
  have "length (filter P hs) \<le> 7" for P using hs(3) by (metis length_filter_le)
  with load i hs items meta number [of 0] number show ?thesis
    by (simp add: scan_build_def empty_state_def bindA_lift quiet_request_def build_generation_def quiet_resolve_all
        Let_def bundle_text_def snapshot_text_def inventory_text_def inventories_of_def summary_of_def state_text_def
        newer_def empty_store_def \<open>representable 0\<close>)
qed

end
