(* ===== verification/Cli_Requests.thy ===== *)
theory Cli_Requests
  imports Notification_Batch
begin

text \<open>
  The command line of the helper, \<open>cli_requests.py\<close>: the four commands, their parser and the checks of
  every argument. A pattern of a \<open>match\<close> on the argument tuple is a list of literals and holes.
  \<open>command_line\<close> prints a command in the form the parser accepts.
\<close>

definition MAX_OFFSET :: int where
  "MAX_OFFSET = 100000"

definition MAX_QUERY_LENGTH :: nat where
  "MAX_QUERY_LENGTH = 128"

definition usage :: "string \<Rightarrow> exn" where
  "usage message = CliUsageError (lit message)"

record InventoryCommand =
  ic_source :: ItemSource
  ic_query :: ustr
  ic_limit :: int
  ic_offset :: int

record SetStarCommand =
  sc_item_id :: ustr
  sc_mode :: WatchMode
  sc_condition :: "SecurityFixCondition option"

datatype CliCommand =
    ScanCommand (scan_force: bool) (scan_settings: NotificationSettings) (scan_cisa_kev: bool)
  | SnapshotCommand
  | InventoryCommand InventoryCommand
  | SetStarCommand SetStarCommand

section \<open>Sequence patterns\<close>

text \<open>\<open>match_arguments pattern arguments\<close>: what the holes (\<open>None\<close>) of the pattern capture.\<close>

fun match_arguments :: "string option list \<Rightarrow> ustr list \<Rightarrow> ustr list option" where
  "match_arguments [] [] = Some []"
| "match_arguments (Some l # ps) (x # xs) = (if x = lit l then match_arguments ps xs else None)"
| "match_arguments (None # ps) (x # xs) = map_option ((#) x) (match_arguments ps xs)"
| "match_arguments _ _ = None"

section \<open>Arguments\<close>

definition inventory_source :: "ustr \<Rightarrow> ItemSource result" where
  "inventory_source v =
     (case enum_of item_source_value item_source_members v of
        None \<Rightarrow> Inl (usage ''inventory source is unsupported'')
      | Some Item_OMARCHY \<Rightarrow> Inl (usage ''inventory source is unsupported'')
      | Some source \<Rightarrow> Inr source)"

definition query_argument :: "ustr \<Rightarrow> ustr result" where
  "query_argument v =
     (if MAX_QUERY_LENGTH < length v then Inl (usage ''inventory query is invalid'') else Inr v)"

text \<open>
  \<open>not value.isascii() or not value.isdecimal() or len(value) > 6\<close>: an ASCII text is decimal if it is
  a non-empty sequence of the ten digits.
\<close>

definition decimal :: "ustr \<Rightarrow> string \<Rightarrow> int result" where
  "decimal v message =
     (if \<not> is_ascii v \<or> \<not> (v \<noteq> [] \<and> list_all is_digit v) \<or> 6 < length v then Inl (usage message)
      else Inr (int_of_digits v))"

definition limit_argument :: "ustr \<Rightarrow> int result" where
  "limit_argument v =
     bindE (decimal v ''inventory pagination is invalid'') (\<lambda>parsed.
       if parsed < 1 \<or> 100 < parsed then Inl (usage ''inventory pagination is invalid'') else Inr parsed)"

definition offset_argument :: "ustr \<Rightarrow> int result" where
  "offset_argument v =
     bindE (decimal v ''inventory pagination is invalid'') (\<lambda>parsed.
       if MAX_OFFSET < parsed then Inl (usage ''inventory pagination is invalid'') else Inr parsed)"

definition item_id_argument :: "ustr \<Rightarrow> ustr result" where
  "item_id_argument v = (if v = [] \<or> 128 < length v then Inl (usage ''item ID is invalid'') else Inr v)"

definition watch_mode_argument :: "ustr \<Rightarrow> WatchMode result" where
  "watch_mode_argument v =
     (case enum_of watch_mode_value watch_mode_members v of
        None \<Rightarrow> Inl (usage ''watch mode is invalid'')
      | Some mode \<Rightarrow> Inr mode)"

definition boolean_argument :: "ustr \<Rightarrow> bool result" where
  "boolean_argument v =
     (if v = lit ''true'' then Inr True
      else if v = lit ''false'' then Inr False
      else Inl (usage ''notification setting is invalid''))"

definition notification_severity :: "ustr \<Rightarrow> Severity result" where
  "notification_severity v =
     (if v = lit ''high'' then Inr Sev_HIGH
      else if v = lit ''critical'' then Inr Sev_CRITICAL
      else Inl (usage ''notification severity is invalid''))"

definition notification_settings :: "ustr \<Rightarrow> ustr \<Rightarrow> ustr \<Rightarrow> NotificationSettings result" where
  "notification_settings permanent security severity =
     bindE (boolean_argument permanent) (\<lambda>notify_permanent.
     bindE (boolean_argument security) (\<lambda>notify_security.
     bindE (notification_severity severity) (\<lambda>minimum_severity.
       Inr \<lparr>ns_notify_permanent = notify_permanent, ns_notify_security = notify_security,
            ns_security_minimum_severity = minimum_severity\<rparr>)))"

definition arch_item_id :: "ustr \<Rightarrow> ustr result" where
  "arch_item_id v =
     bindE (item_id_argument v) (\<lambda>item_id.
       if \<not> prefix (lit ''arch:'') item_id
       then Inl (usage ''conditional watch item ID must be canonical Arch'') else Inr item_id)"

definition security_condition :: "ustr \<Rightarrow> ustr \<Rightarrow> ustr \<Rightarrow> SecurityFixCondition result" where
  "security_condition advisory_id cve_ids fixed_version =
     (case security_fix_condition advisory_id (split_on 44 cve_ids) fixed_version of
        Inl (StateCorruptError _) \<Rightarrow> Inl (usage ''conditional watch evidence is invalid'')
      | r \<Rightarrow> r)"

section \<open>Commands\<close>

definition unsupported :: exn where
  "unsupported = usage ''unsupported helper command or arguments''"

definition SETTINGS_PATTERN :: "string option list" where
  "SETTINGS_PATTERN = [Some ''--notify-permanent'', None, Some ''--notify-security'', None,
     Some ''--security-minimum-severity'', None]"

definition scan_command :: "ustr list \<Rightarrow> CliCommand result" where
  "scan_command arguments =
     (let force = take 1 (drop 1 arguments) = [lit ''--force''];
          settings = drop (if force then 2 else 1) arguments
      in if settings = [] then Inr (ScanCommand force default_settings True)
         else (case match_arguments SETTINGS_PATTERN settings of
           Some [permanent, security, severity] \<Rightarrow>
             bindE (notification_settings permanent security severity)
               (\<lambda>chosen. Inr (ScanCommand force chosen True))
         | _ \<Rightarrow>
             (case match_arguments (SETTINGS_PATTERN @ [Some ''--enable-cisa-kev'', None]) settings of
                Some [permanent, security, severity, enable_cisa_kev] \<Rightarrow>
                  bindE (notification_settings permanent security severity) (\<lambda>chosen.
                  bindE (boolean_argument enable_cisa_kev) (\<lambda>enabled.
                    Inr (ScanCommand force chosen enabled)))
              | _ \<Rightarrow> Inl unsupported)))"

definition INVENTORY_PATTERN :: "string option list" where
  "INVENTORY_PATTERN = [Some ''inventory'', Some ''--source'', None, Some ''--query'', None,
     Some ''--limit'', None, Some ''--offset'', None]"

definition STAR_PATTERN :: "string option list" where
  "STAR_PATTERN = [Some ''set-star'', Some ''--item-id'', None, Some ''--mode'', None]"

definition CONDITION_PATTERN :: "string option list" where
  "CONDITION_PATTERN = [Some ''set-star'', Some ''--item-id'', None, Some ''--mode'', Some ''temporary'',
     Some ''--security-advisory'', None, Some ''--fixed-version'', None, Some ''--cve-ids'', None]"

definition inventory_command :: "ustr \<Rightarrow> ustr \<Rightarrow> ustr \<Rightarrow> ustr \<Rightarrow> CliCommand result" where
  "inventory_command source query limit offset =
     bindE (inventory_source source) (\<lambda>s.
     bindE (query_argument query) (\<lambda>q.
     bindE (limit_argument limit) (\<lambda>n.
     bindE (offset_argument offset) (\<lambda>k.
       Inr (InventoryCommand \<lparr>ic_source = s, ic_query = q, ic_limit = n, ic_offset = k\<rparr>)))))"

definition star_command :: "ustr \<Rightarrow> ustr \<Rightarrow> CliCommand result" where
  "star_command item_id mode =
     bindE (item_id_argument item_id) (\<lambda>i.
     bindE (watch_mode_argument mode) (\<lambda>m.
       Inr (SetStarCommand \<lparr>sc_item_id = i, sc_mode = m, sc_condition = None\<rparr>)))"

definition condition_command :: "ustr \<Rightarrow> ustr \<Rightarrow> ustr \<Rightarrow> ustr \<Rightarrow> CliCommand result" where
  "condition_command item_id advisory_id fixed_version cve_ids =
     bindE (arch_item_id item_id) (\<lambda>i.
     bindE (security_condition advisory_id cve_ids fixed_version) (\<lambda>c.
       Inr (SetStarCommand \<lparr>sc_item_id = i, sc_mode = Watch_TEMPORARY, sc_condition = Some c\<rparr>)))"

definition parse_command :: "ustr list \<Rightarrow> CliCommand result" where
  "parse_command arguments =
     (if take 1 arguments = [lit ''scan''] then scan_command arguments
      else if arguments = [lit ''snapshot''] then Inr SnapshotCommand
      else (case match_arguments INVENTORY_PATTERN arguments of
        Some [source, query, limit, offset] \<Rightarrow> inventory_command source query limit offset
      | _ \<Rightarrow> (case match_arguments STAR_PATTERN arguments of
        Some [item_id, mode] \<Rightarrow> star_command item_id mode
      | _ \<Rightarrow> (case match_arguments CONDITION_PATTERN arguments of
        Some [item_id, advisory_id, fixed_version, cve_ids] \<Rightarrow>
          condition_command item_id advisory_id fixed_version cve_ids
      | _ \<Rightarrow> Inl unsupported))))"

section \<open>Accepted commands\<close>

fun command_ok :: "CliCommand \<Rightarrow> bool" where
  "command_ok (ScanCommand force settings kev) \<longleftrightarrow>
     ns_security_minimum_severity settings \<in> {Sev_HIGH, Sev_CRITICAL}"
| "command_ok SnapshotCommand \<longleftrightarrow> True"
| "command_ok (InventoryCommand c) \<longleftrightarrow>
     ic_source c \<noteq> Item_OMARCHY \<and> length (ic_query c) \<le> 128 \<and> 1 \<le> ic_limit c \<and> ic_limit c \<le> 100 \<and>
     0 \<le> ic_offset c \<and> ic_offset c \<le> 100000"
| "command_ok (SetStarCommand c) \<longleftrightarrow>
     sc_item_id c \<noteq> [] \<and> length (sc_item_id c) \<le> 128 \<and>
     (case sc_condition c of
        None \<Rightarrow> True
      | Some condition \<Rightarrow> sc_mode c = Watch_TEMPORARY \<and> prefix (lit ''arch:'') (sc_item_id c) \<and>
          validate_condition condition = Inr ())"

definition boolean_text :: "bool \<Rightarrow> ustr" where
  "boolean_text b = lit (if b then ''true'' else ''false'')"

fun command_line :: "CliCommand \<Rightarrow> ustr list" where
  "command_line (ScanCommand force settings kev) =
     [lit ''scan''] @ (if force then [lit ''--force''] else []) @
     [lit ''--notify-permanent'', boolean_text (ns_notify_permanent settings),
      lit ''--notify-security'', boolean_text (ns_notify_security settings),
      lit ''--security-minimum-severity'', severity_value (ns_security_minimum_severity settings),
      lit ''--enable-cisa-kev'', boolean_text kev]"
| "command_line SnapshotCommand = [lit ''snapshot'']"
| "command_line (InventoryCommand c) =
     [lit ''inventory'', lit ''--source'', item_source_value (ic_source c), lit ''--query'', ic_query c,
      lit ''--limit'', str_int (ic_limit c), lit ''--offset'', str_int (ic_offset c)]"
| "command_line (SetStarCommand c) =
     [lit ''set-star'', lit ''--item-id'', sc_item_id c, lit ''--mode'', watch_mode_value (sc_mode c)] @
     (case sc_condition c of
        None \<Rightarrow> []
      | Some condition \<Rightarrow>
          [lit ''--security-advisory'', fc_advisory_id condition, lit ''--fixed-version'',
           fc_fixed_version condition, lit ''--cve-ids'', join [44] (fc_cve_ids condition)])"

section \<open>The parser accepts bounded commands only\<close>

definition usage_error :: "exn \<Rightarrow> bool" where
  "usage_error e \<longleftrightarrow> (\<exists>m. e = CliUsageError m)"

lemma usage_error_usage [simp]: "usage_error (usage m)" "usage_error unsupported"
  by (simp_all add: usage_error_def usage_def unsupported_def)

lemma argument_errors:
  "inventory_source v = Inl e \<Longrightarrow> usage_error e"
  "query_argument v = Inl e \<Longrightarrow> usage_error e"
  "limit_argument v = Inl e \<Longrightarrow> usage_error e"
  "offset_argument v = Inl e \<Longrightarrow> usage_error e"
  "item_id_argument v = Inl e \<Longrightarrow> usage_error e"
  "watch_mode_argument v = Inl e \<Longrightarrow> usage_error e"
  "boolean_argument v = Inl e \<Longrightarrow> usage_error e"
  "notification_severity v = Inl e \<Longrightarrow> usage_error e"
  "arch_item_id v = Inl e \<Longrightarrow> usage_error e"
  by (auto simp: inventory_source_def query_argument_def decimal_def limit_argument_def offset_argument_def
      item_id_argument_def watch_mode_argument_def boolean_argument_def notification_severity_def
      arch_item_id_def bindE_eq_Inl split: option.splits ItemSource.splits if_splits)

lemma validate_condition_error: "validate_condition c = Inl e \<Longrightarrow> \<exists>r. e = StateCorruptError r"
  by (auto simp: validate_condition_def bindE_eq_Inl corrupt_def)

lemma condition_error: "security_condition advisory cves version = Inl e \<Longrightarrow> usage_error e"
  by (auto simp: security_condition_def security_fix_condition_def Let_def bindE_eq_Inl
      split: sum.splits exn.splits dest!: validate_condition_error)

lemma condition_valid: "security_condition advisory cves version = Inr c \<Longrightarrow> validate_condition c = Inr ()"
  by (auto simp: security_condition_def security_fix_condition_def Let_def split: sum.splits exn.splits)

lemma settings_error: "notification_settings p s v = Inl e \<Longrightarrow> usage_error e"
  by (auto simp: notification_settings_def bindE_eq_Inl dest: argument_errors)

lemma settings_valid:
  "notification_settings p s v = Inr chosen \<Longrightarrow>
     ns_security_minimum_severity chosen = Sev_HIGH \<or> ns_security_minimum_severity chosen = Sev_CRITICAL"
  by (auto simp: notification_settings_def notification_severity_def split: if_splits)

lemma decimal_nonneg: "decimal v m = Inr n \<Longrightarrow> 0 \<le> n"
  by (auto simp: decimal_def int_of_digits_nonneg split: if_splits)

lemma scan_command_error: "scan_command args = Inl e \<Longrightarrow> usage_error e"
  by (auto simp: scan_command_def Let_def bindE_eq_Inl split: if_splits option.splits list.splits
      dest: settings_error argument_errors)

lemma scan_command_ok: "scan_command args = Inr c \<Longrightarrow> command_ok c"
  by (auto simp: scan_command_def Let_def default_settings_def split: if_splits option.splits list.splits
      dest: settings_valid)

lemma inventory_command_error: "inventory_command s q n k = Inl e \<Longrightarrow> usage_error e"
  by (auto simp: inventory_command_def bindE_eq_Inl dest: argument_errors)

lemma inventory_command_ok: "inventory_command s q n k = Inr c \<Longrightarrow> command_ok c"
  by (auto simp: inventory_command_def inventory_source_def query_argument_def
      MAX_QUERY_LENGTH_def limit_argument_def offset_argument_def MAX_OFFSET_def
      split: option.splits ItemSource.splits if_splits dest: decimal_nonneg)

lemma star_command_error: "star_command i m = Inl e \<Longrightarrow> usage_error e"
  by (auto simp: star_command_def bindE_eq_Inl dest: argument_errors)

lemma star_command_ok: "star_command i m = Inr c \<Longrightarrow> command_ok c"
  by (auto simp: star_command_def item_id_argument_def split: if_splits)

lemma condition_command_error: "condition_command i a f s = Inl e \<Longrightarrow> usage_error e"
  by (auto simp: condition_command_def bindE_eq_Inl dest: argument_errors condition_error)

lemma condition_command_ok: "condition_command i a f s = Inr c \<Longrightarrow> command_ok c"
  by (auto simp: condition_command_def arch_item_id_def item_id_argument_def split: if_splits dest: condition_valid)

lemmas command_errors = scan_command_error inventory_command_error star_command_error condition_command_error

lemmas command_oks = scan_command_ok inventory_command_ok star_command_ok condition_command_ok

lemma parse_command_error: "parse_command args = Inl e \<Longrightarrow> usage_error e"
  by (auto simp: parse_command_def split: if_splits option.splits list.splits dest: command_errors)

lemma parse_command_ok: "parse_command args = Inr c \<Longrightarrow> command_ok c"
  by (auto simp: parse_command_def split: if_splits option.splits list.splits dest: command_oks)

section \<open>The parser reads what is printed\<close>

lemma decimal_str_int:
  assumes "0 \<le> n" and "n < 1000000"
  shows "decimal (str_int n) m = Inr n"
proof -
  have "length (str_nat (nat n)) \<le> Suc 5" by (rule length_str_nat) (use assms in simp)
  with str_nat_digits [of "nat n"] int_of_digits_str_nat [of "nat n"] assms show ?thesis
    by (auto simp: decimal_def str_int_def is_ascii_def is_digit_def list_all_iff)
qed

lemma boolean_argument_text [simp]: "boolean_argument (boolean_text b) = Inr b"
  by (simp add: boolean_argument_def boolean_text_def)

lemma cve_no_comma:
  assumes "cve_id_matches i"
  shows "44 \<notin> set i"
proof -
  have "prefix (lit ''CVE-'') i" using assms by (simp add: cve_id_matches_def)
  then obtain r where i: "i = lit ''CVE-'' @ r" by (auto simp: prefix_def)
  have digits: "list_all is_digit (take 4 r)" "list_all is_digit (drop 5 r)" "take 1 (drop 4 r) = lit ''-''"
    using assms by (simp_all add: cve_id_matches_def i)
  have "set r \<subseteq> set (take 4 r) \<union> set (take 1 (drop 4 r)) \<union> set (drop 1 (drop 4 r))"
    by (metis append_take_drop_id set_append sup_assoc subset_refl)
  with digits have "44 \<notin> set r" by (fastforce simp: list_all_iff is_digit_def lit_def)
  then show ?thesis by (simp add: i lit_def)
qed

lemma security_condition_printed:
  assumes "validate_condition c = Inr ()"
  shows "security_condition (fc_advisory_id c) (join [44] (fc_cve_ids c)) (fc_fixed_version c) = Inr c"
proof -
  have "fc_cve_ids c \<noteq> []" "\<forall>i \<in> set (fc_cve_ids c). 44 \<notin> set i"
    using assms cve_no_comma by (auto simp: validate_condition_def list_ex_iff)
  then have "split_on 44 (join [44] (fc_cve_ids c)) = fc_cve_ids c" by (rule split_on_join)
  then show ?thesis using assms by (cases c) (simp add: security_condition_def security_fix_condition_def Let_def)
qed

lemmas pattern_defs = SETTINGS_PATTERN_def INVENTORY_PATTERN_def STAR_PATTERN_def CONDITION_PATTERN_def

lemma command_line_parsed: "command_ok c \<Longrightarrow> parse_command (command_line c) = Inr c"
proof (induction c rule: command_line.induct)
  case (1 force settings kev)
  then show ?case
    by (cases settings)
      (auto simp: parse_command_def scan_command_def pattern_defs notification_settings_def
        notification_severity_def)
next
  case 2
  then show ?case by (simp add: parse_command_def)
next
  case (3 c)
  then show ?case
    by (cases c) (auto simp: parse_command_def pattern_defs inventory_command_def inventory_source_def
      query_argument_def MAX_QUERY_LENGTH_def limit_argument_def offset_argument_def MAX_OFFSET_def
      decimal_str_int item_source_enum.of_val split: ItemSource.splits)
next
  case (4 c)
  then show ?case
    by (cases c) (auto simp: parse_command_def pattern_defs star_command_def condition_command_def
      item_id_argument_def watch_mode_argument_def arch_item_id_def watch_mode_enum.of_val
      security_condition_printed split: option.splits)
qed

text \<open>
  C23: The command line is bounded and complete. Whatever the arguments, the parser returns a
  command within the bounds of the helper (an inventory page of 1 to 100 items at an offset of at most
  100000 with a query of at most 128 characters, a source that has an inventory, an item id of 1 to 128
  characters, a security condition only on a temporary watch of an Arch package and only if it is
  valid, high or critical as the least severity) or raises \<open>CliUsageError\<close>, and nothing else; and
  every command within the bounds is the result of parsing its printed form.
\<close>

theorem parse_command_contract:
  "(case parse_command arguments of Inl e \<Rightarrow> usage_error e | Inr c \<Rightarrow> command_ok c) \<and>
   (command_ok c \<longrightarrow> parse_command (command_line c) = Inr c)"
  using command_line_parsed by (auto split: sum.split dest: parse_command_error parse_command_ok)

theorem parse_command_contract_witness:
  "parse_command (command_line (InventoryCommand
     \<lparr>ic_source = Item_ARCH, ic_query = lit ''bash'', ic_limit = 100, ic_offset = 100000\<rparr>)) =
   Inr (InventoryCommand \<lparr>ic_source = Item_ARCH, ic_query = lit ''bash'', ic_limit = 100, ic_offset = 100000\<rparr>) \<and>
   (\<exists>e. parse_command [lit ''inventory''] = Inl e \<and> usage_error e)"
  using parse_command_contract [of "[lit ''inventory'']" "InventoryCommand
     \<lparr>ic_source = Item_ARCH, ic_query = lit ''bash'', ic_limit = 100, ic_offset = 100000\<rparr>"]
  by (simp add: parse_command_def pattern_defs)

end
