(* ===== verification/Cli_Operations.thy ===== *)
theory Cli_Operations
  imports Scan_Coordinator Cli_Requests
begin

text \<open>
  The operations behind the command line, \<open>cli_operations.py\<close>, and the entry point \<open>cli.py\<close>: the cached
  snapshot and the inventory pages under the watches of the user, the star click, the scan, and
  the mapping of every exception to an error response. \<open>str.casefold\<close> is an argument of what searches and
  sorts: its Unicode table is not modelled. The clock is a sequence of readings as in the scan, the fresh
  identifiers (\<open>uuid4().hex\<close>) are arguments.
\<close>

section \<open>Watched items\<close>

definition watched_items :: "NormalizedItem list \<Rightarrow> WatchRecord list \<Rightarrow> NormalizedItem list" where
  "watched_items items watches =
     (let records = dict_of w_item_id (\<lambda>w. w) watches
      in map (\<lambda>item.
           case records (ni_item_id item) of
             Some record \<Rightarrow>
               item\<lparr>ni_watch_mode := w_mode record,
                    ni_watch_armed := (if w_mode record = Watch_TEMPORARY then w_armed record else False)\<rparr>
           | None \<Rightarrow> item\<lparr>ni_watch_mode := Watch_OFF, ni_watch_armed := False\<rparr>) items)"

definition overlay_snapshot :: "SnapshotResponse \<Rightarrow> WatchRecord list \<Rightarrow> SnapshotResponse" where
  "overlay_snapshot response watches =
     (let items = watched_items (sp_items (sr_payload response)) watches;
          summary = (sp_summary (sr_payload response))\<lparr>su_watched_updates :=
            int (length (filter (\<lambda>i. ni_watch_mode i \<noteq> Watch_OFF) items))\<rparr>
      in response\<lparr>sr_payload := (sr_payload response)\<lparr>sp_items := items, sp_summary := summary\<rparr>\<rparr>)"

definition missing_item :: "ItemSource \<Rightarrow> WatchRecord \<Rightarrow> NormalizedItem" where
  "missing_item source watch =
     \<lparr>ni_item_id = w_item_id watch, ni_source = source, ni_label = w_item_id watch, ni_installed = None,
      ni_candidate = None, ni_watch_mode = Watch_PERMANENT, ni_watchable = False,
      ni_provenance = Prov_CACHE, ni_installed_fingerprint = None, ni_candidate_fingerprint = None,
      ni_watch_armed = False\<rparr>"

definition inventory_items :: "InventoryResponse \<Rightarrow> WatchRecord list \<Rightarrow> ItemSource \<Rightarrow> NormalizedItem list" where
  "inventory_items cached watches source =
     (let cached_items = watched_items (ip_items (ir_payload cached)) watches;
          present = ni_item_id ` set cached_items
      in map (missing_item source)
           (filter (\<lambda>w. w_mode w = Watch_PERMANENT \<and> w_item_id w \<notin> present \<and>
              prefix (item_source_value source @ lit '':'') (w_item_id w)) watches) @ cached_items)"

definition item_matches :: "(ustr \<Rightarrow> ustr) \<Rightarrow> NormalizedItem \<Rightarrow> ustr \<Rightarrow> bool" where
  "item_matches casefold item query \<longleftrightarrow>
     query = [] \<or> sublist query (casefold (ni_label item)) \<or> sublist query (casefold (ni_item_id item))"

definition item_key :: "(ustr \<Rightarrow> ustr) \<Rightarrow> NormalizedItem \<Rightarrow> ustr \<times> ustr \<times> ustr" where
  "item_key casefold item =
     (if ni_watch_mode item \<noteq> Watch_OFF then lit ''0'' else lit ''1'', casefold (ni_label item), ni_item_id item)"

text \<open>The ordered matches of a query and the page a command asks for.\<close>

definition ordered_items ::
  "(ustr \<Rightarrow> ustr) \<Rightarrow> InventoryResponse \<Rightarrow> WatchRecord list \<Rightarrow> InventoryCommand \<Rightarrow> NormalizedItem list" where
  "ordered_items casefold cached watches command =
     (let items = inventory_items cached watches (ic_source command);
          query = casefold (ic_query command)
      in sort_key (item_key casefold) (filter (\<lambda>i. item_matches casefold i query) items))"

definition inventory_page ::
  "(ustr \<Rightarrow> ustr) \<Rightarrow> InventoryResponse \<Rightarrow> WatchRecord list \<Rightarrow> InventoryCommand \<Rightarrow> InventoryResponse" where
  "inventory_page casefold cached watches command =
     (let ordered = ordered_items casefold cached watches command;
          paged = take (nat (ic_limit command)) (drop (nat (ic_offset command)) ordered)
      in \<lparr>ir_generated_at = ir_generated_at cached, ir_generation_id = ir_generation_id cached,
          ir_payload = \<lparr>ip_source = ic_source command, ip_total = int (length ordered), ip_items = paged\<rparr>,
          ir_protocol_version = PROTOCOL_VERSION\<rparr>)"

section \<open>Star clicks\<close>

definition INVENTORY_SOURCES :: "ItemSource list" where
  "INVENTORY_SOURCES = [Item_ARCH, Item_AUR, Item_FLATPAK, Item_MISE]"

definition current_flatpak_scope :: "NormalizedItem \<Rightarrow> SourceHealth \<Rightarrow> bool" where
  "current_flatpak_scope item health =
     (let live = (\<lambda>scope. list_ex (\<lambda>e. sc_scope e = scope \<and> sc_status e = Status_OK \<and> sc_provenance e = Prov_LIVE)
            (sh_scopes health))
      in if prefix (lit ''flatpak:user:'') (ni_item_id item) then live Scope_USER
         else if prefix (lit ''flatpak:system:'') (ni_item_id item) then live Scope_SYSTEM
         else False)"

definition current_snapshot_item :: "NormalizedItem \<Rightarrow> SourceHealth list \<Rightarrow> bool" where
  "current_snapshot_item item sources =
     (case find (\<lambda>s. source_name_value (sh_source s) = item_source_value (ni_source item)) sources of
        None \<Rightarrow> False
      | Some health \<Rightarrow>
          if ni_provenance item \<noteq> Prov_LIVE \<or> sh_status health \<noteq> Status_OK \<or> sh_provenance health \<noteq> Prov_LIVE
          then False
          else (case ni_source item of
             Item_FLATPAK \<Rightarrow> current_flatpak_scope item health
           | _ \<Rightarrow> True))"

definition current_snapshot_items :: "SnapshotResponse option \<Rightarrow> NormalizedItem list" where
  "current_snapshot_items snapshot =
     (case snapshot of
        None \<Rightarrow> []
      | Some r \<Rightarrow> filter (\<lambda>i. current_snapshot_item i (sp_sources (sr_payload r))) (sp_items (sr_payload r)))"

definition click_inventory_of :: "InventoryResponse list \<Rightarrow> SnapshotResponse option \<Rightarrow> CachedInventory" where
  "click_inventory_of inventories snapshot =
     \<lparr>inv_items = concat (map (\<lambda>r. map cached_item (ip_items (ir_payload r))) inventories) @
        map cached_item (current_snapshot_items snapshot)\<rparr>"

definition mode_of :: "PersistentState \<Rightarrow> ustr \<Rightarrow> WatchMode" where
  "mode_of state item_id =
     (case find (\<lambda>w. w_item_id w = item_id) (ps_watches state) of None \<Rightarrow> Watch_OFF | Some w \<Rightarrow> w_mode w)"

definition with_condition :: "SetStarCommand \<Rightarrow> PersistentState \<Rightarrow> PersistentState" where
  "with_condition command state =
     (case sc_condition command of
        None \<Rightarrow> state
      | Some condition \<Rightarrow>
          \<lparr>ps_watches = map (\<lambda>w. if w_item_id w = sc_item_id command \<and> w_mode w = Watch_TEMPORARY
                                 then w\<lparr>w_condition := Some condition\<rparr> else w) (ps_watches state),
           ps_ledger = ps_ledger state, ps_sources = ps_sources state\<rparr>)"

definition mode_mismatch :: exn where
  "mode_mismatch = WatchTransitionError (lit ''watch mode does not match the transition'')"

definition star_mutation ::
  "SetStarCommand \<Rightarrow> PersistentState \<Rightarrow> InventoryResponse list \<Rightarrow> SnapshotResponse option \<Rightarrow> PersistentState result" where
  "star_mutation command state inventories snapshot =
     bindE (transition state (StarClick (sc_item_id command) (click_inventory_of inventories snapshot) True)) (\<lambda>clicked.
       let updated = with_condition command clicked
       in if mode_of updated (sc_item_id command) \<noteq> sc_mode command then Inl mode_mismatch else Inr updated)"

definition set_star ::
  "(ustr \<Rightarrow> datetime option) \<Rightarrow> (nat \<Rightarrow> datetime) \<Rightarrow> ustr \<Rightarrow> SetStarCommand \<Rightarrow> StarResultResponse act" where
  "set_star fiso clk uuid command =
     bindA (update_state_with_inventories fiso (clk 0) (clk 1) (clk 2) INVENTORY_SOURCES (star_mutation command))
       (\<lambda>loaded. retA
          \<lparr>rr_generated_at = clk 3, rr_generation_id = lit ''star-'' @ uuid,
           rr_payload = \<lparr>rp_item_id = sc_item_id command, rp_mode = mode_of (sl_state loaded) (sc_item_id command),
             rp_watch_armed =
               (case find (\<lambda>w. w_item_id w = sc_item_id command) (ps_watches (sl_state loaded)) of
                  None \<Rightarrow> False | Some w \<Rightarrow> w_armed w)\<rparr>,
           rr_protocol_version = PROTOCOL_VERSION\<rparr>)"

section \<open>Commands\<close>

definition unavailable :: "string \<Rightarrow> exn" where
  "unavailable message = CliUnavailableError (lit message)"

definition cli_snapshot :: "(ustr \<Rightarrow> datetime option) \<Rightarrow> (nat \<Rightarrow> datetime) \<Rightarrow> SnapshotResponse act" where
  "cli_snapshot fiso clk =
     bindA (read_cached_snapshot fiso) (\<lambda>snapshot.
       case snapshot of
         None \<Rightarrow> liftA (Inl (unavailable ''validated snapshot storage is unavailable''))
       | Some r \<Rightarrow>
           bindA (storage_load_state fiso (clk 0) (clk 1) (clk 2)) (\<lambda>loaded.
             retA (overlay_snapshot r (ps_watches (sl_state loaded)))))"

definition inventory_response ::
  "(ustr \<Rightarrow> datetime option) \<Rightarrow> (nat \<Rightarrow> datetime) \<Rightarrow> (ustr \<Rightarrow> ustr) \<Rightarrow> InventoryCommand \<Rightarrow> InventoryResponse act" where
  "inventory_response fiso clk casefold command =
     bindA (read_cached_inventory fiso (ic_source command)) (\<lambda>cached.
       case cached of
         None \<Rightarrow> liftA (Inl (unavailable ''validated inventory storage is unavailable''))
       | Some r \<Rightarrow>
           bindA (storage_load_state fiso (clk 0) (clk 1) (clk 2)) (\<lambda>loaded.
             retA (inventory_page casefold r (ps_watches (sl_state loaded)) command)))"

definition cli_scan ::
  "(ustr \<Rightarrow> datetime option) \<Rightarrow> runner \<Rightarrow> (nat \<Rightarrow> datetime) \<Rightarrow> ustr \<Rightarrow> ustr list \<Rightarrow> ScanCollector
     \<Rightarrow> bool \<Rightarrow> NotificationSettings \<Rightarrow> bool \<Rightarrow> SnapshotResponse act" where
  "cli_scan fiso run clk uuid tokens collector force settings enable_cisa_kev =
     bindA (load_generation_locked fiso) (\<lambda>previous.
       let request = \<lparr>rq_generation_id = lit ''scan-'' @ uuid,
             rq_generation_order = (case previous of None \<Rightarrow> 0 | Some g \<Rightarrow> gb_order g + 1),
             rq_force = force, rq_notification_settings = settings, rq_enable_cisa_kev = enable_cisa_kev\<rparr>
       in bindA (scan_run fiso run clk tokens collector request) (\<lambda>scanned.
          bindA (storage_load_state fiso (clk 32) (clk 33) (clk 34)) (\<lambda>loaded.
            retA (overlay_snapshot (sres_snapshot scanned) (ps_watches (sl_state loaded))))))"

text \<open>
  What an invocation finds: the environment variables and the home directory, the clock, the fresh
  identifiers, the runner and the collectors.
\<close>

record invocation =
  env_state_home :: "ustr option"
  env_cache_home :: "ustr option"
  env_home :: ustr
  env_clock :: "nat \<Rightarrow> datetime"
  env_uuid :: ustr
  env_tokens :: "ustr list"
  env_run :: runner
  env_collector :: ScanCollector
  env_casefold :: "ustr \<Rightarrow> ustr"

text \<open>\<open>_xdg_home\<close>: an unset or empty variable means the fallback; the path must be absolute.\<close>

definition xdg_home :: "ustr option \<Rightarrow> string \<Rightarrow> ustr \<Rightarrow> ustr result" where
  "xdg_home configured variable fallback =
     (let path = (case configured of None \<Rightarrow> fallback | Some [] \<Rightarrow> fallback | Some p \<Rightarrow> p)
      in if prefix (lit ''/'') path then Inr path else Inl (StoragePathError (lit variable)))"

text \<open>The two directories; the files of \<^typ>\<open>disk\<close> are those of the directory \<open>opatchy\<close> below them.\<close>

definition from_environment :: "invocation \<Rightarrow> (ustr \<times> ustr) result" where
  "from_environment env =
     bindE (xdg_home (env_state_home env) ''XDG_STATE_HOME'' (env_home env @ lit ''/.local/state'')) (\<lambda>state_home.
     bindE (xdg_home (env_cache_home env) ''XDG_CACHE_HOME'' (env_home env @ lit ''/.cache'')) (\<lambda>cache_home.
       Inr (state_home, cache_home)))"

definition execute :: "(ustr \<Rightarrow> datetime option) \<Rightarrow> invocation \<Rightarrow> CliCommand \<Rightarrow> Response act" where
  "execute fiso env command =
     bindA (liftA (from_environment env)) (\<lambda>_.
       case command of
         ScanCommand force settings enable_cisa_kev \<Rightarrow>
           bindA (cli_scan fiso (env_run env) (env_clock env) (env_uuid env) (env_tokens env) (env_collector env)
                    force settings enable_cisa_kev) (\<lambda>r. retA (SnapshotResp r))
       | SnapshotCommand \<Rightarrow> bindA (cli_snapshot fiso (env_clock env)) (\<lambda>r. retA (SnapshotResp r))
       | InventoryCommand c \<Rightarrow>
           bindA (inventory_response fiso (env_clock env) (env_casefold env) c) (\<lambda>r. retA (InventoryResp r))
       | SetStarCommand c \<Rightarrow>
           bindA (set_star fiso (env_clock env) (env_uuid env) c) (\<lambda>r. retA (StarResultResp r)))"

section \<open>The entry point\<close>

definition EXIT_ERROR :: int where
  "EXIT_ERROR = 2"

fun error_info :: "exn \<Rightarrow> ErrorInfo" where
  "error_info (CliUsageError message) = \<lparr>ei_code = CLI_USAGE, ei_message = message\<rparr>"
| "error_info (WatchTransitionError reason) = \<lparr>ei_code = STATE_UNAVAILABLE, ei_message = reason\<rparr>"
| "error_info (CliUnavailableError _) =
     \<lparr>ei_code = STATE_UNAVAILABLE, ei_message = lit ''validated state is unavailable''\<rparr>"
| "error_info (StateSchemaIncompatible _) =
     \<lparr>ei_code = STATE_UNAVAILABLE, ei_message = lit ''validated state is unavailable''\<rparr>"
| "error_info (StoragePathError _) =
     \<lparr>ei_code = STATE_UNAVAILABLE, ei_message = lit ''validated state is unavailable''\<rparr>"
| "error_info (ProtocolError _) =
     \<lparr>ei_code = STATE_UNAVAILABLE, ei_message = lit ''validated state is unavailable''\<rparr>"
| "error_info _ = \<lparr>ei_code = STATE_UNAVAILABLE, ei_message = lit ''helper operation failed''\<rparr>"

definition error_response :: "invocation \<Rightarrow> ErrorInfo \<Rightarrow> Response" where
  "error_response env info = ErrorResp
     \<lparr>er_generated_at = env_clock env 35, er_generation_id = lit ''cli-'' @ env_uuid env,
      er_error = info, er_protocol_version = PROTOCOL_VERSION\<rparr>"

definition response_of ::
  "(ustr \<Rightarrow> datetime option) \<Rightarrow> invocation \<Rightarrow> ustr list \<Rightarrow> disk \<Rightarrow> Response \<times> disk" where
  "response_of fiso env arguments d =
     (case bindA (liftA (parse_command arguments)) (execute fiso env) d of
        (Inr r, d') \<Rightarrow> (r, d')
      | (Inl e, d') \<Rightarrow> (error_response env (error_info e), d'))"

text \<open>\<open>main\<close>: the bytes on standard output and the exit status. The encoding is not guarded.\<close>

definition cli_main ::
  "(ustr \<Rightarrow> datetime option) \<Rightarrow> invocation \<Rightarrow> ustr list \<Rightarrow> (bytes \<times> int) act" where
  "cli_main fiso env arguments d =
     (let (response, d') = response_of fiso env arguments d
      in case encode_response response of
           Inl e \<Rightarrow> (Inl e, d')
         | Inr b \<Rightarrow> (Inr (b, case response of ErrorResp _ \<Rightarrow> EXIT_ERROR | _ \<Rightarrow> 0), d'))"

end
