(* ===== verification/Cli_Facts.thy ===== *)
theory Cli_Facts
  imports Cli_Operations
begin

text \<open>
  What the command line promises: the pages of an inventory are the ordered matches of the query, cut into
  pages, and a star click moves the watch of its item one step along the cycle of modes, on disk and in the
  reply, or changes nothing.
\<close>

section \<open>Items under the watches\<close>

definition shown :: "WatchRecord list \<Rightarrow> NormalizedItem \<Rightarrow> NormalizedItem" where
  "shown watches item =
     (case find (\<lambda>w. w_item_id w = ni_item_id item) watches of
        None \<Rightarrow> item\<lparr>ni_watch_mode := Watch_OFF, ni_watch_armed := False\<rparr>
      | Some w \<Rightarrow> item\<lparr>ni_watch_mode := w_mode w, ni_watch_armed := (w_mode w = Watch_TEMPORARY \<and> w_armed w)\<rparr>)"

lemma watched_items_shown:
  assumes "distinct (map w_item_id watches)"
  shows "watched_items items watches = map (shown watches) items"
  by (auto simp: watched_items_def shown_def Let_def find_dict_of [OF assms] split: option.splits)

lemma shown_select [simp]:
  "ni_item_id (shown ws i) = ni_item_id i" "ni_label (shown ws i) = ni_label i"
  "ni_source (shown ws i) = ni_source i"
  by (simp_all add: shown_def split: option.split)

lemma shown_ok: "item_ok i \<Longrightarrow> item_ok (shown ws i)"
  by (auto simp: shown_def item_ok_def split: option.split)

definition missing :: "InventoryResponse \<Rightarrow> ItemSource \<Rightarrow> WatchRecord \<Rightarrow> bool" where
  "missing cached source w \<longleftrightarrow> w_mode w = Watch_PERMANENT \<and> w_item_id w \<notin> ni_item_id ` set (ip_items (ir_payload cached)) \<and>
     prefix (item_source_value source @ lit '':'') (w_item_id w)"

lemma inventory_items_shown:
  assumes "distinct (map w_item_id watches)"
  shows "inventory_items cached watches source =
    map (missing_item source) (filter (missing cached source) watches) @
    map (shown watches) (ip_items (ir_payload cached))"
  by (auto simp: inventory_items_def watched_items_shown [OF assms] missing_def Let_def image_image
      intro!: arg_cong [where f = "map _"] filter_cong)

lemma missing_ids: "map ni_item_id (map (missing_item source) ws) = map w_item_id ws"
  by (simp add: missing_item_def)

lemma inventory_items_distinct:
  assumes "distinct (map w_item_id watches)" and "distinct (map ni_item_id (ip_items (ir_payload cached)))"
  shows "distinct (map ni_item_id (inventory_items cached watches source))"
proof -
  have "map ni_item_id (map (shown watches) (ip_items (ir_payload cached))) =
      map ni_item_id (ip_items (ir_payload cached))" by simp
  moreover have "distinct (map w_item_id (filter (missing cached source) watches))"
    using assms(1) by (rule distinct_map_filter)
  ultimately show ?thesis
    using assms(2) by (auto simp: inventory_items_shown [OF assms(1)] missing_ids missing_def simp del: map_map)
qed

section \<open>Pages\<close>

lemma concat_pages:
  assumes "0 < n"
  shows "concat (map (\<lambda>k. take n (drop (k * n) xs)) [0..<m]) = take (m * n) xs"
proof (induction m)
  case (Suc m)
  have "take (m * n) xs @ take n (drop (m * n) xs) = take (m * n + n) xs" by (simp add: take_add)
  with Suc show ?case by (simp add: add.commute)
qed simp

definition page_at :: "InventoryCommand \<Rightarrow> nat \<Rightarrow> InventoryCommand" where
  "page_at command k = command\<lparr>ic_offset := int k * ic_limit command\<rparr>"

lemma ordered_items_page_at [simp]: "ordered_items cf cached ws (page_at c k) = ordered_items cf cached ws c"
  by (simp add: ordered_items_def page_at_def)

lemma validate_inventory_response:
  "validate_response (InventoryResp r) = Inr u \<longleftrightarrow>
     ir_protocol_version r = PROTOCOL_VERSION \<and> identifier_ok (ir_generation_id r) \<and>
     validate_inventory (ir_payload r) = Inr ()"
  by (simp add: validate_response_def)

lemma ordered_items_iff:
  assumes "distinct (map w_item_id watches)"
  shows "i \<in> set (ordered_items cf cached watches c) \<longleftrightarrow> item_matches cf i (cf (ic_query c)) \<and>
    (i \<in> shown watches ` set (ip_items (ir_payload cached)) \<or>
     (\<exists>w \<in> set watches. missing cached (ic_source c) w \<and> i = missing_item (ic_source c) w))"
  by (auto simp: ordered_items_def inventory_items_shown [OF assms] Let_def)

lemma ordered_items_distinct:
  assumes "distinct (map w_item_id watches)" and "distinct (map ni_item_id (ip_items (ir_payload cached)))"
  shows "distinct (map ni_item_id (ordered_items cf cached watches c))"
  using distinct_map_filter [OF inventory_items_distinct [OF assms]] by (simp add: ordered_items_def Let_def)

lemma ordered_items_ok:
  assumes "validate_inventory (ir_payload cached) = Inr ()" and "ip_source (ir_payload cached) = ic_source c"
    and "distinct (map w_item_id watches)" and "\<And>w. w \<in> set watches \<Longrightarrow> identifier_ok (w_item_id w)"
    and "i \<in> set (ordered_items cf cached watches c)"
  shows "item_ok i \<and> ni_source i = ic_source c"
proof -
  have items: "item_ok j \<and> ni_source j = ic_source c" if "j \<in> set (ip_items (ir_payload cached))" for j
    using that assms(1, 2) by (simp add: validate_inventory_iff)
  from assms(5) consider j where "j \<in> set (ip_items (ir_payload cached))" "i = shown watches j"
    | w where "w \<in> set watches" "i = missing_item (ic_source c) w"
    unfolding ordered_items_iff [OF assms(3)] by blast
  then show ?thesis
  proof cases
    case 1
    with items show ?thesis by (simp add: shown_ok)
  next
    case 2
    with assms(4) show ?thesis by (simp add: missing_item_def item_ok_def)
  qed
qed

text \<open>
  C22: The inventory pages are the ordered matches, cut into pages. For an accepted inventory command
  on a validated inventory and watches of protocol size: going through the pages from the first one gives
  every match of the query exactly once and in order, watched items before others, then by folded
  label, then by id; every page reports the number of all matches, holds at most as many items as asked
  for and passes the protocol validation. The matches are those of the cached items, each with the mode of its
  watch, and of the permanently watched items of the source that the inventory no longer lists.
\<close>

theorem inventory_pages_complete:
  assumes "command_ok (InventoryCommand c)" and "validate_response (InventoryResp cached) = Inr ()"
    and "ip_source (ir_payload cached) = ic_source c" and "watches_ok watches"
    and "\<And>w. w \<in> set watches \<Longrightarrow> identifier_ok (w_item_id w)"
    and "length (ordered_items cf cached watches c) \<le> n * nat (ic_limit c)"
  defines "pages \<equiv> map (\<lambda>k. inventory_page cf cached watches (page_at c k)) [0..<n]"
    and "matches \<equiv> ordered_items cf cached watches c"
  shows "concat (map (\<lambda>r. ip_items (ir_payload r)) pages) = matches \<and>
    (\<forall>r \<in> set pages. ip_total (ir_payload r) = int (length matches) \<and>
       length (ip_items (ir_payload r)) \<le> nat (ic_limit c) \<and> validate_response (InventoryResp r) = Inr ()) \<and>
    sorted (map (item_key cf) matches) \<and> distinct (map ni_item_id matches) \<and>
    (\<forall>i. i \<in> set matches \<longleftrightarrow> item_matches cf i (cf (ic_query c)) \<and>
      (i \<in> shown watches ` set (ip_items (ir_payload cached)) \<or>
       (\<exists>w \<in> set watches. missing cached (ic_source c) w \<and> i = missing_item (ic_source c) w)))"
proof (intro conjI ballI allI)
  let ?n = "nat (ic_limit c)"
  have n: "0 < ?n" using assms(1) by simp
  have d: "distinct (map w_item_id watches)" using assms(4) by (simp add: watches_ok_def)
  note cached = assms(2) [unfolded validate_inventory_response]
  then have inv: "validate_inventory (ir_payload cached) = Inr ()" by simp
  have dm: "distinct (map ni_item_id matches)"
    unfolding matches_def using inv by (intro ordered_items_distinct d) (simp add: validate_inventory_iff)
  have page: "ip_items (ir_payload (inventory_page cf cached watches (page_at c k))) =
      take ?n (drop (k * ?n) matches)" for k
    using n by (simp add: inventory_page_def matches_def Let_def) (simp add: page_at_def nat_mult_distrib)
  show "concat (map (\<lambda>r. ip_items (ir_payload r)) pages) = matches"
    using concat_pages [OF n, of matches] assms(6) by (simp add: pages_def comp_def page matches_def)
  show "sorted (map (item_key cf) matches)" by (simp add: matches_def ordered_items_def Let_def)
  show "distinct (map ni_item_id matches)" by (rule dm)
  show "i \<in> set matches \<longleftrightarrow> item_matches cf i (cf (ic_query c)) \<and>
      (i \<in> shown watches ` set (ip_items (ir_payload cached)) \<or>
       (\<exists>w \<in> set watches. missing cached (ic_source c) w \<and> i = missing_item (ic_source c) w))" for i
    unfolding matches_def by (rule ordered_items_iff [OF d])
  fix r assume "r \<in> set pages"
  then obtain k where r: "r = inventory_page cf cached watches (page_at c k)" by (auto simp: pages_def)
  then show total: "ip_total (ir_payload r) = int (length matches)"
    by (simp add: inventory_page_def matches_def Let_def)
  show "length (ip_items (ir_payload r)) \<le> ?n" by (simp add: r page)
  have "\<forall>i \<in> set (ip_items (ir_payload r)). item_ok i \<and> ni_source i = ic_source c"
    using ordered_items_ok [OF inv assms(3) d assms(5)]
    by (auto simp: r page matches_def dest!: in_set_takeD in_set_dropD)
  moreover have "ip_source (ir_payload r) = ic_source c" "ir_protocol_version r = PROTOCOL_VERSION"
      "ir_generation_id r = ir_generation_id cached"
    by (simp_all add: r inventory_page_def page_at_def Let_def)
  moreover have "distinct (map ni_item_id (ip_items (ir_payload r)))"
    using dm by (simp add: r page take_map [symmetric] drop_map [symmetric])
  moreover have "length (ip_items (ir_payload r)) \<le> length matches" by (simp add: r page)
  ultimately show "validate_response (InventoryResp r) = Inr ()"
    using cached assms(1) total by (simp add: validate_inventory_response validate_inventory_iff)
qed

definition shelf :: InventoryResponse where
  "shelf = \<lparr>ir_generated_at = 0, ir_generation_id = lit ''g1'', ir_payload = \<lparr>ip_source = Item_ARCH, ip_total = 2,
     ip_items = [new_item (lit ''arch:bash'') Item_ARCH (lit ''bash'') (Some (lit ''1'')) (Some (lit ''2'')) True,
       new_item (lit ''arch:zsh'') Item_ARCH (lit ''zsh'') (Some (lit ''1'')) (Some (lit ''2'')) True]\<rparr>,
     ir_protocol_version = PROTOCOL_VERSION\<rparr>"

definition shelf_command :: InventoryCommand where
  "shelf_command = \<lparr>ic_source = Item_ARCH, ic_query = [], ic_limit = 2, ic_offset = 0\<rparr>"

theorem inventory_pages_complete_witness:
  "concat (map (\<lambda>r. ip_items (ir_payload r))
     (map (\<lambda>k. inventory_page (\<lambda>s. s) shelf [permanent_watch (lit ''arch:fish'')] (page_at shelf_command k)) [0..<2])) =
     ordered_items (\<lambda>s. s) shelf [permanent_watch (lit ''arch:fish'')] shelf_command \<and>
   missing_item Item_ARCH (permanent_watch (lit ''arch:fish'')) \<in>
     set (ordered_items (\<lambda>s. s) shelf [permanent_watch (lit ''arch:fish'')] shelf_command)"
proof -
  let ?ws = "[permanent_watch (lit ''arch:fish'')]"
  have ok: "command_ok (InventoryCommand shelf_command)" "ip_source (ir_payload shelf) = ic_source shelf_command"
    by (simp_all add: shelf_command_def shelf_def)
  have valid: "validate_response (InventoryResp shelf) = Inr ()"
    by (simp add: validate_inventory_response validate_inventory_iff shelf_def identifier_ok_def item_ok_def new_item_def)
  have ws: "watches_ok ?ws" "w \<in> set ?ws \<Longrightarrow> identifier_ok (w_item_id w)" for w
    by (auto simp: watches_ok_def identifier_ok_def)
  have "length (ordered_items (\<lambda>s. s) shelf ?ws shelf_command) \<le> length (inventory_items shelf ?ws Item_ARCH)"
    by (simp add: ordered_items_def shelf_command_def Let_def)
  also have "\<dots> \<le> 3" by (simp add: inventory_items_def watched_items_def shelf_def Let_def)
  finally have n: "length (ordered_items (\<lambda>s. s) shelf ?ws shelf_command) \<le> 2 * nat (ic_limit shelf_command)"
    by (simp add: shelf_command_def)
  have "missing shelf Item_ARCH (permanent_watch (lit ''arch:fish''))"
    by (simp add: missing_def shelf_def new_item_def lit_def)
  moreover have "item_matches (\<lambda>s. s) i (ic_query shelf_command)" for i by (simp add: item_matches_def shelf_command_def)
  moreover have "ic_source shelf_command = Item_ARCH" by (simp add: shelf_command_def)
  ultimately show ?thesis
    using inventory_pages_complete [OF ok(1) valid ok(2) ws n] by auto
qed

section \<open>Star clicks\<close>

fun next_mode :: "WatchMode \<Rightarrow> WatchMode" where
  "next_mode Watch_OFF = Watch_TEMPORARY"
| "next_mode Watch_TEMPORARY = Watch_PERMANENT"
| "next_mode Watch_PERMANENT = Watch_OFF"

definition clickable :: "PersistentState \<Rightarrow> CachedInventory \<Rightarrow> ustr \<Rightarrow> bool" where
  "clickable s cur i =
     (case watch_map s i of
        None \<Rightarrow> (\<exists>c. find (\<lambda>c. ci_item_id c = i) (inv_items cur) = Some c \<and> ci_watchable c \<and>
          ci_installed_fingerprint c \<noteq> None)
      | Some w \<Rightarrow> w_mode w = Watch_PERMANENT \<or> (\<exists>c \<in> set (inv_items cur). ci_item_id c = i \<and> ci_watchable c))"

lemma mode_of_map: "mode_of s i = (case watch_map s i of None \<Rightarrow> Watch_OFF | Some w \<Rightarrow> w_mode w)"
  by (simp add: mode_of_def watch_map_def)

lemma star_click_clickable:
  assumes "validate_state s = Inr ()"
  shows "(\<exists>s'. star_click s i cur True = Inr s') \<longleftrightarrow> clickable s cur i"
proof -
  have "(\<exists>s'. star_click s i cur True = Inr s') \<longleftrightarrow> star_click s i cur True \<noteq> Inl not_watchable"
    using star_click_raises [OF assms, of i cur True] by (cases "star_click s i cur True") auto
  moreover have "w_mode w \<noteq> Watch_OFF" if "watch_map s i = Some w" for w
    using that assms watch_ok_off by (auto dest: watch_map_SomeD validate_state_watches)
  ultimately show ?thesis
    using star_click_raises [OF assms, of i cur True not_watchable]
    by (cases "watch_map s i") (auto simp: clickable_def, metis WatchMode.exhaust)
qed

lemma star_click_mode:
  assumes "validate_state s = Inr ()" and "star_click s i cur True = Inr s'"
  shows "mode_of s' i = next_mode (mode_of s i)" "j \<noteq> i \<Longrightarrow> watch_map s' j = watch_map s j"
proof -
  note m = click_map [OF assms]
  show "j \<noteq> i \<Longrightarrow> watch_map s' j = watch_map s j" by (simp add: m)
  show "mode_of s' i = next_mode (mode_of s i)"
  proof (cases "watch_map s i")
    case None
    with assms(2) obtain c where "find (\<lambda>c. ci_item_id c = i) (inv_items cur) = Some c"
      by (auto simp: star_click_new split: option.splits)
    with None show ?thesis by (simp add: mode_of_map m)
  next
    case (Some w)
    with assms(1) have "w_mode w \<noteq> Watch_OFF"
      using watch_ok_off by (auto dest: watch_map_SomeD validate_state_watches)
    with Some show ?thesis by (cases "w_mode w") (simp_all add: mode_of_map m)
  qed
qed

lemma star_click_rest:
  assumes "validate_state s = Inr ()" and "star_click s i cur True = Inr s'"
  shows "ps_sources s' = ps_sources s"
    "ps_ledger s' = (if mode_of s i = Watch_PERMANENT then without_active_references (ps_ledger s) i else ps_ledger s)"
proof -
  have "ps_sources s' = ps_sources s \<and> ps_ledger s' =
      (if mode_of s i = Watch_PERMANENT then without_active_references (ps_ledger s) i else ps_ledger s)"
  proof (cases "watch_map s i")
    case None
    with assms(2) show ?thesis by (auto simp: star_click_new mode_of_map split: option.splits if_splits)
  next
    case (Some w)
    then have "w_item_id w = i" by (auto dest: watch_map_SomeD)
    with Some assms(2) show ?thesis
      by (cases "w_mode w") (auto simp: star_click_existing click_existing_watch_def mode_of_map split: if_splits)
  qed
  then show "ps_sources s' = ps_sources s"
    "ps_ledger s' = (if mode_of s i = Watch_PERMANENT then without_active_references (ps_ledger s) i else ps_ledger s)"
    by simp_all
qed

lemma with_condition_map:
  "watch_map (with_condition command s) j = (case sc_condition command of
      None \<Rightarrow> watch_map s j
    | Some condition \<Rightarrow> map_option (\<lambda>w. if w_item_id w = sc_item_id command \<and> w_mode w = Watch_TEMPORARY
        then w\<lparr>w_condition := Some condition\<rparr> else w) (watch_map s j))"
  by (auto simp: with_condition_def watch_map_def find_map_id split: option.splits)

lemma with_condition_select [simp]:
  "ps_ledger (with_condition command s) = ps_ledger s" "ps_sources (with_condition command s) = ps_sources s"
  by (simp_all add: with_condition_def split: option.split)

lemma with_condition_mode: "mode_of (with_condition command s) j = mode_of s j"
  by (cases "sc_condition command"; cases "watch_map s j") (simp_all add: mode_of_map with_condition_map)

lemma with_condition_other: "j \<noteq> sc_item_id command \<Longrightarrow> watch_map (with_condition command s) j = watch_map s j"
  by (cases "sc_condition command"; cases "watch_map s j") (auto simp: with_condition_map dest: watch_map_SomeD)

lemma with_condition_valid:
  assumes "validate_state s = Inr ()" and "\<And>c. sc_condition command = Some c \<Longrightarrow>
    arch_item_id_matches (sc_item_id command) \<and> validate_condition c = Inr ()"
  shows "validate_state (with_condition command s) = Inr ()"
proof (cases "sc_condition command")
  case (Some c)
  have "watches_ok (map (\<lambda>w. if w_item_id w = sc_item_id command \<and> w_mode w = Watch_TEMPORARY
      then w\<lparr>w_condition := Some c\<rparr> else w) (ps_watches s))"
    using assms(1) assms(2) [OF Some]
    by (intro watches_ok_replace) (auto simp: validate_state_iff watches_ok_def watch_ok_def validate_watch_def)
  with assms(1) Some show ?thesis by (simp add: with_condition_def validate_state_iff)
qed (use assms in \<open>simp add: with_condition_def\<close>)

lemma with_condition_text: "state_text s \<Longrightarrow> state_text (with_condition command s)"
  by (auto simp: with_condition_def state_text_def watch_text_def split: option.split)

definition cached_text :: "CachedItem \<Rightarrow> bool" where
  "cached_text c \<longleftrightarrow> text_ok (ci_item_id c) \<and> option_ok text_ok (ci_installed_fingerprint c) \<and>
     option_ok text_ok (ci_candidate_fingerprint c)"

lemma text_hexdigest [simp]: "text_ok (sha256_hexdigest b)"
  using hexdigest_lower_hex
  by (force simp: text_ok_def list_all_iff is_lower_hex_def scalar_value_def)

lemma cached_item_text: "item_text i \<Longrightarrow> cached_text (cached_item i)"
  by (auto simp: cached_text_def cached_item_def item_text_def fingerprint_of_def option_ok_def split: option.split)

lemma star_click_text:
  assumes "state_text s" and "\<And>c. c \<in> set (inv_items cur) \<Longrightarrow> cached_text c" and "star_click s i cur req = Inr s'"
  shows "state_text s'"
proof (cases "watch_map s i")
  case None
  with assms(3) obtain c where c: "find (\<lambda>c. ci_item_id c = i) (inv_items cur) = Some c"
      "s' = s\<lparr>ps_watches := ps_watches s @ [temporary_watch c]\<rparr>"
    by (auto simp: star_click_new split: option.splits if_splits)
  have "cached_text c" using find_SomeD [OF c(1)] assms(2) by simp
  with assms(1) c(2) show ?thesis
    by (auto simp: state_text_def watch_text_def temporary_watch_def cached_text_def)
next
  case (Some w)
  then have "watch_text w" using assms(1) by (auto simp: state_text_def dest: watch_map_SomeD)
  with Some assms(1, 3) show ?thesis
    by (cases "w_mode w") (auto simp: star_click_existing click_existing_watch_def state_text_def watch_text_def
      permanent_watch_def option_ok_def without_active_references_def Let_def split: if_splits)
qed

section \<open>A star click on the files\<close>

lemma result_cases:
  fixes r :: "'a result" and f :: "'a \<Rightarrow> unit result"
  shows "(\<exists>e. r = Inl e) \<or> (\<exists>u e. r = Inr u \<and> f u = Inl e) \<or> (\<exists>u. r = Inr u \<and> f u = Inr ())"
  by (cases r) (auto, metis old.sum.exhaust old.unit.exhaust)

definition click_inventory_in :: "GenerationBundle \<Rightarrow> CachedInventory" where
  "click_inventory_in g = click_inventory_of
     (filter (\<lambda>r. ip_source (ir_payload r) \<in> set INVENTORY_SOURCES) (gb_inventories g)) (Some (gb_snapshot g))"

lemma click_inventory_text:
  assumes "bundle_text g" and "c \<in> set (inv_items (click_inventory_in g))"
  shows "cached_text c"
  using assms
  by (auto simp: click_inventory_in_def click_inventory_of_def current_snapshot_items_def bundle_text_def
      inventory_text_def snapshot_text_def cached_item_text)

lemma update_with_inventories:
  assumes "reads_isoformat fiso" and "holds d a t" and "t \<le> t0" and "st_generation a = Some g"
  shows "update_state_with_inventories fiso t0 t1 t2 sources m d =
    bindA (liftA (m (prune_ledger (st_state a) t0)
        (filter (\<lambda>r. ip_source (ir_payload r) \<in> set sources) (gb_inventories g)) (Some (gb_snapshot g)))) (\<lambda>updated.
    bindA (write_state fiso t1 t2 updated) (\<lambda>_. retA \<lparr>sl_state = updated, sl_warning = None\<rparr>)) d"
proof -
  from load_generation_holds [OF assms(1, 2)] obtain w where "load_generation_locked fiso d =
    (Inr (map_option (\<lambda>g. g\<lparr>gb_state := prune_ledger (st_state a) w\<rparr>) (st_generation a)), d)" .
  with assms(4) have "read_current_inventories fiso sources d =
      (Inr (filter (\<lambda>r. ip_source (ir_payload r) \<in> set sources) (gb_inventories g)), d)"
    "read_cached_snapshot fiso d = (Inr (Some (gb_snapshot g)), d)"
    by (simp_all add: read_current_inventories_def read_cached_snapshot_def)
  with load_state_holds [OF assms(1-3)] show ?thesis by (simp add: update_state_with_inventories_def)
qed

lemma star_mutation_click:
  "star_mutation command s (filter (\<lambda>r. ip_source (ir_payload r) \<in> set INVENTORY_SOURCES) (gb_inventories g))
     (Some (gb_snapshot g)) =
   bindE (star_click s (sc_item_id command) (click_inventory_in g) True) (\<lambda>v.
     if mode_of (with_condition command v) (sc_item_id command) \<noteq> sc_mode command then Inl mode_mismatch
     else Inr (with_condition command v))"
  by (simp add: star_mutation_def transition_def click_inventory_in_def Let_def)

definition star_updated :: "SetStarCommand \<Rightarrow> PersistentState \<Rightarrow> PersistentState \<Rightarrow> bool" where
  "star_updated command s u \<longleftrightarrow>
     (let i = sc_item_id command
      in sc_mode command = next_mode (mode_of s i) \<and> mode_of u i = sc_mode command \<and>
         (\<forall>j. j \<noteq> i \<longrightarrow> watch_map u j = watch_map s j) \<and> ps_sources u = ps_sources s \<and>
         ps_ledger u = (if mode_of s i = Watch_PERMANENT then without_active_references (ps_ledger s) i else ps_ledger s))"

lemma star_mutation_updated:
  assumes "validate_state s = Inr ()" and "state_text s" and "bundle_text g"
    and "bindE (star_click s (sc_item_id command) (click_inventory_in g) True) (\<lambda>v.
      if mode_of (with_condition command v) (sc_item_id command) \<noteq> sc_mode command then Inl mode_mismatch
      else Inr (with_condition command v)) = Inr u"
  shows "star_updated command s u \<and> state_text u"
proof -
  let ?i = "sc_item_id command"
  from assms(4) obtain v where v: "star_click s ?i (click_inventory_in g) True = Inr v" "u = with_condition command v"
      "mode_of u ?i = sc_mode command"
    by (auto split: if_splits)
  have "state_text v"
    by (rule star_click_text [OF assms(2) click_inventory_text [OF assms(3)] v(1)])
  then show ?thesis
    using v star_click_mode [OF assms(1) v(1)] star_click_rest [OF assms(1) v(1)]
    by (simp add: star_updated_def with_condition_mode with_condition_other with_condition_text Let_def)
qed

lemma star_mutation_accepts:
  assumes "validate_state s = Inr ()" and "sc_mode command = next_mode (mode_of s (sc_item_id command))"
    and "clickable s (click_inventory_in g) (sc_item_id command)"
    and "\<And>c. sc_condition command = Some c \<Longrightarrow>
      arch_item_id_matches (sc_item_id command) \<and> validate_condition c = Inr ()"
  obtains u where "bindE (star_click s (sc_item_id command) (click_inventory_in g) True) (\<lambda>v.
      if mode_of (with_condition command v) (sc_item_id command) \<noteq> sc_mode command then Inl mode_mismatch
      else Inr (with_condition command v)) = Inr u" "validate_state u = Inr ()"
proof -
  from assms(3) star_click_clickable [OF assms(1)] obtain v where
    v: "star_click s (sc_item_id command) (click_inventory_in g) True = Inr v" by blast
  with star_click_mode(1) [OF assms(1) v] assms(2) with_condition_valid [OF star_click_valid [OF assms(1) v] assms(4)]
  show thesis by (intro that [of "with_condition command v"]) (simp_all add: with_condition_mode)
qed


text \<open>The witness: a permanent watch of the published state is switched off.\<close>

definition fish_state :: PersistentState where
  "fish_state = \<lparr>ps_watches = [permanent_watch (lit ''arch:fish'')], ps_ledger = [], ps_sources = []\<rparr>"

lemma fish_state_ok: "validate_state fish_state = Inr ()" "state_text fish_state"
  by (simp_all add: fish_state_def validate_state_iff watches_ok_def ledger_ok_def sources_ok_def state_text_def
      watch_text_def permanent_watch_def option_ok_def) (simp add: watch_ok_def validate_watch_def)

lemma fish_published:
  obtains d where "holds d (publish (quiet_bundle\<lparr>gb_state := fish_state\<rparr>)) 0"
proof -
  let ?g = "quiet_bundle\<lparr>gb_state := fish_state\<rparr>"
  have "bundle_text ?g" using quiet_bundle_encoded(1) fish_state_ok(2) by (simp add: bundle_text_def)
  moreover have "validate_bundle ?g = Inr ()" by (rule validate_bundle_replaced [OF quiet_bundle_valid fish_state_ok])
  moreover have "newer ?g empty_store" by (simp add: newer_def empty_store_def)
  ultimately show thesis
    using commit_generation_holds [OF canonical_reads no_files_hold, of ?g 0 0] that by blast
qed


end
