(* ===== verification/Adapter_Mise.thy ===== *)
theory Adapter_Mise
  imports Scan_Outcomes Json
begin

text \<open>
  The mise adapter of \<open>adapters/mise.py\<close>: the JSON document of \<open>mise outdated --json\<close>, an object with
  one record per tool, becomes one item per tool. What is not a complete document of the two known
  record shapes is rejected as a whole. The lemmas give the items of an accepted document and show that
  every document of the older shape is accepted.
\<close>

section \<open>Fields of a document\<close>

text \<open>
  \<open>value["key"]\<close> where the keys have been checked; the keys of an object as a \<open>frozenset\<close>; and
  \<open>type(value) is str\<close>.
\<close>

definition json_item :: "JsonObject \<Rightarrow> string \<Rightarrow> JsonValue" where
  "json_item ps key = (case map_of ps (lit key) of None \<Rightarrow> JNull | Some v \<Rightarrow> v)"

definition json_keys :: "JsonObject \<Rightarrow> ustr set" where
  "json_keys ps = fst ` set ps"

fun json_string :: "JsonValue \<Rightarrow> ustr option" where
  "json_string (JStr s) = Some s"
| "json_string _ = None"

lemma json_string_eq_Some [simp]: "json_string v = Some s \<longleftrightarrow> v = JStr s"
  by (cases v) auto

text \<open>The printed form of an object has the same fields.\<close>

lemma json_canon:
  "distinct (map fst ps) \<Longrightarrow> json_item (canon_object ps) key = canon (json_item ps key)"
  "json_keys (canon_object ps) = json_keys ps"
  using canon_object_keys [of ps]
  by (simp_all add: json_item_def json_keys_def canon_object_lookup split: option.split)

text \<open>\<open>str(error)\<close> of a \<open>ProtocolError\<close>.\<close>

definition error_text :: "ErrorInfo \<Rightarrow> ustr" where
  "error_text e = error_code_value (ei_code e) @ lit '': '' @ ei_message e"

section \<open>Records\<close>

definition MISE_RECORD_FIELDS :: "ustr set" where
  "MISE_RECORD_FIELDS = set (map lit [''requested'', ''current'', ''latest''])"

definition MISE_CURRENT_RECORD_FIELDS :: "ustr set" where
  "MISE_CURRENT_RECORD_FIELDS =
     set (map lit [''name'', ''requested'', ''current'', ''bump'', ''latest'', ''source''])"

definition MISE_CURRENT_SOURCE_FIELDS :: "ustr set" where
  "MISE_CURRENT_SOURCE_FIELDS = set (map lit [''type'', ''path''])"

definition mise_fail :: "ustr \<Rightarrow> string \<Rightarrow> ustr" where
  "mise_fail key message = lit ''mise.'' @ key @ lit message"

text \<open>The checks of the newer record shape; \<open>Inl\<close> is the diagnostic of \<open>MiseInvalid\<close>.\<close>

definition mise_current_shape :: "ustr \<Rightarrow> JsonObject \<Rightarrow> ustr + unit" where
  "mise_current_shape key ps =
     thenE (checkE (json_item ps ''name'' = JStr key)
              (mise_fail key ''.name must match the record key''))
     (thenE (checkE (json_item ps ''bump'' = JNull) (mise_fail key ''.bump must be null''))
     (case json_item ps ''source'' of
        JObj src \<Rightarrow>
          thenE (checkE (json_keys src = MISE_CURRENT_SOURCE_FIELDS)
                   (mise_fail key ''.source must be a complete object''))
            (checkE (json_string (json_item src ''type'') \<noteq> None \<and> json_string (json_item src ''path'') \<noteq> None)
               (mise_fail key ''.source fields must be strings''))
      | _ \<Rightarrow> Inl (mise_fail key ''.source must be a complete object'')))"

definition mise_text :: "ustr \<Rightarrow> JsonObject \<Rightarrow> string \<Rightarrow> ustr + ustr" where
  "mise_text key ps field =
     (case json_string (json_item ps field) of
        Some s \<Rightarrow> Inr s
      | None \<Rightarrow> Inl (mise_fail key (''.'' @ field @ '' must be a string'')))"

definition mise_record :: "ustr \<Rightarrow> ustr \<Rightarrow> ustr \<Rightarrow> ustr \<Rightarrow> MiseRecord" where
  "mise_record key requested current latest =
     \<lparr>mr_item = new_item (lit ''mise:'' @ key) Item_MISE key (Some current) (Some latest) True,
      mr_requested = requested, mr_current = current, mr_latest = latest\<rparr>"

definition parse_mise_record :: "ustr \<Rightarrow> JsonValue \<Rightarrow> ustr + MiseRecord" where
  "parse_mise_record key v =
     (case v of
        JObj ps \<Rightarrow>
          thenE (checkE (json_keys ps = MISE_RECORD_FIELDS \<or> json_keys ps = MISE_CURRENT_RECORD_FIELDS)
                   (mise_fail key '' must contain requested, current, and latest''))
          (thenE (if json_keys ps = MISE_CURRENT_RECORD_FIELDS then mise_current_shape key ps else Inr ())
          (bindE (mise_text key ps ''requested'') (\<lambda>requested.
           bindE (mise_text key ps ''current'') (\<lambda>current.
           bindE (mise_text key ps ''latest'') (\<lambda>latest.
             Inr (mise_record key requested current latest))))))
      | _ \<Rightarrow> Inl (mise_fail key '' must be an object''))"

section \<open>The collector\<close>

text \<open>
  An exception other than \<open>ProtocolError\<close> (the \<open>ValueError\<close> of an integer literal with more than 4300
  digits) leaves the adapter.
\<close>

definition mise_document :: "JsonValue \<Rightarrow> MiseResult" where
  "mise_document v =
     (case v of
        JObj ps \<Rightarrow>
          if ps = [] then MiseNotApplicable
          else (case mapE (\<lambda>(key, v). parse_mise_record key v) ps of
                  Inl diagnostic \<Rightarrow> MiseInvalid diagnostic
                | Inr records \<Rightarrow> MiseCollected records)
      | _ \<Rightarrow> MiseInvalid (lit ''mise output must be an object''))"

definition parse_mise_output :: "bytes \<Rightarrow> MiseResult result" where
  "parse_mise_output stdout =
     (case utf8_decode stdout of
        None \<Rightarrow> Inr (MiseInvalid (lit ''mise output is not UTF-8''))
      | Some s \<Rightarrow>
          (case decode_json s of
             Inl (ProtocolError e) \<Rightarrow> Inr (MiseInvalid (error_text e))
           | Inl e \<Rightarrow> Inl e
           | Inr v \<Rightarrow> Inr (mise_document v)))"

definition collect_mise_updates :: "runner \<Rightarrow> MiseResult result" where
  "collect_mise_updates run =
     (case run MISE_OUTDATED [] of
        CommandSucceeded stdout _ \<Rightarrow> parse_mise_output stdout
      | CommandMissing _ \<Rightarrow> Inr MiseNotApplicable
      | CommandTimedOut _ _ \<Rightarrow> Inr MiseTimedOut
      | CommandOutputExceeded stream _ _ \<Rightarrow> Inr (MiseOutputExceeded stream)
      | CommandExited returncode _ _ \<Rightarrow> Inr (MiseCommandFailed returncode)
      | CommandRejected diagnostic \<Rightarrow> Inr (MiseCommandRejected diagnostic))"

section \<open>Accepted documents\<close>

lemma parse_mise_record_ok:
  assumes "parse_mise_record key v = Inr r"
  obtains ps requested current latest where "v = JObj ps" "r = mise_record key requested current latest"
    "json_item ps ''requested'' = JStr requested" "json_item ps ''current'' = JStr current"
    "json_item ps ''latest'' = JStr latest"
  using assms that
  by (auto simp: parse_mise_record_def mise_text_def split: JsonValue.splits option.splits if_splits)

lemma mise_record_select [simp]:
  "mr_item (mise_record k r c l) = new_item (lit ''mise:'' @ k) Item_MISE k (Some c) (Some l) True"
  "mr_requested (mise_record k r c l) = r" "mr_current (mise_record k r c l) = c"
  "mr_latest (mise_record k r c l) = l"
  by (simp_all add: mise_record_def)

lemma mise_document_collected:
  assumes "mise_document v = MiseCollected rs" and "unique_keys v"
  obtains ps where "v = JObj ps" "ps \<noteq> []" "map (ni_label \<circ> mr_item) rs = map fst ps"
    "distinct (map (ni_item_id \<circ> mr_item) rs)"
    "list_all2 (\<lambda>p r. parse_mise_record (fst p) (snd p) = Inr r) ps rs"
proof -
  from assms(1) obtain ps where v: "v = JObj ps" "ps \<noteq> []"
    and m: "mapE (\<lambda>(key, v). parse_mise_record key v) ps = Inr rs"
    by (auto simp: mise_document_def split: JsonValue.splits if_splits sum.splits)
  have all: "list_all2 (\<lambda>p r. parse_mise_record (fst p) (snd p) = Inr r) ps rs"
    using m by (simp add: mapE_eq_Inr case_prod_unfold)
  have sel: "ni_label (mr_item r) = fst p \<and> ni_item_id (mr_item r) = lit ''mise:'' @ fst p"
    if "parse_mise_record (fst p) (snd p) = Inr r" for p r
    using that by (elim parse_mise_record_ok) simp
  have labels: "map (ni_label \<circ> mr_item) rs = map fst ps \<and>
      map (ni_item_id \<circ> mr_item) rs = map (\<lambda>k. lit ''mise:'' @ k) (map fst ps)"
    using all by (induction rule: list_all2_induct) (auto dest: sel)
  have "distinct (map fst ps)" using assms(2) v by simp
  then have "distinct (map (\<lambda>k. lit ''mise:'' @ k) (map fst ps))"
    by (simp add: distinct_map inj_on_def)
  with labels have "distinct (map (ni_item_id \<circ> mr_item) rs)" by metis
  with that [OF v] labels all show thesis by blast
qed

section \<open>Complete documents\<close>

text \<open>The report of a list of tools with their requested, current and latest versions, in the older shape.\<close>

definition mise_tool_value :: "ustr \<times> ustr \<times> ustr \<Rightarrow> JsonValue" where
  "mise_tool_value = (\<lambda>(requested, current, latest).
     JObj [(lit ''requested'', JStr requested), (lit ''current'', JStr current), (lit ''latest'', JStr latest)])"

definition mise_report :: "(ustr \<times> ustr \<times> ustr \<times> ustr) list \<Rightarrow> JsonValue" where
  "mise_report tools = JObj (map (map_prod id mise_tool_value) tools)"

definition mise_tool_ok :: "ustr \<times> ustr \<times> ustr \<times> ustr \<Rightarrow> bool" where
  "mise_tool_ok = (\<lambda>(key, requested, current, latest). list_all text_ok [key, requested, current, latest])"

lemma parse_tool_value:
  "parse_mise_record key (canon (mise_tool_value (requested, current, latest))) =
     Inr (mise_record key requested current latest)"
proof -
  let ?ps = "[(lit ''requested'', JStr requested), (lit ''current'', JStr current), (lit ''latest'', JStr latest)]"
  have "json_item (canon_object ?ps) f = canon (json_item ?ps f)" for f by (simp add: json_canon)
  moreover have "json_keys (canon_object ?ps) = MISE_RECORD_FIELDS"
    by (subst json_canon(2)) (simp add: json_keys_def MISE_RECORD_FIELDS_def)
  moreover have "lit ''name'' \<in> MISE_CURRENT_RECORD_FIELDS" "lit ''name'' \<notin> MISE_RECORD_FIELDS"
    by (simp_all add: MISE_RECORD_FIELDS_def MISE_CURRENT_RECORD_FIELDS_def)
  then have "MISE_RECORD_FIELDS \<noteq> MISE_CURRENT_RECORD_FIELDS" by blast
  ultimately show ?thesis
    by (simp add: parse_mise_record_def mise_text_def mise_tool_value_def json_item_def)
qed

lemma mise_report_printable:
  assumes "distinct (map fst tools)" and "\<forall>t \<in> set tools. mise_tool_ok t"
  shows "can_print 100 (mise_report tools)"
  using assms
  by (auto simp: mise_report_def printable_JObj mise_tool_value_def mise_tool_ok_def text_ok_def comp_def
      scalar_lit)

lemma mise_report_collected:
  assumes "tools \<noteq> []"
  shows "mise_document (canon (mise_report tools)) =
    MiseCollected (map (\<lambda>(key, requested, current, latest). mise_record key requested current latest)
      (sort_key fst tools))"
proof -
  have "canon_object (map (map_prod id mise_tool_value) tools) =
      map (map_prod id (canon \<circ> mise_tool_value)) (sort_key fst tools)"
    by (simp add: canon_object_def sort_items prod.map_comp comp_def flip: id_def)
  moreover have "mapE (\<lambda>(key, v). parse_mise_record key v) (map (map_prod id (canon \<circ> mise_tool_value)) ts) =
      Inr (map (\<lambda>(key, requested, current, latest). mise_record key requested current latest) ts)" for ts
    by (induction ts) (auto simp: parse_tool_value)
  moreover have "sort_key fst tools \<noteq> []" using assms by (metis set_sort set_empty)
  ultimately show ?thesis by (simp add: mise_report_def mise_document_def)
qed

section \<open>Properties\<close>

text \<open>
  The mise adapter reads its report exactly. What it collects are the tools of one complete JSON document
  of the command, one item per key with the current and the latest version of that record, under distinct
  ids; and the report of any tools with distinct names is collected whole, in the order of the names.
\<close>

theorem mise_report_exact:
  "(collect_mise_updates run = Inr (MiseCollected rs) \<longrightarrow>
     (\<exists>out err s ps. run MISE_OUTDATED [] = CommandSucceeded out err \<and> utf8_decode out = Some s \<and>
        decode_json s = Inr (JObj ps) \<and> ps \<noteq> [] \<and> distinct (map (ni_item_id \<circ> mr_item) rs) \<and>
        list_all2 (\<lambda>(key, v) r. \<exists>fields requested current latest.
          v = JObj fields \<and> json_item fields ''requested'' = JStr requested \<and>
          json_item fields ''current'' = JStr current \<and> json_item fields ''latest'' = JStr latest \<and>
          r = mise_record key requested current latest) ps rs)) \<and>
   (\<forall>tools b err. tools \<noteq> [] \<and> distinct (map fst tools) \<and> (\<forall>t \<in> set tools. mise_tool_ok t) \<and>
      json_bytes (mise_report tools) = Inr b \<and> run MISE_OUTDATED [] = CommandSucceeded b err \<longrightarrow>
      collect_mise_updates run = Inr (MiseCollected
        (map (\<lambda>(key, requested, current, latest). mise_record key requested current latest) (sort_key fst tools))))"
proof (intro conjI impI allI)
  assume c: "collect_mise_updates run = Inr (MiseCollected rs)"
  then obtain out err s v where o: "run MISE_OUTDATED [] = CommandSucceeded out err" "utf8_decode out = Some s"
    "decode_json s = Inr v" "mise_document v = MiseCollected rs"
    by (auto simp: collect_mise_updates_def parse_mise_output_def
        split: CommandResult.splits option.splits sum.splits exn.splits)
  from mise_document_collected [OF o(4) decode_json_bounds(2) [OF o(3)]] obtain ps where
    ps: "v = JObj ps" "ps \<noteq> []" "distinct (map (ni_item_id \<circ> mr_item) rs)"
      "list_all2 (\<lambda>p r. parse_mise_record (fst p) (snd p) = Inr r) ps rs" .
  from ps(4) have "list_all2 (\<lambda>(key, v) r. \<exists>fields requested current latest.
      v = JObj fields \<and> json_item fields ''requested'' = JStr requested \<and>
      json_item fields ''current'' = JStr current \<and> json_item fields ''latest'' = JStr latest \<and>
      r = mise_record key requested current latest) ps rs"
    by (rule list_all2_mono) (auto elim: parse_mise_record_ok)
  with o ps show "\<exists>out err s ps. run MISE_OUTDATED [] = CommandSucceeded out err \<and> utf8_decode out = Some s \<and>
      decode_json s = Inr (JObj ps) \<and> ps \<noteq> [] \<and> distinct (map (ni_item_id \<circ> mr_item) rs) \<and>
      list_all2 (\<lambda>(key, v) r. \<exists>fields requested current latest.
        v = JObj fields \<and> json_item fields ''requested'' = JStr requested \<and>
        json_item fields ''current'' = JStr current \<and> json_item fields ''latest'' = JStr latest \<and>
        r = mise_record key requested current latest) ps rs"
    by blast
next
  fix tools b err
  assume t: "tools \<noteq> [] \<and> distinct (map fst tools) \<and> (\<forall>t \<in> set tools. mise_tool_ok t) \<and>
      json_bytes (mise_report tools) = Inr b \<and> run MISE_OUTDATED [] = CommandSucceeded b err"
  from t json_bytes_decode [OF mise_report_printable, of tools] obtain s where
    "utf8_decode b = Some s" "decode_json s = Inr (canon (mise_report tools))"
    by auto
  with t mise_report_collected [of tools] show "collect_mise_updates run = Inr (MiseCollected
      (map (\<lambda>(key, requested, current, latest). mise_record key requested current latest) (sort_key fst tools)))"
    by (simp add: collect_mise_updates_def parse_mise_output_def)
qed

theorem mise_report_exact_witness:
  "\<exists>b. json_bytes (mise_report [(lit ''node'', lit ''20'', lit ''20.1'', lit ''20.2'')]) = Inr b \<and>
     collect_mise_updates (\<lambda>_ _. CommandSucceeded b []) =
       Inr (MiseCollected [mise_record (lit ''node'') (lit ''20'') (lit ''20.1'') (lit ''20.2'')])"
proof -
  let ?tools = "[(lit ''node'', lit ''20'', lit ''20.1'', lit ''20.2'')]"
  have ok: "\<forall>t \<in> set ?tools. mise_tool_ok t" by (simp add: mise_tool_ok_def text_ok_def scalar_lit)
  with json_bytes_decode [OF mise_report_printable, of ?tools] obtain b where
    b: "json_bytes (mise_report ?tools) = Inr b" by auto
  have "collect_mise_updates (\<lambda>_ _. CommandSucceeded b []) =
      Inr (MiseCollected (map (\<lambda>(key, requested, current, latest). mise_record key requested current latest)
        (sort_key fst ?tools)))"
    by (rule mise_report_exact [THEN conjunct2, rule_format, where b = b]) (use ok b in auto)
  with b show ?thesis by auto
qed

end
