(* ===== verification/Cache_Metadata.thy ===== *)
theory Cache_Metadata
  imports Python_Text
begin

text \<open>
  The validators of a cached HTTP body, \<open>cache_metadata.py\<close>: three lines with the ETag, the
  Last-Modified date and the SHA-256 digest of the body they belong to. The lemmas show that metadata
  are accepted only for the body with their digest, and that what is written is read back.
\<close>

definition MAX_METADATA_BYTES :: nat where
  "MAX_METADATA_BYTES = 2048"

definition MAX_VALIDATOR_LENGTH :: nat where
  "MAX_VALIDATOR_LENGTH = 1024"

definition DIGEST_LENGTH :: nat where
  "DIGEST_LENGTH = 64"

record CacheValidators =
  cv_etag :: ustr
  cv_last_modified :: ustr

definition safe_validator :: "ustr \<Rightarrow> bool" where
  "safe_validator v \<longleftrightarrow> length v \<le> MAX_VALIDATOR_LENGTH \<and> list_all (\<lambda>c. 32 \<le> c \<and> c \<le> 126) v"

definition valid_digest :: "ustr \<Rightarrow> bool" where
  "valid_digest v \<longleftrightarrow> length v = DIGEST_LENGTH \<and> list_all is_lower_hex v"

text \<open>\<open>bytes.decode("ascii")\<close>.\<close>

definition ascii_decode :: "bytes \<Rightarrow> ustr option" where
  "ascii_decode bs = (if list_all (\<lambda>b. unat b < 0x80) bs then Some (map unat bs) else None)"

text \<open>Unpacking \<open>split\<close> into other than four parts is the \<open>ValueError\<close> of the source.\<close>

definition parse_cache_metadata :: "bytes \<Rightarrow> bytes \<Rightarrow> CacheValidators option" where
  "parse_cache_metadata metadata body =
     (if MAX_METADATA_BYTES < length metadata then None
      else case map_option (split_on 10) (ascii_decode metadata) of
        Some [etag, last_modified, digest, ending] \<Rightarrow>
          if ending \<noteq> [] \<or> \<not> valid_digest digest \<or> digest \<noteq> sha256_hexdigest body then None
          else if \<not> safe_validator etag \<or> \<not> safe_validator last_modified then None
          else if etag = [] \<and> last_modified = [] then None
          else Some \<lparr>cv_etag = etag, cv_last_modified = last_modified\<rparr>
      | _ \<Rightarrow> None)"

text \<open>\<open>metadata_file.read(_MAX_METADATA_BYTES + 1)\<close> of a file that may be missing.\<close>

definition read_cache_validators :: "bytes option \<Rightarrow> bytes \<Rightarrow> CacheValidators option" where
  "read_cache_validators metadata_file body =
     (case metadata_file of
        None \<Rightarrow> None
      | Some content \<Rightarrow> parse_cache_metadata (take (MAX_METADATA_BYTES + 1) content) body)"

definition safe_or_empty :: "ustr option \<Rightarrow> ustr" where
  "safe_or_empty v = (case v of None \<Rightarrow> [] | Some t \<Rightarrow> if safe_validator t then t else [])"

definition serialize_cache_metadata :: "bytes \<Rightarrow> ustr option \<Rightarrow> ustr option \<Rightarrow> bytes" where
  "serialize_cache_metadata body etag last_modified =
     utf8_encode (safe_or_empty etag @ [10] @ safe_or_empty last_modified @ [10] @ sha256_hexdigest body @ [10])"

section \<open>Round trip and integrity\<close>

lemma parse_cache_metadata_digest:
  assumes "parse_cache_metadata metadata body = Some v"
  shows "\<exists>t. ascii_decode metadata = Some (cv_etag v @ [10] @ cv_last_modified v @ [10] @ t) \<and>
      t = sha256_hexdigest body @ [10]"
    and "safe_validator (cv_etag v)" "safe_validator (cv_last_modified v)"
    and "cv_etag v \<noteq> [] \<or> cv_last_modified v \<noteq> []"
proof -
  from assms obtain content etag last_modified where t: "ascii_decode metadata = Some content"
    "split_on 10 content = [etag, last_modified, sha256_hexdigest body, []]"
    "v = \<lparr>cv_etag = etag, cv_last_modified = last_modified\<rparr>" "safe_validator etag"
    "safe_validator last_modified" "etag \<noteq> [] \<or> last_modified \<noteq> []"
    by (auto simp: parse_cache_metadata_def split: if_splits option.splits list.splits)
  moreover have "content = join [10] [etag, last_modified, sha256_hexdigest body, []]"
    using join_split_on [of 10 content] t(2) by simp
  ultimately show "\<exists>t. ascii_decode metadata = Some (cv_etag v @ [10] @ cv_last_modified v @ [10] @ t) \<and>
      t = sha256_hexdigest body @ [10]" "safe_validator (cv_etag v)" "safe_validator (cv_last_modified v)"
    "cv_etag v \<noteq> [] \<or> cv_last_modified v \<noteq> []"
    by simp_all
qed

text \<open>Metadata belong to one digest: they are never accepted for a body with another.\<close>

lemma metadata_bound_to_digest:
  assumes "read_cache_validators f b1 = Some v" and "read_cache_validators f b2 = Some w"
  shows "sha256_hexdigest b1 = sha256_hexdigest b2 \<and> v = w"
  using assms
  by (auto simp: read_cache_validators_def parse_cache_metadata_def split: if_splits option.splits list.splits)

lemma safe_or_empty_safe: "safe_validator (safe_or_empty v)"
  by (simp add: safe_or_empty_def safe_validator_def split: option.split)

lemma ascii_decode_encode:
  assumes "list_all (\<lambda>c. c < 0x80) s"
  shows "ascii_decode (utf8_encode s) = Some s"
  using assms by (induction s) (auto simp: ascii_decode_def utf8_encode_def utf8_char_def unat_byte split: if_splits)

lemma length_ascii_encode: "list_all (\<lambda>c. c < 0x80) s \<Longrightarrow> length (utf8_encode s) = length s"
  by (induction s) (auto simp: utf8_encode_def utf8_char_def)

lemma safe_validator_plain: "safe_validator v \<Longrightarrow> 10 \<notin> set v \<and> list_all (\<lambda>c. c < 0x80) v"
  by (auto simp: safe_validator_def list_all_iff)

lemma hexdigest_plain:
  "10 \<notin> set (sha256_hexdigest b)" "list_all (\<lambda>c. c < 0x80) (sha256_hexdigest b)"
  using hexdigest_lower_hex [of b] by (auto simp: list_all_iff is_lower_hex_def)

lemma cache_metadata_roundtrip:
  assumes "safe_or_empty etag \<noteq> [] \<or> safe_or_empty last_modified \<noteq> []"
    and "length (safe_or_empty etag) + length (safe_or_empty last_modified) \<le> 1981"
  shows "read_cache_validators (Some (serialize_cache_metadata body etag last_modified)) body =
    Some \<lparr>cv_etag = safe_or_empty etag, cv_last_modified = safe_or_empty last_modified\<rparr>"
proof -
  let ?e = "safe_or_empty etag" and ?m = "safe_or_empty last_modified" and ?h = "sha256_hexdigest body"
  let ?s = "?e @ [10] @ ?m @ [10] @ ?h @ [10]"
  note plain = safe_validator_plain [OF safe_or_empty_safe]
  have ascii: "list_all (\<lambda>c. c < 0x80) ?s" using plain hexdigest_plain by simp
  have "split_on 10 ?s = [?e, ?m, ?h, []]"
    using split_on_join [of "[?e, ?m, ?h, []]" 10] plain hexdigest_plain by simp
  moreover have "length (utf8_encode ?s) \<le> MAX_METADATA_BYTES"
    using assms(2) length_ascii_encode [OF ascii] by (simp add: length_hexdigest MAX_METADATA_BYTES_def)
  moreover have "valid_digest ?h"
    using hexdigest_lower_hex [of body] by (simp add: valid_digest_def length_hexdigest DIGEST_LENGTH_def)
  ultimately show ?thesis
    using assms(1) ascii_decode_encode [OF ascii] safe_or_empty_safe
    by (simp add: read_cache_validators_def parse_cache_metadata_def serialize_cache_metadata_def)
qed

end
