(* ===== verification/Endpoint.thy ===== *)
theory Endpoint
  imports Runner Storage Cache_Metadata
begin

text \<open>
  The endpoint fetcher of \<open>runner.py\<close>: conditional headers from the transport cache, the loop over
  redirects with the URL policy of the endpoint, the bounded read of the body and the replacement of
  the transport cache; and \<open>read_confirmed_feed\<close> of \<open>storage.py\<close>, which trusts a cached feed only if it
  equals a transport body with valid metadata. The network is an argument: what opening each request
  gives, what \<open>urljoin\<close> returns, and whether the cache can be written.
\<close>

section \<open>URLs\<close>

text \<open>
  \<open>urllib.parse.urlsplit\<close> as far as the policy reads it: leading control characters and blanks and all
  tabs and line ends are removed, then scheme, network location and path are split off; query and
  fragment are dropped. \<open>netloc_ok\<close> stands for the two checks of the library that rest on tables: the
  address between brackets, and the normalisation of characters outside ASCII. Its failure is a
  \<open>ValueError\<close>, as is an unbalanced bracket.
\<close>

record SplitUrl =
  us_scheme :: ustr
  us_netloc :: ustr
  us_path :: ustr

text \<open>
  \<open>str.lower\<close> up to characters whose lower case is not ASCII: besides the capital letters only the
  Kelvin sign has an ASCII lower case. The result is compared to ASCII texts only.
\<close>

definition lower_char :: "nat \<Rightarrow> nat" where
  "lower_char c = (if 65 \<le> c \<and> c \<le> 90 then c + 32 else if c = 8490 then 107 else c)"

definition lower :: "ustr \<Rightarrow> ustr" where
  "lower s = map lower_char s"

definition ascii_letter :: "nat \<Rightarrow> bool" where
  "ascii_letter c \<longleftrightarrow> (65 \<le> c \<and> c \<le> 90) \<or> (97 \<le> c \<and> c \<le> 122)"

definition scheme_char :: "nat \<Rightarrow> bool" where
  "scheme_char c \<longleftrightarrow> ascii_letter c \<or> is_digit c \<or> c \<in> {43, 45, 46}"

definition split_scheme :: "ustr \<Rightarrow> ustr \<times> ustr" where
  "split_scheme url =
     (let before = takeWhile (\<lambda>c. c \<noteq> 58) url
      in if 58 \<in> set url \<and> before \<noteq> [] \<and> ascii_letter (hd before) \<and> list_all scheme_char before
         then (lower before, drop (length before + 1) url)
         else ([], url))"

definition urlsplit :: "(ustr \<Rightarrow> bool) \<Rightarrow> ustr \<Rightarrow> SplitUrl result" where
  "urlsplit netloc_ok text =
     (let url = filter (\<lambda>c. c \<notin> {9, 10, 13}) (dropWhile (\<lambda>c. c \<le> 32) text);
          (scheme, rest) = split_scheme url;
          has_netloc = prefix (lit ''//'') rest;
          netloc = (if has_netloc then takeWhile (\<lambda>c. c \<notin> {47, 63, 35}) (drop 2 rest) else []);
          tail = (if has_netloc then drop (2 + length netloc) rest else rest)
      in if (91 \<in> set netloc) \<noteq> (93 \<in> set netloc) \<or> \<not> netloc_ok netloc
         then Inl (PythonError (lit ''ValueError: invalid network location''))
         else Inr \<lparr>us_scheme = scheme, us_netloc = netloc, us_path = takeWhile (\<lambda>c. c \<notin> {63, 35}) tail\<rparr>)"

text \<open>\<open>rpartition('@')\<close> and \<open>partition\<close>, and the properties of the split result that rest on them.\<close>

definition after_last :: "nat \<Rightarrow> ustr \<Rightarrow> ustr" where
  "after_last sep s = rev (takeWhile (\<lambda>c. c \<noteq> sep) (rev s))"

definition before_first :: "nat \<Rightarrow> ustr \<Rightarrow> ustr" where
  "before_first sep s = takeWhile (\<lambda>c. c \<noteq> sep) s"

definition after_first :: "nat \<Rightarrow> ustr \<Rightarrow> ustr" where
  "after_first sep s = drop 1 (dropWhile (\<lambda>c. c \<noteq> sep) s)"

definition hostinfo :: "SplitUrl \<Rightarrow> ustr \<times> ustr" where
  "hostinfo parts =
     (let info = after_last 64 (us_netloc parts)
      in if 91 \<in> set info
         then let bracketed = after_first 91 info
              in (before_first 93 bracketed, after_first 58 (after_first 93 bracketed))
         else (before_first 58 info, after_first 58 info))"

definition us_hostname :: "SplitUrl \<Rightarrow> ustr option" where
  "us_hostname parts =
     (let host = fst (hostinfo parts)
      in if host = [] then None
         else Some (lower (before_first 37 host) @ drop (length (before_first 37 host)) host))"

definition us_port :: "SplitUrl \<Rightarrow> int option result" where
  "us_port parts =
     (let port = snd (hostinfo parts)
      in if port = [] then Inr None
         else if \<not> list_all is_digit port
         then Inl (PythonError (lit ''ValueError: Port could not be cast to integer value''))
         else bindE (int_literal port) (\<lambda>n.
           if 65535 < n then Inl (PythonError (lit ''ValueError: Port out of range 0-65535'')) else Inr (Some n)))"

text \<open>\<open>username\<close> and \<open>password\<close> are both \<open>None\<close> exactly if the network location has no \<open>@\<close>.\<close>

definition no_userinfo :: "SplitUrl \<Rightarrow> bool" where
  "no_userinfo parts \<longleftrightarrow> 64 \<notin> set (us_netloc parts)"

definition url_allowed :: "EndpointSpec \<Rightarrow> SplitUrl \<Rightarrow> int option \<Rightarrow> bool" where
  "url_allowed spec parts port \<longleftrightarrow>
     us_scheme parts = lit ''https'' \<and>
     us_hostname parts \<in> Some ` set (es_allowed_hosts spec) \<and>
     no_userinfo parts \<and> port \<in> {None, Some 443} \<and>
     us_path parts \<in> set (es_allowed_paths spec)"

text \<open>
  \<open>_valid_url\<close>: only reading the port is guarded; the \<open>ValueError\<close> of \<open>urlsplit\<close> itself leaves it.
\<close>

definition valid_url :: "(ustr \<Rightarrow> bool) \<Rightarrow> EndpointSpec \<Rightarrow> ustr \<Rightarrow> bool result" where
  "valid_url netloc_ok spec url =
     bindE (urlsplit netloc_ok url) (\<lambda>parts.
       case us_port parts of
         Inl _ \<Rightarrow> Inr False
       | Inr port \<Rightarrow> Inr (url_allowed spec parts port))"

section \<open>Responses\<close>

text \<open>
  A response delivers its content in pieces: the \<open>k\<close>-th read gives at most one more byte than the \<open>k\<close>-th
  entry of \<open>hr_pieces\<close>, and at most what is asked for. After the content a read gives the end of the
  file, or raises what interrupted the transfer.
\<close>

record HttpsResponse =
  hr_status :: int
  hr_headers :: "ustr \<Rightarrow> ustr option"
  hr_content :: bytes
  hr_pieces :: "nat list"
  hr_interrupt :: "exn option"

definition read_size :: "nat list \<Rightarrow> nat \<Rightarrow> nat" where
  "read_size pieces amount = (case pieces of [] \<Rightarrow> amount | k # _ \<Rightarrow> min amount (Suc k))"

lemma read_size_pos: "0 < amount \<Longrightarrow> 0 < read_size pieces amount"
  by (simp add: read_size_def split: list.split)

function read_body :: "bytes \<Rightarrow> nat list \<Rightarrow> exn option \<Rightarrow> nat \<Rightarrow> bytes \<Rightarrow> bytes option result" where
  "read_body content pieces interrupt remaining joined =
     (if content = [] then (case interrupt of None \<Rightarrow> Inr (Some joined) | Some e \<Rightarrow> Inl e)
      else let k = read_size pieces (min 65536 (remaining + 1)); chunk = take k content
           in if remaining < length chunk then Inr None
              else read_body (drop k content) (drop 1 pieces) interrupt (remaining - length chunk) (joined @ chunk))"
  by pat_completeness auto
termination
  by (relation "measure (\<lambda>(content, _). length content)")
    (auto simp: read_size_pos diff_less)

declare read_body.simps [simp del]

text \<open>What opening a request gives; an exception other than the three that are caught leaves the fetcher.\<close>

datatype UrlReason = Cert_Verification ustr | Reason_Timeout ustr | Reason_Other ustr

datatype Opened =
    Opened_Response HttpsResponse
  | Opened_HTTPError int "ustr option"
  | Opened_URLError UrlReason
  | Opened_TimeoutError ustr
  | Opened_Raises exn

record HttpsRequest =
  hq_url :: ustr
  hq_headers :: "(ustr \<times> ustr) list"

text \<open>How replacing the cache ends: both files written, or an \<open>OSError\<close> before the body or before the metadata.\<close>

datatype CacheWrite = Cache_Written | Body_Fails ustr | Metadata_Fails ustr

record Network =
  nw_open :: "nat \<Rightarrow> HttpsRequest \<Rightarrow> Opened"
  nw_urljoin :: "ustr \<Rightarrow> ustr \<Rightarrow> ustr result"
  nw_netloc_ok :: "ustr \<Rightarrow> bool"
  nw_cache :: CacheWrite

section \<open>Fetching\<close>

definition conditional_headers :: "bytes option \<Rightarrow> bytes option \<Rightarrow> (ustr \<times> ustr) list \<times> bool" where
  "conditional_headers body_file metadata_file =
     (let plain = [(lit ''User-Agent'', lit ''Opatchy/1'')]
      in case body_file of
           None \<Rightarrow> (plain, False)
         | Some body \<Rightarrow>
             (case read_cache_validators metadata_file body of
                None \<Rightarrow> (plain, False)
              | Some v \<Rightarrow>
                  (plain @ (if cv_etag v = [] then [] else [(lit ''If-None-Match'', cv_etag v)])
                     @ (if cv_last_modified v = [] then [] else [(lit ''If-Modified-Since'', cv_last_modified v)]),
                   True)))"

definition not_modified_result :: "bool \<Rightarrow> EndpointResult" where
  "not_modified_result conditional =
     (if conditional then EndpointNotModified else EndpointFailed (lit ''unsolicited HTTPS 304 response''))"

definition network_failure :: "ustr \<Rightarrow> UrlReason \<Rightarrow> EndpointResult" where
  "network_failure home reason =
     (case reason of
        Cert_Verification m \<Rightarrow> EndpointTlsFailed (redact_diagnostic home m)
      | Reason_Timeout m \<Rightarrow> EndpointTimedOut (redact_diagnostic home m)
      | Reason_Other m \<Rightarrow> EndpointFailed (redact_diagnostic home m))"

text \<open>
  One pass through the loop: the answer, the URL to follow, or the body to store with its headers.
\<close>

datatype Fetched = Fetch_Answer EndpointResult | Fetch_Body bytes "ustr option" "ustr option"

datatype FetchStep = Fetch_Done Fetched | Fetch_Redirect ustr

definition fetch_content :: "EndpointSpec \<Rightarrow> bool \<Rightarrow> HttpsResponse \<Rightarrow> Fetched result" where
  "fetch_content spec conditional r =
     (if hr_status r = 304 then Inr (Fetch_Answer (not_modified_result conditional))
      else if hr_status r \<noteq> 200
      then Inr (Fetch_Answer (EndpointFailed (lit ''unexpected HTTPS status '' @ str_int (hr_status r))))
      else bindE (read_body (hr_content r) (hr_pieces r) (hr_interrupt r) (nat (es_body_limit spec)) []) (\<lambda>body.
        Inr (case body of
               None \<Rightarrow> Fetch_Answer (EndpointOversized (lit ''HTTPS response body exceeds the endpoint limit''))
             | Some b \<Rightarrow> Fetch_Body b (hr_headers r (lit ''ETag'')) (hr_headers r (lit ''Last-Modified'')))))"

definition follow :: "Network \<Rightarrow> ustr \<Rightarrow> ustr \<Rightarrow> FetchStep result" where
  "follow net url location = bindE (nw_urljoin net url location) (\<lambda>u. Inr (Fetch_Redirect u))"

definition done_with :: "Fetched result \<Rightarrow> FetchStep result" where
  "done_with r = bindE r (\<lambda>f. Inr (Fetch_Done f))"

definition fetch_step ::
  "Network \<Rightarrow> ustr \<Rightarrow> EndpointSpec \<Rightarrow> bool \<Rightarrow> ustr \<Rightarrow> Opened \<Rightarrow> FetchStep result" where
  "fetch_step net home spec conditional url opened =
     (case opened of
        Opened_HTTPError code location \<Rightarrow>
          if code = 304 then Inr (Fetch_Done (Fetch_Answer (not_modified_result conditional)))
          else (case if 300 \<le> code \<and> code < 400 then location else None of
             Some l \<Rightarrow> follow net url l
           | None \<Rightarrow> Inr (Fetch_Done (Fetch_Answer (EndpointFailed (lit ''HTTPS status '' @ str_int code)))))
      | Opened_URLError reason \<Rightarrow> Inr (Fetch_Done (Fetch_Answer (network_failure home reason)))
      | Opened_TimeoutError m \<Rightarrow> Inr (Fetch_Done (Fetch_Answer (EndpointTimedOut (redact_diagnostic home m))))
      | Opened_Raises e \<Rightarrow> Inl e
      | Opened_Response r \<Rightarrow>
          (case if 300 \<le> hr_status r \<and> hr_status r < 400 then hr_headers r (lit ''Location'') else None of
             Some l \<Rightarrow> follow net url l
           | None \<Rightarrow> done_with (fetch_content spec conditional r)))"

text \<open>
  The loop, with the attempts that are left and the number of the next one. Beside its end it returns
  the requests it opened, in order.
\<close>

fun fetch_loop ::
  "Network \<Rightarrow> ustr \<Rightarrow> EndpointSpec \<Rightarrow> (ustr \<times> ustr) list \<Rightarrow> bool \<Rightarrow> nat \<Rightarrow> nat \<Rightarrow> ustr
     \<Rightarrow> HttpsRequest list \<times> Fetched result" where
  "fetch_loop net home spec headers conditional 0 n url =
     ([], Inr (Fetch_Answer (EndpointRejected (lit ''HTTPS redirect limit exceeded''))))"
| "fetch_loop net home spec headers conditional (Suc left) n url =
     (case valid_url (nw_netloc_ok net) spec url of
        Inl e \<Rightarrow> ([], Inl e)
      | Inr False \<Rightarrow> ([], Inr (Fetch_Answer (EndpointRejected (redact_diagnostic home url))))
      | Inr True \<Rightarrow>
          let request = \<lparr>hq_url = url, hq_headers = headers\<rparr>
          in (case fetch_step net home spec conditional url (nw_open net n request) of
                Inr (Fetch_Redirect u) \<Rightarrow>
                  map_prod ((#) request) id (fetch_loop net home spec headers conditional left (n + 1) u)
              | Inr (Fetch_Done f) \<Rightarrow> ([request], Inr f)
              | Inl e \<Rightarrow> ([request], Inl e)))"

definition fetch_run ::
  "Network \<Rightarrow> ustr \<Rightarrow> EndpointSpec \<Rightarrow> bytes option \<Rightarrow> bytes option \<Rightarrow> HttpsRequest list \<times> Fetched result" where
  "fetch_run net home spec body_file metadata_file =
     (let (headers, conditional) = conditional_headers body_file metadata_file
      in fetch_loop net home spec headers conditional (nat (es_redirect_limit spec + 1)) 0 (es_url spec))"

text \<open>\<open>_replace_cache\<close> on the transport files of a feed; the \<open>OSError\<close> of a write is its text.\<close>

definition replace_cache ::
  "CacheWrite \<Rightarrow> FeedName \<Rightarrow> bytes \<Rightarrow> ustr option \<Rightarrow> ustr option \<Rightarrow> disk \<Rightarrow> (ustr + unit) \<times> disk" where
  "replace_cache cache feed body etag last_modified d =
     (let with_body = d\<lparr>d_transport_body := (d_transport_body d)(feed := Some body)\<rparr>;
          metadata = serialize_cache_metadata body etag last_modified
      in case cache of
           Body_Fails m \<Rightarrow> (Inl m, d)
         | Metadata_Fails m \<Rightarrow> (Inl m, with_body)
         | Cache_Written \<Rightarrow>
             (Inr (), with_body\<lparr>d_transport_metadata := (d_transport_metadata d)(feed := Some metadata)\<rparr>))"

definition fetch_endpoint ::
  "Network \<Rightarrow> ustr \<Rightarrow> EndpointName \<Rightarrow> FeedName \<Rightarrow> EndpointResult act" where
  "fetch_endpoint net home name feed d =
     (case snd (fetch_run net home (ENDPOINT_SPECS name) (d_transport_body d feed) (d_transport_metadata d feed)) of
        Inl e \<Rightarrow> (Inl e, d)
      | Inr (Fetch_Answer r) \<Rightarrow> (Inr r, d)
      | Inr (Fetch_Body body etag last_modified) \<Rightarrow>
          (case replace_cache (nw_cache net) feed body etag last_modified d of
             (Inl m, d') \<Rightarrow> (Inr (EndpointFailed (redact_diagnostic home m)), d')
           | (Inr _, d') \<Rightarrow> (Inr (EndpointDownloaded body etag last_modified), d')))"

section \<open>Confirmed feeds\<close>

definition read_confirmed_feed :: "FeedName \<Rightarrow> (bytes \<Rightarrow> bool) \<Rightarrow> bytes option act" where
  "read_confirmed_feed feed validator =
     bindA (read_last_good_feed feed validator) (\<lambda>semantic d.
       case semantic of
         None \<Rightarrow> (Inr None, d)
       | Some s \<Rightarrow>
           (case d_transport_body d feed of
              None \<Rightarrow> (Inr None, d)
            | Some transport \<Rightarrow>
                if read_cache_validators (d_transport_metadata d feed) transport = None \<or>
                   transport \<noteq> s \<or> \<not> validator transport
                then (Inr None, d) else (Inr (Some s), d)))"

section \<open>The body\<close>

text \<open>
  However the content arrives, the body is the whole content, unless it exceeds the limit or the
  transfer is interrupted.
\<close>

lemma read_body_exact:
  "read_body content pieces interrupt remaining joined =
     (if remaining < length content then Inr None
      else case interrupt of None \<Rightarrow> Inr (Some (joined @ content)) | Some e \<Rightarrow> Inl e)"
proof (induction content pieces interrupt remaining joined rule: read_body.induct)
  case (1 content pieces interrupt remaining joined)
  define k where "k = read_size pieces (min 65536 (remaining + 1))"
  have step: "read_body content pieces interrupt remaining joined =
      (if content = [] then (case interrupt of None \<Rightarrow> Inr (Some joined) | Some e \<Rightarrow> Inl e)
       else if remaining < length (take k content) then Inr None
       else read_body (drop k content) (drop 1 pieces) interrupt (remaining - length (take k content))
              (joined @ take k content))"
    by (subst read_body.simps) (simp add: k_def Let_def)
  show ?case
  proof (cases "content = [] \<or> remaining < length (take k content)")
    case True
    then show ?thesis by (auto simp: step split: option.split)
  next
    case False
    with 1 [OF _ k_def refl] have "read_body (drop k content) (drop 1 pieces) interrupt
        (remaining - length (take k content)) (joined @ take k content) =
      (if remaining - length (take k content) < length (drop k content) then Inr None
       else case interrupt of None \<Rightarrow> Inr (Some ((joined @ take k content) @ drop k content)) | Some e \<Rightarrow> Inl e)"
      by simp
    with False show ?thesis by (auto simp: step split: option.split)
  qed
qed

section \<open>Requests\<close>

lemma answers_simps [simp]:
  "not_modified_result conditional = EndpointNotModified \<longleftrightarrow> conditional"
  "not_modified_result conditional \<noteq> EndpointDownloaded b e m"
  "network_failure home reason \<noteq> EndpointNotModified" "network_failure home reason \<noteq> EndpointDownloaded b e m"
  by (simp_all add: not_modified_result_def network_failure_def split: UrlReason.split)

text \<open>What the end of the loop may be: nothing is downloaded but by a body within the limit.\<close>

fun fetched_ok :: "EndpointSpec \<Rightarrow> bool \<Rightarrow> Fetched \<Rightarrow> bool" where
  "fetched_ok spec conditional (Fetch_Body b etag last_modified) \<longleftrightarrow> int (length b) \<le> es_body_limit spec"
| "fetched_ok spec conditional (Fetch_Answer r) \<longleftrightarrow>
     (r = EndpointNotModified \<longrightarrow> conditional) \<and> (\<forall>b e m. r \<noteq> EndpointDownloaded b e m)"

lemma fetch_content_ok:
  assumes "fetch_content spec conditional r = Inr f" and "0 < es_body_limit spec"
  shows "fetched_ok spec conditional f"
  using assms
  by (auto simp: fetch_content_def read_body_exact split: if_splits option.splits)

lemma fetch_step_ok:
  assumes "fetch_step net home spec conditional url opened = Inr (Fetch_Done f)" and "0 < es_body_limit spec"
  shows "fetched_ok spec conditional f"
  using assms fetch_content_ok
  by (auto simp: fetch_step_def follow_def done_with_def split: Opened.splits if_splits option.splits)

lemma fetch_loop_ok:
  assumes "0 < es_body_limit spec"
  shows "length (fst (fetch_loop net home spec headers conditional left n url)) \<le> left \<and>
    (\<forall>q \<in> set (fst (fetch_loop net home spec headers conditional left n url)).
       valid_url (nw_netloc_ok net) spec (hq_url q) = Inr True \<and> hq_headers q = headers) \<and>
    (\<forall>f. snd (fetch_loop net home spec headers conditional left n url) = Inr f \<longrightarrow> fetched_ok spec conditional f)"
proof (induction left arbitrary: n url)
  case (Suc left)
  let ?request = "\<lparr>hq_url = url, hq_headers = headers\<rparr>"
  consider e where "valid_url (nw_netloc_ok net) spec url = Inl e"
    | "valid_url (nw_netloc_ok net) spec url = Inr False" | "valid_url (nw_netloc_ok net) spec url = Inr True"
    by (metis (full_types) old.sum.exhaust)
  then show ?case
  proof cases
    case 3
    show ?thesis
    proof (cases "fetch_step net home spec conditional url (nw_open net n ?request)")
      case (Inl e)
      with 3 show ?thesis by simp
    next
      case (Inr st)
      with 3 Suc [of "n + 1"] fetch_step_ok [OF _ assms] show ?thesis by (cases st) auto
    qed
  qed simp_all
qed simp

lemma ENDPOINT_SPECS_limits: "0 < es_body_limit (ENDPOINT_SPECS name)" "es_redirect_limit (ENDPOINT_SPECS name) = 3"
  by (cases name; simp add: MIB_def)+

lemma valid_url_parts:
  assumes "valid_url netloc_ok spec url = Inr True"
  shows "\<exists>parts port. urlsplit netloc_ok url = Inr parts \<and> us_port parts = Inr port \<and> url_allowed spec parts port"
proof -
  from assms obtain parts where "urlsplit netloc_ok url = Inr parts" by (auto simp: valid_url_def)
  with assms show ?thesis by (cases "us_port parts") (auto simp: valid_url_def)
qed

lemma fetch_run_ok:
  assumes "fetch_run net home (ENDPOINT_SPECS name) body_file metadata_file = (requests, r)"
  shows "length requests \<le> 4"
    and "q \<in> set requests \<Longrightarrow> valid_url (nw_netloc_ok net) (ENDPOINT_SPECS name) (hq_url q) = Inr True"
    and "q \<in> set requests \<Longrightarrow> hq_headers q = fst (conditional_headers body_file metadata_file)"
    and "r = Inr f \<Longrightarrow> fetched_ok (ENDPOINT_SPECS name) (snd (conditional_headers body_file metadata_file)) f"
proof -
  let ?c = "conditional_headers body_file metadata_file"
  have "fetch_loop net home (ENDPOINT_SPECS name) (fst ?c) (snd ?c) 4 0 (es_url (ENDPOINT_SPECS name)) = (requests, r)"
    using assms by (simp add: fetch_run_def Let_def case_prod_unfold ENDPOINT_SPECS_limits(2))
  with fetch_loop_ok [OF ENDPOINT_SPECS_limits(1), of net home name "fst ?c" "snd ?c" 4 0 "es_url (ENDPOINT_SPECS name)"]
  show "length requests \<le> 4"
    "q \<in> set requests \<Longrightarrow> valid_url (nw_netloc_ok net) (ENDPOINT_SPECS name) (hq_url q) = Inr True"
    "q \<in> set requests \<Longrightarrow> hq_headers q = fst ?c" "r = Inr f \<Longrightarrow> fetched_ok (ENDPOINT_SPECS name) (snd ?c) f"
    by simp_all
qed

lemma conditional_headers_conditional:
  "snd (conditional_headers body_file metadata_file) \<longleftrightarrow>
     (\<exists>b. body_file = Some b \<and> read_cache_validators metadata_file b \<noteq> None)"
  by (simp add: conditional_headers_def Let_def split: option.split)

text \<open>The files a fetch may change, and how its answer determines them.\<close>

definition transport_only :: "FeedName \<Rightarrow> disk \<Rightarrow> disk \<Rightarrow> bool" where
  "transport_only feed d d' \<longleftrightarrow>
     d' = d\<lparr>d_transport_body := (d_transport_body d)(feed := d_transport_body d' feed),
            d_transport_metadata := (d_transport_metadata d)(feed := d_transport_metadata d' feed)\<rparr>"

fun answer_ok :: "EndpointSpec \<Rightarrow> FeedName \<Rightarrow> disk \<Rightarrow> disk \<Rightarrow> EndpointResult result \<Rightarrow> bool" where
  "answer_ok spec feed d d' (Inr (EndpointDownloaded b etag last_modified)) \<longleftrightarrow>
     int (length b) \<le> es_body_limit spec \<and> d_transport_body d' feed = Some b \<and>
     d_transport_metadata d' feed = Some (serialize_cache_metadata b etag last_modified)"
| "answer_ok spec feed d d' (Inr EndpointNotModified) \<longleftrightarrow>
     d' = d \<and> (\<exists>b. d_transport_body d feed = Some b \<and>
                  read_cache_validators (d_transport_metadata d feed) b \<noteq> None)"
| "answer_ok spec feed d d' (Inr (EndpointFailed m)) \<longleftrightarrow> d_transport_metadata d' = d_transport_metadata d"
| "answer_ok spec feed d d' r \<longleftrightarrow> d' = d"

lemma transport_only_refl: "transport_only feed d d"
  by (simp add: transport_only_def)

lemma replace_cache_transport:
  "transport_only feed d (snd (replace_cache cache feed body etag last_modified d))"
  by (cases cache) (simp_all add: transport_only_def replace_cache_def)

lemma fetch_endpoint_transport: "transport_only feed d (snd (fetch_endpoint net home name feed d))"
  using replace_cache_transport [of feed d "nw_cache net"]
  by (auto simp: fetch_endpoint_def transport_only_refl split: sum.split Fetched.split prod.split)
    (metis snd_conv)+

lemma fetch_endpoint_answer:
  "answer_ok (ENDPOINT_SPECS name) feed d (snd (fetch_endpoint net home name feed d))
     (fst (fetch_endpoint net home name feed d))"
proof -
  obtain requests r where run: "fetch_run net home (ENDPOINT_SPECS name) (d_transport_body d feed)
      (d_transport_metadata d feed) = (requests, r)"
    by fastforce
  note ok = fetch_run_ok(4) [OF run]
  consider e where "r = Inl e" | a where "r = Inr (Fetch_Answer a)"
    | b etag last_modified where "r = Inr (Fetch_Body b etag last_modified)"
    by (metis Fetched.exhaust old.sum.exhaust)
  then show ?thesis
  proof cases
    case (2 a)
    with ok run show ?thesis
      by (cases a) (auto simp: fetch_endpoint_def conditional_headers_conditional)
  next
    case (3 b etag last_modified)
    with ok run show ?thesis
      by (cases "nw_cache net") (simp_all add: fetch_endpoint_def replace_cache_def)
  qed (simp add: fetch_endpoint_def run)
qed

text \<open>
  A confirmed feed is the semantic feed, the transport body and a body with valid metadata at once; reading
  it changes at most the semantic feed, which is discarded if it does not pass.
\<close>

lemma read_confirmed_feed_ok:
  assumes "read_confirmed_feed feed validator d = (Inr (Some b), d')"
  shows "validator b \<and> d_feed d feed = Some b \<and> d_transport_body d feed = Some b \<and>
    read_cache_validators (d_transport_metadata d feed) b \<noteq> None \<and> d' = d"
  using assms
  by (auto simp: read_confirmed_feed_def read_last_good_feed_def bindA_def Let_def
      split: option.splits sum.splits if_splits)

lemma read_confirmed_feed_frame:
  "\<exists>f. snd (read_confirmed_feed feed validator d) = d\<lparr>d_feed := f\<rparr>"
  by (auto simp: read_confirmed_feed_def read_last_good_feed_def bindA_def Let_def
      split: option.split sum.split intro: exI [of _ "d_feed d"])

text \<open>
  A transfer that breaks off, as any exception of the network that is not a \<open>URLError\<close> or a
  \<open>TimeoutError\<close> while opening, is raised to the caller instead of becoming a failed endpoint.
\<close>

lemma interrupted_transfer_raises:
  assumes "nw_open net 0 \<lparr>hq_url = es_url spec, hq_headers = fst (conditional_headers body_file metadata_file)\<rparr> =
      Opened_Response r"
    and "valid_url (nw_netloc_ok net) spec (es_url spec) = Inr True" and "0 \<le> es_redirect_limit spec"
    and "hr_status r = 200" and "int (length (hr_content r)) \<le> es_body_limit spec" and "hr_interrupt r = Some e"
  shows "snd (fetch_run net home spec body_file metadata_file) = Inl e"
proof -
  have "nat (es_redirect_limit spec + 1) = Suc (nat (es_redirect_limit spec))" using assms(3) by simp
  with assms show ?thesis
    by (simp add: fetch_run_def Let_def case_prod_unfold fetch_step_def done_with_def fetch_content_def
        read_body_exact zless_nat_eq_int_zless)
qed


definition tracker_network :: Network where
  "tracker_network =
     \<lparr>nw_open = (\<lambda>n request. Opened_Response \<lparr>hr_status = 200, hr_headers = (\<lambda>_. None), hr_content = [91, 93],
          hr_pieces = [0], hr_interrupt = None\<rparr>),
      nw_urljoin = (\<lambda>base url. Inr url), nw_netloc_ok = (\<lambda>_. True), nw_cache = Cache_Written\<rparr>"

lemma tracker_url: "valid_url (\<lambda>_. True) (ENDPOINT_SPECS Endpoint_ARCH_SECURITY)
    (lit ''https://security.archlinux.org/all.json'') = Inr True"
  by (simp add: lit_def valid_url_def urlsplit_def split_scheme_def ascii_letter_def scheme_char_def lower_def
      lower_char_def us_port_def hostinfo_def after_last_def before_first_def after_first_def url_allowed_def
      us_hostname_def no_userinfo_def is_digit_def)

lemma tracker_run: "fetch_run tracker_network home (ENDPOINT_SPECS Endpoint_ARCH_SECURITY) None None =
    ([\<lparr>hq_url = lit ''https://security.archlinux.org/all.json'',
       hq_headers = [(lit ''User-Agent'', lit ''Opatchy/1'')]\<rparr>], Inr (Fetch_Body [91, 93] None None))"
proof -
  have four: "fetch_loop net home spec headers conditional 4 n url =
      fetch_loop net home spec headers conditional (Suc 3) n url" for net home spec headers conditional n url
    by simp
  show ?thesis
    using tracker_url
    by (simp add: fetch_run_def conditional_headers_def Let_def four del: numeral_3_eq_3 Suc_numeral)
      (simp add: tracker_network_def fetch_step_def fetch_content_def done_with_def read_body_exact MIB_def)
qed


end
