(* ===== verification/Adapter_Security.thy ===== *)
theory Adapter_Security
  imports Adapter_Mise Endpoint Storage_State
begin

text \<open>
  The security adapter: the parsers of \<open>adapters/security_arch.py\<close> and \<open>adapters/security_kev.py\<close>, the
  correlation of \<open>adapters/security_correlation.py\<close> and the collection of \<open>adapters/security.py\<close>.
  \<open>isprintable\<close> is \<open>str.isprintable\<close> of one character and \<open>aware\<close> whether \<open>datetime.fromisoformat\<close>
  accepts a text and gives a timezone-aware time. Fetching an endpoint is an action on the files.
\<close>

section \<open>Arch advisories\<close>

definition MAX_FEED_RECORDS :: nat where
  "MAX_FEED_RECORDS = 4096"

definition MAX_FEED_PACKAGES :: nat where
  "MAX_FEED_PACKAGES = 128"

definition MAX_FEED_ISSUES :: nat where
  "MAX_FEED_ISSUES = 128"

definition MAX_FEED_IDENTIFIER :: nat where
  "MAX_FEED_IDENTIFIER = 60"

definition MAX_FEED_STRING :: nat where
  "MAX_FEED_STRING = 128"

definition PRIMARY_REQUIRED :: "ustr set" where
  "PRIMARY_REQUIRED =
     set (map lit [''name'', ''packages'', ''status'', ''type'', ''severity'', ''fixed'', ''issues''])"

definition TRACKER_REQUIRED :: "ustr set" where
  "TRACKER_REQUIRED = PRIMARY_REQUIRED \<union> set (map lit [''affected'', ''ticket'', ''advisories''])"

record ArchAdvisory =
  aa_name :: ustr
  aa_packages :: "ustr list"
  aa_status :: ArchStatus
  aa_type :: ustr
  aa_severity :: Severity
  aa_fixed :: "ustr option"
  aa_issues :: "ustr list"

text \<open>\<open>_string\<close> and \<open>_identifier\<close>, which differ in the bound.\<close>

definition bounded_text :: "(nat \<Rightarrow> bool) \<Rightarrow> nat \<Rightarrow> ustr \<Rightarrow> bool" where
  "bounded_text isprintable maximum s \<longleftrightarrow>
     0 < length s \<and> length s \<le> maximum \<and> list_all isprintable s \<and> \<not> sublist (lit ''://'') s"

definition feed_string :: "(nat \<Rightarrow> bool) \<Rightarrow> JsonValue \<Rightarrow> ustr option" where
  "feed_string isprintable v =
     (case json_string v of
        Some s \<Rightarrow> if bounded_text isprintable MAX_FEED_STRING s then Some s else None
      | None \<Rightarrow> None)"

definition feed_identifier :: "(nat \<Rightarrow> bool) \<Rightarrow> JsonValue \<Rightarrow> ustr option" where
  "feed_identifier isprintable v =
     (case json_string v of
        Some s \<Rightarrow> if bounded_text isprintable MAX_FEED_IDENTIFIER s then Some s else None
      | None \<Rightarrow> None)"

definition avg_identifier :: "(nat \<Rightarrow> bool) \<Rightarrow> JsonValue \<Rightarrow> ustr option" where
  "avg_identifier isprintable v =
     (case feed_identifier isprintable v of
        Some s \<Rightarrow> if avg_matches s then Some s else None
      | None \<Rightarrow> None)"

text \<open>\<open>Inl\<close> is \<open>ArchFeedInvalid\<close> with its diagnostic.\<close>

definition feed_optional_string :: "(nat \<Rightarrow> bool) \<Rightarrow> JsonValue \<Rightarrow> ustr + ustr option" where
  "feed_optional_string isprintable v =
     (if v = JNull then Inr None
      else case feed_string isprintable v of
        Some s \<Rightarrow> Inr (Some s)
      | None \<Rightarrow> Inl (lit ''string field is invalid''))"

definition feed_identifiers :: "(nat \<Rightarrow> bool) \<Rightarrow> nat \<Rightarrow> JsonValue \<Rightarrow> ustr list option" where
  "feed_identifiers isprintable maximum v =
     (case v of
        JArr vs \<Rightarrow>
          if maximum < length vs then None
          else let found = map (feed_identifier isprintable) vs
               in if None \<in> set found then None
                  else let identifiers = map the found
                       in if distinct identifiers then Some identifiers else None
      | _ \<Rightarrow> None)"

definition asa_matches :: "ustr \<Rightarrow> bool" where
  "asa_matches s \<longleftrightarrow> prefix (lit ''ASA-'') s \<and> length (text_slice 4 6 s) = 6 \<and> list_all is_digit (text_slice 4 6 s) \<and>
     text_slice 10 1 s = lit ''-'' \<and> drop 11 s \<noteq> [] \<and> list_all is_digit (drop 11 s)"

definition asa_identifiers :: "(nat \<Rightarrow> bool) \<Rightarrow> nat \<Rightarrow> JsonValue \<Rightarrow> ustr list option" where
  "asa_identifiers isprintable maximum v =
     (case feed_identifiers isprintable maximum v of
        Some identifiers \<Rightarrow> if list_all asa_matches identifiers then Some identifiers else None
      | None \<Rightarrow> None)"

definition feed_status :: "JsonValue \<Rightarrow> bool \<Rightarrow> ArchStatus option" where
  "feed_status v tracker =
     (case json_string v of
        None \<Rightarrow> None
      | Some s \<Rightarrow>
          (case enum_of arch_status_value arch_status_members s of
             None \<Rightarrow> None
           | Some status \<Rightarrow> if status = Arch_NOT_AFFECTED \<and> \<not> tracker then None else Some status))"

definition feed_severity :: "JsonValue \<Rightarrow> Severity option" where
  "feed_severity v =
     (case json_string v of
        None \<Rightarrow> None
      | Some s \<Rightarrow> enum_of severity_value severity_members (lower s))"

definition tracker_fields :: "(nat \<Rightarrow> bool) \<Rightarrow> JsonObject \<Rightarrow> bool" where
  "tracker_fields isprintable ps =
     (case feed_optional_string isprintable (json_item ps ''ticket'') of
        Inl _ \<Rightarrow> False
      | Inr _ \<Rightarrow>
          feed_identifier isprintable (json_item ps ''affected'') \<noteq> None \<and>
          asa_identifiers isprintable MAX_FEED_ISSUES (json_item ps ''advisories'') \<noteq> None)"

definition parse_arch_record ::
  "(nat \<Rightarrow> bool) \<Rightarrow> ustr set \<Rightarrow> bool \<Rightarrow> JsonValue \<Rightarrow> ustr + ArchAdvisory" where
  "parse_arch_record isprintable required tracker v =
     (case v of
        JObj ps \<Rightarrow>
          if \<not> required \<subseteq> json_keys ps then Inl (lit ''feed record omits a required field'')
          else (case (avg_identifier isprintable (json_item ps ''name''),
                      feed_identifiers isprintable MAX_FEED_PACKAGES (json_item ps ''packages''),
                      feed_string isprintable (json_item ps ''type''),
                      feed_identifiers isprintable MAX_FEED_ISSUES (json_item ps ''issues'')) of
             (Some name, Some packages, Some advisory_type, Some issues) \<Rightarrow>
               bindE (feed_optional_string isprintable (json_item ps ''fixed'')) (\<lambda>fixed.
                 case (feed_status (json_item ps ''status'') tracker, feed_severity (json_item ps ''severity'')) of
                   (Some status, Some severity) \<Rightarrow>
                     if tracker \<and> \<not> tracker_fields isprintable ps
                     then Inl (lit ''Tracker record has an invalid field type'')
                     else Inr \<lparr>aa_name = name, aa_packages = packages, aa_status = status,
                               aa_type = advisory_type, aa_severity = severity, aa_fixed = fixed,
                               aa_issues = issues\<rparr>
                 | _ \<Rightarrow> Inl (lit ''feed record has an unsupported status or severity''))
           | _ \<Rightarrow> Inl (lit ''feed record has an invalid field type''))
      | _ \<Rightarrow> Inl (lit ''feed record omits a required field''))"

fun arch_records ::
  "(nat \<Rightarrow> bool) \<Rightarrow> ustr set \<Rightarrow> bool \<Rightarrow> ustr set \<Rightarrow> JsonValue list \<Rightarrow> ustr + ArchAdvisory list" where
  "arch_records isprintable required tracker names [] = Inr []"
| "arch_records isprintable required tracker names (v # vs) =
     bindE (parse_arch_record isprintable required tracker v) (\<lambda>record.
       if aa_name record \<in> names then Inl (lit ''feed contains duplicate advisory names'')
       else bindE (arch_records isprintable required tracker (insert (aa_name record) names) vs)
              (\<lambda>records. Inr (record # records)))"

definition parse_arch_records ::
  "(nat \<Rightarrow> bool) \<Rightarrow> ustr set \<Rightarrow> bool \<Rightarrow> JsonValue \<Rightarrow> ustr + ArchAdvisory list" where
  "parse_arch_records isprintable required tracker v =
     (case v of
        JArr vs \<Rightarrow>
          if MAX_FEED_RECORDS < length vs then Inl (lit ''feed root is not a bounded array'')
          else arch_records isprintable required tracker {} vs
      | _ \<Rightarrow> Inl (lit ''feed root is not a bounded array''))"

text \<open>
  \<open>_decode\<close>: an exception other than the two that are caught (the \<open>ValueError\<close> of a huge integer
  literal) leaves the parsers.
\<close>

definition decode_feed :: "bytes \<Rightarrow> (ustr + JsonValue) result" where
  "decode_feed raw =
     (case utf8_decode raw of
        None \<Rightarrow> Inr (Inl (lit ''feed is not UTF-8''))
      | Some s \<Rightarrow>
          (case decode_json s of
             Inr v \<Rightarrow> Inr (Inr v)
           | Inl e \<Rightarrow> if is_protocol_error e then Inr (Inl (lit ''feed is not valid JSON'')) else Inl e))"

definition parse_arch_audit :: "(nat \<Rightarrow> bool) \<Rightarrow> bytes \<Rightarrow> (ustr + ArchAdvisory list) result" where
  "parse_arch_audit isprintable raw =
     bindE (decode_feed raw) (\<lambda>decoded.
       Inr (bindE decoded (parse_arch_records isprintable PRIMARY_REQUIRED False)))"

definition parse_tracker :: "(nat \<Rightarrow> bool) \<Rightarrow> bytes \<Rightarrow> (ustr + ArchAdvisory list) result" where
  "parse_tracker isprintable raw =
     bindE (decode_feed raw) (\<lambda>decoded.
       Inr (bindE decoded (parse_arch_records isprintable TRACKER_REQUIRED True)))"

section \<open>The KEV catalog\<close>

definition MAX_KEV_RECORDS :: nat where
  "MAX_KEV_RECORDS = 20000"

definition MAX_KEV_STRING :: nat where
  "MAX_KEV_STRING = 2048"

text \<open>The required fields of a record other than its two dates, and the optional strings.\<close>

definition KEV_STRINGS :: "string list" where
  "KEV_STRINGS = [''cveID'', ''vendorProject'', ''product'', ''vulnerabilityName'', ''shortDescription'',
     ''requiredAction'']"

definition KEV_DATES :: "string list" where
  "KEV_DATES = [''dateAdded'', ''dueDate'']"

definition KEV_OPTIONAL_STRINGS :: "string list" where
  "KEV_OPTIONAL_STRINGS = [''knownRansomwareCampaignUse'', ''notes'']"

definition schema_string :: "(nat \<Rightarrow> bool) \<Rightarrow> JsonValue \<Rightarrow> ustr option" where
  "schema_string isprintable v =
     (case json_string v of
        Some s \<Rightarrow> if 0 < length s \<and> length s \<le> MAX_KEV_STRING \<and> list_all isprintable s then Some s else None
      | None \<Rightarrow> None)"

definition retained_identifier :: "(nat \<Rightarrow> bool) \<Rightarrow> JsonValue \<Rightarrow> ustr option" where
  "retained_identifier isprintable v =
     (case schema_string isprintable v of
        Some s \<Rightarrow> if sublist (lit ''://'') s then None else Some s
      | None \<Rightarrow> None)"

definition cwe_matches :: "ustr \<Rightarrow> bool" where
  "cwe_matches s \<longleftrightarrow> prefix (lit ''CWE-'') s \<and> drop 4 s \<noteq> [] \<and> list_all is_digit (drop 4 s)"

definition kev_cwes :: "(nat \<Rightarrow> bool) \<Rightarrow> JsonValue \<Rightarrow> ustr list option" where
  "kev_cwes isprintable v =
     (case v of
        JArr vs \<Rightarrow>
          if MAX_KEV_RECORDS < length vs then None
          else let found = map (schema_string isprintable) vs
               in if list_ex (\<lambda>entry. case entry of None \<Rightarrow> True | Some s \<Rightarrow> \<not> cwe_matches s) found then None
                  else let cwes = map the found in if distinct cwes then Some cwes else None
      | _ \<Rightarrow> None)"

text \<open>\<open>date.fromisoformat\<close> on a text of the shape \<open>YYYY-MM-DD\<close>.\<close>

definition calendar_date :: "ustr \<Rightarrow> bool" where
  "calendar_date s \<longleftrightarrow>
     (let num = (\<lambda>i n. nat (int_of_digits (text_slice i n s)))
      in 1 \<le> num 0 4 \<and> 1 \<le> num 5 2 \<and> num 5 2 \<le> 12 \<and> 1 \<le> num 8 2 \<and>
         num 8 2 \<le> days_in_month (is_leap (num 0 4)) (num 5 2))"

definition kev_date :: "(nat \<Rightarrow> bool) \<Rightarrow> JsonValue \<Rightarrow> ustr option" where
  "kev_date isprintable v =
     (case schema_string isprintable v of
        Some s \<Rightarrow>
          if length s = 10 \<and> list_all (\<lambda>(i, n). list_all is_digit (text_slice i n s)) [(0, 4), (5, 2), (8, 2)] \<and>
             text_slice 4 1 s = lit ''-'' \<and> text_slice 7 1 s = lit ''-'' \<and> calendar_date s
          then Some s else None
      | None \<Rightarrow> None)"

definition kev_datetime :: "(ustr \<Rightarrow> bool) \<Rightarrow> (nat \<Rightarrow> bool) \<Rightarrow> JsonValue \<Rightarrow> ustr option" where
  "kev_datetime aware isprintable v =
     (case schema_string isprintable v of
        Some s \<Rightarrow>
          if 84 \<in> set s \<and> aware (replace_text (lit ''Z'') (lit ''+00:00'') s) then Some s else None
      | None \<Rightarrow> None)"

definition record_cve :: "(nat \<Rightarrow> bool) \<Rightarrow> JsonValue \<Rightarrow> ustr option" where
  "record_cve isprintable v =
     (case v of
        JObj ps \<Rightarrow>
          if set (map lit (KEV_STRINGS @ KEV_DATES)) \<subseteq> json_keys ps \<and>
             list_all (\<lambda>field. schema_string isprintable (json_item ps field) \<noteq> None) KEV_STRINGS \<and>
             list_all (\<lambda>field. kev_date isprintable (json_item ps field) \<noteq> None) KEV_DATES \<and>
             list_all (\<lambda>field. lit field \<in> json_keys ps \<longrightarrow> schema_string isprintable (json_item ps field) \<noteq> None)
               KEV_OPTIONAL_STRINGS \<and>
             (lit ''cwes'' \<in> json_keys ps \<longrightarrow> kev_cwes isprintable (json_item ps ''cwes'') \<noteq> None)
          then (case retained_identifier isprintable (json_item ps ''cveID'') of
                  Some cve_id \<Rightarrow> if cve_id_matches cve_id then Some cve_id else None
                | None \<Rightarrow> None)
          else None
      | _ \<Rightarrow> None)"

text \<open>The loop over the vulnerabilities; \<open>None\<close> is the early return with an invalid schema.\<close>

fun kev_records :: "(nat \<Rightarrow> bool) \<Rightarrow> ustr set \<Rightarrow> JsonValue list \<Rightarrow> ustr set option" where
  "kev_records isprintable cve_ids [] = Some cve_ids"
| "kev_records isprintable cve_ids (v # vs) =
     (case record_cve isprintable v of
        None \<Rightarrow> None
      | Some cve_id \<Rightarrow>
          if cve_id \<in> cve_ids then None else kev_records isprintable (insert cve_id cve_ids) vs)"

definition kev_document :: "(ustr \<Rightarrow> bool) \<Rightarrow> (nat \<Rightarrow> bool) \<Rightarrow> JsonValue \<Rightarrow> ustr + ustr set" where
  "kev_document aware isprintable v =
     (case v of
        JObj ps \<Rightarrow>
          if \<not> set (map lit [''catalogVersion'', ''dateReleased'', ''count'', ''vulnerabilities'']) \<subseteq> json_keys ps
          then Inl (lit ''KEV root omits a required field'')
          else if schema_string isprintable (json_item ps ''catalogVersion'') = None \<or>
                  kev_datetime aware isprintable (json_item ps ''dateReleased'') = None
          then Inl (lit ''KEV metadata has an invalid type'')
          else (case (json_item ps ''count'', json_item ps ''vulnerabilities'') of
             (JInt n, JArr vs) \<Rightarrow>
               if n \<noteq> int (length vs) \<or> int MAX_KEV_RECORDS < n then Inl (lit ''KEV count is invalid'')
               else (case kev_records isprintable {} vs of
                       None \<Rightarrow> Inl (lit ''KEV vulnerability has an invalid schema'')
                     | Some cve_ids \<Rightarrow> Inr cve_ids)
           | _ \<Rightarrow> Inl (lit ''KEV count or vulnerabilities has an invalid type''))
      | _ \<Rightarrow> Inl (lit ''KEV root is not an object''))"

definition parse_kev ::
  "(ustr \<Rightarrow> bool) \<Rightarrow> (nat \<Rightarrow> bool) \<Rightarrow> bytes \<Rightarrow> (ustr + ustr set) result" where
  "parse_kev aware isprintable raw =
     (case utf8_decode raw of
        None \<Rightarrow> Inr (Inl (lit ''KEV feed is not UTF-8''))
      | Some s \<Rightarrow>
          (case decode_json s of
             Inr v \<Rightarrow> Inr (kev_document aware isprintable v)
           | Inl e \<Rightarrow> if is_protocol_error e then Inr (Inl (lit ''KEV feed is not valid JSON'')) else Inl e))"

section \<open>Correlation\<close>

record ArchCorrelationFailure =
  acf_failure :: ArchFailure
  acf_diagnostic :: ustr

fun retain_cves :: "ustr list \<Rightarrow> ustr list \<Rightarrow> ustr list" where
  "retain_cves retained [] = retained"
| "retain_cves retained (issue # issues) =
     retain_cves (if cve_id_matches issue \<and> issue \<notin> set retained then retained @ [issue] else retained) issues"

definition cve_ids_of :: "ustr list \<Rightarrow> ustr list" where
  "cve_ids_of issues = retain_cves [] issues"

definition new_finding :: "ArchAdvisory \<Rightarrow> PackageRecord \<Rightarrow> Provenance \<Rightarrow> SecurityFinding" where
  "new_finding advisory pkg provenance =
     \<lparr>sf_finding_id = aa_name advisory, sf_item_id = lit ''arch:'' @ pr_name pkg, sf_advisory_id = aa_name advisory,
      sf_cve_ids = cve_ids_of (aa_issues advisory), sf_severity = aa_severity advisory,
      sf_fixed_version = aa_fixed advisory, sf_known_exploited = False, sf_provenance = provenance,
      sf_status = aa_status advisory, sf_advisory_type = aa_type advisory,
      sf_installed_version = Some (pr_installed pkg), sf_kev_status = Kev_UNAVAILABLE, sf_kev_provenance = None\<rparr>"

text \<open>\<open>None\<close> is \<open>_Unaffected\<close>.\<close>

definition arch_finding ::
  "runner \<Rightarrow> Provenance \<Rightarrow> ArchAdvisory \<Rightarrow> PackageRecord \<Rightarrow> ArchCorrelationFailure + SecurityFinding option" where
  "arch_finding run provenance advisory pkg =
     (case aa_fixed advisory of
        None \<Rightarrow> Inr (Some (new_finding advisory pkg provenance))
      | Some fixed_version \<Rightarrow>
          (case compare_versions run (pr_installed pkg) fixed_version of
             Inr sign \<Rightarrow> Inr (if sign = - 1 then Some (new_finding advisory pkg provenance) else None)
           | Inl d \<Rightarrow> Inl \<lparr>acf_failure = ad_failure d, acf_diagnostic = ad_detail d\<rparr>))"

text \<open>
  The two nested loops, flattened: the advisories that affect anything, each with its packages, in order.
  The pairs it collects are the entries of \<open>grouped\<close>.
\<close>

definition advisory_packages :: "ArchAdvisory list \<Rightarrow> (ArchAdvisory \<times> ustr) list" where
  "advisory_packages advisories =
     concat (map (\<lambda>a. map (Pair a) (aa_packages a)) (filter (\<lambda>a. aa_status a \<noteq> Arch_NOT_AFFECTED) advisories))"

fun correlate_loop ::
  "runner \<Rightarrow> Provenance \<Rightarrow> (ustr \<Rightarrow> PackageRecord option) \<Rightarrow> (ArchAdvisory \<times> ustr) list
     \<Rightarrow> ArchCorrelationFailure + (ustr \<times> SecurityFinding) list" where
  "correlate_loop run provenance official [] = Inr []"
| "correlate_loop run provenance official ((advisory, package) # rest) =
     (case official package of
        None \<Rightarrow> correlate_loop run provenance official rest
      | Some pkg \<Rightarrow>
          bindE (arch_finding run provenance advisory pkg) (\<lambda>finding.
          bindE (correlate_loop run provenance official rest) (\<lambda>found.
            Inr (case finding of None \<Rightarrow> found | Some f \<Rightarrow> (package, f) # found))))"

definition group_findings :: "(ustr \<times> SecurityFinding) list \<Rightarrow> SecurityFindingGroup list" where
  "group_findings found =
     map (\<lambda>package. \<lparr>sg_item_id = lit ''arch:'' @ package,
            sg_findings = map snd (filter (\<lambda>entry. fst entry = package) found)\<rparr>)
       (sort (remdups (map fst found)))"

definition correlate_arch ::
  "ustr + ArchAdvisory list \<Rightarrow> PackageRecord list \<Rightarrow> runner \<Rightarrow> Provenance
     \<Rightarrow> ArchCorrelationFailure + SecurityFindingGroup list" where
  "correlate_arch feed inventory run provenance =
     (case feed of
        Inl diagnostic \<Rightarrow> Inl \<lparr>acf_failure = MALFORMED_ROW, acf_diagnostic = diagnostic\<rparr>
      | Inr advisories \<Rightarrow>
          bindE (correlate_loop run provenance (dict_of pr_name id inventory) (advisory_packages advisories))
            (\<lambda>found. Inr (group_findings found)))"

definition with_kev :: "bool \<Rightarrow> Provenance \<Rightarrow> SecurityFinding \<Rightarrow> SecurityFinding" where
  "with_kev listed provenance finding =
     finding\<lparr>sf_known_exploited := listed, sf_kev_status := (if listed then Kev_LISTED else Kev_NOT_LISTED),
             sf_kev_provenance := Some provenance\<rparr>"

definition enrich_kev :: "Kev \<Rightarrow> SecurityFindingGroup list \<Rightarrow> SecurityFindingGroup list" where
  "enrich_kev kev groups =
     (case kev of
        KevCatalog cve_ids provenance \<Rightarrow>
          map (\<lambda>g. g\<lparr>sg_findings := map (\<lambda>f. with_kev (list_ex (\<lambda>cve. cve \<in> cve_ids) (sf_cve_ids f)) provenance f)
                                       (sg_findings g)\<rparr>) groups
      | _ \<Rightarrow> groups)"

section \<open>Collection\<close>

text \<open>
  The advisories in use with their provenance, or the diagnostic of \<open>ArchFeedInvalid\<close>. \<open>stored\<close> tells
  whether there is a feed store. A validator is called only on bytes that decode, so that it never raises.
\<close>

type_synonym current_arch = "ustr + ArchAdvisory list \<times> Provenance"

type_synonym fetcher = "EndpointName \<Rightarrow> EndpointResult act"

definition is_tracker :: "(nat \<Rightarrow> bool) \<Rightarrow> bytes \<Rightarrow> bool" where
  "is_tracker isprintable body = (case parse_tracker isprintable body of Inr (Inr _) \<Rightarrow> True | _ \<Rightarrow> False)"

definition is_kev :: "(ustr \<Rightarrow> bool) \<Rightarrow> (nat \<Rightarrow> bool) \<Rightarrow> bytes \<Rightarrow> bool" where
  "is_kev aware isprintable body = (case parse_kev aware isprintable body of Inr (Inr _) \<Rightarrow> True | _ \<Rightarrow> False)"

definition security_primary :: "(nat \<Rightarrow> bool) \<Rightarrow> runner \<Rightarrow> current_arch result" where
  "security_primary isprintable run =
     (case run ARCH_AUDIT [] of
        CommandSucceeded stdout _ \<Rightarrow>
          bindE (parse_arch_audit isprintable stdout) (\<lambda>parsed.
            Inr (bindE parsed (\<lambda>advisories. Inr (advisories, Prov_LIVE))))
      | _ \<Rightarrow> Inr (Inl (lit ''arch-audit is unavailable'')))"

definition security_fallback :: "(nat \<Rightarrow> bool) \<Rightarrow> fetcher \<Rightarrow> bool \<Rightarrow> current_arch act" where
  "security_fallback isprintable fetch stored =
     bindA (fetch Endpoint_ARCH_SECURITY) (\<lambda>result.
       case result of
         EndpointDownloaded body _ _ \<Rightarrow>
           bindA (liftA (parse_tracker isprintable body)) (\<lambda>parsed.
             case parsed of
               Inl diagnostic \<Rightarrow> retA (Inl diagnostic)
             | Inr advisories \<Rightarrow>
                 bindA (if stored then write_last_good_feed Feed_ARCH_SECURITY body (is_tracker isprintable)
                        else retA True)
                   (\<lambda>_. retA (Inr (advisories, Prov_FALLBACK))))
       | EndpointNotModified \<Rightarrow>
           if \<not> stored then retA (Inl (lit ''Arch Security Tracker has no semantic cache''))
           else bindA (read_confirmed_feed Feed_ARCH_SECURITY (is_tracker isprintable)) (\<lambda>cached.
             case cached of
               None \<Rightarrow> retA (Inl (lit ''Arch Security Tracker has no semantic cache''))
             | Some body \<Rightarrow>
                 bindA (liftA (parse_tracker isprintable body)) (\<lambda>parsed.
                   retA (bindE parsed (\<lambda>advisories. Inr (advisories, Prov_CACHE)))))
       | _ \<Rightarrow> retA (Inl (lit ''Arch Security Tracker is unavailable'')))"

definition security_kev :: "(ustr \<Rightarrow> bool) \<Rightarrow> (nat \<Rightarrow> bool) \<Rightarrow> fetcher \<Rightarrow> bool \<Rightarrow> Kev act" where
  "security_kev aware isprintable fetch stored =
     bindA (fetch Endpoint_CISA_KEV) (\<lambda>result.
       case result of
         EndpointDownloaded body _ _ \<Rightarrow>
           bindA (liftA (parse_kev aware isprintable body)) (\<lambda>parsed.
             case parsed of
               Inl _ \<Rightarrow> retA (KevUnavailable (lit ''CISA KEV evidence is invalid''))
             | Inr cve_ids \<Rightarrow>
                 bindA (if stored then write_last_good_feed Feed_CISA_KEV body (is_kev aware isprintable)
                        else retA True)
                   (\<lambda>_. retA (KevCatalog cve_ids Prov_LIVE)))
       | EndpointNotModified \<Rightarrow>
           if \<not> stored then retA (KevUnavailable (lit ''CISA KEV has no semantic cache''))
           else bindA (read_confirmed_feed Feed_CISA_KEV (is_kev aware isprintable)) (\<lambda>cached.
             case cached of
               None \<Rightarrow> retA (KevUnavailable (lit ''CISA KEV has no semantic cache''))
             | Some body \<Rightarrow>
                 bindA (liftA (parse_kev aware isprintable body)) (\<lambda>parsed.
                   retA (case parsed of
                           Inl _ \<Rightarrow> KevUnavailable (lit ''CISA KEV evidence is invalid'')
                         | Inr cve_ids \<Rightarrow> KevCatalog cve_ids Prov_CACHE)))
       | _ \<Rightarrow> retA (KevUnavailable (lit ''CISA KEV is unavailable'')))"

definition security_evidence :: "(nat \<Rightarrow> bool) \<Rightarrow> runner \<Rightarrow> fetcher \<Rightarrow> bool \<Rightarrow> current_arch act" where
  "security_evidence isprintable run fetch stored =
     bindA (liftA (security_primary isprintable run)) (\<lambda>primary.
       case primary of
         Inr current \<Rightarrow> retA (Inr current)
       | Inl _ \<Rightarrow> security_fallback isprintable fetch stored)"

definition collect_security_findings ::
  "(ustr \<Rightarrow> bool) \<Rightarrow> (nat \<Rightarrow> bool) \<Rightarrow> runner \<Rightarrow> fetcher \<Rightarrow> bool \<Rightarrow> bool \<Rightarrow> SecurityResult act" where
  "collect_security_findings aware isprintable run fetch stored enable_cisa_kev =
     (case collect_official_inventory run of
        Inl d \<Rightarrow> retA (SecurityArchUnavailable (ad_detail d))
      | Inr inventory \<Rightarrow>
          bindA (security_evidence isprintable run fetch stored) (\<lambda>evidence.
            case evidence of
              Inl diagnostic \<Rightarrow> retA (SecurityArchUnavailable diagnostic)
            | Inr (advisories, provenance) \<Rightarrow>
                (case correlate_arch (Inr advisories) inventory run provenance of
                   Inl failed \<Rightarrow> retA (SecurityArchUnavailable (acf_diagnostic failed))
                 | Inr groups \<Rightarrow>
                     bindA (if enable_cisa_kev then security_kev aware isprintable fetch stored else retA KevDisabled)
                       (\<lambda>kev. retA (SecurityCollected (enrich_kev kev groups) provenance kev)))))"

end
