(* ===== verification/Security_Facts.thy ===== *)
theory Security_Facts
  imports Adapter_Security Scan_Facts
begin

text \<open>
  What the security adapter promises: the findings it reports are exactly the installed packages that an
  advisory of current evidence affects, marked by the KEV catalog; the evidence is what the parsers
  accepted of live output, of a downloaded feed or of a cached feed that the server confirmed; and the
  groups of findings pass the checks of the protocol.
\<close>

section \<open>Parsed advisories\<close>

definition advisory_ok :: "ArchAdvisory \<Rightarrow> bool" where
  "advisory_ok a \<longleftrightarrow> avg_matches (aa_name a) \<and> length (aa_name a) \<le> 60 \<and> distinct (aa_packages a) \<and>
     (\<forall>p \<in> set (aa_packages a). p \<noteq> [] \<and> length p \<le> 60) \<and> aa_type a \<noteq> [] \<and> length (aa_type a) \<le> 128"

lemma feed_string_ok: "feed_string isprintable v = Some s \<Longrightarrow> s \<noteq> [] \<and> length s \<le> 128"
  by (auto simp: feed_string_def bounded_text_def MAX_FEED_STRING_def split: option.splits if_splits)

lemma feed_identifier_ok: "feed_identifier isprintable v = Some s \<Longrightarrow> s \<noteq> [] \<and> length s \<le> 60"
  by (auto simp: feed_identifier_def bounded_text_def MAX_FEED_IDENTIFIER_def split: option.splits if_splits)

lemma avg_identifier_ok: "avg_identifier isprintable v = Some s \<Longrightarrow> avg_matches s \<and> length s \<le> 60"
  by (auto simp: avg_identifier_def dest: feed_identifier_ok split: option.splits if_splits)

lemma feed_identifiers_ok:
  assumes "feed_identifiers isprintable maximum v = Some xs"
  shows "distinct xs \<and> length xs \<le> maximum \<and> (\<forall>x \<in> set xs. x \<noteq> [] \<and> length x \<le> 60)"
proof -
  from assms obtain vs where vs: "v = JArr vs" "length vs \<le> maximum"
    "None \<notin> set (map (feed_identifier isprintable) vs)" "xs = map the (map (feed_identifier isprintable) vs)"
    "distinct xs"
    by (auto simp: feed_identifiers_def Let_def split: JsonValue.splits if_splits)
  have "x \<noteq> [] \<and> length x \<le> 60" if "x \<in> set xs" for x
  proof -
    from that vs(4) obtain w where w: "w \<in> set vs" "x = the (feed_identifier isprintable w)" by auto
    with vs(3) obtain s where "feed_identifier isprintable w = Some s" by (metis image_eqI not_Some_eq set_map)
    with w(2) show ?thesis using feed_identifier_ok by auto
  qed
  with vs show ?thesis by simp
qed

lemma parse_arch_record_ok:
  assumes "parse_arch_record isprintable required tracker v = Inr a"
  shows "advisory_ok a"
proof -
  from assms obtain ps name packages advisory_type issues where
    p: "avg_identifier isprintable (json_item ps ''name'') = Some name"
      "feed_identifiers isprintable MAX_FEED_PACKAGES (json_item ps ''packages'') = Some packages"
      "feed_string isprintable (json_item ps ''type'') = Some advisory_type"
      "aa_name a = name" "aa_packages a = packages" "aa_type a = advisory_type"
    by (auto simp: parse_arch_record_def bindE_def split: JsonValue.splits option.splits if_splits sum.splits)
  from avg_identifier_ok [OF p(1)] feed_identifiers_ok [OF p(2)] feed_string_ok [OF p(3)] p(4-6)
  show ?thesis by (simp add: advisory_ok_def)
qed

lemma arch_records_ok:
  assumes "arch_records isprintable required tracker names vs = Inr as"
  shows "(\<forall>a \<in> set as. advisory_ok a) \<and> distinct (map aa_name as) \<and> aa_name ` set as \<inter> names = {} \<and>
    length as = length vs"
  using assms
proof (induction vs arbitrary: names as)
  case (Cons v vs)
  from Cons.prems obtain a rest where a: "parse_arch_record isprintable required tracker v = Inr a"
    "aa_name a \<notin> names" "arch_records isprintable required tracker (insert (aa_name a) names) vs = Inr rest"
    "as = a # rest"
    by (auto split: if_splits)
  from Cons.IH [OF a(3)] parse_arch_record_ok [OF a(1)] a(2, 4) show ?case by auto
qed simp

definition advisories_ok :: "ArchAdvisory list \<Rightarrow> bool" where
  "advisories_ok as \<longleftrightarrow> (\<forall>a \<in> set as. advisory_ok a) \<and> distinct (map aa_name as) \<and> length as \<le> 4096"

lemma parse_arch_records_ok:
  assumes "parse_arch_records isprintable required tracker v = Inr as"
  shows "advisories_ok as"
proof -
  from assms obtain vs where "length vs \<le> MAX_FEED_RECORDS" "arch_records isprintable required tracker {} vs = Inr as"
    by (auto simp: parse_arch_records_def not_less split: JsonValue.splits if_splits)
  with arch_records_ok show ?thesis by (fastforce simp: advisories_ok_def MAX_FEED_RECORDS_def)
qed

lemma parsed_feeds_ok:
  "parse_arch_audit isprintable raw = Inr (Inr as) \<Longrightarrow> advisories_ok as"
  "parse_tracker isprintable raw = Inr (Inr as) \<Longrightarrow> advisories_ok as"
  by (auto simp: parse_arch_audit_def parse_tracker_def intro: parse_arch_records_ok)

section \<open>Correlated findings\<close>

text \<open>An advisory affects an installed package: it names it, and the fixed version is newer, if there is one.\<close>

definition outdated :: "runner \<Rightarrow> ArchAdvisory \<Rightarrow> PackageRecord \<Rightarrow> bool" where
  "outdated run a pkg \<longleftrightarrow>
     (\<forall>v. aa_fixed a = Some v \<longrightarrow> compare_versions run (pr_installed pkg) v = Inr (- 1))"

definition affects :: "runner \<Rightarrow> ArchAdvisory \<Rightarrow> PackageRecord \<Rightarrow> bool" where
  "affects run a pkg \<longleftrightarrow>
     aa_status a \<noteq> Arch_NOT_AFFECTED \<and> pr_name pkg \<in> set (aa_packages a) \<and> outdated run a pkg"

definition pair_finding ::
  "runner \<Rightarrow> Provenance \<Rightarrow> (ustr \<Rightarrow> PackageRecord option) \<Rightarrow> ArchAdvisory \<times> ustr \<Rightarrow> (ustr \<times> SecurityFinding) option" where
  "pair_finding run provenance official = (\<lambda>(a, p).
     case official p of
       None \<Rightarrow> None
     | Some pkg \<Rightarrow> if outdated run a pkg then Some (p, new_finding a pkg provenance) else None)"

lemma arch_finding_outdated:
  assumes "arch_finding run provenance a pkg = Inr f"
  shows "f = (if outdated run a pkg then Some (new_finding a pkg provenance) else None)"
  using assms by (auto simp: arch_finding_def outdated_def split: option.splits sum.splits)

lemma correlate_loop_found:
  "correlate_loop run provenance official pairs = Inr found \<Longrightarrow>
   found = collect_some (pair_finding run provenance official) pairs"
proof (induction pairs arbitrary: found)
  case (Cons pair pairs)
  obtain a p where pair: "pair = (a, p)" by (cases pair)
  show ?case
  proof (cases "official p")
    case None
    with Cons pair show ?thesis by (simp add: pair_finding_def)
  next
    case (Some pkg)
    with Cons.prems pair obtain f rest where f: "arch_finding run provenance a pkg = Inr f"
      "correlate_loop run provenance official pairs = Inr rest"
      "found = (case f of None \<Rightarrow> rest | Some x \<Rightarrow> (p, x) # rest)"
      by auto
    from Cons.IH [OF f(2)] arch_finding_outdated [OF f(1)] f(3) Some pair show ?thesis
      by (simp add: pair_finding_def)
  qed
qed simp

lemma distinct_collect_keys:
  assumes "\<And>x y. x \<in> set xs \<Longrightarrow> f x = Some y \<Longrightarrow> k y = h x" and "distinct (map h xs)"
  shows "distinct (map k (collect_some f xs))"
  using assms
proof (induction xs)
  case (Cons x xs)
  have "k y \<noteq> h x" if "y \<in> set (collect_some f xs)" for y
  proof -
    from that obtain z where z: "z \<in> set xs" "f z = Some y" by (auto simp: in_set_collect_some)
    with Cons.prems(1) [of z y] have "k y = h z" by simp
    moreover from z(1) Cons.prems(2) have "h z \<noteq> h x" by (auto simp: image_iff)
    ultimately show ?thesis by simp
  qed
  then have "h x \<notin> k ` set (collect_some f xs)" by (metis imageE)
  moreover have "distinct (map k (collect_some f xs))" using Cons by simp
  moreover have "k y = h x" if "f x = Some y" for y using Cons.prems(1) that by simp
  ultimately show ?case by (cases "f x") auto
qed simp

lemma in_advisory_packages:
  "(a, p) \<in> set (advisory_packages as) \<longleftrightarrow> a \<in> set as \<and> aa_status a \<noteq> Arch_NOT_AFFECTED \<and> p \<in> set (aa_packages a)"
  by (auto simp: advisory_packages_def)

lemma advisory_packages_distinct:
  assumes "advisories_ok as"
  shows "distinct (map (\<lambda>(a, p). (p, aa_name a)) (advisory_packages as))"
proof -
  have step: "distinct (map (\<lambda>(a, p). (p, aa_name a)) (concat (map (\<lambda>a. map (Pair a) (aa_packages a)) bs)))"
    if "distinct (map aa_name bs)" "\<forall>a \<in> set bs. distinct (aa_packages a)" for bs
    using that by (induction bs) (auto simp: distinct_map inj_on_def)
  show ?thesis
    unfolding advisory_packages_def
    by (rule step) (use assms in \<open>auto simp: advisories_ok_def advisory_ok_def intro: distinct_map_filter\<close>)
qed

lemma dict_of_inventory:
  assumes "distinct (map pr_name inventory)"
  shows "dict_of pr_name id inventory p = Some pkg \<longleftrightarrow> pkg \<in> set inventory \<and> pr_name pkg = p"
  using dict_of_distinct [OF assms, of pkg id] by (auto dest: dict_of_SomeD)

text \<open>The entries that the loops collect, for an inventory and advisories as the parsers give them.\<close>

definition correlated ::
  "runner \<Rightarrow> Provenance \<Rightarrow> PackageRecord list \<Rightarrow> ArchAdvisory list \<Rightarrow> (ustr \<times> SecurityFinding) list \<Rightarrow> bool" where
  "correlated run provenance inventory advisories found \<longleftrightarrow>
     distinct (map pr_name inventory) \<and> advisories_ok advisories \<and>
     correlate_loop run provenance (dict_of pr_name id inventory) (advisory_packages advisories) = Inr found"

lemma correlated_found:
  "correlated run provenance inventory advisories found \<Longrightarrow>
   found = collect_some (pair_finding run provenance (dict_of pr_name id inventory)) (advisory_packages advisories)"
  by (simp add: correlated_def correlate_loop_found)

lemma found_iff:
  assumes "correlated run provenance inventory advisories found"
  shows "(p, f) \<in> set found \<longleftrightarrow> (\<exists>a \<in> set advisories. \<exists>pkg \<in> set inventory.
     affects run a pkg \<and> p = pr_name pkg \<and> f = new_finding a pkg provenance)"
proof -
  have names: "distinct (map pr_name inventory)" using assms by (simp add: correlated_def)
  have "pair_finding run provenance (dict_of pr_name id inventory) (a, q) = Some (p, f) \<longleftrightarrow>
      (\<exists>pkg \<in> set inventory. q = pr_name pkg \<and> outdated run a pkg \<and> p = q \<and> f = new_finding a pkg provenance)" for a q
  proof (cases "dict_of pr_name id inventory q")
    case None
    moreover from this have "q \<notin> pr_name ` set inventory" by (simp add: dict_of_None_iff)
    ultimately show ?thesis by (auto simp: pair_finding_def)
  next
    case (Some pkg)
    then have "pkg' = pkg" if "pkg' \<in> set inventory" "q = pr_name pkg'" for pkg'
      using dict_of_inventory [OF names, of q pkg'] that by simp
    with Some dict_of_inventory [OF names, of q pkg] show ?thesis by (auto simp: pair_finding_def)
  qed
  moreover have "(p, f) \<in> set found \<longleftrightarrow> (\<exists>a q. (a, q) \<in> set (advisory_packages advisories) \<and>
      pair_finding run provenance (dict_of pr_name id inventory) (a, q) = Some (p, f))"
    unfolding correlated_found [OF assms] in_set_collect_some by (simp add: Bex_def)
  ultimately show ?thesis
    unfolding affects_def by (simp add: in_advisory_packages) blast
qed

lemma found_distinct:
  assumes "correlated run provenance inventory advisories found"
  shows "distinct (map (\<lambda>(p, f). (p, sf_finding_id f)) found)"
  unfolding correlated_found [OF assms]
  by (rule distinct_collect_keys [OF _ advisory_packages_distinct])
    (use assms in \<open>auto simp: correlated_def pair_finding_def new_finding_def split: option.splits if_splits\<close>)

lemma group_findings_distinct:
  assumes "correlated run provenance inventory advisories found"
  shows "distinct (map sf_finding_id (map snd (filter (\<lambda>e. fst e = p) found)))"
proof -
  have "distinct (map (\<lambda>(p, f). (p, sf_finding_id f)) (filter (\<lambda>e. fst e = p) found))"
    by (rule distinct_map_filter [OF found_distinct [OF assms]])
  then show ?thesis by (auto simp: distinct_map inj_on_def)
qed

lemma groups_in:
  "g \<in> set (group_findings found) \<longleftrightarrow> (\<exists>p \<in> fst ` set found.
     g = \<lparr>sg_item_id = lit ''arch:'' @ p, sg_findings = map snd (filter (\<lambda>e. fst e = p) found)\<rparr>)"
  by (auto simp: group_findings_def)

lemma prefix_le_iff: "w @ a \<le> w @ b \<longleftrightarrow> a \<le> (b :: ustr)"
  by (induction w) simp_all

lemma groups_ids: "distinct (map sg_item_id (group_findings found)) \<and> sorted (map sg_item_id (group_findings found))"
proof -
  have "map sg_item_id (group_findings found) = map ((@) (lit ''arch:'')) (sort (remdups (map fst found)))"
    by (simp add: group_findings_def)
  moreover have "sorted (map ((@) w) xs) = sorted xs" for w :: ustr and xs
    by (induction xs) (simp_all add: prefix_le_iff)
  ultimately show ?thesis by (simp add: distinct_map inj_on_def)
qed

lemma finding_in_groups:
  assumes "correlated run provenance inventory advisories found"
  shows "(\<exists>g \<in> set (group_findings found). f \<in> set (sg_findings g)) \<longleftrightarrow>
    (\<exists>a \<in> set advisories. \<exists>pkg \<in> set inventory. affects run a pkg \<and> f = new_finding a pkg provenance)"
proof -
  have "(\<exists>g \<in> set (group_findings found). f \<in> set (sg_findings g)) \<longleftrightarrow> (\<exists>p. (p, f) \<in> set found)"
    by (force simp: groups_in)
  then show ?thesis by (auto simp: found_iff [OF assms])
qed

lemma found_validates:
  assumes "correlated run provenance inventory advisories found" and "(p, f) \<in> set found"
    and "\<And>pkg. pkg \<in> set inventory \<Longrightarrow> identifier_ok (pr_installed pkg)"
  shows "validate_finding (lit ''arch:'' @ p) f = Inr ()"
proof -
  from assms(2) obtain a pkg where a: "a \<in> set advisories" "pkg \<in> set inventory" "p = pr_name pkg"
    "f = new_finding a pkg provenance" unfolding found_iff [OF assms(1)] by blast
  then have "advisory_ok a" using assms(1) by (simp add: correlated_def advisories_ok_def)
  with a assms(3) [OF a(2)] show ?thesis
    by (auto simp: validate_finding_def new_finding_def advisory_ok_def validate_avg_identifier_def
        identifier_ok_def avg_matches_def validate_kev_def)
qed

lemma groups_findings_ok:
  assumes "correlated run provenance inventory advisories found"
    and "\<And>pkg. pkg \<in> set inventory \<Longrightarrow> identifier_ok (pr_installed pkg)"
  shows "findings_ok (group_findings found)"
proof -
  have "group_ok g" if "g \<in> set (group_findings found)" for g
  proof -
    from that obtain p where p: "p \<in> fst ` set found"
      "g = \<lparr>sg_item_id = lit ''arch:'' @ p, sg_findings = map snd (filter (\<lambda>e. fst e = p) found)\<rparr>"
      unfolding groups_in by blast
    from p(1) have "filter (\<lambda>e. fst e = p) found \<noteq> []" by (force simp: filter_empty_conv)
    moreover have "validate_finding (lit ''arch:'' @ p) f = Inr ()" if "f \<in> set (sg_findings g)" for f
      using that by (intro found_validates [OF assms(1) _ assms(2)]) (auto simp: p(2))
    ultimately show ?thesis
      using group_findings_distinct [OF assms(1), of p] by (simp add: group_ok_def validate_group_def p(2) forE_eq_Inr)
  qed
  then show ?thesis using groups_ids by (simp add: findings_ok_def)
qed

section \<open>KEV marks\<close>

definition kev_mark :: "Kev \<Rightarrow> SecurityFinding \<Rightarrow> SecurityFinding" where
  "kev_mark kev f =
     (case kev of
        KevCatalog cve_ids provenance \<Rightarrow> with_kev (\<exists>cve \<in> set (sf_cve_ids f). cve \<in> cve_ids) provenance f
      | _ \<Rightarrow> f)"

lemma kev_mark_select [simp]:
  "sf_finding_id (kev_mark kev f) = sf_finding_id f" "sf_item_id (kev_mark kev f) = sf_item_id f"
  by (simp_all add: kev_mark_def with_kev_def split: Kev.split)

lemma enrich_kev_map: "enrich_kev kev groups = map (\<lambda>g. g\<lparr>sg_findings := map (kev_mark kev) (sg_findings g)\<rparr>) groups"
proof -
  have "kev_mark KevDisabled = id" "kev_mark (KevUnavailable m) = id" for m
    by (simp_all add: kev_mark_def fun_eq_iff)
  then show ?thesis by (cases kev) (simp_all add: enrich_kev_def kev_mark_def list_ex_iff Bex_def)
qed

lemma kev_mark_validates:
  assumes "validate_finding i f = Inr ()"
  shows "validate_finding i (kev_mark kev f) = Inr ()"
  using assms by (cases kev) (auto simp: validate_finding_def kev_mark_def with_kev_def validate_kev_def)

lemma enrich_kev_ok:
  assumes "findings_ok groups"
  shows "findings_ok (enrich_kev kev groups)"
proof -
  have "group_ok (g\<lparr>sg_findings := map (kev_mark kev) (sg_findings g)\<rparr>)" if "group_ok g" for g
    using that kev_mark_validates
    by (auto simp: group_ok_def validate_group_def forE_eq_Inr comp_def)
  with assms show ?thesis by (auto simp: findings_ok_def enrich_kev_map comp_def)
qed

section \<open>Evidence\<close>

text \<open>
  A feed that the server confirmed: it answered that nothing changed, and the cached feed equals the body
  whose validators the request carried.
\<close>

definition confirmed_body :: "FeedName \<Rightarrow> disk \<Rightarrow> bytes \<Rightarrow> bool" where
  "confirmed_body feed d body \<longleftrightarrow> d_feed d feed = Some body \<and> d_transport_body d feed = Some body \<and>
     read_cache_validators (d_transport_metadata d feed) body \<noteq> None"

text \<open>Where advisories of each provenance come from.\<close>

definition arch_evidence ::
  "(nat \<Rightarrow> bool) \<Rightarrow> runner \<Rightarrow> EndpointResult result \<times> disk \<Rightarrow> ArchAdvisory list \<Rightarrow> Provenance \<Rightarrow> bool" where
  "arch_evidence isprintable run fetched advisories provenance =
     (case provenance of
        Prov_LIVE \<Rightarrow> \<exists>out err. run ARCH_AUDIT [] = CommandSucceeded out err \<and>
          parse_arch_audit isprintable out = Inr (Inr advisories)
      | Prov_FALLBACK \<Rightarrow> \<exists>body etag last_modified. fst fetched = Inr (EndpointDownloaded body etag last_modified) \<and>
          parse_tracker isprintable body = Inr (Inr advisories)
      | Prov_CACHE \<Rightarrow> \<exists>body. fst fetched = Inr EndpointNotModified \<and>
          confirmed_body Feed_ARCH_SECURITY (snd fetched) body \<and> parse_tracker isprintable body = Inr (Inr advisories)
      | Prov_LAST_GOOD \<Rightarrow> False)"

lemma security_evidence_sound:
  assumes "security_evidence isprintable run fetch stored d = (Inr (Inr (advisories, provenance)), d')"
  shows "arch_evidence isprintable run (fetch Endpoint_ARCH_SECURITY d) advisories provenance"
    and "advisories_ok advisories"
proof -
  show ev: "arch_evidence isprintable run (fetch Endpoint_ARCH_SECURITY d) advisories provenance"
  proof (cases "security_primary isprintable run")
    case (Inl e)
    with assms show ?thesis by (simp add: security_evidence_def bindA_def liftA_def)
  next
    case (Inr primary)
    show ?thesis
    proof (cases primary)
      case (Inr current)
      with assms \<open>security_primary isprintable run = Inr primary\<close> show ?thesis
        by (auto simp: security_evidence_def bindA_def liftA_def retA_def security_primary_def arch_evidence_def
            split: CommandResult.splits)
    next
      case (Inl m)
      with assms Inr have fall: "security_fallback isprintable fetch stored d = (Inr (Inr (advisories, provenance)), d')"
        by (simp add: security_evidence_def bindA_def liftA_def)
      obtain r d1 where f: "fetch Endpoint_ARCH_SECURITY d = (r, d1)" by fastforce
      show ?thesis
      proof (cases "r = Inr EndpointNotModified")
        case True
        with fall f obtain body d2 where body: "read_confirmed_feed Feed_ARCH_SECURITY (is_tracker isprintable) d1 =
            (Inr (Some body), d2)" "parse_tracker isprintable body = Inr (Inr advisories)" "provenance = Prov_CACHE"
          by (auto simp: security_fallback_def bindA_def liftA_def retA_def
              split: if_splits prod.splits sum.splits option.splits)
        from read_confirmed_feed_ok [OF body(1)] body(2, 3) True f show ?thesis
          by (simp add: arch_evidence_def confirmed_body_def)
      next
        case False
        with fall f show ?thesis
          by (auto simp: security_fallback_def bindA_def liftA_def retA_def arch_evidence_def
              split: sum.splits EndpointResult.splits prod.splits)
      qed
    qed
  qed
  then show "advisories_ok advisories"
    using parsed_feeds_ok by (auto simp: arch_evidence_def split: Provenance.splits)
qed

text \<open>Where the catalog of each provenance comes from; \<open>fetched\<close> is the answer of the KEV endpoint.\<close>

definition kev_evidence ::
  "(ustr \<Rightarrow> bool) \<Rightarrow> (nat \<Rightarrow> bool) \<Rightarrow> EndpointResult result \<times> disk \<Rightarrow> Kev \<Rightarrow> bool" where
  "kev_evidence aware isprintable fetched kev =
     (case kev of
        KevCatalog cve_ids provenance \<Rightarrow>
          (provenance = Prov_LIVE \<and> (\<exists>body etag last_modified.
             fst fetched = Inr (EndpointDownloaded body etag last_modified) \<and>
             parse_kev aware isprintable body = Inr (Inr cve_ids))) \<or>
          (provenance = Prov_CACHE \<and> (\<exists>body. fst fetched = Inr EndpointNotModified \<and>
             confirmed_body Feed_CISA_KEV (snd fetched) body \<and> parse_kev aware isprintable body = Inr (Inr cve_ids)))
      | _ \<Rightarrow> True)"

lemma security_kev_sound:
  assumes "security_kev aware isprintable fetch stored d = (Inr kev, d')"
  shows "kev_evidence aware isprintable (fetch Endpoint_CISA_KEV d) kev"
proof -
  obtain r d1 where f: "fetch Endpoint_CISA_KEV d = (r, d1)" by fastforce
  show ?thesis
  proof (cases "r = Inr EndpointNotModified")
    case True
    show ?thesis
    proof (cases kev)
      case (KevCatalog cve_ids provenance)
      with True assms f obtain body d2 where body: "read_confirmed_feed Feed_CISA_KEV (is_kev aware isprintable) d1 =
          (Inr (Some body), d2)" "parse_kev aware isprintable body = Inr (Inr cve_ids)" "provenance = Prov_CACHE"
        by (auto simp: security_kev_def bindA_def liftA_def retA_def
            split: if_splits prod.splits sum.splits option.splits)
      from read_confirmed_feed_ok [OF body(1)] body(2, 3) True f KevCatalog show ?thesis
        by (simp add: kev_evidence_def confirmed_body_def)
    qed (simp_all add: kev_evidence_def)
  next
    case False
    with assms f show ?thesis
      by (auto simp: security_kev_def bindA_def liftA_def retA_def kev_evidence_def
          split: sum.splits EndpointResult.splits prod.splits if_splits)
  qed
qed

text \<open>The groups of a correlation, with their marks.\<close>

lemma group_shape:
  assumes "correlated run provenance inventory advisories found" and "g \<in> set (group_findings found)"
  shows "sg_findings g \<noteq> [] \<and> distinct (map sf_finding_id (sg_findings g)) \<and>
    (\<forall>f \<in> set (sg_findings g). sf_item_id f = sg_item_id g)"
proof -
  from assms(2) obtain q where q: "q \<in> fst ` set found"
    "g = \<lparr>sg_item_id = lit ''arch:'' @ q, sg_findings = map snd (filter (\<lambda>e. fst e = q) found)\<rparr>"
    unfolding groups_in by blast
  from q(1) have "filter (\<lambda>e. fst e = q) found \<noteq> []" by (force simp: filter_empty_conv)
  moreover have "sf_item_id f = lit ''arch:'' @ q" if "(q, f) \<in> set found" for f
    using that by (auto simp: found_iff [OF assms(1)] new_finding_def)
  ultimately show ?thesis using group_findings_distinct [OF assms(1), of q] by (auto simp: q(2))
qed

lemma enriched_groups:
  assumes "correlated run provenance inventory advisories found"
  shows "(\<forall>f. (\<exists>g \<in> set (enrich_kev kev (group_findings found)). f \<in> set (sg_findings g)) \<longleftrightarrow>
      (\<exists>a \<in> set advisories. \<exists>pkg \<in> set inventory. affects run a pkg \<and> f = kev_mark kev (new_finding a pkg provenance))) \<and>
    distinct (map sg_item_id (enrich_kev kev (group_findings found))) \<and>
    sorted (map sg_item_id (enrich_kev kev (group_findings found))) \<and>
    (\<forall>g \<in> set (enrich_kev kev (group_findings found)). sg_findings g \<noteq> [] \<and>
       distinct (map sf_finding_id (sg_findings g)) \<and> (\<forall>f \<in> set (sg_findings g). sf_item_id f = sg_item_id g))"
proof -
  have "(\<exists>g \<in> set (enrich_kev kev (group_findings found)). f \<in> set (sg_findings g)) \<longleftrightarrow>
      (\<exists>f0. (\<exists>g \<in> set (group_findings found). f0 \<in> set (sg_findings g)) \<and> f = kev_mark kev f0)" for f
    by (auto simp: enrich_kev_map)
  then have "(\<exists>g \<in> set (enrich_kev kev (group_findings found)). f \<in> set (sg_findings g)) \<longleftrightarrow>
      (\<exists>a \<in> set advisories. \<exists>pkg \<in> set inventory. affects run a pkg \<and> f = kev_mark kev (new_finding a pkg provenance))" for f
    unfolding finding_in_groups [OF assms] by blast
  moreover have "map sg_item_id (enrich_kev kev (group_findings found)) = map sg_item_id (group_findings found)"
    by (simp add: enrich_kev_map)
  moreover have "sg_findings g \<noteq> [] \<and> distinct (map sf_finding_id (sg_findings g)) \<and>
      (\<forall>f \<in> set (sg_findings g). sf_item_id f = sg_item_id g)" if "g \<in> set (enrich_kev kev (group_findings found))" for g
  proof -
    from that obtain h where h: "h \<in> set (group_findings found)"
      "g = h\<lparr>sg_findings := map (kev_mark kev) (sg_findings h)\<rparr>" by (auto simp: enrich_kev_map)
    from group_shape [OF assms h(1)] show ?thesis by (simp add: h(2) comp_def)
  qed
  ultimately show ?thesis using groups_ids [of found] by simp
qed

lemma collect_security_findings_parts:
  assumes "collect_security_findings aware isprintable run fetch stored enable d =
    (Inr (SecurityCollected groups provenance kev), d')"
  obtains inventory advisories found d1 where "collect_official_inventory run = Inr inventory"
    "security_evidence isprintable run fetch stored d = (Inr (Inr (advisories, provenance)), d1)"
    "correlate_loop run provenance (dict_of pr_name id inventory) (advisory_packages advisories) = Inr found"
    "(if enable then security_kev aware isprintable fetch stored else retA KevDisabled) d1 = (Inr kev, d')"
    "groups = enrich_kev kev (group_findings found)"
proof -
  from assms obtain inventory where i: "collect_official_inventory run = Inr inventory"
    by (auto simp: collect_security_findings_def retA_def split: sum.splits)
  with assms obtain advisories prov d1 where e:
    "security_evidence isprintable run fetch stored d = (Inr (Inr (advisories, prov)), d1)"
    by (auto simp: collect_security_findings_def bindA_def retA_def split: sum.splits prod.splits)
  with assms i obtain found where c:
    "correlate_loop run prov (dict_of pr_name id inventory) (advisory_packages advisories) = Inr found"
    by (auto simp: collect_security_findings_def correlate_arch_def bindA_def retA_def bindE_def split: sum.splits)
  with assms i e have "bindA (if enable then security_kev aware isprintable fetch stored else retA KevDisabled)
      (\<lambda>kev. retA (SecurityCollected (enrich_kev kev (group_findings found)) prov kev)) d1 =
      (Inr (SecurityCollected groups provenance kev), d')"
    by (simp add: collect_security_findings_def correlate_arch_def bindA_def)
  then show thesis
    using that [OF i] e c by (auto simp: bindA_def retA_def split: prod.splits sum.splits if_splits)
qed

lemma official_inventory_ok:
  assumes "collect_official_inventory run = Inr inventory"
  shows "distinct (map pr_name inventory) \<and> (\<forall>pkg \<in> set inventory. field_ok (pr_name pkg) \<and> field_ok (pr_installed pkg))"
  using assms
  by (auto simp: collect_official_inventory_def collect_inventory_def parse_package_rows_def
      dest: package_rows_ok split: CommandResult.splits option.splits)

text \<open>
  C27: Security findings are exact and rest on current evidence. If the adapter reports a result at all, the
  advisories it used were accepted by the parser from the live output of arch-audit, or else from the
  tracker feed as downloaded now, or from the cached feed when the server confirmed it unchanged; a KEV
  catalog likewise. The findings are then exactly these: one for every advisory that is not marked as not
  affecting and every installed package it names whose installed version is older than the fixed one, or
  which has no fix, marked as exploited exactly if the catalog lists one of its CVEs. They are grouped by
  package, in order, and no finding appears twice in a group. Nothing else is ever reported as a success, in
  particular no empty list when evidence is missing.
\<close>

theorem security_findings_exact:
  assumes "collect_security_findings aware isprintable run fetch stored enable d =
    (Inr (SecurityCollected groups provenance kev), d')"
  shows "\<exists>inventory advisories d1. collect_official_inventory run = Inr inventory \<and>
    arch_evidence isprintable run (fetch Endpoint_ARCH_SECURITY d) advisories provenance \<and>
    (if enable then kev_evidence aware isprintable (fetch Endpoint_CISA_KEV d1) kev else kev = KevDisabled) \<and>
    (\<forall>f. (\<exists>g \<in> set groups. f \<in> set (sg_findings g)) \<longleftrightarrow>
       (\<exists>a \<in> set advisories. \<exists>pkg \<in> set inventory. affects run a pkg \<and> f = kev_mark kev (new_finding a pkg provenance))) \<and>
    distinct (map sg_item_id groups) \<and> sorted (map sg_item_id groups) \<and>
    (\<forall>g \<in> set groups. sg_findings g \<noteq> [] \<and> distinct (map sf_finding_id (sg_findings g)) \<and>
       (\<forall>f \<in> set (sg_findings g). sf_item_id f = sg_item_id g))"
proof -
  from collect_security_findings_parts [OF assms] obtain inventory advisories found d1 where
    p: "collect_official_inventory run = Inr inventory"
      "security_evidence isprintable run fetch stored d = (Inr (Inr (advisories, provenance)), d1)"
      "correlate_loop run provenance (dict_of pr_name id inventory) (advisory_packages advisories) = Inr found"
      "(if enable then security_kev aware isprintable fetch stored else retA KevDisabled) d1 = (Inr kev, d')"
      "groups = enrich_kev kev (group_findings found)" .
  have c: "correlated run provenance inventory advisories found"
    using official_inventory_ok [OF p(1)] security_evidence_sound(2) [OF p(2)] p(3) by (simp add: correlated_def)
  have "if enable then kev_evidence aware isprintable (fetch Endpoint_CISA_KEV d1) kev else kev = KevDisabled"
    using p(4) security_kev_sound by (auto simp: retA_def split: if_splits)
  then show ?thesis
    using p(1) security_evidence_sound(1) [OF p(2)] enriched_groups [OF c, of kev] unfolding p(5) by blast
qed

section \<open>An example\<close>

definition bash_audit :: JsonValue where
  "bash_audit = JArr [JObj [(lit ''name'', JStr (lit ''AVG-1'')), (lit ''packages'', JArr [JStr (lit ''bash'')]),
     (lit ''status'', JStr (lit ''Vulnerable'')), (lit ''type'', JStr (lit ''code'')),
     (lit ''severity'', JStr (lit ''High'')), (lit ''fixed'', JNull), (lit ''issues'', JArr [])]]"

definition audit_runner :: runner where
  "audit_runner name arguments =
     (case name of
        PACMAN_NATIVE \<Rightarrow> CommandSucceeded (utf8_encode (lit ''bash 5.2-1'')) []
      | ARCH_AUDIT \<Rightarrow> CommandSucceeded (utf8_encode (json_text bash_audit @ [10])) []
      | _ \<Rightarrow> CommandMissing [])"

definition plain_printable :: "nat \<Rightarrow> bool" where
  "plain_printable c \<longleftrightarrow> 32 \<le> c \<and> c < 127"

definition bash_advisory :: ArchAdvisory where
  "bash_advisory = \<lparr>aa_name = lit ''AVG-1'', aa_packages = [lit ''bash''], aa_status = Arch_VULNERABLE,
     aa_type = lit ''code'', aa_severity = Sev_HIGH, aa_fixed = None, aa_issues = []\<rparr>"

lemma bash_fields:
  "avg_identifier plain_printable (JStr (lit ''AVG-1'')) = Some (lit ''AVG-1'')"
  "feed_identifiers plain_printable MAX_FEED_PACKAGES (JArr [JStr (lit ''bash'')]) = Some [lit ''bash'']"
  "feed_identifiers plain_printable MAX_FEED_ISSUES (JArr []) = Some []"
  "feed_string plain_printable (JStr (lit ''code'')) = Some (lit ''code'')"
  "feed_optional_string plain_printable JNull = Inr None"
  "feed_status (JStr (lit ''Vulnerable'')) False = Some Arch_VULNERABLE"
  "feed_severity (JStr (lit ''High'')) = Some Sev_HIGH"
  by code_simp+

lemma bash_audit_parsed:
  "parse_arch_audit plain_printable (utf8_encode (json_text bash_audit @ [10])) = Inr (Inr [bash_advisory])"
proof -
  let ?ps = "[(lit ''name'', JStr (lit ''AVG-1'')), (lit ''packages'', JArr [JStr (lit ''bash'')]),
     (lit ''status'', JStr (lit ''Vulnerable'')), (lit ''type'', JStr (lit ''code'')),
     (lit ''severity'', JStr (lit ''High'')), (lit ''fixed'', JNull), (lit ''issues'', JArr [])]"
  have d: "distinct (map fst ?ps)" by simp
  have "can_print 100 bash_audit"
    by (simp add: bash_audit_def printable_JArr printable_JObj scalar_lit)
  then have "utf8_decode (utf8_encode (json_text bash_audit @ [10])) = Some (json_text bash_audit @ [10])"
    "decode_json (json_text bash_audit @ [10]) = Inr (canon bash_audit)"
    by (auto simp: can_print_def intro: utf8_decode_printed decode_json_printed)
  moreover have "parse_arch_record plain_printable PRIMARY_REQUIRED False (JObj (canon_object ?ps)) = Inr bash_advisory"
  proof -
    have "PRIMARY_REQUIRED \<subseteq> json_keys (canon_object ?ps)"
      by (subst json_canon(2)) (simp add: json_keys_def PRIMARY_REQUIRED_def)
    moreover have "json_item (canon_object ?ps) ''name'' = JStr (lit ''AVG-1'')"
      "json_item (canon_object ?ps) ''packages'' = JArr [JStr (lit ''bash'')]"
      "json_item (canon_object ?ps) ''status'' = JStr (lit ''Vulnerable'')"
      "json_item (canon_object ?ps) ''type'' = JStr (lit ''code'')"
      "json_item (canon_object ?ps) ''severity'' = JStr (lit ''High'')"
      "json_item (canon_object ?ps) ''fixed'' = JNull" "json_item (canon_object ?ps) ''issues'' = JArr []"
      unfolding json_canon(1) [OF d] by (simp_all add: json_item_def)
    ultimately show ?thesis
      by (simp add: parse_arch_record_def bash_fields bash_advisory_def)
  qed
  ultimately show ?thesis
    by (simp add: parse_arch_audit_def decode_feed_def bash_audit_def parse_arch_records_def MAX_FEED_RECORDS_def)
qed

lemma audit_inventory:
  "collect_official_inventory audit_runner = Inr [\<lparr>pr_name = lit ''bash'', pr_installed = lit ''5.2-1''\<rparr>]"
proof -
  have "package_rows {} (splitlines (lit ''bash 5.2-1'')) =
      Inr [\<lparr>pr_name = lit ''bash'', pr_installed = lit ''5.2-1''\<rparr>]"
    by (simp add: splitlines_def is_line_break_def split_ws_def is_space_def lit_def)
  then show ?thesis
    by (simp add: collect_official_inventory_def collect_inventory_def audit_runner_def parse_package_rows_def
        utf8_decode_encode scalar_lit)
qed

lemma audit_collected:
  "\<exists>groups. collect_security_findings (\<lambda>_. False) plain_printable audit_runner (\<lambda>_. retA (EndpointFailed [])) True
     False no_files = (Inr (SecurityCollected groups Prov_LIVE KevDisabled), no_files)"
  by (simp add: collect_security_findings_def audit_inventory security_evidence_def security_primary_def
      audit_runner_def bash_audit_parsed correlate_arch_def advisory_packages_def bash_advisory_def
      arch_finding_def dict_of_def bindA_lift bindA_ret)

theorem security_findings_exact_witness:
  "\<exists>groups. collect_security_findings (\<lambda>_. False) plain_printable audit_runner (\<lambda>_. retA (EndpointFailed [])) True
     False no_files = (Inr (SecurityCollected groups Prov_LIVE KevDisabled), no_files) \<and>
   (\<exists>g \<in> set groups. new_finding bash_advisory \<lparr>pr_name = lit ''bash'', pr_installed = lit ''5.2-1''\<rparr> Prov_LIVE
      \<in> set (sg_findings g))"
proof -
  from audit_collected obtain groups where c: "collect_security_findings (\<lambda>_. False) plain_printable audit_runner
    (\<lambda>_. retA (EndpointFailed [])) True False no_files = (Inr (SecurityCollected groups Prov_LIVE KevDisabled), no_files)"
    by blast
  from security_findings_exact [OF c] obtain advisories where
    e: "arch_evidence plain_printable audit_runner (retA (EndpointFailed []) no_files) advisories Prov_LIVE"
    and f: "\<And>f. (\<exists>g \<in> set groups. f \<in> set (sg_findings g)) \<longleftrightarrow> (\<exists>a \<in> set advisories.
      affects audit_runner a \<lparr>pr_name = lit ''bash'', pr_installed = lit ''5.2-1''\<rparr> \<and>
      f = kev_mark KevDisabled (new_finding a \<lparr>pr_name = lit ''bash'', pr_installed = lit ''5.2-1''\<rparr> Prov_LIVE))"
    by (auto simp: audit_inventory)
  from e have "advisories = [bash_advisory]"
    by (auto simp: arch_evidence_def audit_runner_def bash_audit_parsed)
  then have "\<exists>g \<in> set groups. new_finding bash_advisory \<lparr>pr_name = lit ''bash'', pr_installed = lit ''5.2-1''\<rparr> Prov_LIVE
      \<in> set (sg_findings g)"
    unfolding f by (simp add: affects_def outdated_def kev_mark_def bash_advisory_def)
  with c show ?thesis by blast
qed

end
