(* ===== verification/Adapter_Omarchy.thy ===== *)
theory Adapter_Omarchy
  imports Scan_Outcomes Runner Json
begin

text \<open>
  The Omarchy adapter of \<open>adapters/omarchy.py\<close>: the rows of \<open>omarchy-update-available\<close> become items,
  and every other answer of the command is an availability without items and with a redacted
  diagnostic. \<open>isprintable\<close> is \<open>str.isprintable\<close> of one character, a table of the Unicode database;
  \<open>home\<close> is the home directory that \<open>redact_diagnostic\<close> hides.
\<close>

section \<open>Rows\<close>

text \<open>
  The two regular expressions. No field class contains the blank, so a row matches exactly if its
  blank-separated fields do.
\<close>

definition graphic :: "ustr \<Rightarrow> bool" where
  "graphic s \<longleftrightarrow> s \<noteq> [] \<and> list_all (\<lambda>c. 33 \<le> c \<and> c \<le> 126) s"

definition behind_count :: "ustr \<Rightarrow> bool" where
  "behind_count s \<longleftrightarrow> s \<noteq> [] \<and> list_all is_digit s \<and> hd s \<noteq> 48"

definition package_match :: "ustr \<Rightarrow> (ustr \<times> ustr \<times> ustr) option" where
  "package_match row =
     (case split_on 32 row of
        [package, installed, arrow, candidate] \<Rightarrow>
          if package \<in> {lit ''omarchy'', lit ''omarchy-dev''} \<and> graphic installed \<and>
             arrow = lit ''->'' \<and> graphic candidate
          then Some (package, installed, candidate) else None
      | _ \<Rightarrow> None)"

definition development_match :: "ustr \<Rightarrow> (ustr \<times> ustr \<times> ustr) option" where
  "development_match row =
     (case split_on 32 row of
        [checkout, behind, new, commit_word, on, upstream] \<Rightarrow>
          if checkout = lit ''omarchy-dev-checkout'' \<and> behind_count behind \<and> new = lit ''new'' \<and>
             commit_word \<in> {lit ''commit'', lit ''commits''} \<and> on = lit ''on'' \<and> graphic upstream
          then Some (behind, commit_word, upstream) else None
      | _ \<Rightarrow> None)"

text \<open>\<open>int(text)\<close> raises \<open>ValueError\<close> on more than 4300 digits.\<close>

definition parse_omarchy_row :: "ustr \<Rightarrow> NormalizedItem option result" where
  "parse_omarchy_row row =
     (case package_match row of
        Some (package, installed, candidate) \<Rightarrow>
          Inr (Some (new_item (lit ''omarchy:'' @ package) Item_OMARCHY package (Some installed)
            (Some candidate) True))
      | None \<Rightarrow>
          (case development_match row of
             None \<Rightarrow> Inr None
           | Some (behind_text, commit_word, upstream) \<Rightarrow>
               bindE (int_literal behind_text) (\<lambda>behind.
                 if (behind = 1) \<noteq> (commit_word = lit ''commit'') then Inr None
                 else Inr (Some (new_item (lit ''omarchy:dev-checkout'') Item_OMARCHY
                   (lit ''Omarchy development checkout'') None
                   (Some (str_int behind @ lit '' new '' @ commit_word @ lit '' on '' @ upstream)) False)))))"

text \<open>The loop over the rows: \<open>Inl\<close> is the message of the early return with an invalid availability.\<close>

fun available_rows :: "ustr set \<Rightarrow> ustr list \<Rightarrow> (ustr + NormalizedItem list) result" where
  "available_rows item_ids [] = Inr (Inr [])"
| "available_rows item_ids (row # rows) =
     bindE (parse_omarchy_row row) (\<lambda>item.
       case item of
         None \<Rightarrow> Inr (Inl (lit ''unrecognized Omarchy availability row''))
       | Some i \<Rightarrow>
           if ni_item_id i \<in> item_ids then Inr (Inl (lit ''duplicate Omarchy availability row''))
           else bindE (available_rows (insert (ni_item_id i) item_ids) rows)
                  (\<lambda>r. Inr (map_sum id ((#) i) r)))"

section \<open>Diagnostics\<close>

definition DIAGNOSTIC_BYTES :: nat where
  "DIAGNOSTIC_BYTES = 512"

definition snippet :: "(nat \<Rightarrow> bool) \<Rightarrow> bytes \<Rightarrow> ustr" where
  "snippet isprintable v =
     (let decoded = utf8_replace (take DIAGNOSTIC_BYTES v);
          printable = map (\<lambda>c. if isprintable c then c else 32) decoded
      in join (lit '' '') (split_ws printable))"

definition omarchy_diagnostic :: "(nat \<Rightarrow> bool) \<Rightarrow> ustr \<Rightarrow> ustr \<Rightarrow> bytes \<Rightarrow> bytes \<Rightarrow> ustr" where
  "omarchy_diagnostic isprintable home message stdout stderr =
     redact_diagnostic home
       (join (lit '' | '') (message # filter (\<lambda>s. s \<noteq> []) (map (snippet isprintable) [stdout, stderr])))"

definition omarchy_failure ::
  "(nat \<Rightarrow> bool) \<Rightarrow> ustr \<Rightarrow> SourceStatus \<Rightarrow> ustr \<Rightarrow> bytes \<Rightarrow> bytes \<Rightarrow> OmarchyAvailability" where
  "omarchy_failure isprintable home status message stdout stderr =
     \<lparr>oa_status = status, oa_items = [],
      oa_diagnostic = Some (omarchy_diagnostic isprintable home message stdout stderr)\<rparr>"

section \<open>The collector\<close>

definition UP_TO_DATE :: bytes where
  "UP_TO_DATE = utf8_encode (lit ''Omarchy is up to date'' @ [10])"

definition omarchy_available :: "NormalizedItem list \<Rightarrow> OmarchyAvailability" where
  "omarchy_available items = \<lparr>oa_status = Status_OK, oa_items = items, oa_diagnostic = None\<rparr>"

definition parse_available_rows ::
  "(nat \<Rightarrow> bool) \<Rightarrow> ustr \<Rightarrow> bytes \<Rightarrow> bytes \<Rightarrow> OmarchyAvailability result" where
  "parse_available_rows isprintable home stdout stderr =
     bindE (available_rows {} (splitlines (utf8_replace stdout))) (\<lambda>rows.
       case rows of
         Inl message \<Rightarrow> Inr (omarchy_failure isprintable home Status_INVALID message stdout stderr)
       | Inr items \<Rightarrow>
           if items = []
           then Inr (omarchy_failure isprintable home Status_INVALID
                  (lit ''successful Omarchy command returned no rows'') stdout stderr)
           else Inr (omarchy_available items))"

definition collect_omarchy_availability ::
  "(nat \<Rightarrow> bool) \<Rightarrow> ustr \<Rightarrow> runner \<Rightarrow> OmarchyAvailability result" where
  "collect_omarchy_availability isprintable home run =
     (case run OMARCHY_UPDATE_AVAILABLE [] of
        CommandSucceeded stdout stderr \<Rightarrow> parse_available_rows isprintable home stdout stderr
      | CommandExited returncode stdout stderr \<Rightarrow>
          if returncode = 1 \<and> stderr = [] \<and> stdout = UP_TO_DATE then Inr (omarchy_available [])
          else Inr (omarchy_failure isprintable home Status_ERROR
                 (lit ''unexpected command exit '' @ str_int returncode) stdout stderr)
      | CommandMissing diagnostic \<Rightarrow>
          bindE (encode_utf8 diagnostic) (\<lambda>b. Inr (omarchy_failure isprintable home
            Status_MISSING_DEPENDENCY (lit ''Omarchy command is unavailable'') b []))
      | CommandTimedOut stdout stderr \<Rightarrow>
          Inr (omarchy_failure isprintable home Status_TIMEOUT (lit ''Omarchy command timed out'') stdout stderr)
      | CommandOutputExceeded stream stdout stderr \<Rightarrow>
          Inr (omarchy_failure isprintable home Status_ERROR
            (lit ''Omarchy command output exceeded '' @ stream @ lit '' limit'') stdout stderr)
      | CommandRejected diagnostic \<Rightarrow>
          bindE (encode_utf8 diagnostic) (\<lambda>b. Inr (omarchy_failure isprintable home
            Status_ERROR (lit ''Omarchy command was rejected'') b [])))"

section \<open>Collected items\<close>

text \<open>What an item of this source is: one of the two packages, or the development checkout.\<close>

definition omarchy_item :: "NormalizedItem \<Rightarrow> bool" where
  "omarchy_item i \<longleftrightarrow>
     (\<exists>package \<in> {lit ''omarchy'', lit ''omarchy-dev''}. \<exists>installed candidate.
        graphic installed \<and> graphic candidate \<and>
        i = new_item (lit ''omarchy:'' @ package) Item_OMARCHY package (Some installed) (Some candidate) True) \<or>
     (\<exists>candidate. i = new_item (lit ''omarchy:dev-checkout'') Item_OMARCHY
        (lit ''Omarchy development checkout'') None (Some candidate) False)"

lemma parse_omarchy_row_ok:
  assumes "parse_omarchy_row row = Inr (Some i)"
  shows "omarchy_item i"
proof (cases "package_match row")
  case None
  with assms show ?thesis
    by (auto simp: parse_omarchy_row_def omarchy_item_def split: option.splits if_splits)
next
  case (Some m)
  obtain package installed candidate where m: "m = (package, installed, candidate)" by (cases m)
  with Some have "package \<in> {lit ''omarchy'', lit ''omarchy-dev''}" "graphic installed" "graphic candidate"
    by (auto simp: package_match_def split: list.splits if_splits)
  with assms Some m show ?thesis by (auto simp: parse_omarchy_row_def omarchy_item_def)
qed

lemma map_sum_eq_Inr: "map_sum f g s = Inr y \<longleftrightarrow> (\<exists>x. s = Inr x \<and> y = g x)"
  by (cases s) auto

lemma available_rows_ok:
  assumes "available_rows seen rows = Inr (Inr items)"
  shows "(\<forall>i \<in> set items. omarchy_item i) \<and> distinct (map ni_item_id items) \<and>
    ni_item_id ` set items \<inter> seen = {}"
  using assms
proof (induction rows arbitrary: seen items)
  case (Cons row rows)
  from Cons.prems obtain i where i: "parse_omarchy_row row = Inr (Some i)" "ni_item_id i \<notin> seen"
    by (auto split: option.splits if_splits)
  with Cons.prems obtain rest where r: "available_rows (insert (ni_item_id i) seen) rows = Inr (Inr rest)"
    "items = i # rest"
    by (auto simp: map_sum_eq_Inr)
  from Cons.IH [OF r(1)] parse_omarchy_row_ok [OF i(1)] i(2) show ?case by (auto simp: r(2))
qed simp

section \<open>Complete reports\<close>

definition package_row_text :: "ustr \<times> ustr \<times> ustr \<Rightarrow> ustr" where
  "package_row_text = (\<lambda>(package, installed, candidate).
     join (lit '' '') [package, installed, lit ''->'', candidate])"

definition package_row_ok :: "ustr \<times> ustr \<times> ustr \<Rightarrow> bool" where
  "package_row_ok = (\<lambda>(package, installed, candidate).
     package \<in> {lit ''omarchy'', lit ''omarchy-dev''} \<and> graphic installed \<and> graphic candidate)"

definition package_row_item :: "ustr \<times> ustr \<times> ustr \<Rightarrow> NormalizedItem" where
  "package_row_item = (\<lambda>(package, installed, candidate).
     new_item (lit ''omarchy:'' @ package) Item_OMARCHY package (Some installed) (Some candidate) True)"

lemma graphic_plain: "graphic s \<Longrightarrow> 32 \<notin> set s \<and> list_all (\<lambda>c. 33 \<le> c \<and> c \<le> 126) s"
  by (auto simp: graphic_def list_all_iff)

lemma package_graphic: "p \<in> {lit ''omarchy'', lit ''omarchy-dev''} \<Longrightarrow> graphic p" "graphic (lit ''->'')"
  by (auto simp: graphic_def lit_def)

lemma parse_package_row:
  assumes "package_row_ok r"
  shows "parse_omarchy_row (package_row_text r) = Inr (Some (package_row_item r))"
proof -
  obtain package installed candidate where r: "r = (package, installed, candidate)" by (cases r)
  have g: "package \<in> {lit ''omarchy'', lit ''omarchy-dev''}" "graphic installed" "graphic candidate"
    using assms by (auto simp: r package_row_ok_def)
  have "\<forall>x \<in> set [package, installed, lit ''->'', candidate]. 32 \<notin> set x"
    using g package_graphic graphic_plain by auto
  then have "split_on 32 (join [32] [package, installed, lit ''->'', candidate]) =
      [package, installed, lit ''->'', candidate]"
    by (rule split_on_join [rotated]) simp
  moreover have "lit '' '' = [32]" by (simp add: lit_def)
  ultimately show ?thesis
    using g by (simp add: parse_omarchy_row_def package_match_def package_row_text_def package_row_item_def r
        del: join.simps)
qed

lemma package_row_chars:
  assumes "package_row_ok r"
  shows "list_all (\<lambda>c. 32 \<le> c \<and> c \<le> 126) (package_row_text r)"
proof -
  obtain package installed candidate where r: "r = (package, installed, candidate)" by (cases r)
  have "graphic package" "graphic installed" "graphic (lit ''->'')" "graphic candidate"
    using assms package_graphic by (auto simp: r package_row_ok_def)
  then have "list_all (\<lambda>c. 32 \<le> c \<and> c \<le> 126) x" if "x \<in> set [package, installed, lit ''->'', candidate]" for x
    using that by (auto simp: graphic_def list_all_iff)
  then show ?thesis
    unfolding package_row_text_def r prod.case by (intro list_all_join) (auto simp: lit_def)
qed

lemma available_package_rows:
  assumes "\<forall>r \<in> set rows. package_row_ok r" and "distinct (map fst rows)"
    and "\<forall>r \<in> set rows. lit ''omarchy:'' @ fst r \<notin> seen"
  shows "available_rows seen (map package_row_text rows) = Inr (Inr (map package_row_item rows))"
  using assms
proof (induction rows arbitrary: seen)
  case (Cons r rows)
  have "ni_item_id (package_row_item r) = lit ''omarchy:'' @ fst r"
    by (cases r) (simp add: package_row_item_def)
  moreover have "available_rows (insert (lit ''omarchy:'' @ fst r) seen) (map package_row_text rows) =
      Inr (Inr (map package_row_item rows))"
  proof (rule Cons.IH)
    have "fst x \<noteq> fst r" if "x \<in> set rows" for x
      using Cons.prems(2) that by (simp add: image_iff) metis
    then show "\<forall>x \<in> set rows. lit ''omarchy:'' @ fst x \<notin> insert (lit ''omarchy:'' @ fst r) seen"
      using Cons.prems(3) by simp
  qed (use Cons.prems in simp_all)
  ultimately show ?case using Cons.prems parse_package_row [of r] by simp
qed simp

lemma package_report_decoded:
  assumes "\<forall>r \<in> set rows. package_row_ok r"
  shows "splitlines (utf8_replace (utf8_encode (concat (map (\<lambda>r. package_row_text r @ [10]) rows)))) =
    map package_row_text rows"
proof -
  let ?s = "concat (map (\<lambda>l. l @ [10]) (map package_row_text rows))"
  have chars: "\<forall>l \<in> set (map package_row_text rows). list_all (\<lambda>c. 32 \<le> c \<and> c \<le> 126) l"
    using assms package_row_chars by auto
  then have "list_all scalar_value ?s" by (force simp: list_all_iff scalar_value_def)
  then have "utf8_replace (utf8_encode ?s) = ?s" by (intro utf8_replace_decode utf8_decode_encode)
  moreover have "splitlines ?s = map package_row_text rows"
    using chars by (intro splitlines_unlines) (force simp: list_all_iff is_line_break_def)
  ultimately show ?thesis by (simp add: comp_def)
qed

section \<open>The answers\<close>

lemma parse_available_rows_cases:
  assumes "parse_available_rows isprintable home out err = Inr r"
  shows "(\<exists>items. items \<noteq> [] \<and> r = omarchy_available items \<and> distinct (map ni_item_id items) \<and>
      (\<forall>i \<in> set items. omarchy_item i)) \<or>
    (\<exists>m. r = omarchy_failure isprintable home Status_INVALID m out err)"
proof -
  from assms obtain rows where rows: "available_rows {} (splitlines (utf8_replace out)) = Inr rows"
    by (auto simp: parse_available_rows_def bindE_eq_Inr)
  show ?thesis
  proof (cases rows)
    case (Inl m)
    with assms rows have "r = omarchy_failure isprintable home Status_INVALID m out err"
      by (simp add: parse_available_rows_def)
    then show ?thesis by blast
  next
    case (Inr items)
    with assms rows available_rows_ok [of "{}" _ items] show ?thesis
      by (auto simp: parse_available_rows_def split: if_splits)
  qed
qed

lemma collect_omarchy_cases:
  assumes "collect_omarchy_availability isprintable home run = Inr r"
  shows "(run OMARCHY_UPDATE_AVAILABLE [] = CommandExited 1 UP_TO_DATE [] \<and> r = omarchy_available []) \<or>
    (run OMARCHY_UPDATE_AVAILABLE [] \<noteq> CommandExited 1 UP_TO_DATE [] \<and>
      ((\<exists>items. items \<noteq> [] \<and> r = omarchy_available items \<and> distinct (map ni_item_id items) \<and>
          (\<forall>i \<in> set items. omarchy_item i)) \<or>
       (\<exists>st m out err. st \<noteq> Status_OK \<and> r = omarchy_failure isprintable home st m out err)))"
proof (cases "\<exists>out err. run OMARCHY_UPDATE_AVAILABLE [] = CommandSucceeded out err")
  case True
  then obtain out err where run: "run OMARCHY_UPDATE_AVAILABLE [] = CommandSucceeded out err" by blast
  with assms have "parse_available_rows isprintable home out err = Inr r"
    by (simp add: collect_omarchy_availability_def)
  from parse_available_rows_cases [OF this] run show ?thesis by (metis CommandResult.distinct(1) SourceStatus.distinct(11))
next
  case False
  then have "(run OMARCHY_UPDATE_AVAILABLE [] = CommandExited 1 UP_TO_DATE [] \<and> r = omarchy_available []) \<or>
      (run OMARCHY_UPDATE_AVAILABLE [] \<noteq> CommandExited 1 UP_TO_DATE [] \<and>
       (\<exists>st m out err. st \<noteq> Status_OK \<and> omarchy_failure isprintable home st m out err = r))"
    using assms
    by (cases "run OMARCHY_UPDATE_AVAILABLE []")
      (auto simp: collect_omarchy_availability_def split: if_splits intro: exI [of _ Status_ERROR]
        exI [of _ Status_TIMEOUT] exI [of _ Status_MISSING_DEPENDENCY])
  then show ?thesis by blast
qed

lemma omarchy_failure_bounded:
  "oa_items (omarchy_failure isprintable home st m out err) = []"
  "oa_status (omarchy_failure isprintable home st m out err) = st"
  "\<exists>d. oa_diagnostic (omarchy_failure isprintable home st m out err) = Some d \<and> length d \<le> 512 \<and> credential_free d"
  using redact_tokens_free credential_free_take
  by (simp_all add: omarchy_failure_def omarchy_diagnostic_def redact_diagnostic_def)

text \<open>
  The Omarchy adapter reads its command exactly. A success without items is the one answer that says so, exit
  status 1 with the fixed line; every item is one of the two packages or the development checkout, under
  distinct ids; whatever else the command does gives no items, a status other than ok and a bounded
  diagnostic without credentials; and the rows of any of the packages are collected as they are.
\<close>

theorem omarchy_report_exact:
  "(collect_omarchy_availability isprintable home run = Inr r \<longrightarrow>
      distinct (map ni_item_id (oa_items r)) \<and> (\<forall>i \<in> set (oa_items r). omarchy_item i) \<and>
      (oa_status r = Status_OK \<and> oa_items r = [] \<longleftrightarrow> run OMARCHY_UPDATE_AVAILABLE [] = CommandExited 1 UP_TO_DATE []) \<and>
      (oa_status r \<noteq> Status_OK \<longrightarrow> oa_items r = []) \<and> (oa_status r = Status_OK \<longleftrightarrow> oa_diagnostic r = None) \<and>
      (\<forall>m. oa_diagnostic r = Some m \<longrightarrow> length m \<le> 512 \<and> credential_free m)) \<and>
   (\<forall>rows err. rows \<noteq> [] \<and> distinct (map fst rows) \<and> (\<forall>row \<in> set rows. package_row_ok row) \<and>
      run OMARCHY_UPDATE_AVAILABLE [] =
        CommandSucceeded (utf8_encode (concat (map (\<lambda>row. package_row_text row @ [10]) rows))) err \<longrightarrow>
      collect_omarchy_availability isprintable home run = Inr (omarchy_available (map package_row_item rows)))"
proof (intro conjI impI allI)
  assume "collect_omarchy_availability isprintable home run = Inr r"
  note cases = collect_omarchy_cases [OF this]
  note bounded = omarchy_failure_bounded [of isprintable home]
  show "distinct (map ni_item_id (oa_items r))" "\<forall>i \<in> set (oa_items r). omarchy_item i"
    using cases bounded(1) by (auto simp: omarchy_available_def)
  show "oa_status r = Status_OK \<and> oa_items r = [] \<longleftrightarrow> run OMARCHY_UPDATE_AVAILABLE [] = CommandExited 1 UP_TO_DATE []"
    using cases bounded(2) by (auto simp: omarchy_available_def)
  show "oa_items r = []" if "oa_status r \<noteq> Status_OK"
    using cases bounded(1) that by (auto simp: omarchy_available_def)
  show "oa_status r = Status_OK \<longleftrightarrow> oa_diagnostic r = None"
    using cases bounded(2, 3) by (auto simp: omarchy_available_def omarchy_failure_def)
  have "length m \<le> 512 \<and> credential_free m" if "oa_diagnostic r = Some m" for m
  proof -
    have "r \<noteq> omarchy_available items" for items using that by (auto simp: omarchy_available_def)
    with cases obtain st d out err where "r = omarchy_failure isprintable home st d out err" by blast
    with bounded(3) [of st d out err] that show ?thesis by auto
  qed
  then show "length m \<le> 512" "credential_free m" if "oa_diagnostic r = Some m" for m
    using that by simp_all
next
  fix rows err
  assume "rows \<noteq> [] \<and> distinct (map fst rows) \<and> (\<forall>row \<in> set rows. package_row_ok row) \<and>
      run OMARCHY_UPDATE_AVAILABLE [] =
        CommandSucceeded (utf8_encode (concat (map (\<lambda>row. package_row_text row @ [10]) rows))) err"
  then show "collect_omarchy_availability isprintable home run = Inr (omarchy_available (map package_row_item rows))"
    by (simp add: collect_omarchy_availability_def parse_available_rows_def package_report_decoded available_package_rows)
qed

end
