(* ===== verification/Runtime_Scan.thy ===== *)
theory Runtime_Scan
  imports Scan_Coordinator Security_Facts Adapter_Omarchy
begin

text \<open>
  The production collector of \<open>scan_types.py\<close>, which wires the adapters to the command runner, to the
  endpoint fetcher with the transport cache of each feed, and to the feed store; and the scan with it. The
  collector touches the feed and transport files only, so that a scan publishes all or nothing, and its
  outcomes are well formed, so that what it builds passes the checks of the protocol.
\<close>

section \<open>The collector\<close>

text \<open>
  What a process finds around it: the Unicode table behind \<open>isprintable\<close>, the parser of ISO timestamps, the
  home directory, the command runner and the network as each endpoint meets it.
\<close>

record Surroundings =
  sd_isprintable :: "nat \<Rightarrow> bool"
  sd_aware :: "ustr \<Rightarrow> bool"
  sd_home :: ustr
  sd_run :: runner
  sd_network :: "EndpointName \<Rightarrow> Network"

definition runtime_fetch :: "Surroundings \<Rightarrow> fetcher" where
  "runtime_fetch sd name =
     (case name of
        Endpoint_ARCH_SECURITY \<Rightarrow> fetch_endpoint (sd_network sd name) (sd_home sd) name Feed_ARCH_SECURITY
      | Endpoint_CISA_KEV \<Rightarrow> fetch_endpoint (sd_network sd name) (sd_home sd) name Feed_CISA_KEV)"

definition runtime_collector :: "Surroundings \<Rightarrow> ScanCollector" where
  "runtime_collector sd =
     \<lparr>collect_omarchy = collect_omarchy_availability (sd_isprintable sd) (sd_home sd) (sd_run sd),
      collect_arch = collect_official_updates (sd_run sd),
      collect_aur = collect_aur_updates (sd_run sd),
      collect_flatpak_scopes = collect_flatpak (sd_isprintable sd) (\<lambda>name. sd_run sd name []),
      collect_mise = collect_mise_updates (sd_run sd),
      collect_security = collect_security_findings (sd_aware sd) (sd_isprintable sd) (sd_run sd)
        (runtime_fetch sd) True\<rparr>"

section \<open>Files the collector leaves alone\<close>

text \<open>An action that leaves the state and the generation file alone, and how such actions compose.\<close>

definition keeps_files :: "'a act \<Rightarrow> bool" where
  "keeps_files m \<longleftrightarrow> (\<forall>d. d_state (snd (m d)) = d_state d \<and> d_generation (snd (m d)) = d_generation d)"

named_theorems keeps

lemma keeps_ret [keeps]: "keeps_files (retA x)"
  by (simp add: keeps_files_def)

lemma keeps_lift [keeps]: "keeps_files (liftA r)"
  by (simp add: keeps_files_def liftA_def)

lemma keeps_bind [keeps]:
  assumes "keeps_files m" and "\<And>x. keeps_files (f x)"
  shows "keeps_files (bindA m f)"
  unfolding keeps_files_def
proof
  fix d
  obtain r d1 where m: "m d = (r, d1)" by fastforce
  with assms(1) have "d_state d1 = d_state d \<and> d_generation d1 = d_generation d"
    unfolding keeps_files_def by (metis snd_conv)
  with m assms(2) show "d_state (snd (bindA m f d)) = d_state d \<and> d_generation (snd (bindA m f d)) = d_generation d"
    by (cases r) (simp_all add: bindA_def keeps_files_def)
qed

lemma keeps_feeds [keeps]:
  "keeps_files (write_last_good_feed feed body validator)" "keeps_files (read_confirmed_feed feed validator)"
proof -
  show "keeps_files (write_last_good_feed feed body validator)"
    by (simp add: keeps_files_def write_last_good_feed_def)
  show "keeps_files (read_confirmed_feed feed validator)"
    unfolding keeps_files_def
  proof
    fix d
    from read_confirmed_feed_frame [of feed validator d] obtain f where
      "snd (read_confirmed_feed feed validator d) = d\<lparr>d_feed := f\<rparr>" by blast
    then show "d_state (snd (read_confirmed_feed feed validator d)) = d_state d \<and>
        d_generation (snd (read_confirmed_feed feed validator d)) = d_generation d" by simp
  qed
qed

lemma keeps_fetch [keeps]: "keeps_files (runtime_fetch sd name)"
proof -
  have "keeps_files (fetch_endpoint net home n feed)" for net home n feed
    unfolding keeps_files_def
  proof
    fix d
    have "transport_only feed d (snd (fetch_endpoint net home n feed d))" by (rule fetch_endpoint_transport)
    then obtain b m where "snd (fetch_endpoint net home n feed d) =
        d\<lparr>d_transport_body := b, d_transport_metadata := m\<rparr>" unfolding transport_only_def by blast
    then show "d_state (snd (fetch_endpoint net home n feed d)) = d_state d \<and>
        d_generation (snd (fetch_endpoint net home n feed d)) = d_generation d" by simp
  qed
  then show ?thesis by (cases name) (simp_all add: runtime_fetch_def [abs_def])
qed

lemma runtime_collector_feeds_only: "feeds_only (collect_security (runtime_collector sd))"
proof -
  have "keeps_files (security_fallback isprintable (runtime_fetch sd) stored)" for isprintable stored
    unfolding security_fallback_def
    by (intro keeps) (auto split: EndpointResult.split sum.split option.split intro!: keeps)
  then have "keeps_files (security_evidence isprintable run (runtime_fetch sd) stored)" for isprintable run stored
    unfolding security_evidence_def by (intro keeps) (auto split: sum.split intro!: keeps)
  moreover have "keeps_files (security_kev aware isprintable (runtime_fetch sd) stored)" for aware isprintable stored
    unfolding security_kev_def
    by (intro keeps) (auto split: EndpointResult.split sum.split option.split intro!: keeps)
  ultimately have "keeps_files (collect_security_findings aware isprintable run (runtime_fetch sd) stored enable)"
    for aware isprintable run stored enable
    unfolding collect_security_findings_def
    by (auto split: sum.split intro!: keeps)
  then show ?thesis by (simp add: feeds_only_def runtime_collector_def keeps_files_def)
qed

section \<open>Well-formed outcomes\<close>

text \<open>
  What every collected item satisfies, whatever the length of its names, and an outcome all of whose items
  are of this kind, belong to it and have different ids.
\<close>

definition item_shaped :: "NormalizedItem \<Rightarrow> bool" where
  "item_shaped i \<longleftrightarrow> \<not> ni_watch_armed i \<and> prefix (item_source_value (ni_source i) @ lit '':'') (ni_item_id i)"

definition outcome_shaped :: "SourceOutcome \<Rightarrow> bool" where
  "outcome_shaped oc \<longleftrightarrow> owned_items oc \<and> distinct (map ni_item_id (so_items oc)) \<and>
     (\<forall>i \<in> set (so_items oc). item_shaped i)"

lemma no_items_shaped: "so_items oc = [] \<Longrightarrow> outcome_shaped oc"
  by (simp add: outcome_shaped_def owned_items_def)

lemma items_shaped:
  assumes "so_items oc = items" and "distinct (map ni_item_id items)"
    and "\<And>i. i \<in> set items \<Longrightarrow> item_shaped i \<and> belongs_to i (so_source oc) (so_scope oc)"
  shows "outcome_shaped oc"
  using assms by (auto simp: outcome_shaped_def owned_items_def)

lemma shaped_package_item: "package_item source i \<Longrightarrow> item_shaped i"
  by (simp add: package_item_def item_shaped_def prefix_def)

lemma package_items_shaped:
  assumes "so_items oc = items" and "distinct (map ni_label items)"
    and "\<And>i. i \<in> set items \<Longrightarrow> package_item source i"
    and "\<And>i. ni_source i = source \<Longrightarrow> belongs_to i (so_source oc) (so_scope oc)"
  shows "outcome_shaped oc"
proof (rule items_shaped [OF assms(1)])
  have "map ni_item_id items = map ((\<lambda>l. item_source_value source @ lit '':'' @ l) \<circ> ni_label) items"
    using assms(3) by (auto simp: package_item_def)
  with assms(2) show "distinct (map ni_item_id items)" by (simp add: distinct_map inj_on_def flip: map_map)
  show "item_shaped i \<and> belongs_to i (so_source oc) (so_scope oc)" if "i \<in> set items" for i
    using assms(3, 4) that by (simp add: shaped_package_item package_item_def)
qed

lemma shaped_omarchy_item: "omarchy_item i \<Longrightarrow> item_shaped i \<and> ni_source i = Item_OMARCHY"
  by (auto simp: omarchy_item_def item_shaped_def lit_def prefix_def)

lemma omarchy_outcome_shaped:
  assumes "collect_omarchy_availability isprintable home run = Inr r"
  shows "outcome_shaped (omarchy_outcome r)"
proof (rule items_shaped)
  have items: "so_items (omarchy_outcome r) = [] \<or> so_items (omarchy_outcome r) = oa_items r"
    by (cases "oa_status r")
      (simp_all add: omarchy_outcome_def from_status_def current_outcome_def not_applicable_def failure_outcome_def)
  show "distinct (map ni_item_id (so_items (omarchy_outcome r)))"
    using items collect_omarchy_cases [OF assms] by (auto simp: omarchy_available_def omarchy_failure_def)
  fix i
  assume "i \<in> set (so_items (omarchy_outcome r))"
  with items collect_omarchy_cases [OF assms] have "omarchy_item i"
    by (auto simp: omarchy_available_def omarchy_failure_def)
  with omarchy_outcome_for [of r] show "item_shaped i \<and>
      belongs_to i (so_source (omarchy_outcome r)) (so_scope (omarchy_outcome r))"
    by (simp add: shaped_omarchy_item belongs_to_def outcome_for_def)
qed simp

lemma arch_outcome_shaped: "outcome_shaped (arch_outcome (collect_official_updates run))"
proof (cases "\<exists>items. collect_official_updates run = Inr items \<and> items \<noteq> []")
  case True
  then obtain items where c: "collect_official_updates run = Inr items" "items \<noteq> []" by blast
  from collect_official_updates_items [OF this] have
    "distinct (map ni_label items)" "\<And>i. i \<in> set items \<Longrightarrow> package_item Item_ARCH i" by blast+
  then show ?thesis
    by (rule package_items_shaped [rotated]) (simp_all add: c arch_outcome_def current_outcome_def belongs_to_def)
next
  case False
  then show ?thesis
    by (intro no_items_shaped)
      (auto simp: arch_outcome_def current_outcome_def arch_failure_def failure_outcome_def
        split: sum.splits ArchFailure.splits)
qed

lemma aur_outcome_shaped: "outcome_shaped (aur_outcome (collect_aur_updates run))"
proof (cases "\<exists>helper items. collect_aur_updates run = AurCollected helper items")
  case True
  then obtain helper items where c: "collect_aur_updates run = AurCollected helper items" by blast
  from collect_aur_items [OF this] have
    "distinct (map ni_label items)" "\<And>i. i \<in> set items \<Longrightarrow> package_item Item_AUR i" by blast+
  then show ?thesis
    by (rule package_items_shaped [rotated]) (simp_all add: c aur_outcome_def current_outcome_def belongs_to_def)
next
  case False
  then show ?thesis
    by (intro no_items_shaped)
      (auto simp: aur_outcome_def not_applicable_def arch_failure_def failure_outcome_def
        split: AurResult.splits ArchFailure.splits)
qed

lemma flatpak_outcome_shaped:
  "outcome_shaped (flatpak_scope_outcome (collect_scope isprintable commands run))"
proof (rule items_shaped)
  let ?r = "collect_scope isprintable commands run"
  let ?oc = "flatpak_scope_outcome ?r"
  have items: "so_items ?oc = [] \<or> so_items ?oc = map fp_item (fs_records ?r)"
    by (cases "fs_status ?r")
      (simp_all add: flatpak_scope_outcome_def Let_def current_outcome_def not_applicable_def failure_outcome_def)
  have ids: "map (ni_item_id \<circ> fp_item) (fs_records ?r) =
      map ((\<lambda>x. lit ''flatpak:'' @ scope_value (sco_scope commands) @ lit '':'' @ x) \<circ> fp_ref) (fs_records ?r)"
    using collect_scope_ok [of isprintable commands run] by (auto simp: records_ok_def scope_record_def)
  have "distinct (map (ni_item_id \<circ> fp_item) (fs_records ?r))"
    unfolding ids using collect_scope_ok [of isprintable commands run]
    by (simp add: records_ok_def distinct_map inj_on_def flip: map_map)
  with items show "distinct (map ni_item_id (so_items ?oc))" by auto
  fix i
  assume "i \<in> set (so_items ?oc)"
  with items obtain r where "r \<in> set (fs_records ?r)" "i = fp_item r" by auto
  with collect_scope_ok [of isprintable commands run]
  have i: "ni_item_id i = lit ''flatpak:'' @ scope_value (sco_scope commands) @ lit '':'' @ fp_ref r"
    "ni_source i = Item_FLATPAK" "\<not> ni_watch_armed i" and s: "fs_scope ?r = sco_scope commands"
    by (auto simp: records_ok_def scope_record_def)
  have "prefix (item_source_value Item_FLATPAK @ lit '':'') (ni_item_id i)"
    unfolding i(1) by (simp add: lit_def)
  moreover have "prefix (lit ''flatpak:'' @ scope_value (sco_scope commands) @ lit '':'') (ni_item_id i)"
    unfolding i(1) by (simp add: prefix_def)
  ultimately show "item_shaped i \<and> belongs_to i (so_source ?oc) (so_scope ?oc)"
    using flatpak_scope_outcome_for [of ?r] i(2, 3) s by (simp add: item_shaped_def belongs_to_def outcome_for_def)
qed simp

lemma mise_outcome_shaped:
  assumes "collect_mise_updates run = Inr r"
  shows "outcome_shaped (mise_outcome r)"
proof (cases "\<exists>rs. r = MiseCollected rs")
  case True
  then obtain rs where r: "r = MiseCollected rs" by blast
  with assms obtain s v where v: "decode_json s = Inr v" "mise_document v = MiseCollected rs"
    by (auto simp: collect_mise_updates_def parse_mise_output_def
        split: CommandResult.splits option.splits sum.splits exn.splits)
  from mise_document_collected [OF v(2) decode_json_bounds(2) [OF v(1)]] obtain ps where
    ps: "distinct (map (ni_item_id \<circ> mr_item) rs)"
      "list_all2 (\<lambda>p r. parse_mise_record (fst p) (snd p) = Inr r) ps rs" .
  show ?thesis
  proof (rule items_shaped)
    show "so_items (mise_outcome r) = map mr_item rs" by (simp add: mise_outcome_def r current_outcome_def)
    show "distinct (map ni_item_id (map mr_item rs))" using ps(1) by simp
    fix i
    assume "i \<in> set (map mr_item rs)"
    then obtain k where "k < length rs" "i = mr_item (rs ! k)" by (auto simp: in_set_conv_nth)
    moreover from this have "parse_mise_record (fst (ps ! k)) (snd (ps ! k)) = Inr (rs ! k)"
      using list_all2_nthD2 [OF ps(2)] by simp
    then obtain key requested current latest where "rs ! k = mise_record key requested current latest"
      by (rule parse_mise_record_ok)
    ultimately show "item_shaped i \<and> belongs_to i (so_source (mise_outcome r)) (so_scope (mise_outcome r))"
      by (simp add: r mise_outcome_def current_outcome_def belongs_to_def item_shaped_def lit_def)
  qed
next
  case False
  then show ?thesis
    by (intro no_items_shaped)
      (auto simp: mise_outcome_def not_applicable_def failure_outcome_def split: MiseResult.splits)
qed

section \<open>What the collector hands to the assembly\<close>

lemma bindA_ok: "bindA m f d = (Inr w, d') \<longleftrightarrow> (\<exists>x d1. m d = (Inr x, d1) \<and> f x d1 = (Inr w, d'))"
  by (auto simp: bindA_def split: prod.split sum.split)

lemma outcome_if_due_ok:
  "outcome_if_due is_due outcome collected = Inr r \<longleftrightarrow>
     (if is_due then \<exists>x. collected = Inr x \<and> r = Some (outcome x) else r = None)"
  by (auto simp: outcome_if_due_def)

text \<open>
  The bound of the protocol on identifiers, which the adapters do not enforce: it holds for the ids and
  labels of the collected items and for the installed versions of the official packages.
\<close>

definition scan_bounded :: "Surroundings \<Rightarrow> ScanInputs \<Rightarrow> bool" where
  "scan_bounded sd inputs \<longleftrightarrow>
     (\<forall>oc \<in> set (collect_some (\<lambda>oc. oc) (outcomes_of inputs)).
        \<forall>i \<in> set (so_items oc). identifier_ok (ni_item_id i) \<and> identifier_ok (ni_label i)) \<and>
     (case collect_official_inventory (sd_run sd) of
        Inl _ \<Rightarrow> True
      | Inr inventory \<Rightarrow> \<forall>pkg \<in> set inventory. identifier_ok (pr_installed pkg))"

lemma security_result_findings:
  assumes "collect_security_findings aware isprintable run fetch stored enable d = (Inr r, d')"
    and "\<And>inventory pkg. collect_official_inventory run = Inr inventory \<Longrightarrow> pkg \<in> set inventory \<Longrightarrow>
      identifier_ok (pr_installed pkg)"
  shows "findings_ok (so_findings (fst (security_outcomes r)))"
proof (cases r)
  case (SecurityCollected groups provenance kev)
  from collect_security_findings_parts [OF assms(1) [unfolded SecurityCollected]]
  obtain inventory advisories found d1 where
    p: "collect_official_inventory run = Inr inventory"
      "security_evidence isprintable run fetch stored d = (Inr (Inr (advisories, provenance)), d1)"
      "correlate_loop run provenance (dict_of pr_name id inventory) (advisory_packages advisories) = Inr found"
      "groups = enrich_kev kev (group_findings found)" .
  have "correlated run provenance inventory advisories found"
    using official_inventory_ok [OF p(1)] security_evidence_sound(2) [OF p(2)] p(3) by (simp add: correlated_def)
  then have "findings_ok groups" unfolding p(4) by (intro enrich_kev_ok groups_findings_ok assms(2) [OF p(1)])
  then show ?thesis by (simp add: SecurityCollected security_outcomes_def current_outcome_def)
next
  case (SecurityArchUnavailable diagnostic)
  then show ?thesis by (simp add: security_outcomes_def failure_outcome_def)
qed

lemma security_outcomes_shaped:
  "outcome_shaped (fst (security_outcomes r)) \<and> outcome_shaped (snd (security_outcomes r))"
  by (cases r)
    (auto simp: security_outcomes_def current_outcome_def not_applicable_def failure_outcome_def
      intro: no_items_shaped split: Kev.split)

text \<open>What an outcome of an identity satisfies.\<close>

definition collected_for :: "SourceOutcome option \<Rightarrow> SourceName \<times> SourceScope option \<Rightarrow> bool" where
  "collected_for current identity =
     (case current of None \<Rightarrow> True
      | Some oc \<Rightarrow> outcome_for (fst identity) (snd identity) oc \<and> outcome_shaped oc \<and> findings_ok (so_findings oc))"

lemma collected_for_simps:
  "collected_for None identity"
  "collected_for (Some oc) (source, scope) \<longleftrightarrow>
     outcome_for source scope oc \<and> outcome_shaped oc \<and> findings_ok (so_findings oc)"
  by (simp_all add: collected_for_def)

lemma collected_without_findings:
  "outcome_for source scope oc \<Longrightarrow> outcome_shaped oc \<Longrightarrow> source \<noteq> Src_SECURITY \<Longrightarrow>
   collected_for (Some oc) (source, scope)"
  by (auto simp: collected_for_simps outcome_for_def)

lemma map_Some_pair: "map_prod Some Some p = (a, b) \<longleftrightarrow> a = Some (fst p) \<and> b = Some (snd p)"
  by (cases p) auto

lemma scan_security_collected:
  assumes "scan_security (runtime_collector sd) security_due cisa_due enable d = (Inr (security, kev), d')"
    and "\<And>inventory pkg. collect_official_inventory (sd_run sd) = Inr inventory \<Longrightarrow> pkg \<in> set inventory \<Longrightarrow>
      identifier_ok (pr_installed pkg)"
  shows "collected_for security (Src_SECURITY, None) \<and> collected_for kev (Src_CISA_KEV, None)"
proof -
  have collected: "collected_for (Some (fst (security_outcomes r))) (Src_SECURITY, None) \<and>
      collected_for (Some (snd (security_outcomes r))) (Src_CISA_KEV, None)"
    if "collect_security (runtime_collector sd) enable' d = (Inr r, d1)" for enable' r d d1
  proof
    have "findings_ok (so_findings (fst (security_outcomes r)))"
      using that by (intro security_result_findings [OF _ assms(2)]) (auto simp: runtime_collector_def)
    then show "collected_for (Some (fst (security_outcomes r))) (Src_SECURITY, None)"
      by (simp add: collected_for_simps security_outcomes_for security_outcomes_shaped)
    show "collected_for (Some (snd (security_outcomes r))) (Src_CISA_KEV, None)"
      by (rule collected_without_findings) (simp_all add: security_outcomes_for security_outcomes_shaped)
  qed
  have "collected_for (Some (not_applicable Src_CISA_KEV None)) (Src_CISA_KEV, None)"
    by (rule collected_without_findings [OF not_applicable_for no_items_shaped]) (simp_all add: not_applicable_def)
  with assms(1) collected show ?thesis
    by (auto simp: scan_security_def retA_def bindA_ok collected_for_simps(1) map_Some_pair split: if_splits)
qed

lemma scan_inputs_collected:
  assumes c: "scan_inputs (runtime_collector sd) metadata now request d = (Inr inputs, d')"
    and b: "scan_bounded sd inputs"
  shows "list_all2 collected_for (outcomes_of inputs) identities"
proof -
  let ?c = "runtime_collector sd"
  define is_due where "is_due = (\<lambda>source. source_due source metadata now (rq_force request))"
  obtain user sys where flatpak: "scan_flatpak ?c (is_due Src_FLATPAK) = (user, sys)" by fastforce
  obtain omarchy mise security kev d1 where
    o: "outcome_if_due (is_due Src_OMARCHY) omarchy_outcome (collect_omarchy ?c) = Inr omarchy" and
    m: "outcome_if_due (is_due Src_MISE) mise_outcome (collect_mise ?c) = Inr mise" and
    s: "scan_security ?c (is_due Src_SECURITY) (is_due Src_CISA_KEV) (rq_enable_cisa_kev request) d =
      (Inr (security, kev), d1)" and
    i: "outcomes_of inputs =
      [omarchy, if is_due Src_ARCH then Some (arch_outcome (collect_arch ?c)) else None,
       if is_due Src_AUR then Some (aur_outcome (collect_aur ?c)) else None, user, sys, mise, security, kev]"
    using c flatpak unfolding scan_inputs_def is_due_def
    by (auto simp: Let_def bindA_ok liftA_def retA_def outcomes_of_def split: prod.splits)
  have "collected_for omarchy (Src_OMARCHY, None)"
    using o by (auto simp: outcome_if_due_ok runtime_collector_def collected_for_simps(1) split: if_splits
        intro!: collected_without_findings omarchy_outcome_for omarchy_outcome_shaped)
  moreover have "collected_for mise (Src_MISE, None)"
    using m by (auto simp: outcome_if_due_ok runtime_collector_def collected_for_simps(1) split: if_splits
        intro!: collected_without_findings mise_outcome_for mise_outcome_shaped)
  moreover have "collected_for (Some (arch_outcome (collect_arch ?c))) (Src_ARCH, None)"
    by (auto simp: runtime_collector_def intro!: collected_without_findings arch_outcome_for arch_outcome_shaped)
  moreover have "collected_for (Some (aur_outcome (collect_aur ?c))) (Src_AUR, None)"
    by (auto simp: runtime_collector_def intro!: collected_without_findings aur_outcome_for aur_outcome_shaped)
  moreover have "collected_for user (Src_FLATPAK, Some Scope_USER) \<and> collected_for sys (Src_FLATPAK, Some Scope_SYSTEM)"
  proof -
    have "collected_for (Some (flatpak_scope_outcome (collect_scope p commands run))) (Src_FLATPAK, Some (sco_scope commands))"
      for p commands run
      using flatpak_scope_outcome_for [of "collect_scope p commands run"] collect_scope_ok [of p commands run]
      by (auto intro!: collected_without_findings flatpak_outcome_shaped)
    from this [of _ user_commands] this [of _ system_commands] flatpak show ?thesis
      by (auto simp: scan_flatpak_def runtime_collector_def collect_flatpak_def flatpak_outcomes_def
          user_commands_def system_commands_def collected_for_simps(1) split: if_splits)
  qed
  moreover have "collected_for security (Src_SECURITY, None) \<and> collected_for kev (Src_CISA_KEV, None)"
    by (rule scan_security_collected [OF s]) (use b in \<open>auto simp: scan_bounded_def split: sum.splits\<close>)
  ultimately show ?thesis unfolding i identities_def by (simp add: collected_for_simps(1))
qed

section \<open>No duplicate ids\<close>

lemma source_prefix_unique:
  assumes "prefix (item_source_value s @ lit '':'') x" and "prefix (item_source_value t @ lit '':'') x"
  shows "s = t"
proof -
  from assms have "prefix (item_source_value s @ lit '':'') (item_source_value t @ lit '':'') \<or>
      prefix (item_source_value t @ lit '':'') (item_source_value s @ lit '':'')"
    by (rule prefix_same_cases)
  then show ?thesis by (cases s; cases t) (simp_all flip: lit_append)
qed

text \<open>Items of an outcome as it enters the snapshot: of the identity, with the prefix of their source, distinct.\<close>

definition items_of :: "SourceName \<times> SourceScope option \<Rightarrow> NormalizedItem list \<Rightarrow> bool" where
  "items_of identity items \<longleftrightarrow> distinct (map ni_item_id items) \<and>
     (\<forall>i \<in> set items. belongs_to i (fst identity) (snd identity) \<and>
        prefix (item_source_value (ni_source i) @ lit '':'') (ni_item_id i))"

lemma items_of_disjoint:
  assumes "items_of a xs" and "items_of b ys" and "a \<in> set identities" and "b \<in> set identities" and "a \<noteq> b"
  shows "ni_item_id ` set xs \<inter> ni_item_id ` set ys = {}"
proof -
  have False if "x \<in> set xs" "y \<in> set ys" "ni_item_id x = ni_item_id y" for x y
  proof -
    have x: "belongs_to x (fst a) (snd a)" "prefix (item_source_value (ni_source x) @ lit '':'') (ni_item_id x)"
      using assms(1) that(1) by (auto simp: items_of_def)
    have y: "belongs_to y (fst b) (snd b)" "prefix (item_source_value (ni_source y) @ lit '':'') (ni_item_id y)"
      using assms(2) that(2) by (auto simp: items_of_def)
    have "ni_source x = ni_source y" by (rule source_prefix_unique [OF x(2)]) (simp add: that(3) y(2))
    then have "belongs_to x (fst b) (snd b)" using y(1) that(3) belongs_to_cong [of x y "fst b" "snd b"] by simp
    with assms(3-5) x(1) belongs_to_unique [of a b x] show False by simp
  qed
  then show ?thesis by blast
qed

lemma concat_items_distinct:
  assumes "list_all2 (\<lambda>r a. items_of a (ro_items r)) rs ids" and "distinct ids" and "set ids \<subseteq> set identities"
  shows "distinct (map ni_item_id (concat (map ro_items rs)))"
  using assms
proof (induction rule: list_all2_induct)
  case (Cons r rs a ids)
  have "ni_item_id ` set (ro_items r) \<inter> ni_item_id ` set (ro_items q) = {}" if "q \<in> set rs" for q
  proof -
    from list_all2_in1 [OF Cons.hyps(2) that] obtain b where "b \<in> set ids" "items_of b (ro_items q)" by blast
    with Cons.hyps(1) Cons.prems show ?thesis by (intro items_of_disjoint [of a _ b]) auto
  qed
  then have "ni_item_id ` set (ro_items r) \<inter> ni_item_id ` set (concat (map ro_items rs)) = {}" by auto
  with Cons show ?case by (simp add: items_of_def)
qed simp

lemma last_good_items_of:
  assumes "snapshot_ok snap"
  shows "items_of (source, scope) (last_good_items snap source scope)"
proof -
  have "distinct (map ni_item_id (sp_items (sr_payload snap)))"
    using assms by (auto simp: snapshot_ok_def validate_response_def validate_snapshot_def)
  then have "distinct (map ni_item_id (last_good_items snap source scope))"
    by (simp add: last_good_items_def comp_def distinct_map_filter)
  moreover have "prefix (item_source_value (ni_source i) @ lit '':'') (ni_item_id i)"
    if "i \<in> set (last_good_items snap source scope)" for i
    using last_good_items_ok [OF assms that] by (simp add: base_item_ok_def)
  ultimately show ?thesis by (simp add: items_of_def last_good_items_belong)
qed

lemma resolve_items_of:
  assumes "resolve current source scope previous now = Inr r" and "collected_for current (source, scope)"
    and "previous_ok previous"
  shows "items_of (source, scope) (ro_items r)"
proof -
  have "items_of (source, scope) []" by (simp add: items_of_def)
  moreover have "items_of (source, scope) (so_items oc)" if "current = Some oc" for oc
    using assms(2) that
    by (auto simp: collected_for_simps outcome_for_def outcome_shaped_def owned_items_def items_of_def item_shaped_def)
  ultimately show ?thesis
    using assms(1, 3) last_good_items_of [of _ source scope]
    by (auto simp: resolve_def cached_outcome_def Let_def previous_ok_def split: option.splits if_splits)
qed

lemma normalized_items_exist:
  assumes r: "resolve_all (outcomes_of i) previous now = Inr rs" and p: "previous_ok previous"
    and c: "list_all2 collected_for (outcomes_of i) identities"
  shows "\<exists>items. normalized_items rs = Inr items"
proof -
  have len: "length (outcomes_of i) = length identities" using c by (rule list_all2_lengthD)
  have "mapE (\<lambda>(current, source, scope). resolve current source scope previous now)
      (zip (outcomes_of i) identities) = Inr rs" using r by (auto simp: resolve_all_def)
  then have "list_all2 (\<lambda>r a. items_of a (ro_items r)) rs identities"
    using len
  proof (rule list_all2_mapE_zip)
    fix current q and a :: "SourceName \<times> SourceScope option"
    assume "(current, a) \<in> set (zip (outcomes_of i) identities)"
      and res: "(\<lambda>(current, source, scope). resolve current source scope previous now) (current, a) = Inr q"
    with c have "collected_for current a" by (auto simp: list_all2_iff)
    with res p show "items_of a (ro_items q)" by (cases a) (auto intro: resolve_items_of)
  qed
  then have "distinct (map ni_item_id (concat (map ro_items rs)))"
    by (rule concat_items_distinct) (simp_all add: identities_def)
  then show ?thesis by (simp add: normalized_items_def Let_def comp_def distinct_map_filter)
qed

section \<open>The scan with the production collector\<close>

lemma collected_inputs:
  assumes "list_all2 collected_for (outcomes_of inputs) identities" and "scan_bounded sd inputs"
  shows "inputs_ok inputs" and "inputs_evidence_ok inputs"
proof -
  have input: "input_for current a" if "collected_for current a" for current a
    using that by (auto simp: collected_for_def input_for_def split: option.splits)
  with assms(1) show "inputs_ok inputs" unfolding inputs_ok_def by (rule list_all2_mono)
  have "evidence_ok oc" if oc: "Some oc \<in> set (outcomes_of inputs)" for oc
  proof -
    from list_all2_in1 [OF assms(1) oc] obtain a where "collected_for (Some oc) a" by blast
    then have shaped: "\<forall>i \<in> set (so_items oc). item_shaped i" "findings_ok (so_findings oc)"
      by (auto simp: collected_for_def outcome_shaped_def)
    have "oc \<in> set (collect_some (\<lambda>oc. oc) (outcomes_of inputs))" using oc by (auto simp: in_set_collect_some)
    with assms(2) have "\<forall>i \<in> set (so_items oc). identifier_ok (ni_item_id i) \<and> identifier_ok (ni_label i)"
      by (simp add: scan_bounded_def)
    with shaped show ?thesis by (auto simp: evidence_ok_def base_item_ok_def item_shaped_def)
  qed
  then show "inputs_evidence_ok inputs" by (simp add: inputs_evidence_ok_def)
qed

text \<open>
  C15: What the production collector gathers can always be published. Whatever the commands print and the
  network answers, if the scan gets as far as the assembly and names and versions are within the identifier
  bound of the protocol, then the assembly raises nothing, over any previous generation that was valid:
  the ids of all sources together are distinct, the snapshot and the four inventories pass the
  validation of the protocol, and the generation is again a valid previous one. The items are sorted by
  id, and the inventories together with the omarchy items are all of them.
\<close>

theorem runtime_scan_publishable:
  assumes c: "scan_inputs (runtime_collector sd) metadata now request d = (Inr inputs, d')"
    and b: "scan_bounded sd inputs" and p: "previous_ok previous" and gid: "identifier_ok gid"
  shows "\<exists>g. build_generation gid order inputs previous state now = Inr g \<and>
    validate_response (SnapshotResp (gb_snapshot g)) = Inr () \<and> previous_ok (Some g) \<and>
    sorted (map ni_item_id (sp_items (sr_payload (gb_snapshot g)))) \<and>
    (\<forall>r \<in> set (gb_inventories g). validate_response (InventoryResp r) = Inr ()) \<and>
    map (\<lambda>r. ip_source (ir_payload r)) (gb_inventories g) = [Item_ARCH, Item_AUR, Item_FLATPAK, Item_MISE] \<and>
    set (sp_items (sr_payload (gb_snapshot g))) =
      (\<Union>r \<in> set (gb_inventories g). set (ip_items (ir_payload r))) \<union>
      {x \<in> set (sp_items (sr_payload (gb_snapshot g))). ni_source x = Item_OMARCHY}"
proof -
  have collected: "list_all2 collected_for (outcomes_of inputs) identities" by (rule scan_inputs_collected [OF c b])
  note inputs = collected_inputs [OF this b]
  obtain rs where rs: "resolve_all (outcomes_of inputs) previous now = Inr rs"
      "list_all2 resolved_for rs identities"
    using resolve_all_resolved [OF previous_ok_sources [OF p] inputs(1), of now] by blast
  then obtain hs where "source_healths rs now = Inr hs" using source_healths_ok [of rs now] by blast
  moreover obtain items where "normalized_items rs = Inr items"
    using normalized_items_exist [OF rs(1) p collected] by blast
  ultimately obtain g where "build_generation gid order inputs previous state now = Inr g"
    using rs(1) by (simp add: build_generation_def Let_def)
  with build_generation_valid [OF p inputs gid, of order state now] show ?thesis by simp
qed

text \<open>A machine that is up to date and has mise, but no pacman and no Flatpak.\<close>

definition mise_surroundings :: "bytes \<Rightarrow> Surroundings" where
  "mise_surroundings report = \<lparr>sd_isprintable = plain_printable, sd_aware = (\<lambda>_. False), sd_home = [],
     sd_run = (\<lambda>name _. case name of MISE_OUTDATED \<Rightarrow> CommandSucceeded report []
       | OMARCHY_UPDATE_AVAILABLE \<Rightarrow> CommandExited 1 UP_TO_DATE [] | _ \<Rightarrow> CommandMissing []),
     sd_network = (\<lambda>_. tracker_network)\<rparr>"

definition node_record :: MiseRecord where
  "node_record = mise_record (lit ''node'') (lit ''20'') (lit ''20.1'') (lit ''20.2'')"

lemma mise_scan:
  obtains report inputs where
    "scan_inputs (runtime_collector (mise_surroundings report)) [] 0 quiet_request d = (Inr inputs, d)"
    "scan_bounded (mise_surroundings report) inputs"
    "si_mise inputs = Some (current_outcome Src_MISE [mr_item node_record] Prov_LIVE [] None)"
proof -
  let ?tools = "[(lit ''node'', lit ''20'', lit ''20.1'', lit ''20.2'')]"
  have "can_print 100 (mise_report ?tools)"
    by (rule mise_report_printable) (simp_all add: mise_tool_ok_def text_ok_def scalar_lit)
  then obtain report s where b: "utf8_decode report = Some s" "decode_json s = Inr (canon (mise_report ?tools))"
    by (rule json_bytes_decode)
  let ?sd = "mise_surroundings report"
  let ?c = "runtime_collector ?sd"
  have "mise_document (canon (mise_report ?tools)) = MiseCollected [node_record]"
    by (subst mise_report_collected) (simp_all add: node_record_def)
  with b have mise: "collect_mise ?c = Inr (MiseCollected [node_record])"
    by (simp add: runtime_collector_def mise_surroundings_def collect_mise_updates_def parse_mise_output_def)
  have omarchy: "collect_omarchy ?c = Inr (omarchy_available [])"
    by (simp add: runtime_collector_def mise_surroundings_def collect_omarchy_availability_def)
  obtain e where inventory: "collect_official_inventory (sd_run ?sd) = Inl e"
    by (simp add: mise_surroundings_def collect_official_inventory_def collect_inventory_def)
  then have arch: "collect_arch ?c = Inl e"
    by (simp add: runtime_collector_def collect_official_updates_def bindE_def)
  obtain k x where aur: "collect_aur ?c = AurForeignInventoryDegraded k x"
    by (simp add: runtime_collector_def mise_surroundings_def collect_aur_updates_def
        collect_foreign_inventory_def collect_inventory_def)
  obtain user sys where flatpak: "collect_flatpak_scopes ?c = (user, sys)"
      "fs_scope user = Scope_USER" "fs_scope sys = Scope_SYSTEM" "fs_records user = []" "fs_records sys = []"
    by (simp add: runtime_collector_def mise_surroundings_def collect_flatpak_def collect_scope_def
        inventory_outcome_def bindE_def command_outcome_def inventory_failure_def scope_result_def Let_def
        user_commands_def system_commands_def)
  have security: "collect_security ?c enable d = (Inr (SecurityArchUnavailable (ad_detail e)), d)" for enable
    using inventory by (simp add: runtime_collector_def collect_security_findings_def retA_def)
  let ?i = "\<lparr>si_omarchy = Some (omarchy_outcome (omarchy_available [])), si_arch = Some (arch_outcome (Inl e)),
    si_aur = Some (aur_outcome (AurForeignInventoryDegraded k x)),
    si_flatpak_user = Some (flatpak_scope_outcome user), si_flatpak_system = Some (flatpak_scope_outcome sys),
    si_mise = Some (mise_outcome (MiseCollected [node_record])),
    si_security = Some (fst (security_outcomes (SecurityArchUnavailable (ad_detail e)))),
    si_cisa_kev = Some (not_applicable Src_CISA_KEV None)\<rparr>"
  show thesis
  proof (rule that [of report ?i])
    show "scan_inputs ?c [] 0 quiet_request d = (Inr ?i, d)"
      using security by (simp add: scan_inputs_def scan_security_def scan_flatpak_def outcome_if_due_def quiet_request_def
          source_due_def due_def bindA_def retA_def liftA_def omarchy mise arch aur flatpak(1) flatpak_outcomes_def Let_def)
    have "so_items (flatpak_scope_outcome r) = []" if "fs_records r = []" for r
      using that by (cases "fs_status r")
        (simp_all add: flatpak_scope_outcome_def Let_def current_outcome_def not_applicable_def failure_outcome_def)
    with flatpak(4, 5) have "so_items (flatpak_scope_outcome user) = []" "so_items (flatpak_scope_outcome sys) = []"
      by blast+
    moreover have "so_items (arch_outcome (Inl e)) = []"
        "so_items (aur_outcome (AurForeignInventoryDegraded k x)) = []"
      by (cases "ad_failure e"; cases k;
          simp add: arch_outcome_def aur_outcome_def arch_failure_def failure_outcome_def)+
    moreover have "identifier_ok (ni_item_id (mr_item node_record)) \<and> identifier_ok (ni_label (mr_item node_record))"
      by (simp add: node_record_def identifier_ok_def)
    ultimately show "scan_bounded ?sd ?i"
      by (simp add: scan_bounded_def outcomes_of_def inventory omarchy_outcome_def omarchy_available_def from_status_def
          current_outcome_def mise_outcome_def security_outcomes_def failure_outcome_def not_applicable_def)
  qed (simp add: mise_outcome_def)
qed

theorem runtime_scan_publishable_witness:
  "\<exists>report inputs g. scan_inputs (runtime_collector (mise_surroundings report)) [] 0 quiet_request no_files =
      (Inr inputs, no_files) \<and>
    si_mise inputs = Some (current_outcome Src_MISE [mr_item node_record] Prov_LIVE [] None) \<and>
    build_generation (lit ''g1'') 0 inputs None empty_state 0 = Inr g \<and>
    validate_response (SnapshotResp (gb_snapshot g)) = Inr ()"
proof -
  from mise_scan obtain report inputs where i:
    "scan_inputs (runtime_collector (mise_surroundings report)) [] 0 quiet_request no_files = (Inr inputs, no_files)"
    "scan_bounded (mise_surroundings report) inputs"
    "si_mise inputs = Some (current_outcome Src_MISE [mr_item node_record] Prov_LIVE [] None)" .
  have "previous_ok None" "identifier_ok (lit ''g1'')" by (simp_all add: previous_ok_def identifier_ok_def)
  with runtime_scan_publishable [OF i(1, 2), of None "lit ''g1''" 0 empty_state] i(1, 3) show ?thesis by blast
qed

section \<open>The whole scan\<close>


text \<open>A machine on which every command succeeds and finds nothing to do.\<close>

definition quiet_run :: runner where
  "quiet_run name arguments =
     (case name of
        OMARCHY_UPDATE_AVAILABLE \<Rightarrow> CommandExited 1 UP_TO_DATE []
      | CHECKUPDATES \<Rightarrow> CommandExited 2 [] []
      | ARCH_AUDIT \<Rightarrow> CommandSucceeded (utf8_encode (lit ''[]'')) []
      | MISE_OUTDATED \<Rightarrow> CommandMissing []
      | _ \<Rightarrow> CommandSucceeded [] [])"

definition quiet_surroundings :: Surroundings where
  "quiet_surroundings = \<lparr>sd_isprintable = plain_printable, sd_aware = (\<lambda>_. False), sd_home = [],
     sd_run = quiet_run, sd_network = (\<lambda>_. tracker_network)\<rparr>"

lemma quiet_audit: "parse_arch_audit plain_printable (utf8_encode (lit ''[]'')) = Inr (Inr [])"
  by code_simp

lemma quiet_collected:
  "collect_omarchy (runtime_collector quiet_surroundings) = collect_omarchy quiet_collector"
  "collect_arch (runtime_collector quiet_surroundings) = collect_arch quiet_collector"
  "collect_aur (runtime_collector quiet_surroundings) = collect_aur quiet_collector"
  "collect_flatpak_scopes (runtime_collector quiet_surroundings) = collect_flatpak_scopes quiet_collector"
  "collect_mise (runtime_collector quiet_surroundings) = collect_mise quiet_collector"
  "collect_security (runtime_collector quiet_surroundings) False d =
    (Inr (SecurityCollected [] Prov_LIVE KevDisabled), d)"
proof -
  have inventory: "collect_official_inventory quiet_run = Inr []" "collect_foreign_inventory quiet_run = Inr []"
    by (simp_all add: collect_official_inventory_def collect_foreign_inventory_def collect_inventory_def
        quiet_run_def parse_package_rows_def splitlines_def)
  show "collect_omarchy (runtime_collector quiet_surroundings) = collect_omarchy quiet_collector"
    by (simp add: runtime_collector_def quiet_surroundings_def quiet_run_def quiet_collector_def
        collect_omarchy_availability_def omarchy_available_def)
  show "collect_arch (runtime_collector quiet_surroundings) = collect_arch quiet_collector"
    by (simp add: runtime_collector_def quiet_surroundings_def quiet_collector_def
        collect_official_updates_def inventory bindE_def quiet_run_def)
  show "collect_aur (runtime_collector quiet_surroundings) = collect_aur quiet_collector"
    by (simp add: runtime_collector_def quiet_surroundings_def quiet_collector_def collect_aur_updates_def inventory)
  show "collect_flatpak_scopes (runtime_collector quiet_surroundings) = collect_flatpak_scopes quiet_collector"
    by (simp add: runtime_collector_def quiet_surroundings_def quiet_collector_def collect_flatpak_def
        collect_scope_def inventory_outcome_def bindE_def command_outcome_def scope_result_def Let_def quiet_run_def
        user_commands_def system_commands_def parse_inventory_def splitlines_def flatpak_records_def quiet_scope_def)
  show "collect_mise (runtime_collector quiet_surroundings) = collect_mise quiet_collector"
    by (simp add: runtime_collector_def quiet_surroundings_def quiet_run_def quiet_collector_def collect_mise_updates_def)
  have "security_primary plain_printable quiet_run = Inr (Inr ([], Prov_LIVE))"
    unfolding security_primary_def by (simp add: quiet_run_def quiet_audit bindE_def)
  then show "collect_security (runtime_collector quiet_surroundings) False d =
      (Inr (SecurityCollected [] Prov_LIVE KevDisabled), d)"
    by (simp add: runtime_collector_def quiet_surroundings_def collect_security_findings_def inventory
        security_evidence_def bindA_lift bindA_ret correlate_arch_def advisory_packages_def bindE_def
        group_findings_def enrich_kev_def)
qed

lemma quiet_build:
  "scan_build canonical_fromisoformat (\<lambda>_. 0) (runtime_collector quiet_surroundings) quiet_request no_files =
   scan_build canonical_fromisoformat (\<lambda>_. 0) quiet_collector quiet_request no_files"
proof -
  have load: "storage_load_state canonical_fromisoformat 0 0 0 no_files =
      (Inr \<lparr>sl_state = empty_state, sl_warning = None\<rparr>, no_files)"
      "load_generation_locked canonical_fromisoformat no_files = (Inr None, no_files)"
    by (simp_all add: storage_load_state_def load_state_locked_def load_generation_locked_def no_files_def)
  have "scan_inputs (runtime_collector quiet_surroundings) [] 0 quiet_request no_files =
      scan_inputs quiet_collector [] 0 quiet_request no_files"
    by (simp add: scan_inputs_def scan_security_def scan_flatpak_def outcome_if_due_def quiet_request_def
        source_due_def due_def bindA_def quiet_collected flatpak_outcomes_def Let_def)
      (simp add: quiet_collector_def flatpak_outcomes_def bindA_def quiet_collected(6))
  with load show ?thesis by (simp add: scan_build_def empty_state_def) (simp add: bindA_def)
qed


end
