(* ===== verification/Atomic_Write.thy ===== *)
theory Atomic_Write
  imports Digest
begin

text \<open>
  How a file is replaced: \<open>atomic_write\<close> of \<open>storage_io.py\<close>, through which the storage writes every file, and
  \<open>_atomic_write\<close> of \<open>runner.py\<close>, through which the fetcher writes its cache. Every system call may
  fail, and the process may die between any two of them, or the machine lose its power. Shown here is
  that the file is at every moment the old one or the complete new one, which has reached the disk.
\<close>

section \<open>A directory and the system calls\<close>

text \<open>A file with its bytes (of the buffer and of the file together), whether they have reached the disk, and its mode.\<close>

record File =
  fl_content :: bytes
  fl_synced :: bool
  fl_mode :: nat

record Directory =
  dr_target :: "File option"
  dr_temporary :: "File option"

definition PRIVATE_FILE_MODE :: nat where
  "PRIVATE_FILE_MODE = 6 * 64"

datatype IoStep =
    Make_Directory | Chmod_Directory | Make_Temporary | Chmod_Temporary | Write_Data | Check_Written
  | Flush_Data | Sync_Data | Close_Temporary | Replace_File | Chmod_File | Open_Directory | Sync_Directory
  | Close_Directory | Remove_Temporary

text \<open>
  What the system does: the \<open>OSError\<close> of each call, if it fails, and how many bytes \<open>write\<close> takes, whether
  or not it fails.
\<close>

record Io =
  io_error :: "IoStep \<Rightarrow> ustr option"
  io_written :: nat

definition step_error :: "Io \<Rightarrow> bytes \<Rightarrow> IoStep \<Rightarrow> ustr option" where
  "step_error io data s =
     (if s = Check_Written
      then if io_written io = length data then None else Some (lit ''atomic write was partial'')
      else io_error io s)"

definition step_effect :: "Io \<Rightarrow> bytes \<Rightarrow> IoStep \<Rightarrow> Directory \<Rightarrow> Directory" where
  "step_effect io data s d =
     (case s of
        Make_Temporary \<Rightarrow>
          d\<lparr>dr_temporary := Some \<lparr>fl_content = [], fl_synced = False, fl_mode = PRIVATE_FILE_MODE\<rparr>\<rparr>
      | Chmod_Temporary \<Rightarrow> d\<lparr>dr_temporary := map_option (fl_mode_update (\<lambda>_. PRIVATE_FILE_MODE)) (dr_temporary d)\<rparr>
      | Write_Data \<Rightarrow>
          d\<lparr>dr_temporary := map_option (\<lambda>f. f\<lparr>fl_content := take (io_written io) data, fl_synced := False\<rparr>)
              (dr_temporary d)\<rparr>
      | Sync_Data \<Rightarrow> d\<lparr>dr_temporary := map_option (fl_synced_update (\<lambda>_. True)) (dr_temporary d)\<rparr>
      | Replace_File \<Rightarrow> \<lparr>dr_target = dr_temporary d, dr_temporary = None\<rparr>
      | Chmod_File \<Rightarrow> d\<lparr>dr_target := map_option (fl_mode_update (\<lambda>_. PRIVATE_FILE_MODE)) (dr_target d)\<rparr>
      | Remove_Temporary \<Rightarrow> d\<lparr>dr_temporary := None\<rparr>
      | _ \<Rightarrow> d)"

text \<open>
  A run of calls up to the first that fails: its error, if any, and the directory after each call. A
  \<open>write\<close> that fails may have written a part.
\<close>

fun io_steps :: "Io \<Rightarrow> bytes \<Rightarrow> IoStep list \<Rightarrow> Directory \<Rightarrow> ustr option \<times> Directory list" where
  "io_steps io data [] d = (None, [])"
| "io_steps io data (s # ss) d =
     (let d' = step_effect io data s d
      in case step_error io data s of
           Some e \<Rightarrow> (Some e, if s = Write_Data then [d'] else [])
         | None \<Rightarrow> apsnd (\<lambda>ds. d' # ds) (io_steps io data ss d'))"

section \<open>The two writers\<close>

text \<open>
  The calls before the \<open>try\<close>, those until the file is replaced, after whose failure the temporary file is
  removed, and those after it, whose failure is passed on. The result comes with all the directories on
  the way: when the process dies, one of them is what it leaves.
\<close>

definition guarded_write ::
  "Io \<Rightarrow> bytes \<Rightarrow> IoStep list \<Rightarrow> IoStep list \<Rightarrow> IoStep list \<Rightarrow> File option \<Rightarrow> (ustr + unit) \<times> Directory list" where
  "guarded_write io data prepare replace_it finish_it old =
     (let d0 = \<lparr>dr_target = old, dr_temporary = None\<rparr>
      in case io_steps io data prepare d0 of
           (Some e, ds0) \<Rightarrow> (Inl e, d0 # ds0)
         | (None, ds0) \<Rightarrow>
             let d1 = last (d0 # ds0)
             in case io_steps io data replace_it d1 of
                  (Some e, ds1) \<Rightarrow>
                    (case io_steps io data [Remove_Temporary] (last (d1 # ds1)) of
                       (r, ds2) \<Rightarrow> (Inl (case r of None \<Rightarrow> e | Some e' \<Rightarrow> e'), d0 # ds0 @ ds1 @ ds2))
                | (None, ds1) \<Rightarrow>
                    (case io_steps io data finish_it (last (d1 # ds1)) of
                       (r, ds2) \<Rightarrow> (case r of None \<Rightarrow> Inr () | Some e \<Rightarrow> Inl e, d0 # ds0 @ ds1 @ ds2)))"

text \<open>\<open>ensure_directory\<close> and \<open>fsync_directory\<close>.\<close>

definition ensure_directory :: "IoStep list" where
  "ensure_directory = [Make_Directory, Chmod_Directory]"

definition fsync_directory :: "IoStep list" where
  "fsync_directory = [Open_Directory, Sync_Directory, Close_Directory]"

definition atomic_write :: "Io \<Rightarrow> bytes \<Rightarrow> File option \<Rightarrow> (ustr + unit) \<times> Directory list" where
  "atomic_write io data =
     guarded_write io data (ensure_directory @ [Make_Temporary])
       [Chmod_Temporary, Write_Data, Check_Written, Flush_Data, Sync_Data, Close_Temporary, Replace_File]
       (Chmod_File # fsync_directory)"

text \<open>
  The writer of the fetcher, without \<open>Check_Written\<close>: the buffered writer of the standard library takes all
  of the bytes or raises.
\<close>

definition cache_write :: "Io \<Rightarrow> bytes \<Rightarrow> File option \<Rightarrow> (ustr + unit) \<times> Directory list" where
  "cache_write io body =
     guarded_write (io\<lparr>io_written := length body\<rparr>) body [Make_Temporary]
       [Write_Data, Flush_Data, Sync_Data, Close_Temporary, Replace_File] []"

section \<open>Old or new\<close>

definition new_file :: "bytes \<Rightarrow> File" where
  "new_file data = \<lparr>fl_content = data, fl_synced = True, fl_mode = PRIVATE_FILE_MODE\<rparr>"

definition replaced :: "bytes \<Rightarrow> Directory" where
  "replaced data = \<lparr>dr_target = Some (new_file data), dr_temporary = None\<rparr>"

lemma io_steps_Cons:
  "io_steps io data (s # ss) d = (r, ds) \<longleftrightarrow>
     (\<exists>e. step_error io data s = Some e \<and> r = Some e \<and>
        ds = (if s = Write_Data then [step_effect io data s d] else [])) \<or>
     (step_error io data s = None \<and> (\<exists>es. io_steps io data ss (step_effect io data s d) = (r, es) \<and>
        ds = step_effect io data s d # es))"
  by (cases "io_steps io data ss (step_effect io data s d)")
    (auto simp: Let_def split: option.split)

lemma io_steps_keep:
  assumes "\<And>s x. s \<in> set ss \<Longrightarrow> P x \<Longrightarrow> P (step_effect io data s x)" and "P d"
    and "io_steps io data ss d = (r, ds)"
  shows "\<forall>x \<in> set ds. P x"
  using assms
proof (induction ss arbitrary: d r ds)
  case (Cons s ss)
  have P: "P (step_effect io data s d)" using Cons.prems(1, 2) by simp
  from Cons.prems(3) consider "ds = [] \<or> ds = [step_effect io data s d]"
    | es where "io_steps io data ss (step_effect io data s d) = (r, es)" "ds = step_effect io data s d # es"
    unfolding io_steps_Cons by (auto split: if_splits)
  then show ?case
  proof cases
    case 2
    have "\<forall>x \<in> set es. P x" by (rule Cons.IH [OF _ P 2(1)]) (use Cons.prems(1) in auto)
    with P 2(2) show ?thesis by simp
  qed (use P in auto)
qed simp

lemma io_steps_done:
  "io_steps io data ss d = (None, ds) \<Longrightarrow>
   last (d # ds) = fold (step_effect io data) ss d \<and> (\<forall>s \<in> set ss. step_error io data s = None)"
proof (induction ss arbitrary: d ds)
  case (Cons s ss)
  then obtain es where "step_error io data s = None" "ds = step_effect io data s d # es"
    "io_steps io data ss (step_effect io data s d) = (None, es)" unfolding io_steps_Cons by auto
  with Cons.IH [OF this(3)] show ?case by simp
qed simp

lemma io_steps_failed: "io_steps io data ss d = (Some e, ds) \<Longrightarrow> Some e \<in> step_error io data ` set ss"
proof (induction ss arbitrary: d ds)
  case (Cons s ss)
  then show ?case unfolding io_steps_Cons by fastforce
qed simp

lemma io_steps_append:
  "io_steps io data (xs @ ys) d =
     (case io_steps io data xs d of
        (Some e, ds) \<Rightarrow> (Some e, ds)
      | (None, ds) \<Rightarrow> apsnd (\<lambda>es. ds @ es) (io_steps io data ys (last (d # ds))))"
proof (induction xs arbitrary: d)
  case Nil
  then show ?case by (cases "io_steps io data ys d") simp
next
  case (Cons s xs)
  obtain r es where xs: "io_steps io data xs (step_effect io data s d) = (r, es)" by fastforce
  obtain r' fs where ys: "io_steps io data ys (last (step_effect io data s d # es)) = (r', fs)" by fastforce
  show ?case using Cons.IH [of "step_effect io data s d"] xs ys
    by (cases "step_error io data s"; cases r) (simp_all add: Let_def)
qed

lemma step_keeps_target: "s \<notin> {Replace_File, Chmod_File} \<Longrightarrow> dr_target (step_effect io data s d) = dr_target d"
  by (cases s) (simp_all add: step_effect_def)

lemma io_steps_keep_target:
  assumes "io_steps io data ss d = (r, ds)" and "set ss \<inter> {Replace_File, Chmod_File} = {}"
  shows "\<forall>x \<in> set (d # ds). dr_target x = dr_target d"
proof -
  have "\<forall>x \<in> set ds. dr_target x = dr_target d"
  proof (rule io_steps_keep [OF _ _ assms(1)])
    fix s and x :: Directory
    assume "s \<in> set ss" "dr_target x = dr_target d"
    with assms(2) show "dr_target (step_effect io data s x) = dr_target d" by (subst step_keeps_target) auto
  qed simp
  then show ?thesis by simp
qed

lemma last_in: "x = last (d # ds) \<Longrightarrow> x = d \<or> x \<in> set ds"
  by (cases ds) auto

text \<open>What both writers share.\<close>

definition write_safe :: "Io \<Rightarrow> bytes \<Rightarrow> IoStep list \<Rightarrow> File option \<Rightarrow> (ustr + unit) \<times> Directory list \<Rightarrow> bool" where
  "write_safe io data finish_it old = (\<lambda>(r, ds).
     (\<forall>d \<in> set ds. dr_target d = old \<or> dr_target d = Some (new_file data)) \<and>
     (case r of
        Inr _ \<Rightarrow> last ds = replaced data
      | Inl e \<Rightarrow>
          (dr_target (last ds) = old \<and> (dr_temporary (last ds) = None \<or> io_error io Remove_Temporary = Some e)) \<or>
          (last ds = replaced data \<and> Some e \<in> step_error io data ` set finish_it)))"

lemma io_steps_snoc_failed:
  assumes "io_steps io data (xs @ [s]) d = (Some e, ds)" and "s \<noteq> Write_Data"
  obtains r where "io_steps io data xs d = (r, ds)"
  using assms unfolding io_steps_append
  by (cases "io_steps io data xs d"; cases "fst (io_steps io data xs d)")
    (auto simp: io_steps_Cons Let_def split: option.splits)

lemma io_steps_snoc_done:
  assumes "io_steps io data (xs @ [s]) d = (None, ds)"
  obtains es where "io_steps io data xs d = (None, es)" "ds = es @ [step_effect io data s (last (d # es))]"
    "\<forall>s \<in> set xs. step_error io data s = None" "last (d # es) = fold (step_effect io data) xs d"
  using assms io_steps_done [of io data xs d] unfolding io_steps_append
  by (cases "io_steps io data xs d"; cases "fst (io_steps io data xs d)")
    (auto simp: Let_def split: option.splits)

lemma guarded_write_safe:
  assumes prepare: "\<And>s d. s \<in> set prepare \<Longrightarrow> step_effect io data s d = d"
    and fill: "set fill \<inter> {Replace_File, Chmod_File} = {}"
    and filled: "\<forall>s \<in> set fill. step_error io data s = None \<Longrightarrow>
      dr_temporary (fold (step_effect io data) fill
        (step_effect io data Make_Temporary \<lparr>dr_target = old, dr_temporary = None\<rparr>)) = Some (new_file data)"
    and finish_it: "\<And>s. s \<in> set finish_it \<Longrightarrow> step_effect io data s (replaced data) = replaced data"
  shows "write_safe io data finish_it old
    (guarded_write io data (prepare @ [Make_Temporary]) (fill @ [Replace_File]) finish_it old)"
proof -
  define d0 where "d0 = \<lparr>dr_target = old, dr_temporary = None :: File option\<rparr>"
  define d1 where "d1 = step_effect io data Make_Temporary d0"
  have prepared: "\<forall>x \<in> set ds. x = d0" if "io_steps io data prepare d0 = (r, ds)" for r ds
    by (rule io_steps_keep [OF _ refl that]) (simp add: prepare)
  obtain r0 ds0 where p: "io_steps io data (prepare @ [Make_Temporary]) d0 = (r0, ds0)" by fastforce
  show ?thesis
  proof (cases r0)
    case (Some e)
    with p obtain r where r: "io_steps io data prepare d0 = (r, ds0)" by (auto elim: io_steps_snoc_failed)
    then have "last (d0 # ds0) = d0" using prepared [OF r] last_in [of _ d0 ds0] by blast
    moreover have "guarded_write io data (prepare @ [Make_Temporary]) (fill @ [Replace_File]) finish_it old =
        (Inl e, d0 # ds0)" using p Some by (simp add: guarded_write_def flip: d0_def)
    ultimately show ?thesis using prepared [OF r] by (auto simp: write_safe_def d0_def)
  next
    case None
    with p obtain es0 where es0: "ds0 = es0 @ [step_effect io data Make_Temporary (last (d0 # es0))]"
      "io_steps io data prepare d0 = (None, es0)" by (auto elim: io_steps_snoc_done)
    then have "last (d0 # es0) = d0" using prepared [OF es0(2)] last_in [of _ d0 es0] by blast
    then have d1: "last (d0 # ds0) = d1" "\<forall>x \<in> set (d0 # ds0). dr_target x = old"
      using es0 prepared [OF es0(2)] by (auto simp: d1_def d0_def step_keeps_target)
    have target1: "dr_target d1 = old" by (simp add: d1_def d0_def step_keeps_target)
    obtain r1 ds1 where w: "io_steps io data (fill @ [Replace_File]) d1 = (r1, ds1)" by fastforce
    show ?thesis
    proof (cases r1)
      case (Some e)
      with w obtain r where "io_steps io data fill d1 = (r, ds1)" by (auto elim: io_steps_snoc_failed)
      from io_steps_keep_target [OF this fill] have keep: "\<forall>x \<in> set (d1 # ds1). dr_target x = old" by (simp add: target1)
      obtain r2 ds2 where u: "io_steps io data [Remove_Temporary] (last (d1 # ds1)) = (r2, ds2)" by fastforce
      define d2 where "d2 = last (d1 # ds1)"
      have d2: "dr_target d2 = old" using keep last_in [OF d2_def] by auto
      define e' where "e' = (case r2 of None \<Rightarrow> e | Some e' \<Rightarrow> e')"
      have g: "guarded_write io data (prepare @ [Make_Temporary]) (fill @ [Replace_File]) finish_it old =
          (Inl e', d0 # ds0 @ ds1 @ ds2)"
        using p w u None Some d1(1) by (simp add: guarded_write_def e'_def flip: d0_def)
      from u consider "r2 = None" "ds2 = [d2\<lparr>dr_temporary := None\<rparr>]"
        | x where "r2 = Some x" "ds2 = []" "io_error io Remove_Temporary = Some x"
        unfolding d2_def [symmetric] io_steps_Cons
        by (cases "io_error io Remove_Temporary") (simp_all add: step_error_def step_effect_def)
      moreover have "last (d0 # ds0 @ ds1) = d2" using d1(1) by (auto simp: d2_def last_append split: if_splits)
      moreover have "\<forall>x \<in> set (d0 # ds0 @ ds1). dr_target x = old" using d1(2) keep by auto
      ultimately show ?thesis unfolding g write_safe_def
        by cases (use d2 in \<open>auto simp: last_append e'_def\<close>)
    next
      case None
      with w obtain es1 where es1: "ds1 = es1 @ [step_effect io data Replace_File (last (d1 # es1))]"
        "io_steps io data fill d1 = (None, es1)" "\<forall>s \<in> set fill. step_error io data s = None"
        "last (d1 # es1) = fold (step_effect io data) fill d1" by (auto elim: io_steps_snoc_done)
      have "dr_temporary (last (d1 # es1)) = Some (new_file data)"
        unfolding es1(4) using filled [OF es1(3)] by (simp add: d1_def d0_def)
      then have ds1: "ds1 = es1 @ [replaced data]" by (simp add: es1(1) step_effect_def replaced_def)
      then have d2: "last (d1 # ds1) = replaced data" by simp
      obtain r2 ds2 where f: "io_steps io data finish_it (replaced data) = (r2, ds2)" by fastforce
      have new: "\<forall>x \<in> set ds2. x = replaced data"
        by (rule io_steps_keep [OF _ refl f]) (simp add: finish_it)
      have g: "guarded_write io data (prepare @ [Make_Temporary]) (fill @ [Replace_File]) finish_it old =
          (case r2 of None \<Rightarrow> Inr () | Some e \<Rightarrow> Inl e, d0 # ds0 @ ds1 @ ds2)"
        using p w f \<open>r0 = None\<close> None d1(1) d2 by (simp add: guarded_write_def flip: d0_def)
      have "last (d0 # ds0 @ ds1 @ ds2) = replaced data"
        using new last_in [of _ "replaced data" ds2] by (auto simp: ds1 last_append)
      moreover have "\<forall>x \<in> set (d0 # ds0 @ ds1 @ ds2). dr_target x = old \<or> dr_target x = Some (new_file data)"
        using d1(2) io_steps_keep_target [OF es1(2) fill] new by (auto simp: ds1 target1 replaced_def)
      moreover have "r2 = Some e \<Longrightarrow> Some e \<in> step_error io data ` set finish_it" for e
        using f io_steps_failed by blast
      ultimately show ?thesis unfolding g by (auto simp: write_safe_def split: option.split)
    qed
  qed
qed

text \<open>
  C36: A file is replaced as a whole or not at all, whatever fails. At every moment of an atomic write, also
  if the process is killed or the power is lost, the file is the old one or the complete new one, with its
  bytes on the disk and private. When the write returns, it is the new one and the temporary file is gone.
  When it raises, either the old file is still there and the temporary file is gone, unless it could not be
  removed, or only what follows the replacement has failed (the mode and the synchronisation of the
  directory), and then the new file is there. And when no call fails, the write returns. The same holds of
  the writer of the endpoint cache.
\<close>

theorem atomic_write_safe:
  "write_safe io data (Chmod_File # fsync_directory) old (atomic_write io data old) \<and>
   write_safe io data [] old (cache_write io data old) \<and>
   ((\<forall>s. io_error io s = None) \<longrightarrow>
      (io_written io = length data \<longrightarrow> fst (atomic_write io data old) = Inr ()) \<and>
      fst (cache_write io data old) = Inr ())"
proof (intro conjI impI)
  let ?d0 = "\<lparr>dr_target = old, dr_temporary = None\<rparr>"
  let ?fill = "[Chmod_Temporary, Write_Data, Check_Written, Flush_Data, Sync_Data, Close_Temporary]"
  have "step_effect io data s d = d" if "s \<in> set ensure_directory" for s d
    using that by (auto simp: ensure_directory_def step_effect_def)
  moreover have "dr_temporary (fold (step_effect io data) ?fill (step_effect io data Make_Temporary ?d0)) =
      Some (new_file data)" if "\<forall>s \<in> set ?fill. step_error io data s = None"
    using that by (auto simp: step_effect_def step_error_def new_file_def split: if_splits)
  moreover have "step_effect io data s (replaced data) = replaced data" if "s \<in> set (Chmod_File # fsync_directory)" for s
    using that by (auto simp: fsync_directory_def step_effect_def replaced_def new_file_def)
  ultimately show "write_safe io data (Chmod_File # fsync_directory) old (atomic_write io data old)"
    using guarded_write_safe [of ensure_directory io data ?fill old "Chmod_File # fsync_directory"]
    by (simp add: atomic_write_def)
  let ?io = "io\<lparr>io_written := length data\<rparr>"
  have "write_safe ?io data [] old (cache_write io data old)"
    using guarded_write_safe [of "[]" ?io data "[Write_Data, Flush_Data, Sync_Data, Close_Temporary]" old "[]"]
    by (simp add: cache_write_def step_effect_def new_file_def)
  then show "write_safe io data [] old (cache_write io data old)"
    by (simp add: write_safe_def split: prod.splits sum.splits)
next
  assume ok: "\<forall>s. io_error io s = None"
  then show "io_written io = length data \<Longrightarrow> fst (atomic_write io data old) = Inr ()"
    by (simp add: atomic_write_def guarded_write_def ensure_directory_def fsync_directory_def step_error_def Let_def
        split: prod.split)
  from ok show "fst (cache_write io data old) = Inr ()"
    by (simp add: cache_write_def guarded_write_def step_error_def Let_def split: prod.split)
qed

text \<open>A full disk: the write of the new bytes fails half-way, and the old file stays.\<close>

definition full_disk :: Io where
  "full_disk = \<lparr>io_error = (\<lambda>s. if s = Write_Data then Some (lit ''no space left'') else None), io_written = 1\<rparr>"

theorem atomic_write_safe_witness:
  "fst (atomic_write full_disk [1, 2] (Some (new_file [7]))) = Inl (lit ''no space left'') \<and>
   write_safe full_disk [1, 2] (Chmod_File # fsync_directory) (Some (new_file [7]))
     (atomic_write full_disk [1, 2] (Some (new_file [7]))) \<and>
   fst (atomic_write \<lparr>io_error = (\<lambda>_. None), io_written = 2\<rparr> [1, 2] None) = Inr ()"
proof (intro conjI)
  show "fst (atomic_write full_disk [1, 2] (Some (new_file [7]))) = Inl (lit ''no space left'')"
    by (simp add: atomic_write_def guarded_write_def ensure_directory_def step_error_def full_disk_def Let_def
        split: prod.split)
  show "write_safe full_disk [1, 2] (Chmod_File # fsync_directory) (Some (new_file [7]))
      (atomic_write full_disk [1, 2] (Some (new_file [7])))"
    using atomic_write_safe by blast
  show "fst (atomic_write \<lparr>io_error = (\<lambda>_. None), io_written = 2\<rparr> [1, 2] None) = Inr ()"
    using atomic_write_safe [of "\<lparr>io_error = (\<lambda>_. None), io_written = 2\<rparr>" "[1, 2]" None] by simp
qed

end
