(* ===== verification/Supervisor.thy ===== *)
theory Supervisor
  imports Prelude
begin

text \<open>
  \<open>command_supervisor.py\<close>: the process between the helper and a command, which kills the process group of the
  command when the helper dies. It is a step relation in which the death of the helper may fall between any
  two system calls. Shown is that no command of a dead helper stays alive, and that the protocol ends.
\<close>

section \<open>Arguments and exit status\<close>

definition LAUNCH_FAILURE :: int where
  "LAUNCH_FAILURE = 127"

text \<open>\<open>_arguments\<close>: the conversion \<open>int\<close> of texts is an argument, \<open>None\<close> its \<open>ValueError\<close>.\<close>

definition supervisor_arguments :: "(ustr \<Rightarrow> int option) \<Rightarrow> ustr list \<Rightarrow> (int \<times> ustr list) option" where
  "supervisor_arguments to_int arguments =
     (case arguments of
        pid # target # rest \<Rightarrow>
          (case to_int pid of
             None \<Rightarrow> None
           | Some parent \<Rightarrow> if parent \<le> 0 \<or> target = [] then None else Some (parent, target # rest))
      | _ \<Rightarrow> None)"

text \<open>
  How the supervisor ends after its target: with a status, by a signal, or with an exception. The signals that
  \<open>signal.Signals\<close> knows on Linux, and those whose action cannot be set (\<open>SIGKILL\<close>, \<open>SIGSTOP\<close>), where
  \<open>signal.signal\<close> raises an \<open>OSError\<close>.
\<close>

datatype Ending = Exits int | Dies_By int | Raises ustr

definition known_signal :: "int \<Rightarrow> bool" where
  "known_signal n \<longleftrightarrow> (1 \<le> n \<and> n \<le> 31) \<or> n = 34 \<or> n = 64"

definition settable_signal :: "int \<Rightarrow> bool" where
  "settable_signal n \<longleftrightarrow> n \<noteq> 9 \<and> n \<noteq> 19"

definition target_ending :: "int \<Rightarrow> Ending" where
  "target_ending returncode =
     (if 0 \<le> returncode then Exits returncode
      else if \<not> known_signal (- returncode) then Raises (lit ''ValueError'')
      else if \<not> settable_signal (- returncode) then Raises (lit ''OSError'')
      else Dies_By (- returncode))"

text \<open>A target that was killed takes the supervisor down with an exception instead of the signal.\<close>

lemma killed_target_raises: "target_ending (- 9) = Raises (lit ''OSError'')"
  by (simp add: target_ending_def known_signal_def settable_signal_def)

section \<open>The protocol\<close>

text \<open>
  The supervisor is before, between or after the calls of \<open>_arm_parent_death\<close>, has launched the target, or has ended;
  \<open>Killed\<close> is the whole group after \<open>_kill_own_group\<close>. Beside that: whether the parent lives, whether the kernel
  is to signal its death (\<open>prctl\<close>), and whether that signal is pending.
\<close>

datatype Phase = Started | Signal_Blocked | Armed | Parent_Checked | Handler_Set | Unblocked | Running | Killed | Ended Ending

record Supervised =
  su_phase :: Phase
  su_parent :: bool
  su_armed :: bool
  su_pending :: bool

definition initial :: Supervised where
  "initial = \<lparr>su_phase = Started, su_parent = True, su_armed = False, su_pending = False\<rparr>"

definition group_alive :: "Supervised \<Rightarrow> bool" where
  "group_alive s \<longleftrightarrow> su_phase s \<noteq> Killed \<and> (\<forall>e. su_phase s \<noteq> Ended e)"

text \<open>
  One call of the supervisor, the arrival of the signal, or the death of the parent: the kernel then changes
  the parent process id and sends the signal, if it is to, in one step. The signal arrives when it is
  pending and not blocked, and the handler kills the group.
\<close>

inductive supervise :: "Supervised \<Rightarrow> Supervised \<Rightarrow> bool" where
  block: "su_phase s = Started \<Longrightarrow> supervise s (s\<lparr>su_phase := Signal_Blocked\<rparr>)"
| arm: "su_phase s = Signal_Blocked \<Longrightarrow> supervise s (s\<lparr>su_phase := Armed, su_armed := True\<rparr>)"
| arm_fails: "su_phase s = Signal_Blocked \<Longrightarrow> supervise s (s\<lparr>su_phase := Ended (Exits LAUNCH_FAILURE)\<rparr>)"
| check_parent: "su_phase s = Armed \<Longrightarrow> supervise s (s\<lparr>su_phase := if su_parent s then Parent_Checked else Killed\<rparr>)"
| set_handler: "su_phase s = Parent_Checked \<Longrightarrow> supervise s (s\<lparr>su_phase := Handler_Set\<rparr>)"
| unblock: "su_phase s = Handler_Set \<Longrightarrow> supervise s (s\<lparr>su_phase := Unblocked\<rparr>)"
| launch: "su_phase s = Unblocked \<Longrightarrow> supervise s (s\<lparr>su_phase := Running\<rparr>)"
| launch_fails: "su_phase s = Unblocked \<Longrightarrow> supervise s (s\<lparr>su_phase := Ended (Exits LAUNCH_FAILURE)\<rparr>)"
| target_ends: "su_phase s = Running \<Longrightarrow> supervise s (s\<lparr>su_phase := Ended (target_ending returncode)\<rparr>)"
| parent_dies: "su_parent s \<Longrightarrow> group_alive s \<Longrightarrow> supervise s (s\<lparr>su_parent := False, su_pending := su_armed s\<rparr>)"
| deliver: "su_pending s \<Longrightarrow> su_phase s \<in> {Unblocked, Running} \<Longrightarrow> supervise s (s\<lparr>su_phase := Killed\<rparr>)"

inductive_cases superviseE: "supervise s t"

section \<open>No orphans\<close>

text \<open>
  When the parent is dead, either its death will be seen by the check, or the signal is pending, or the group is
  gone; and the kernel is armed from the check on.
\<close>

definition supervised_ok :: "Supervised \<Rightarrow> bool" where
  "supervised_ok s \<longleftrightarrow>
     (su_phase s \<in> {Armed, Parent_Checked, Handler_Set, Unblocked, Running} \<longrightarrow> su_armed s) \<and>
     (\<not> su_parent s \<longrightarrow> \<not> group_alive s \<or> su_phase s \<in> {Started, Signal_Blocked, Armed} \<or> su_pending s) \<and>
     (su_parent s \<longrightarrow> \<not> su_pending s)"

lemma group_alive_phases:
  "group_alive s \<longleftrightarrow> su_phase s \<in> {Started, Signal_Blocked, Armed, Parent_Checked, Handler_Set, Unblocked, Running}"
  by (cases "su_phase s") (auto simp: group_alive_def)

lemma supervised_ok_step: "supervise s t \<Longrightarrow> supervised_ok s \<Longrightarrow> supervised_ok t"
  by (erule superviseE) (auto simp: supervised_ok_def group_alive_phases)

lemma supervised_ok_reachable: "supervise\<^sup>*\<^sup>* initial s \<Longrightarrow> supervised_ok s"
proof (induction rule: rtranclp_induct)
  case base
  then show ?case by (simp add: supervised_ok_def initial_def)
qed (rule supervised_ok_step)

text \<open>How many calls are left, the death of the parent included.\<close>

fun phase_left :: "Phase \<Rightarrow> nat" where
  "phase_left Started = 8"
| "phase_left Signal_Blocked = 7"
| "phase_left Armed = 6"
| "phase_left Parent_Checked = 5"
| "phase_left Handler_Set = 4"
| "phase_left Unblocked = 3"
| "phase_left Running = 2"
| "phase_left Killed = 0"
| "phase_left (Ended e) = 0"

definition steps_left :: "Supervised \<Rightarrow> nat" where
  "steps_left s = phase_left (su_phase s) + (if su_parent s then 1 else 0)"

lemma steps_left_decrease: "supervise s t \<Longrightarrow> steps_left t < steps_left s"
  by (erule superviseE) (auto simp: steps_left_def)

lemma group_alive_steps: "group_alive s \<Longrightarrow> \<exists>t. supervise s t"
  unfolding group_alive_phases by (auto intro: supervise.intros)

text \<open>
  C37: No command outlives the helper. In every reachable state, whenever the helper died: if the target has
  been launched and the group lives, the signal that kills the group is pending and its delivery
  is enabled, and a target that is not launched yet is never launched without that signal pending. Runs
  have at most nine steps, and a run that can go no further has killed the group or has ended with its target.
\<close>

theorem helper_death_kills:
  assumes "supervise\<^sup>*\<^sup>* initial s"
  shows "(\<not> su_parent s \<and> su_phase s \<in> {Unblocked, Running} \<longrightarrow> su_pending s \<and> supervise s (s\<lparr>su_phase := Killed\<rparr>)) \<and>
    (\<forall>t. supervise s t \<and> \<not> su_parent s \<and> su_phase s = Armed \<longrightarrow> su_phase t = Killed) \<and>
    (\<forall>n t. (supervise ^^ n) s t \<longrightarrow> n \<le> 9) \<and>
    ((\<nexists>t. supervise s t) \<longrightarrow> su_phase s = Killed \<or> (\<exists>e. su_phase s = Ended e))"
proof (intro conjI allI impI)
  note ok = supervised_ok_reachable [OF assms]
  assume "\<not> su_parent s \<and> su_phase s \<in> {Unblocked, Running}"
  with ok show "su_pending s" by (auto simp: supervised_ok_def group_alive_def)
  with \<open>\<not> su_parent s \<and> su_phase s \<in> {Unblocked, Running}\<close> show "supervise s (s\<lparr>su_phase := Killed\<rparr>)"
    by (intro deliver) auto
next
  fix t
  assume "supervise s t \<and> \<not> su_parent s \<and> su_phase s = Armed"
  then show "su_phase t = Killed" by (auto elim!: superviseE)
next
  have "steps_left s \<le> 9" using assms
  proof (induction rule: rtranclp_induct)
    case (step y z)
    then show ?case using steps_left_decrease [of y z] by simp
  qed (simp add: initial_def steps_left_def)
  moreover have "(supervise ^^ n) s t \<Longrightarrow> n + steps_left t \<le> steps_left s" for n t
  proof (induction n arbitrary: t)
    case (Suc n)
    then obtain u where "(supervise ^^ n) s u" "supervise u t" by auto
    with Suc.IH [of u] steps_left_decrease [of u t] show ?case by simp
  qed simp
  ultimately show "n \<le> 9" if "(supervise ^^ n) s t" for n t using that by (metis add_leD1 le_trans)
next
  assume "\<nexists>t. supervise s t"
  then show "su_phase s = Killed \<or> (\<exists>e. su_phase s = Ended e)" using group_alive_steps [of s] by (auto simp: group_alive_def)
qed

text \<open>The helper dies just before the kernel is told to signal its death: the check of the parent sees it.\<close>

theorem helper_death_kills_witness:
  "\<exists>s. supervise\<^sup>*\<^sup>* initial s \<and> \<not> su_parent s \<and> su_phase s = Armed \<and> \<not> su_pending s \<and>
     (\<forall>t. supervise s t \<longrightarrow> su_phase t = Killed)"
proof -
  let ?s1 = "initial\<lparr>su_phase := Signal_Blocked\<rparr>"
  let ?s2 = "?s1\<lparr>su_parent := False, su_pending := su_armed ?s1\<rparr>"
  let ?s3 = "?s2\<lparr>su_phase := Armed, su_armed := True\<rparr>"
  have "supervise initial ?s1" by (rule block) (simp add: initial_def)
  moreover have "supervise ?s1 ?s2" by (rule parent_dies) (simp_all add: initial_def group_alive_def)
  moreover have "supervise ?s2 ?s3" by (rule arm) (simp add: initial_def)
  ultimately have r: "supervise\<^sup>*\<^sup>* initial ?s3" by (meson converse_rtranclp_into_rtranclp rtranclp.rtrancl_refl)
  have "\<forall>t. supervise ?s3 t \<longrightarrow> su_phase t = Killed"
    using helper_death_kills [OF r] by (simp add: initial_def)
  with r show ?thesis by (intro exI [of _ ?s3]) (simp add: initial_def)
qed

end
