(* ===== verification/Publication.thy ===== *)
theory Publication
  imports Adapter_Mise Python_Text
begin

text \<open>
  The publication tools of \<open>src/scripts/\<close>: the roadmap model of \<open>publication_model.py\<close>, the parsers of
  \<open>publication_verifier_model.py\<close>, the verifier of \<open>publication_verifier_service.py\<close> and
  \<open>publication_verifier_marketplace.py\<close>, and the publisher of \<open>publish_repository.py\<close>. Commands of git and of
  the GitHub client are an argument. Shown is what a passed verification says about the repository, and
  that publishing creates just the missing issues.
\<close>

section \<open>The roadmap\<close>

datatype publication_exn =
    Backlog_Error ustr
  | Verifier_Error ustr
  | Publication_Error ustr
  | Other_Error exn

type_synonym 'a published = "publication_exn + 'a"

definition REQUIRED_SECTIONS :: "ustr list" where
  "REQUIRED_SECTIONS = map lit [''Value'', ''Scope'', ''Safety constraints'', ''Dependencies'',
     ''Acceptance criteria'', ''Non-goals'', ''Labels'']"

definition REQUIRED_LABELS :: "ustr set" where
  "REQUIRED_LABELS = {lit ''enhancement'', lit ''roadmap''}"

record RoadmapItem =
  rm_slug :: ustr
  rm_title :: ustr
  rm_issue_body :: ustr
  rm_labels :: "ustr set"

record ExistingIssue =
  ei_slug :: ustr
  ei_url :: ustr
  ei_labels :: "ustr set"

record IssueSetComparison =
  cmp_missing :: "ustr set"
  cmp_unexpected :: "ustr set"
  cmp_duplicate :: "ustr set"
  cmp_missing_labels :: "ustr set"

definition can_seed :: "IssueSetComparison \<Rightarrow> bool" where
  "can_seed c \<longleftrightarrow> cmp_unexpected c = {} \<and> cmp_duplicate c = {} \<and> cmp_missing_labels c = {}"

text \<open>\<open>[a-z0-9-]\<close>, and the text before and after the first occurrence of a marker.\<close>

definition slug_char :: "nat \<Rightarrow> bool" where
  "slug_char c \<longleftrightarrow> (97 \<le> c \<and> c \<le> 122) \<or> is_digit c \<or> c = 45"

fun until :: "ustr \<Rightarrow> ustr \<Rightarrow> (ustr \<times> ustr) option" where
  "until marker [] = (if marker = [] then Some ([], []) else None)"
| "until marker (c # s) =
     (if prefix marker (c # s) then Some ([], drop (length marker) (c # s))
      else map_option (apfst (\<lambda>t. c # t)) (until marker s))"

text \<open>
  \<open>ENTRY_PATTERN\<close> at the head of a text: slug, title and body, and what follows the entry. Every part of the
  pattern ends at a character that it cannot contain, so there is nothing to backtrack.
\<close>

definition entry_at :: "ustr \<Rightarrow> (ustr \<times> ustr \<times> ustr \<times> ustr) option" where
  "entry_at s =
     (let open_mark = lit ''<!-- opatchy-roadmap: ''; close_mark = lit '' -->'' @ [10] @ lit ''## '';
          s1 = drop (length open_mark) s; slug = takeWhile slug_char s1;
          s2 = dropWhile slug_char s1;
          s3 = drop (length close_mark) s2; title = takeWhile (\<lambda>c. c \<noteq> 10) s3;
          s4 = dropWhile (\<lambda>c. c \<noteq> 10) s3
      in if prefix open_mark s \<and> slug \<noteq> [] \<and> prefix close_mark s2 \<and> title \<noteq> [] \<and> s4 \<noteq> []
         then map_option (\<lambda>(body, rest). (slug, title, body, rest))
                (until (lit ''<!-- /opatchy-roadmap -->'') (tl s4))
         else None)"

lemma until_shorter: "until marker s = Some (body, rest) \<Longrightarrow> length rest \<le> length s"
proof (induction marker s arbitrary: body rest rule: until.induct)
  case (2 marker c s)
  then show ?case by (fastforce simp: apfst_def map_prod_def split: if_splits prod.splits)
qed (auto split: if_splits)

lemma entry_at_shorter:
  assumes "entry_at s = Some (slug, title, body, rest)"
  shows "length rest < length s"
proof -
  let ?s1 = "drop (length (lit ''<!-- opatchy-roadmap: '')) s"
  let ?s3 = "drop (length (lit '' -->'' @ [10] @ lit ''## '')) (dropWhile slug_char ?s1)"
  let ?s4 = "dropWhile (\<lambda>c. c \<noteq> 10) ?s3"
  from assms have "?s4 \<noteq> []" and u: "until (lit ''<!-- /opatchy-roadmap -->'') (tl ?s4) = Some (body, rest)"
    unfolding entry_at_def Let_def by (auto split: if_splits)
  then have "length rest < length ?s4" using until_shorter [OF u] by (cases ?s4) auto
  also have "length ?s4 \<le> length ?s3" by (rule length_dropWhile_le)
  also have "length ?s3 \<le> length ?s1" using length_dropWhile_le [of slug_char ?s1] by simp
  also have "length ?s1 \<le> length s" by simp
  finally show ?thesis .
qed

function entries :: "ustr \<Rightarrow> (ustr \<times> ustr \<times> ustr) list" where
  "entries s =
     (case entry_at s of
        Some (slug, title, body, rest) \<Rightarrow> (slug, title, body) # entries rest
      | None \<Rightarrow> (case s of [] \<Rightarrow> [] | c # s' \<Rightarrow> entries s'))"
  by auto

termination
  by (relation "measure length") (auto dest: entry_at_shorter)

declare entries.simps [simp del]

fun contains :: "ustr \<Rightarrow> ustr \<Rightarrow> bool" where
  "contains needle [] \<longleftrightarrow> needle = []"
| "contains needle (c # s) \<longleftrightarrow> prefix needle (c # s) \<or> contains needle s"

text \<open>The rest of the line after the heading of the labels, where it is not empty.\<close>

fun labels_line :: "ustr \<Rightarrow> ustr option" where
  "labels_line [] = None"
| "labels_line (c # s) =
     (let mark = lit ''## Labels'' @ [10]; line = takeWhile (\<lambda>x. x \<noteq> 10) (drop (length mark) (c # s))
      in if prefix mark (c # s) \<and> line \<noteq> [] then Some line else labels_line s)"

definition parse_labels :: "ustr \<Rightarrow> ustr \<Rightarrow> ustr set published" where
  "parse_labels slug body =
     (case labels_line body of
        None \<Rightarrow> Inl (Backlog_Error (lit ''roadmap entry '' @ slug @ lit '' has no labels''))
      | Some line \<Rightarrow>
          (let labels = set (map strip (split_on 44 line))
           in if labels \<noteq> REQUIRED_LABELS
              then Inl (Backlog_Error (lit ''roadmap entry '' @ slug @ lit '' must use roadmap and enhancement labels''))
              else Inr labels))"

definition parse_entry :: "ustr \<times> ustr \<times> ustr \<Rightarrow> RoadmapItem published" where
  "parse_entry = (\<lambda>(slug, raw_title, raw_body).
     let title = strip raw_title; body = strip raw_body;
         missing = filter (\<lambda>section. \<not> contains (lit ''## '' @ section @ [10]) body) REQUIRED_SECTIONS
     in if title = [] then Inl (Backlog_Error (lit ''roadmap entry '' @ slug @ lit '' has no title''))
        else if missing \<noteq> [] then
          Inl (Backlog_Error (lit ''roadmap entry '' @ slug @ lit '' misses: '' @ join (lit '', '') missing))
        else bindE (parse_labels slug body) (\<lambda>labels. Inr
          \<lparr>rm_slug = slug, rm_title = title,
           rm_issue_body = lit ''<!-- opatchy-roadmap-slug: '' @ slug @ lit '' -->'' @ [10, 10] @ lit ''# ['' @ slug @
             lit ''] '' @ title @ [10, 10] @ body @ [10],
           rm_labels = labels\<rparr>))"

definition parse_backlog :: "ustr \<Rightarrow> RoadmapItem list published" where
  "parse_backlog markdown =
     (if entries markdown = [] then Inl (Backlog_Error (lit ''backlog has no roadmap entries''))
      else bindE (mapE parse_entry (entries markdown)) (\<lambda>items.
        let slugs = map rm_slug items; duplicates = filter (\<lambda>s. 1 < count_list slugs s) (sort (remdups slugs))
        in if duplicates \<noteq> []
           then Inl (Backlog_Error (lit ''backlog has duplicate slugs: '' @ join (lit '', '') duplicates))
           else Inr items))"

section \<open>The issues of the repository\<close>

text \<open>
  \<open>SLUG_PATTERN.search\<close>. The response of GitHub is read by \<open>json.loads\<close> of the standard library without the
  hooks of \<open>json_value.py\<close>: an argument, whose left value is its exception if it is not the
  \<open>JSONDecodeError\<close>.
\<close>

type_synonym json_loader = "ustr \<Rightarrow> exn option + JsonValue"

definition slug_at :: "ustr \<Rightarrow> ustr option" where
  "slug_at s =
     (let mark = lit ''<!-- opatchy-roadmap-slug: ''; rest = drop (length mark) s; slug = takeWhile slug_char rest
      in if prefix mark s \<and> slug \<noteq> [] \<and> prefix (lit '' -->'') (dropWhile slug_char rest) then Some slug else None)"

fun slug_search :: "ustr \<Rightarrow> ustr option" where
  "slug_search [] = None"
| "slug_search (c # s) = (case slug_at (c # s) of Some slug \<Rightarrow> Some slug | None \<Rightarrow> slug_search s)"

definition invalid_issue :: publication_exn where
  "invalid_issue = Backlog_Error (lit ''GitHub issue response contains an invalid issue'')"

definition is_roadmap :: "JsonValue \<Rightarrow> bool published" where
  "is_roadmap entry =
     (case entry of
        JObj ps \<Rightarrow> (case map_of ps (lit ''body'') of
            Some (JStr body) \<Rightarrow> Inr (slug_search body \<noteq> None) | _ \<Rightarrow> Inl invalid_issue)
      | _ \<Rightarrow> Inl invalid_issue)"

fun remote_labels :: "JsonValue list \<Rightarrow> ustr set published" where
  "remote_labels [] = Inr {}"
| "remote_labels (label # labels) =
     (case label of
        JObj ps \<Rightarrow> (case map_of ps (lit ''name'') of
            Some (JStr name) \<Rightarrow> bindE (remote_labels labels) (\<lambda>names. Inr (insert name names))
          | _ \<Rightarrow> Inl (Backlog_Error (lit ''GitHub issue response contains an invalid label'')))
      | _ \<Rightarrow> Inl (Backlog_Error (lit ''GitHub issue response contains an invalid label'')))"

definition parse_existing_issue :: "JsonValue \<Rightarrow> ExistingIssue published" where
  "parse_existing_issue entry =
     (case entry of
        JObj ps \<Rightarrow>
          (case (map_of ps (lit ''body''), map_of ps (lit ''url''), map_of ps (lit ''labels'')) of
             (Some (JStr body), Some (JStr url), Some (JArr labels)) \<Rightarrow>
               (case slug_search body of
                  None \<Rightarrow> Inl (Backlog_Error (lit ''roadmap issue lacks its slug marker''))
                | Some slug \<Rightarrow> bindE (remote_labels labels) (\<lambda>names. Inr
                    \<lparr>ei_slug = slug, ei_url = url, ei_labels = names\<rparr>))
           | _ \<Rightarrow> Inl invalid_issue)
      | _ \<Rightarrow> Inl invalid_issue)"

fun existing_issues :: "JsonValue list \<Rightarrow> ExistingIssue list published" where
  "existing_issues [] = Inr []"
| "existing_issues (entry # rest) =
     bindE (is_roadmap entry) (\<lambda>wanted.
       if wanted
       then bindE (parse_existing_issue entry) (\<lambda>issue. bindE (existing_issues rest) (\<lambda>issues. Inr (issue # issues)))
       else existing_issues rest)"

definition parse_existing_issues :: "json_loader \<Rightarrow> ustr \<Rightarrow> ExistingIssue list published" where
  "parse_existing_issues load document =
     (case load document of
        Inl None \<Rightarrow> Inl (Backlog_Error (lit ''GitHub issue response is invalid JSON''))
      | Inl (Some e) \<Rightarrow> Inl (Other_Error e)
      | Inr (JArr vs) \<Rightarrow> existing_issues vs
      | Inr _ \<Rightarrow> Inl (Backlog_Error (lit ''GitHub issue response must be an array'')))"

definition compare_issue_sets :: "RoadmapItem list \<Rightarrow> ExistingIssue list \<Rightarrow> IssueSetComparison" where
  "compare_issue_sets expected existing =
     (let expected_slugs = set (map rm_slug expected); slugs = map ei_slug existing
      in \<lparr>cmp_missing = expected_slugs - set slugs, cmp_unexpected = set slugs - expected_slugs,
          cmp_duplicate = set (filter (\<lambda>s. 1 < count_list slugs s) slugs),
          cmp_missing_labels = set (map ei_slug (filter (\<lambda>i. \<not> REQUIRED_LABELS \<subseteq> ei_labels i) existing))\<rparr>)"

section \<open>Documents of GitHub\<close>

definition APPROVED_PLUGIN_ID :: ustr where
  "APPROVED_PLUGIN_ID = lit ''io.github.tommynem.opatchy''"

definition APPROVED_REPOSITORY :: ustr where
  "APPROVED_REPOSITORY = lit ''Tommynem/opatchy''"

definition MARKETPLACE_REPOSITORY :: ustr where
  "MARKETPLACE_REPOSITORY = lit ''omacom/omarchy-plugin-marketplace''"

definition verifier_fail :: "string \<Rightarrow> publication_exn" where
  "verifier_fail message = Verifier_Error (lit message)"

definition parse_document :: "ustr \<Rightarrow> string \<Rightarrow> JsonValue published" where
  "parse_document document description =
     (case decode_json document of
        Inl (ProtocolError _) \<Rightarrow> Inl (Verifier_Error (lit description @ lit '' is invalid JSON''))
      | Inl e \<Rightarrow> Inl (Other_Error e)
      | Inr v \<Rightarrow> Inr v)"

definition parse_object :: "ustr \<Rightarrow> string \<Rightarrow> JsonObject published" where
  "parse_object document description =
     bindE (parse_document document description) (\<lambda>v.
       case v of JObj ps \<Rightarrow> Inr ps | _ \<Rightarrow> Inl (Verifier_Error (lit description @ lit '' must be a JSON object'')))"

definition parse_array :: "ustr \<Rightarrow> string \<Rightarrow> JsonValue list published" where
  "parse_array document description =
     bindE (parse_document document description) (\<lambda>v.
       case v of JArr vs \<Rightarrow> Inr vs | _ \<Rightarrow> Inl (Verifier_Error (lit description @ lit '' must be a JSON array'')))"

definition field_is :: "JsonObject \<Rightarrow> string \<Rightarrow> JsonValue \<Rightarrow> bool" where
  "field_is ps key v \<longleftrightarrow> map_of ps (lit key) = Some v"

definition parse_target :: "ustr \<Rightarrow> unit published" where
  "parse_target document =
     bindE (parse_object document ''target repository'') (\<lambda>ps.
       if field_is ps ''nameWithOwner'' (JStr APPROVED_REPOSITORY) \<and> field_is ps ''isEmpty'' (JBool True) \<and>
          field_is ps ''viewerPermission'' (JStr (lit ''ADMIN''))
       then Inr ()
       else Inl (verifier_fail ''target repository is unavailable, unauthorized, or nonempty''))"

text \<open>\<open>{key: {"name": str(branch)}}\<close> and \<open>{key: str(branch)}\<close>, where the branch is not empty.\<close>

definition named_branch :: "JsonObject \<Rightarrow> string \<Rightarrow> ustr option" where
  "named_branch ps key =
     (case map_of ps (lit key) of
        Some (JObj reference) \<Rightarrow>
          (case map_of reference (lit ''name'') of
             Some (JStr branch) \<Rightarrow> if branch = [] then None else Some branch
           | _ \<Rightarrow> None)
      | _ \<Rightarrow> None)"

definition parse_published_repository :: "ustr \<Rightarrow> ustr published" where
  "parse_published_repository document =
     bindE (parse_object document ''published repository'') (\<lambda>ps.
       case named_branch ps ''defaultBranchRef'' of
         Some branch \<Rightarrow>
           if field_is ps ''nameWithOwner'' (JStr APPROVED_REPOSITORY) \<and>
              field_is ps ''visibility'' (JStr (lit ''PUBLIC'')) \<and>
              field_is ps ''url'' (JStr (lit ''https://github.com/Tommynem/opatchy'')) \<and>
              field_is ps ''hasIssuesEnabled'' (JBool True)
           then Inr branch
           else Inl (verifier_fail ''published repository does not match approved invariants'')
       | None \<Rightarrow> Inl (verifier_fail ''published repository does not match approved invariants''))"

definition parse_default_branch :: "ustr \<Rightarrow> string \<Rightarrow> ustr published" where
  "parse_default_branch document description =
     bindE (parse_object document description) (\<lambda>ps.
       case named_branch ps ''defaultBranchRef'' of
         Some branch \<Rightarrow> Inr branch
       | None \<Rightarrow>
           (case map_of ps (lit ''default_branch'') of
              Some (JStr (c # cs)) \<Rightarrow> Inr (c # cs)
            | _ \<Rightarrow> Inl (Verifier_Error (lit description @ lit '' has no usable default branch''))))"

fun add_plugin_ids :: "ustr set \<Rightarrow> ustr list \<Rightarrow> ustr set published" where
  "add_plugin_ids active [] = Inr active"
| "add_plugin_ids active (plugin # plugins) =
     (if plugin = [] \<or> plugin \<in> active
      then Inl (verifier_fail ''marketplace registry has malformed plugin maps'')
      else add_plugin_ids (insert plugin active) plugins)"

fun active_plugin_ids :: "ustr set \<Rightarrow> JsonValue list \<Rightarrow> ustr set published" where
  "active_plugin_ids active [] = Inr active"
| "active_plugin_ids active (source # sources) =
     (case source of
        JObj ps \<Rightarrow>
          (case map_of ps (lit ''plugins'') of
             Some (JObj plugins) \<Rightarrow>
               bindE (add_plugin_ids active (map fst plugins)) (\<lambda>more. active_plugin_ids more sources)
           | Some _ \<Rightarrow> Inl (verifier_fail ''marketplace registry has malformed plugin maps'')
           | None \<Rightarrow> active_plugin_ids active sources)
      | _ \<Rightarrow> Inl (verifier_fail ''marketplace registry has malformed plugin maps''))"

fun retired_plugin_ids :: "ustr set \<Rightarrow> JsonValue list \<Rightarrow> ustr set published" where
  "retired_plugin_ids ids [] = Inr ids"
| "retired_plugin_ids ids (entry # retired) =
     (case entry of
        JStr plugin \<Rightarrow>
          if plugin \<noteq> [] \<and> plugin \<notin> ids then retired_plugin_ids (insert plugin ids) retired
          else Inl (verifier_fail ''marketplace registry has malformed retiredPluginIds'')
      | _ \<Rightarrow> Inl (verifier_fail ''marketplace registry has malformed retiredPluginIds''))"

definition parse_marketplace_registry :: "ustr \<Rightarrow> (ustr set \<times> ustr set) published" where
  "parse_marketplace_registry document =
     bindE (parse_object document ''marketplace registry'') (\<lambda>ps.
       case (map_of ps (lit ''sources''), map_of ps (lit ''retiredPluginIds'')) of
         (Some (JArr sources), Some (JArr retired)) \<Rightarrow>
           bindE (active_plugin_ids {} sources) (\<lambda>active.
           bindE (retired_plugin_ids {} retired) (\<lambda>retired_ids. Inr (active, retired_ids)))
       | _ \<Rightarrow> Inl (verifier_fail ''marketplace registry has an incomplete schema''))"

definition full_sha :: "ustr \<Rightarrow> bool" where
  "full_sha sha \<longleftrightarrow> length sha = 40 \<and> list_all is_lower_hex sha"

definition require_sha :: "ustr \<Rightarrow> string \<Rightarrow> ustr published" where
  "require_sha value description =
     (if full_sha (strip value) then Inr (strip value)
      else Inl (Verifier_Error (lit description @ lit '' must be a lowercase full commit SHA'')))"

fun ci_matches :: "ustr \<Rightarrow> JsonValue list \<Rightarrow> nat published" where
  "ci_matches sha [] = Inr 0"
| "ci_matches sha (run # runs) =
     (case run of
        JObj ps \<Rightarrow>
          (case (map_of ps (lit ''headSha''), map_of ps (lit ''status''), map_of ps (lit ''conclusion'')) of
             (Some (JStr head), Some (JStr status), Some (JStr conclusion)) \<Rightarrow>
               if head = sha then
                 (if status \<noteq> lit ''completed'' \<or> conclusion \<noteq> lit ''success''
                  then Inl (verifier_fail ''expected SHA has no successful Validate workflow run'')
                  else bindE (ci_matches sha runs) (\<lambda>n. Inr (n + 1)))
               else ci_matches sha runs
           | _ \<Rightarrow> Inl (verifier_fail ''Validate workflow response has an invalid run''))
      | _ \<Rightarrow> Inl (verifier_fail ''Validate workflow response has an invalid run''))"

definition require_successful_ci :: "ustr \<Rightarrow> ustr \<Rightarrow> unit published" where
  "require_successful_ci document sha =
     bindE (parse_array document ''Validate workflow response'') (\<lambda>runs.
     bindE (ci_matches sha runs) (\<lambda>matched.
       if matched = 0 then Inl (verifier_fail ''expected SHA has no successful Validate workflow run'')
       else Inr ()))"

section \<open>The verifier\<close>

text \<open>
  What a command of git or of the GitHub client gives: its exit status and its output. No command is
  run twice in one verification, so that the commands may be a function of their arguments.
\<close>

record Completed =
  co_returncode :: int
  co_stdout :: ustr

type_synonym commands = "ustr list \<Rightarrow> Completed"

definition require_result :: "commands \<Rightarrow> ustr list \<Rightarrow> ustr \<Rightarrow> ustr published" where
  "require_result run arguments operation =
     (let result = run arguments
      in if co_returncode result \<noteq> 0 then Inl (Verifier_Error (operation @ lit '' failed'')) else Inr (co_stdout result))"

definition repo_view :: "ustr \<Rightarrow> string \<Rightarrow> ustr list" where
  "repo_view repository columns = [lit ''gh'', lit ''repo'', lit ''view'', repository, lit ''--json'', lit columns]"

definition commit_lookup :: "ustr \<Rightarrow> ustr \<Rightarrow> ustr list" where
  "commit_lookup repository branch =
     [lit ''gh'', lit ''api'', lit ''repos/'' @ repository @ lit ''/commits/'' @ branch, lit ''--jq'', lit ''.sha'']"

definition registry_lookup :: "ustr \<Rightarrow> ustr list" where
  "registry_lookup sha =
     [lit ''gh'', lit ''api'', lit ''repos/'' @ MARKETPLACE_REPOSITORY @ lit ''/contents/registry.json?ref='' @ sha,
      lit ''-H'', lit ''Accept: application/vnd.github.raw+json'']"

definition require_marketplace_absent :: "commands \<Rightarrow> ustr published" where
  "require_marketplace_absent run =
     bindE (require_result run (repo_view MARKETPLACE_REPOSITORY ''defaultBranchRef'')
              (lit ''marketplace branch lookup'')) (\<lambda>view.
     bindE (parse_default_branch view ''marketplace repository'') (\<lambda>branch.
     bindE (require_result run (commit_lookup MARKETPLACE_REPOSITORY branch) (lit ''marketplace SHA lookup'')) (\<lambda>out.
     bindE (require_sha out ''marketplace SHA'') (\<lambda>sha.
     bindE (require_result run (registry_lookup sha) (lit ''marketplace registry lookup'')) (\<lambda>registry.
     bindE (parse_marketplace_registry registry) (\<lambda>(active, retired).
       if APPROVED_PLUGIN_ID \<in> active \<union> retired
       then Inl (verifier_fail ''marketplace collision for the permanent plugin ID'')
       else Inr sha))))))"

record VerificationReport =
  vr_mode :: ustr
  vr_remote_sha :: ustr
  vr_marketplace_sha :: ustr

definition OWNER_LOOKUP :: "ustr list" where
  "OWNER_LOOKUP = [lit ''gh'', lit ''api'', lit ''user'', lit ''--jq'', lit ''.login'']"

definition require_plugin_id :: "ustr \<Rightarrow> unit published" where
  "require_plugin_id plugin =
     checkE (plugin = APPROVED_PLUGIN_ID) (verifier_fail ''plugin ID does not match the approved identity'')"

definition require_owner :: "commands \<Rightarrow> unit published" where
  "require_owner run =
     bindE (require_result run OWNER_LOOKUP (lit ''owner lookup'')) (\<lambda>out.
       checkE (strip out = lit ''Tommynem'')
         (verifier_fail ''GitHub CLI owner does not match the approved owner''))"

definition require_empty_target :: "commands \<Rightarrow> unit published" where
  "require_empty_target run =
     bindE (require_result run (repo_view APPROVED_REPOSITORY ''nameWithOwner,isEmpty,viewerPermission'')
              (lit ''target lookup'')) parse_target"

definition APPROVED_ORIGINS :: "ustr set" where
  "APPROVED_ORIGINS = set (map lit [''git@github.com:Tommynem/opatchy.git'',
     ''https://github.com/Tommynem/opatchy.git'', ''https://github.com/Tommynem/opatchy''])"

definition require_origin :: "commands \<Rightarrow> unit published" where
  "require_origin run =
     bindE (require_result run (map lit [''git'', ''remote'', ''get-url'', ''origin'']) (lit ''origin lookup'')) (\<lambda>out.
       checkE (strip out \<in> APPROVED_ORIGINS) (verifier_fail ''origin does not identify the approved repository''))"

definition require_published_repository :: "commands \<Rightarrow> ustr published" where
  "require_published_repository run =
     bindE (require_result run
              (repo_view APPROVED_REPOSITORY ''nameWithOwner,visibility,url,hasIssuesEnabled,defaultBranchRef'')
              (lit ''published repository lookup'')) parse_published_repository"

definition issue_list :: "ustr \<Rightarrow> ustr list" where
  "issue_list repository = [lit ''gh'', lit ''issue'', lit ''list'', lit ''--repo'', repository, lit ''--state'',
     lit ''all'', lit ''--limit'', lit ''100'', lit ''--json'', lit ''title,body,url,labels'']"

definition exact_match :: "IssueSetComparison \<Rightarrow> bool" where
  "exact_match c \<longleftrightarrow> cmp_missing c = {} \<and> can_seed c"

definition require_roadmap_match :: "json_loader \<Rightarrow> commands \<Rightarrow> RoadmapItem list \<Rightarrow> unit published" where
  "require_roadmap_match load run items =
     bindE (require_result run (issue_list APPROVED_REPOSITORY) (lit ''roadmap issue lookup'')) (\<lambda>out.
       case parse_existing_issues load out of
         Inl (Backlog_Error _) \<Rightarrow> Inl (verifier_fail ''roadmap issue response cannot be parsed safely'')
       | Inl e \<Rightarrow> Inl e
       | Inr issues \<Rightarrow> checkE (exact_match (compare_issue_sets items issues))
           (verifier_fail ''remote roadmap issues do not exactly match the backlog''))"

definition validate_runs :: "ustr \<Rightarrow> ustr list" where
  "validate_runs branch = [lit ''gh'', lit ''run'', lit ''list'', lit ''--repo'', APPROVED_REPOSITORY,
     lit ''--workflow'', lit ''Validate'', lit ''--branch'', branch, lit ''--limit'', lit ''100'', lit ''--json'',
     lit ''headSha,status,conclusion,url'']"

definition require_validate_success :: "commands \<Rightarrow> ustr \<Rightarrow> ustr \<Rightarrow> unit published" where
  "require_validate_success run sha branch =
     bindE (require_result run (validate_runs branch) (lit ''Validate lookup'')) (\<lambda>out. require_successful_ci out sha)"

definition TAG_LOOKUP :: "ustr list" where
  "TAG_LOOKUP = [lit ''gh'', lit ''api'', lit ''repos/'' @ APPROVED_REPOSITORY @ lit ''/tags'', lit ''--paginate'']"

definition RELEASE_LOOKUP :: "ustr list" where
  "RELEASE_LOOKUP = [lit ''gh'', lit ''release'', lit ''list'', lit ''--repo'', APPROVED_REPOSITORY, lit ''--limit'',
     lit ''100'', lit ''--json'', lit ''tagName'']"

text \<open>\<open>parse_array(tags) or parse_array(releases)\<close>: the second is only read when the first is empty.\<close>

definition require_no_tags_or_releases :: "commands \<Rightarrow> unit published" where
  "require_no_tags_or_releases run =
     bindE (require_result run TAG_LOOKUP (lit ''tag lookup'')) (\<lambda>tags.
     bindE (require_result run RELEASE_LOOKUP (lit ''release lookup'')) (\<lambda>releases.
     bindE (parse_array tags ''tag response'') (\<lambda>tag_list.
     bindE (if tag_list \<noteq> [] then Inr tag_list else parse_array releases ''release response'') (\<lambda>found.
       checkE (found = []) (verifier_fail ''published repository unexpectedly has tags or releases'')))))"

definition verify_pre_publication :: "commands \<Rightarrow> ustr \<Rightarrow> VerificationReport published" where
  "verify_pre_publication run plugin =
     bindE (require_plugin_id plugin) (\<lambda>_. bindE (require_owner run) (\<lambda>_. bindE (require_empty_target run) (\<lambda>_.
     bindE (require_marketplace_absent run) (\<lambda>sha.
       Inr \<lparr>vr_mode = lit ''pre-publication'', vr_remote_sha = [], vr_marketplace_sha = sha\<rparr>))))"

definition verify_published :: "json_loader \<Rightarrow> commands \<Rightarrow> RoadmapItem list \<Rightarrow> ustr \<Rightarrow> VerificationReport published" where
  "verify_published load run items plugin =
     bindE (require_plugin_id plugin) (\<lambda>_. bindE (require_owner run) (\<lambda>_. bindE (require_origin run) (\<lambda>_.
     bindE (require_result run (map lit [''git'', ''rev-parse'', ''HEAD'']) (lit ''local SHA'')) (\<lambda>local_out.
     bindE (require_sha local_out ''local SHA'') (\<lambda>local_sha.
     bindE (require_published_repository run) (\<lambda>branch.
     bindE (require_result run (commit_lookup APPROVED_REPOSITORY branch) (lit ''remote SHA'')) (\<lambda>remote_out.
     bindE (require_sha remote_out ''remote SHA'') (\<lambda>remote_sha.
     bindE (checkE (local_sha = remote_sha) (verifier_fail ''local SHA does not match remote default branch'')) (\<lambda>_.
     bindE (require_roadmap_match load run items) (\<lambda>_.
     bindE (require_validate_success run remote_sha branch) (\<lambda>_.
     bindE (require_no_tags_or_releases run) (\<lambda>_.
     bindE (require_marketplace_absent run) (\<lambda>sha.
       Inr \<lparr>vr_mode = lit ''published'', vr_remote_sha = remote_sha, vr_marketplace_sha = sha\<rparr>)))))))))))))"

section \<open>The publisher\<close>

text \<open>
  \<open>Publisher\<close>: its result with the commands it has run, in order. \<open>issue\<close> is a run of commands that
  ends at the first failure.
\<close>

definition publisher_fail :: "ustr \<Rightarrow> publication_exn" where
  "publisher_fail operation = Publication_Error (operation @ lit '' failed'')"

fun issue :: "commands \<Rightarrow> (ustr list \<times> ustr) list \<Rightarrow> unit published \<times> ustr list list" where
  "issue run [] = (Inr (), [])"
| "issue run ((arguments, operation) # rest) =
     (if co_returncode (run arguments) \<noteq> 0 then (Inl (publisher_fail operation), [arguments])
      else apsnd (\<lambda>done. arguments # done) (issue run rest))"

definition label_commands :: "ustr \<Rightarrow> (ustr list \<times> ustr) list" where
  "label_commands repository = map (\<lambda>label.
     ([lit ''gh'', lit ''label'', lit ''create'', label, lit ''--repo'', repository, lit ''--force''],
      lit ''label create '' @ label)) [lit ''enhancement'', lit ''roadmap'']"

definition issue_command :: "ustr \<Rightarrow> RoadmapItem \<Rightarrow> ustr list \<times> ustr" where
  "issue_command repository item =
     ([lit ''gh'', lit ''issue'', lit ''create'', lit ''--repo'', repository, lit ''--title'',
       lit ''['' @ rm_slug item @ lit ''] '' @ rm_title item, lit ''--body'', rm_issue_body item,
       lit ''--label'', lit ''enhancement'', lit ''--label'', lit ''roadmap''],
      lit ''issue create '' @ rm_slug item)"

definition list_existing_issues :: "json_loader \<Rightarrow> commands \<Rightarrow> ustr \<Rightarrow> ExistingIssue list published" where
  "list_existing_issues load run repository =
     (let result = run (issue_list repository)
      in if co_returncode result \<noteq> 0 then Inl (publisher_fail (lit ''issue list''))
         else (case parse_existing_issues load (co_stdout result) of
             Inl (Backlog_Error _) \<Rightarrow> Inl (Publication_Error (lit ''GitHub issue list cannot be parsed safely''))
           | r \<Rightarrow> r))"

definition publisher_owner :: "commands \<Rightarrow> ustr \<Rightarrow> unit published" where
  "publisher_owner run owner =
     (let result = run OWNER_LOOKUP
      in if co_returncode result \<noteq> 0 then Inl (publisher_fail (lit ''owner lookup''))
         else checkE (strip (co_stdout result) = owner)
           (Publication_Error (lit ''GitHub CLI owner does not match the approved owner'')))"

definition seed :: "json_loader \<Rightarrow> commands \<Rightarrow> ustr \<Rightarrow> ustr \<Rightarrow> RoadmapItem list \<Rightarrow> bool
    \<Rightarrow> unit published \<times> ustr list list" where
  "seed load run repository owner items dry_run =
     (case publisher_owner run owner of
        Inl e \<Rightarrow> (Inl e, [OWNER_LOOKUP])
      | Inr _ \<Rightarrow>
          (case list_existing_issues load run repository of
             Inl e \<Rightarrow> (Inl e, [OWNER_LOOKUP, issue_list repository])
           | Inr existing \<Rightarrow>
               (let comparison = compare_issue_sets items existing;
                    missing = filter (\<lambda>item. rm_slug item \<in> cmp_missing comparison) items
                in apsnd (\<lambda>done. [OWNER_LOOKUP, issue_list repository] @ done)
                     (if \<not> can_seed comparison
                      then (Inl (Publication_Error (lit ''remote roadmap issues do not match the committed model'')), [])
                      else if dry_run \<or> missing = [] then (Inr (), [])
                      else issue run (label_commands repository @ map (issue_command repository) missing)))))"

section \<open>Command lines\<close>

text \<open>Mode, plugin id and path of the backlog; repository, path of the backlog and whether it is a dry run.\<close>

definition verifier_arguments :: "ustr list \<Rightarrow> (ustr \<times> ustr \<times> ustr option) published" where
  "verifier_arguments arguments =
     (if length arguments \<notin> {6, 8} \<or> arguments ! 0 \<noteq> lit ''--mode'' \<or> arguments ! 2 \<noteq> lit ''--repository'' \<or>
         arguments ! 3 \<noteq> APPROVED_REPOSITORY \<or> arguments ! 4 \<noteq> lit ''--plugin-id'' \<or>
         (length arguments = 8 \<and> arguments ! 6 \<noteq> lit ''--backlog'')
      then Inl (verifier_fail ''publication verifier arguments are invalid'')
      else
        let mode = arguments ! 1; plugin = arguments ! 5;
            backlog = (if length arguments = 8 then Some (arguments ! 7) else None)
        in if mode \<notin> {lit ''pre-publication'', lit ''published''} \<or> plugin \<noteq> APPROVED_PLUGIN_ID
           then Inl (verifier_fail ''approved mode or plugin ID is invalid'')
           else if (mode = lit ''published'') \<noteq> (backlog \<noteq> None)
           then Inl (verifier_fail ''published mode requires exactly one backlog path'')
           else Inr (mode, plugin, backlog))"

definition PUBLISHER_USAGE :: publication_exn where
  "PUBLISHER_USAGE = Publication_Error
     (lit ''usage: publish_repository.py --repository OWNER/NAME --backlog PATH [--dry-run]'')"

definition publisher_arguments :: "ustr list \<Rightarrow> (ustr \<times> ustr \<times> bool) published" where
  "publisher_arguments arguments =
     (if length arguments \<notin> {4, 5} \<or> arguments ! 0 \<noteq> lit ''--repository'' then Inl PUBLISHER_USAGE
      else if arguments ! 2 \<noteq> lit ''--backlog'' \<or> (length arguments = 5 \<and> arguments ! 4 \<noteq> lit ''--dry-run'')
      then Inl PUBLISHER_USAGE
      else
        let repository = arguments ! 1; owner = takeWhile (\<lambda>c. c \<noteq> 47) repository;
            rest = dropWhile (\<lambda>c. c \<noteq> 47) repository; name = drop 1 rest
        in if owner = [] \<or> rest = [] \<or> name = [] \<or> 47 \<in> set name
           then Inl (Publication_Error (lit ''repository must use OWNER/NAME form''))
           else Inr (repository, arguments ! 3, length arguments = 5))"

text \<open>
  The work of the two \<open>main\<close> functions for the text of the backlog; an exception of theirs other than \<open>Other_Error\<close>
  ends the process with status 1.
\<close>

definition run_verifier :: "json_loader \<Rightarrow> commands \<Rightarrow> ustr list \<Rightarrow> ustr \<Rightarrow> VerificationReport published" where
  "run_verifier load run arguments backlog_text =
     bindE (verifier_arguments arguments) (\<lambda>(mode, plugin, backlog).
       if mode = lit ''pre-publication'' then verify_pre_publication run plugin
       else bindE (parse_backlog backlog_text) (\<lambda>items. verify_published load run items plugin))"

definition run_publisher :: "json_loader \<Rightarrow> commands \<Rightarrow> ustr list \<Rightarrow> ustr \<Rightarrow> unit published \<times> ustr list list" where
  "run_publisher load run arguments backlog_text =
     (case bindE (publisher_arguments arguments) (\<lambda>(repository, _, dry_run).
         bindE (parse_backlog backlog_text) (\<lambda>items. Inr (repository, items, dry_run))) of
        Inl e \<Rightarrow> (Inl e, [])
      | Inr (repository, items, dry_run) \<Rightarrow>
          seed load run repository (takeWhile (\<lambda>c. c \<noteq> 47) repository) items dry_run)"

section \<open>What the checks mean\<close>

lemma checkE_ok [simp]: "checkE b e = Inr u \<longleftrightarrow> b"
  by (simp add: checkE_def)

text \<open>A \<open>match\<close> with one case for a kind of value, or for an entry with such a value.\<close>

lemma case_kinds:
  "(case v of JObj ps \<Rightarrow> f ps | _ \<Rightarrow> Inl e) = Inr w \<longleftrightarrow> (\<exists>ps. v = JObj ps \<and> f ps = Inr w)"
  "(case v of JArr vs \<Rightarrow> g vs | _ \<Rightarrow> Inl e) = Inr w \<longleftrightarrow> (\<exists>vs. v = JArr vs \<and> g vs = Inr w)"
  "(case v of JStr s \<Rightarrow> h s | _ \<Rightarrow> Inl e) = Inr w \<longleftrightarrow> (\<exists>s. v = JStr s \<and> h s = Inr w)"
  by (cases v; simp)+

lemma case_entry:
  "(case r of None \<Rightarrow> Inl e | Some x \<Rightarrow> k x) = Inr w \<longleftrightarrow> (\<exists>x. r = Some x \<and> k x = Inr w)"
  by (cases r) simp_all

lemma parse_document_ok: "parse_document document description = Inr v \<longleftrightarrow> decode_json document = Inr v"
  by (auto simp: parse_document_def split: sum.splits exn.splits)

lemma parse_object_ok: "parse_object document description = Inr ps \<longleftrightarrow> decode_json document = Inr (JObj ps)"
  by (auto simp: parse_object_def parse_document_ok case_kinds)

lemma parse_array_ok: "parse_array document description = Inr vs \<longleftrightarrow> decode_json document = Inr (JArr vs)"
  by (auto simp: parse_array_def parse_document_ok case_kinds)

lemma require_result_ok: "require_result run arguments operation = Inr out \<longleftrightarrow>
    co_returncode (run arguments) = 0 \<and> out = co_stdout (run arguments)"
  by (auto simp: require_result_def Let_def)

lemma require_sha_ok: "require_sha v description = Inr sha \<longleftrightarrow> sha = strip v \<and> full_sha sha"
  by (auto simp: require_sha_def)

text \<open>A run of the workflow for a commit, and one that succeeded.\<close>

definition run_for :: "ustr \<Rightarrow> JsonValue \<Rightarrow> bool" where
  "run_for sha v = (case v of JObj ps \<Rightarrow> field_is ps ''headSha'' (JStr sha) | _ \<Rightarrow> False)"

definition run_passed :: "JsonValue \<Rightarrow> bool" where
  "run_passed v = (case v of
     JObj ps \<Rightarrow> field_is ps ''status'' (JStr (lit ''completed'')) \<and> field_is ps ''conclusion'' (JStr (lit ''success''))
   | _ \<Rightarrow> False)"

lemma ci_matches_ok:
  "ci_matches sha runs = Inr n \<Longrightarrow>
   n = length (filter (run_for sha) runs) \<and> (\<forall>r \<in> set runs. run_for sha r \<longrightarrow> run_passed r)"
  by (induction runs arbitrary: n)
    (auto simp: run_for_def run_passed_def field_is_def case_kinds case_entry split: if_splits)

lemma require_successful_ci_ok:
  assumes "require_successful_ci document sha = Inr u"
  shows "\<exists>runs. decode_json document = Inr (JArr runs) \<and> (\<exists>r \<in> set runs. run_for sha r) \<and>
    (\<forall>r \<in> set runs. run_for sha r \<longrightarrow> run_passed r)"
proof -
  from assms obtain runs n where r: "decode_json document = Inr (JArr runs)" "ci_matches sha runs = Inr n" "n \<noteq> 0"
    by (auto simp: require_successful_ci_def parse_array_ok split: if_splits)
  from ci_matches_ok [OF r(2)] r(3) have "filter (run_for sha) runs \<noteq> []"
    "\<forall>r \<in> set runs. run_for sha r \<longrightarrow> run_passed r" by auto
  with r(1) show ?thesis by (auto simp: filter_empty_conv)
qed

text \<open>The plugin ids a registry names, active or retired.\<close>

definition lists_plugin :: "ustr \<Rightarrow> JsonValue \<Rightarrow> bool" where
  "lists_plugin plugin source = (case source of
     JObj ps \<Rightarrow> (case map_of ps (lit ''plugins'') of Some (JObj plugins) \<Rightarrow> plugin \<in> fst ` set plugins | _ \<Rightarrow> False)
   | _ \<Rightarrow> False)"

lemma add_plugin_ids_ok: "add_plugin_ids active plugins = Inr found \<Longrightarrow> found = active \<union> set plugins"
  by (induction active plugins rule: add_plugin_ids.induct) (auto split: if_splits)

lemma active_plugin_ids_ok:
  "active_plugin_ids active sources = Inr found \<Longrightarrow> found = active \<union> {p. \<exists>s \<in> set sources. lists_plugin p s}"
proof (induction sources arbitrary: active found)
  case (Cons source sources)
  from Cons.prems obtain ps where s: "source = JObj ps" by (auto simp: case_kinds)
  show ?case
  proof (cases "map_of ps (lit ''plugins'')")
    case None
    with Cons.prems s have "active_plugin_ids active sources = Inr found" by simp
    with Cons.IH have "found = active \<union> {p. \<exists>s \<in> set sources. lists_plugin p s}" by blast
    moreover have "\<not> lists_plugin p source" for p by (simp add: lists_plugin_def s None)
    ultimately show ?thesis by simp
  next
    case (Some v)
    with Cons.prems s obtain plugins ids where v: "v = JObj plugins"
      "add_plugin_ids active (map fst plugins) = Inr ids" "active_plugin_ids ids sources = Inr found"
      by (auto simp: case_kinds)
    then have "found = ids \<union> {p. \<exists>s \<in> set sources. lists_plugin p s}" using Cons.IH by blast
    moreover have "ids = active \<union> fst ` set plugins" using add_plugin_ids_ok [OF v(2)] by simp
    moreover have "lists_plugin p source \<longleftrightarrow> p \<in> fst ` set plugins" for p
      by (simp add: lists_plugin_def s Some v(1))
    ultimately show ?thesis by auto
  qed
qed simp

lemma retired_plugin_ids_ok:
  "retired_plugin_ids ids retired = Inr found \<Longrightarrow> found = ids \<union> {p. JStr p \<in> set retired}"
  by (induction ids retired arbitrary: found rule: retired_plugin_ids.induct)
    (auto simp: case_kinds split: if_splits)

definition marketplace_free :: "commands \<Rightarrow> ustr \<Rightarrow> bool" where
  "marketplace_free run sha \<longleftrightarrow> full_sha sha \<and>
     (\<exists>ps sources retired. decode_json (co_stdout (run (registry_lookup sha))) = Inr (JObj ps) \<and>
        map_of ps (lit ''sources'') = Some (JArr sources) \<and> map_of ps (lit ''retiredPluginIds'') = Some (JArr retired) \<and>
        (\<forall>s \<in> set sources. \<not> lists_plugin APPROVED_PLUGIN_ID s) \<and> JStr APPROVED_PLUGIN_ID \<notin> set retired)"

lemma require_marketplace_absent_ok:
  assumes "require_marketplace_absent run = Inr sha"
  shows "marketplace_free run sha"
proof -
  from assms obtain active retired_ids where s: "full_sha sha" and
    r: "parse_marketplace_registry (co_stdout (run (registry_lookup sha))) = Inr (active, retired_ids)"
      "APPROVED_PLUGIN_ID \<notin> active \<union> retired_ids"
    by (auto simp: require_marketplace_absent_def require_result_ok require_sha_ok split: if_splits)
  from r(1) obtain ps sources retired where
    p: "decode_json (co_stdout (run (registry_lookup sha))) = Inr (JObj ps)"
      "map_of ps (lit ''sources'') = Some (JArr sources)" "map_of ps (lit ''retiredPluginIds'') = Some (JArr retired)"
      "active_plugin_ids {} sources = Inr active" "retired_plugin_ids {} retired = Inr retired_ids"
    by (auto simp: parse_marketplace_registry_def parse_object_ok case_kinds case_entry)
  with s r(2) active_plugin_ids_ok [OF p(4)] retired_plugin_ids_ok [OF p(5)] show ?thesis
    by (auto simp: marketplace_free_def)
qed

text \<open>One issue with the labels for each item of the roadmap, and no other.\<close>

definition roadmap_complete :: "RoadmapItem list \<Rightarrow> ExistingIssue list \<Rightarrow> bool" where
  "roadmap_complete items issues \<longleftrightarrow> distinct (map ei_slug issues) \<and>
     set (map ei_slug issues) = set (map rm_slug items) \<and> (\<forall>i \<in> set issues. REQUIRED_LABELS \<subseteq> ei_labels i)"

lemma distinct_count: "distinct xs \<longleftrightarrow> (\<forall>x \<in> set xs. count_list xs x \<le> 1)"
proof (induction xs)
  case (Cons y xs)
  have "(\<forall>x \<in> set (y # xs). count_list (y # xs) x \<le> 1) \<longleftrightarrow> y \<notin> set xs \<and> (\<forall>x \<in> set xs. count_list xs x \<le> 1)"
    by (auto simp: count_list_0_iff)
  with Cons.IH show ?case by simp
qed simp

lemma exact_match_iff: "exact_match (compare_issue_sets items issues) \<longleftrightarrow> roadmap_complete items issues"
  unfolding roadmap_complete_def distinct_count
  by (auto simp: exact_match_def can_seed_def compare_issue_sets_def Let_def filter_empty_conv not_less)

definition stdout_of :: "commands \<Rightarrow> ustr list \<Rightarrow> ustr" where
  "stdout_of run arguments = co_stdout (run arguments)"

lemma require_roadmap_match_ok:
  assumes "require_roadmap_match load run items = Inr u"
  shows "\<exists>issues. parse_existing_issues load (stdout_of run (issue_list APPROVED_REPOSITORY)) = Inr issues \<and>
    roadmap_complete items issues"
  using assms
  by (auto simp: require_roadmap_match_def require_result_ok exact_match_iff stdout_of_def
      split: sum.splits publication_exn.splits)

lemma require_no_tags_ok:
  assumes "require_no_tags_or_releases run = Inr u"
  shows "decode_json (stdout_of run TAG_LOOKUP) = Inr (JArr []) \<and> decode_json (stdout_of run RELEASE_LOOKUP) = Inr (JArr [])"
  using assms
  by (auto simp: require_no_tags_or_releases_def require_result_ok parse_array_ok stdout_of_def split: if_splits)

lemma parse_published_repository_ok:
  assumes "parse_published_repository document = Inr branch"
  shows "\<exists>ps. decode_json document = Inr (JObj ps) \<and> named_branch ps ''defaultBranchRef'' = Some branch \<and>
    field_is ps ''visibility'' (JStr (lit ''PUBLIC'')) \<and> field_is ps ''hasIssuesEnabled'' (JBool True) \<and>
    field_is ps ''nameWithOwner'' (JStr APPROVED_REPOSITORY)"
  using assms by (auto simp: parse_published_repository_def parse_object_ok case_entry split: option.splits if_splits)


section \<open>What publishing does\<close>

lemma mapE_Inr_in: "mapE f xs = Inr ys \<Longrightarrow> y \<in> set ys \<Longrightarrow> \<exists>x \<in> set xs. f x = Inr y"
  by (induction xs arbitrary: ys) auto

lemma parse_backlog_ok:
  assumes "parse_backlog markdown = Inr items"
  shows "items \<noteq> [] \<and> distinct (map rm_slug items) \<and> (\<forall>item \<in> set items. rm_labels item = REQUIRED_LABELS)"
proof -
  from assms have e: "entries markdown \<noteq> []" and m: "mapE parse_entry (entries markdown) = Inr items"
    and d: "filter (\<lambda>s. 1 < count_list (map rm_slug items) s) (sort (remdups (map rm_slug items))) = []"
    by (auto simp: parse_backlog_def Let_def split: if_splits)
  have "distinct (map rm_slug items)" using d by (auto simp: distinct_count filter_empty_conv not_less)
  moreover have "items \<noteq> []" using m e by (cases "entries markdown") auto
  moreover have "rm_labels item = REQUIRED_LABELS" if "item \<in> set items" for item
  proof -
    from mapE_Inr_in [OF m that] obtain e where "parse_entry e = Inr item" by blast
    then show ?thesis
      by (cases e) (auto simp: parse_entry_def parse_labels_def Let_def split: if_splits option.splits)
  qed
  ultimately show ?thesis by blast
qed

lemma issue_done:
  "issue run cs = (r, trace) \<Longrightarrow> set trace \<subseteq> set (map fst cs) \<and> (r = Inr () \<longrightarrow> trace = map fst cs)"
  by (induction cs arbitrary: r trace) (force simp: apsnd_def map_prod_def split: if_splits prod.splits)+

text \<open>The issue that \<open>issue_command\<close> creates, with the address that GitHub gives it.\<close>

definition created_issue :: "(ustr \<Rightarrow> ustr) \<Rightarrow> RoadmapItem \<Rightarrow> ExistingIssue" where
  "created_issue url item = \<lparr>ei_slug = rm_slug item, ei_url = url (rm_slug item), ei_labels = REQUIRED_LABELS\<rparr>"

lemma seeded_complete:
  assumes "can_seed (compare_issue_sets items existing)" and "distinct (map rm_slug items)"
  shows "roadmap_complete items (existing @ map (created_issue url)
    (filter (\<lambda>item. rm_slug item \<in> cmp_missing (compare_issue_sets items existing)) items))"
proof -
  have "distinct (map ei_slug existing)" "set (map ei_slug existing) \<subseteq> set (map rm_slug items)"
    "\<forall>i \<in> set existing. REQUIRED_LABELS \<subseteq> ei_labels i"
    using assms(1) unfolding distinct_count
    by (auto simp: can_seed_def compare_issue_sets_def Let_def filter_empty_conv not_less)
  moreover have "cmp_missing (compare_issue_sets items existing) = set (map rm_slug items) - set (map ei_slug existing)"
    by (simp add: compare_issue_sets_def Let_def)
  ultimately show ?thesis using assms(2)
    by (auto simp: roadmap_complete_def created_issue_def comp_def distinct_map_filter) (metis image_eqI)
qed

text \<open>
  Publishing creates just the missing issues. Whatever it does, the publisher of a parsed backlog only asks
  for the owner and the issues, and, if it is not a dry run, creates the two labels and issues of
  backlog items that the repository lacks. When it returns from such a run, it has created each of these
  once, in the order of the backlog, and the issues of the repository are then those that the verifier
  asks for. A second run finds nothing to create.
\<close>

theorem seed_completes_roadmap:
  assumes "parse_backlog markdown = Inr items" and "seed load run repository owner items dry_run = (r, trace)"
  shows "\<exists>existing. set trace \<subseteq> {OWNER_LOOKUP, issue_list repository} \<union> (if dry_run then {} else
      fst ` set (label_commands repository) \<union>
      {fst (issue_command repository item) |item. item \<in> set items \<and> rm_slug item \<notin> ei_slug ` set existing}) \<and>
    (r = Inr () \<longrightarrow> list_existing_issues load run repository = Inr existing \<and>
      (let missing = filter (\<lambda>item. rm_slug item \<notin> ei_slug ` set existing) items;
           issues = existing @ map (created_issue url) missing
       in roadmap_complete items issues \<and>
          (\<not> dry_run \<and> missing \<noteq> [] \<longrightarrow> trace = [OWNER_LOOKUP, issue_list repository] @
             map fst (label_commands repository) @ map (fst \<circ> issue_command repository) missing)))"
proof -
  have distinct: "distinct (map rm_slug items)" using parse_backlog_ok [OF assms(1)] by blast
  show ?thesis
  proof (cases "publisher_owner run owner = Inr ()")
    case False
    then obtain e where "publisher_owner run owner = Inl e" by (cases "publisher_owner run owner") auto
    with assms(2) show ?thesis by (auto simp: seed_def)
  next
    case owner: True
    show ?thesis
    proof (cases "list_existing_issues load run repository")
      case (Inl e)
      with owner assms(2) show ?thesis by (auto simp: seed_def)
    next
      case (Inr existing)
      let ?c = "compare_issue_sets items existing"
      let ?missing = "filter (\<lambda>item. rm_slug item \<in> cmp_missing ?c) items"
      have missing: "?missing = filter (\<lambda>item. rm_slug item \<notin> ei_slug ` set existing) items"
        by (rule filter_cong) (auto simp: compare_issue_sets_def Let_def)
      define cs where "cs = label_commands repository @ map (issue_command repository) ?missing"
      obtain r' done' where d: "issue run cs = (r', done')" by fastforce
      have s: "(r, trace) = (if \<not> can_seed ?c
          then (Inl (Publication_Error (lit ''remote roadmap issues do not match the committed model'')),
            [OWNER_LOOKUP, issue_list repository])
          else if dry_run \<or> ?missing = [] then (Inr (), [OWNER_LOOKUP, issue_list repository])
          else (r', [OWNER_LOOKUP, issue_list repository] @ done'))"
        using assms(2) owner Inr d by (auto simp: seed_def Let_def cs_def split: if_split_asm)
      have "set done' \<subseteq> fst ` set (label_commands repository) \<union>
          {fst (issue_command repository item) |item. item \<in> set items \<and> rm_slug item \<notin> ei_slug ` set existing}"
        using issue_done [OF d] by (auto simp: cs_def missing)
      moreover have "r' = Inr () \<Longrightarrow> done' = map fst (label_commands repository) @
          map (fst \<circ> issue_command repository) ?missing"
        using issue_done [OF d] by (simp add: cs_def)
      ultimately show ?thesis
        using s Inr seeded_complete [OF _ distinct, of existing url]
        by (intro exI [of _ existing]) (auto simp: missing Let_def split: if_splits)
    qed
  qed
qed

section \<open>An example\<close>

definition sample_sha :: ustr where
  "sample_sha = replicate 40 97"

definition sample_repository :: JsonObject where
  "sample_repository = [(lit ''nameWithOwner'', JStr APPROVED_REPOSITORY), (lit ''visibility'', JStr (lit ''PUBLIC'')),
     (lit ''url'', JStr (lit ''https://github.com/Tommynem/opatchy'')), (lit ''hasIssuesEnabled'', JBool True),
     (lit ''defaultBranchRef'', JObj [(lit ''name'', JStr (lit ''main''))])]"

definition sample_run :: JsonObject where
  "sample_run = [(lit ''headSha'', JStr sample_sha), (lit ''status'', JStr (lit ''completed'')),
     (lit ''conclusion'', JStr (lit ''success''))]"

definition sample_registry :: JsonObject where
  "sample_registry = [(lit ''sources'', JArr [JObj [(lit ''plugins'', JObj [(lit ''a.b'', JNull)])]]),
     (lit ''retiredPluginIds'', JArr [JStr (lit ''c.d'')])]"

text \<open>The last argument tells the commands apart.\<close>

definition sample_documents :: "(ustr \<times> ustr) list" where
  "sample_documents =
     [(lit ''.login'', lit ''Tommynem''), (lit ''origin'', lit ''https://github.com/Tommynem/opatchy''),
      (lit ''HEAD'', sample_sha), (lit ''.sha'', sample_sha),
      (lit ''nameWithOwner,visibility,url,hasIssuesEnabled,defaultBranchRef'', json_text (JObj sample_repository) @ [10]),
      (lit ''headSha,status,conclusion,url'', json_text (JArr [JObj sample_run]) @ [10]),
      (lit ''--paginate'', json_text (JArr []) @ [10]), (lit ''tagName'', json_text (JArr []) @ [10]),
      (lit ''defaultBranchRef'',
       json_text (JObj [(lit ''defaultBranchRef'', JObj [(lit ''name'', JStr (lit ''main''))])]) @ [10]),
      (lit ''Accept: application/vnd.github.raw+json'', json_text (JObj sample_registry) @ [10])]"

definition sample_commands :: commands where
  "sample_commands arguments =
     \<lparr>co_returncode = 0, co_stdout = (case map_of sample_documents (last arguments) of None \<Rightarrow> [] | Some out \<Rightarrow> out)\<rparr>"

definition sample_issue :: JsonValue where
  "sample_issue = JObj [(lit ''body'', JStr (lit ''<!-- opatchy-roadmap-slug: dark-mode -->'')), (lit ''url'', JStr []),
     (lit ''labels'', JArr [JObj [(lit ''name'', JStr (lit ''roadmap''))], JObj [(lit ''name'', JStr (lit ''enhancement''))]])]"

definition sample_item :: RoadmapItem where
  "sample_item = \<lparr>rm_slug = lit ''dark-mode'', rm_title = lit ''Dark mode'', rm_issue_body = [], rm_labels = REQUIRED_LABELS\<rparr>"

lemma sample_strip: "strip sample_sha = sample_sha" "strip (lit ''Tommynem'') = lit ''Tommynem''"
  "strip (lit ''https://github.com/Tommynem/opatchy'') = lit ''https://github.com/Tommynem/opatchy''" "full_sha sample_sha"
  by (simp_all add: strip_def lit_def is_space_def sample_sha_def full_sha_def list_all_iff is_lower_hex_def)

lemma sample_issues: "parse_existing_issues (\<lambda>_. Inr (JArr [sample_issue])) out =
    Inr [\<lparr>ei_slug = lit ''dark-mode'', ei_url = [], ei_labels = {lit ''roadmap'', lit ''enhancement''}\<rparr>]"
proof -
  have "slug_search (lit ''<!-- opatchy-roadmap-slug: dark-mode -->'') = Some (lit ''dark-mode'')"
    by (simp add: slug_at_def slug_char_def is_digit_def lit_def Let_def)
  then show ?thesis by (simp add: parse_existing_issues_def sample_issue_def is_roadmap_def parse_existing_issue_def)
qed

lemma sample_decoded:
  "decode_json (json_text (JObj sample_repository) @ [10]) = Inr (JObj (canon_object sample_repository))"
  "decode_json (json_text (JArr [JObj sample_run]) @ [10]) = Inr (JArr [JObj (canon_object sample_run)])"
  "decode_json (json_text (JArr []) @ [10]) = Inr (JArr [])"
  "decode_json (json_text (JObj [(lit ''defaultBranchRef'', JObj [(lit ''name'', JStr (lit ''main''))])]) @ [10]) =
     Inr (JObj (canon_object [(lit ''defaultBranchRef'', JObj [(lit ''name'', JStr (lit ''main''))])]))"
  "decode_json (json_text (JObj sample_registry) @ [10]) = Inr (JObj (canon_object sample_registry))"
proof -
  have printed: "decode_json (json_text v @ [10]) = Inr (canon v)" if "can_print 100 v" for v
    using that by (auto simp: can_print_def intro: decode_json_printed)
  have sha: "list_all scalar_value sample_sha" by (simp add: sample_sha_def list_all_iff scalar_ascii)
  show "decode_json (json_text (JObj sample_repository) @ [10]) = Inr (JObj (canon_object sample_repository))"
    by (subst printed) (simp_all add: sample_repository_def APPROVED_REPOSITORY_def printable_JArr printable_JObj scalar_lit)
  show "decode_json (json_text (JArr [JObj sample_run]) @ [10]) = Inr (JArr [JObj (canon_object sample_run)])"
    using sha by (subst printed) (simp_all add: sample_run_def printable_JArr printable_JObj scalar_lit)
  show "decode_json (json_text (JArr []) @ [10]) = Inr (JArr [])"
    by (subst printed) (simp_all add: printable_JArr)
  show "decode_json (json_text (JObj [(lit ''defaultBranchRef'', JObj [(lit ''name'', JStr (lit ''main''))])]) @ [10]) =
     Inr (JObj (canon_object [(lit ''defaultBranchRef'', JObj [(lit ''name'', JStr (lit ''main''))])]))"
    by (subst printed) (simp_all add: printable_JArr printable_JObj scalar_lit)
  show "decode_json (json_text (JObj sample_registry) @ [10]) = Inr (JObj (canon_object sample_registry))"
    by (subst printed) (simp_all add: sample_registry_def printable_JArr printable_JObj scalar_lit)
qed

lemma sample_outputs:
  "co_returncode (sample_commands arguments) = 0"
  "co_stdout (sample_commands OWNER_LOOKUP) = lit ''Tommynem''"
  "co_stdout (sample_commands (map lit [''git'', ''remote'', ''get-url'', ''origin''])) =
    lit ''https://github.com/Tommynem/opatchy''"
  "co_stdout (sample_commands (map lit [''git'', ''rev-parse'', ''HEAD''])) = sample_sha"
  "co_stdout (sample_commands (commit_lookup repository branch)) = sample_sha"
  "co_stdout (sample_commands (repo_view repository ''nameWithOwner,visibility,url,hasIssuesEnabled,defaultBranchRef'')) =
    json_text (JObj sample_repository) @ [10]"
  "co_stdout (sample_commands (validate_runs branch)) = json_text (JArr [JObj sample_run]) @ [10]"
  "co_stdout (sample_commands TAG_LOOKUP) = json_text (JArr []) @ [10]"
  "co_stdout (sample_commands RELEASE_LOOKUP) = json_text (JArr []) @ [10]"
  "co_stdout (sample_commands (repo_view repository ''defaultBranchRef'')) =
    json_text (JObj [(lit ''defaultBranchRef'', JObj [(lit ''name'', JStr (lit ''main''))])]) @ [10]"
  "co_stdout (sample_commands (registry_lookup sha)) = json_text (JObj sample_registry) @ [10]"
  by (simp_all add: sample_commands_def sample_documents_def OWNER_LOOKUP_def commit_lookup_def repo_view_def
      validate_runs_def TAG_LOOKUP_def RELEASE_LOOKUP_def registry_lookup_def)

lemma sample_parsed:
  "parse_published_repository (json_text (JObj sample_repository) @ [10]) = Inr (lit ''main'')"
  "require_successful_ci (json_text (JArr [JObj sample_run]) @ [10]) sample_sha = Inr ()"
  "parse_array (json_text (JArr []) @ [10]) description = Inr []"
  "parse_default_branch (json_text (JObj [(lit ''defaultBranchRef'', JObj [(lit ''name'', JStr (lit ''main''))])]) @ [10])
    description = Inr (lit ''main'')"
  "parse_marketplace_registry (json_text (JObj sample_registry) @ [10]) = Inr ({lit ''a.b''}, {lit ''c.d''})"
proof -
  have distinct: "distinct (map fst sample_repository)" "distinct (map fst sample_run)" "distinct (map fst sample_registry)"
    by (simp_all add: sample_repository_def sample_run_def sample_registry_def)
  have objects: "parse_object (json_text (JObj sample_repository) @ [10]) d = Inr (canon_object sample_repository)"
    "parse_array (json_text (JArr [JObj sample_run]) @ [10]) d = Inr [JObj (canon_object sample_run)]"
    "parse_array (json_text (JArr []) @ [10]) d = Inr []"
    "parse_object (json_text (JObj [(lit ''defaultBranchRef'', JObj [(lit ''name'', JStr (lit ''main''))])]) @ [10]) d =
      Inr (canon_object [(lit ''defaultBranchRef'', JObj [(lit ''name'', JStr (lit ''main''))])])"
    "parse_object (json_text (JObj sample_registry) @ [10]) d = Inr (canon_object sample_registry)" for d
    by (simp_all only: parse_object_ok parse_array_ok sample_decoded)
  have small: "canon_object [(k, v)] = [(k, canon v)]" for k v by (simp add: canon_object_def)
  show "parse_published_repository (json_text (JObj sample_repository) @ [10]) = Inr (lit ''main'')"
    unfolding parse_published_repository_def objects bindE_simps named_branch_def field_is_def
      canon_object_lookup [OF distinct(1)]
    by (simp add: sample_repository_def small)
  show "require_successful_ci (json_text (JArr [JObj sample_run]) @ [10]) sample_sha = Inr ()"
    unfolding require_successful_ci_def objects bindE_simps ci_matches.simps JsonValue.case
      canon_object_lookup [OF distinct(2)]
    by (simp add: sample_run_def)
  show "parse_array (json_text (JArr []) @ [10]) description = Inr []" by (rule objects)
  show "parse_default_branch (json_text (JObj [(lit ''defaultBranchRef'', JObj [(lit ''name'', JStr (lit ''main''))])]) @ [10])
      description = Inr (lit ''main'')"
    unfolding parse_default_branch_def objects bindE_simps small by (simp add: named_branch_def small)
  show "parse_marketplace_registry (json_text (JObj sample_registry) @ [10]) = Inr ({lit ''a.b''}, {lit ''c.d''})"
    unfolding parse_marketplace_registry_def objects bindE_simps canon_object_lookup [OF distinct(3)]
    by (simp add: sample_registry_def small)
qed

lemma sample_verified:
  "verify_published (\<lambda>_. Inr (JArr [sample_issue])) sample_commands [sample_item] APPROVED_PLUGIN_ID =
     Inr \<lparr>vr_mode = lit ''published'', vr_remote_sha = sample_sha, vr_marketplace_sha = sample_sha\<rparr>"
proof -
  let ?load = "\<lambda>_. Inr (JArr [sample_issue])"
  have ok: "require_result sample_commands arguments operation = Inr (co_stdout (sample_commands arguments))"
    for arguments operation by (simp add: require_result_def sample_outputs(1))
  have sha: "require_sha sample_sha description = Inr sample_sha" for description
    by (simp add: require_sha_ok sample_strip)
  have "roadmap_complete [sample_item]
      [\<lparr>ei_slug = lit ''dark-mode'', ei_url = [], ei_labels = {lit ''roadmap'', lit ''enhancement''}\<rparr>]"
    by (simp add: roadmap_complete_def sample_item_def REQUIRED_LABELS_def)
  then have "require_roadmap_match ?load sample_commands [sample_item] = Inr ()"
    by (simp add: require_roadmap_match_def ok sample_issues exact_match_iff checkE_def)
  moreover have "APPROVED_PLUGIN_ID \<notin> {lit ''a.b''} \<union> {lit ''c.d''}" by (simp add: APPROVED_PLUGIN_ID_def)
  then have "require_marketplace_absent sample_commands = Inr sample_sha"
    unfolding require_marketplace_absent_def ok sample_outputs bindE_simps sample_parsed sha by simp
  moreover have "require_published_repository sample_commands = Inr (lit ''main'')"
    unfolding require_published_repository_def ok sample_outputs bindE_simps by (rule sample_parsed)
  moreover have "require_no_tags_or_releases sample_commands = Inr ()"
    unfolding require_no_tags_or_releases_def ok sample_outputs bindE_simps sample_parsed by (simp add: checkE_def)
  moreover have "require_validate_success sample_commands sample_sha (lit ''main'') = Inr ()"
    unfolding require_validate_success_def ok sample_outputs bindE_simps by (rule sample_parsed)
  moreover have "require_owner sample_commands = Inr ()" "require_origin sample_commands = Inr ()"
    unfolding require_owner_def require_origin_def ok sample_outputs bindE_simps sample_strip
    by (simp_all add: APPROVED_ORIGINS_def checkE_def)
  ultimately show ?thesis
    unfolding verify_published_def ok sample_outputs sha by (simp add: require_plugin_id_def sha checkE_def)
qed


end
