(* ===== verification/Release.thy ===== *)
theory Release
  imports Publication
begin

text \<open>
  The check of a release, \<open>src/scripts/release_readiness.py\<close>: the arguments, the state of the worktree, the versions that
  have to agree, the local gates, the archive of the commit with its digest, and the manifest of the release.
  Shown is that a manifest is only ever written for a release that passed every check, and what it says.
\<close>

section \<open>The surroundings\<close>

text \<open>
  What the tool asks of its surroundings, each of it once: how a path resolves and whether it is a directory; the
  commands of git in the repository, which may raise (git is missing, its output is not text); the content of a
  file of the repository, \<open>None\<close> if it is not a regular file; the exit status of \<open>make validate\<close>; whether the
  output directory can be made and a file in it be opened for writing; the bytes that \<open>git archive\<close> writes, with its
  exit status; and the members that \<open>tarfile\<close> reads of an archive, for each of them whether it is a link.
\<close>

datatype release_exn =
    System_Exit int ustr
  | Uncaught string

record Surroundings =
  rl_resolve :: "ustr \<Rightarrow> ustr"
  rl_is_dir :: "ustr \<Rightarrow> bool"
  rl_git :: "ustr list \<Rightarrow> release_exn + Completed"
  rl_file :: "ustr \<Rightarrow> bytes option"
  rl_validate :: "release_exn + int"
  rl_makes_directory :: bool
  rl_opens :: "ustr \<Rightarrow> bool"
  rl_archive :: "ustr list \<Rightarrow> release_exn + bytes \<times> int"
  rl_members :: "bytes \<Rightarrow> bool list option"

record Arguments =
  ra_repository :: ustr
  ra_tag :: ustr
  ra_output_directory :: ustr

record ReleaseIdentity =
  ri_version :: ustr
  ri_commit :: ustr

definition release_fail :: "ustr \<Rightarrow> release_exn" where
  "release_fail message = System_Exit 1 message"

definition RELEASE_PREFIX :: ustr where
  "RELEASE_PREFIX = lit ''v''"

definition release_arguments :: "Surroundings \<Rightarrow> ustr list \<Rightarrow> release_exn + Arguments" where
  "release_arguments env arguments =
     (if length arguments \<noteq> 7 \<or> arguments ! 0 \<noteq> lit ''--repository'' \<or> arguments ! 2 \<noteq> lit ''--tag'' \<or>
         arguments ! 4 \<noteq> lit ''--dry-run'' \<or> arguments ! 5 \<noteq> lit ''--output-directory''
      then Inl (release_fail (lit ''usage: release_readiness.py --repository PATH --tag vVERSION --dry-run --output-directory PATH''))
      else
        let repository = rl_resolve env (arguments ! 1); directory = rl_resolve env (arguments ! 6); tag = arguments ! 3
        in if \<not> rl_is_dir env repository then Inl (release_fail (lit ''repository is unavailable: '' @ repository))
           else if \<not> prefix RELEASE_PREFIX tag \<or> length tag = 1
           then Inl (release_fail (lit ''prospective tag must use vVERSION form''))
           else Inr \<lparr>ra_repository = repository, ra_tag = tag, ra_output_directory = directory\<rparr>)"

section \<open>The worktree\<close>

definition ALLOWED_UNTRACKED :: "ustr list" where
  "ALLOWED_UNTRACKED = map lit [''.omo/'', ''.codegraph/'', ''.playwright-mcp/'']"

definition product_entries :: "ustr \<Rightarrow> ustr list" where
  "product_entries untracked = filter (\<lambda>entry. \<not> list_ex (\<lambda>allowed. prefix allowed entry) ALLOWED_UNTRACKED) (splitlines untracked)"

definition require_clean_tree :: "Surroundings \<Rightarrow> release_exn + unit" where
  "require_clean_tree env =
     bindE (rl_git env (map lit [''diff'', ''--quiet''])) (\<lambda>tracked.
     bindE (rl_git env (map lit [''diff'', ''--cached'', ''--quiet''])) (\<lambda>staged.
     bindE (rl_git env (map lit [''ls-files'', ''--others'', ''--exclude-standard''])) (\<lambda>untracked.
       if co_returncode tracked \<noteq> 0 \<or> co_returncode staged \<noteq> 0 \<or> product_entries (co_stdout untracked) \<noteq> []
       then Inl (release_fail (lit ''release requires a clean worktree''))
       else Inr ())))"

definition git_output :: "Surroundings \<Rightarrow> ustr list \<Rightarrow> release_exn + ustr" where
  "git_output env arguments =
     bindE (rl_git env arguments) (\<lambda>result.
       if co_returncode result \<noteq> 0
       then Inl (System_Exit (co_returncode result) (lit ''git command failed: '' @ join (lit '' '') arguments))
       else Inr (strip (co_stdout result)))"

definition require_regular_archive_tree :: "Surroundings \<Rightarrow> release_exn + unit" where
  "require_regular_archive_tree env =
     bindE (git_output env (map lit [''ls-files'', ''-s''])) (\<lambda>entries.
       if list_ex (\<lambda>entry. prefix (lit ''120000 '') entry) (splitlines entries)
       then Inl (release_fail (lit ''tracked symlink is not allowed in a release''))
       else Inr ())"

section \<open>The versions\<close>

definition PROJECT_FILES :: "ustr list" where
  "PROJECT_FILES = map lit [''manifest.json'', ''pyproject.toml'', ''CHANGELOG.md'']"

text \<open>\<open>read_text(encoding="utf-8")\<close>, which also makes every line end a line feed.\<close>

fun universal_newlines :: "ustr \<Rightarrow> ustr" where
  "universal_newlines [] = []"
| "universal_newlines (c # s) =
     (if c = 13 then 10 # (case s of [] \<Rightarrow> [] | d # t \<Rightarrow> if d = 10 then universal_newlines t else universal_newlines s)
      else c # universal_newlines s)"

definition read_text :: "Surroundings \<Rightarrow> string \<Rightarrow> release_exn + ustr" where
  "read_text env name =
     (case rl_file env (lit name) of
        None \<Rightarrow> Inl (Uncaught ''FileNotFoundError'')
      | Some content \<Rightarrow> (case utf8_decode content of
          None \<Rightarrow> Inl (Uncaught ''UnicodeDecodeError'')
        | Some decoded \<Rightarrow> Inr (universal_newlines decoded)))"

text \<open>
  The two patterns: the text after the name, which is blanks, the separator, blanks and a quoted text that is not
  empty; and the search at the start of every line. None of the parts of a pattern can match in two ways.
\<close>

definition assigned :: "nat \<Rightarrow> ustr \<Rightarrow> ustr option" where
  "assigned separator s =
     (case dropWhile is_space s of
        c # r \<Rightarrow>
          (case dropWhile is_space r of
             d # q \<Rightarrow>
               let value = takeWhile (\<lambda>x. x \<noteq> 34) q
               in if c = separator \<and> d = 34 \<and> value \<noteq> [] \<and> length value < length q then Some value else None
           | [] \<Rightarrow> None)
      | [] \<Rightarrow> None)"

definition manifest_version_at :: "ustr \<Rightarrow> ustr option" where
  "manifest_version_at s =
     (let t = dropWhile is_space s; name = 34 # lit ''version'' @ [34]
      in if prefix name t then assigned 58 (drop (length name) t) else None)"

definition project_version_at :: "ustr \<Rightarrow> ustr option" where
  "project_version_at s =
     (let name = lit ''version'' in if prefix name s then assigned 61 (drop (length name) s) else None)"

fun search_lines :: "(ustr \<Rightarrow> ustr option) \<Rightarrow> bool \<Rightarrow> ustr \<Rightarrow> ustr option" where
  "search_lines at line_start [] = (if line_start then at [] else None)"
| "search_lines at line_start (c # s) =
     (case (if line_start then at (c # s) else None) of
        Some found \<Rightarrow> Some found
      | None \<Rightarrow> search_lines at (c = 10) s)"

definition matched_version :: "(ustr \<Rightarrow> ustr option) \<Rightarrow> ustr \<Rightarrow> ustr" where
  "matched_version at s = (case search_lines at True s of None \<Rightarrow> [] | Some version \<Rightarrow> version)"

definition release_identity :: "Surroundings \<Rightarrow> ustr \<Rightarrow> release_exn + ReleaseIdentity" where
  "release_identity env tag =
     (let missing = filter (\<lambda>name. rl_file env name = None) PROJECT_FILES
      in if missing \<noteq> []
         then Inl (release_fail (lit ''required release files are unavailable: '' @ join (lit '', '') missing))
         else
     bindE (read_text env ''manifest.json'') (\<lambda>manifest_text.
     bindE (read_text env ''pyproject.toml'') (\<lambda>project_text.
     bindE (read_text env ''CHANGELOG.md'') (\<lambda>changelog.
       let version = drop (length RELEASE_PREFIX) tag
       in if matched_version manifest_version_at manifest_text \<noteq> version \<or>
             matched_version project_version_at project_text \<noteq> version \<or>
             \<not> contains (lit ''## ['' @ version @ lit '']'') changelog
          then Inl (release_fail (lit ''manifest, pyproject, changelog, and prospective tag versions must match''))
          else
     bindE (git_output env (map lit [''rev-parse'', ''HEAD''])) (\<lambda>commit.
       if length commit \<noteq> 40 then Inl (release_fail (lit ''release requires an exact full commit SHA''))
       else Inr \<lparr>ri_version = version, ri_commit = commit\<rparr>)))))"

definition run_local_gates :: "Surroundings \<Rightarrow> release_exn + unit" where
  "run_local_gates env =
     bindE (rl_validate env) (\<lambda>returncode.
       if returncode \<noteq> 0 then Inl (System_Exit returncode (lit ''local validation gate failed'')) else Inr ())"

section \<open>The archive and its manifest\<close>

text \<open>The files of the output directory, by their names.\<close>

type_synonym outputs = "ustr \<Rightarrow> bytes option"

definition archive_name :: "ustr \<Rightarrow> ustr" where
  "archive_name version = lit ''opatchy-'' @ version @ lit ''.tar''"

definition manifest_name :: "ustr \<Rightarrow> ustr" where
  "manifest_name version = lit ''opatchy-'' @ version @ lit ''.release.json''"

definition archive_arguments :: "ReleaseIdentity \<Rightarrow> ustr list" where
  "archive_arguments identity =
     [lit ''archive'', lit ''--format=tar'', lit ''--prefix=opatchy-'' @ ri_version identity @ lit ''/'', ri_commit identity]"

definition archive_release :: "Surroundings \<Rightarrow> ReleaseIdentity \<Rightarrow> outputs \<Rightarrow> (release_exn + ustr) \<times> outputs" where
  "archive_release env identity files =
     (let name = archive_name (ri_version identity)
      in if \<not> rl_makes_directory env \<or> \<not> rl_opens env name then (Inl (Uncaught ''OSError''), files)
         else case rl_archive env (archive_arguments identity) of
           Inl raised \<Rightarrow> (Inl raised, files(name \<mapsto> []))
         | Inr (content, returncode) \<Rightarrow>
             (if returncode \<noteq> 0 then Inl (System_Exit returncode (lit ''unable to archive exact release commit''))
              else case rl_members env content of
                None \<Rightarrow> Inl (Uncaught ''ReadError'')
              | Some links \<Rightarrow>
                  if list_ex (\<lambda>link. link) links then Inl (release_fail (lit ''release archive contains a symlink''))
                  else Inr (sha256_hexdigest content),
              files(name \<mapsto> content)))"

text \<open>\<open>json.dumps\<close> with its default of ASCII output, for the values of the manifest.\<close>

definition escape_unit :: "nat \<Rightarrow> ustr" where
  "escape_unit n = [92, 117] @ map hex_digit_lower [n div 4096, (n div 256) mod 16, (n div 16) mod 16, n mod 16]"

definition escape_ascii :: "nat \<Rightarrow> ustr" where
  "escape_ascii c =
     (if c < 127 then escape_json_char c
      else if c < 0x10000 then escape_unit c
      else escape_unit (0xD800 + (c - 0x10000) div 0x400) @ escape_unit (0xDC00 + (c - 0x10000) mod 0x400))"

definition ascii_quote :: "ustr \<Rightarrow> ustr" where
  "ascii_quote s = [34] @ concat (map escape_ascii s) @ [34]"

definition release_metadata :: "Arguments \<Rightarrow> ReleaseIdentity \<Rightarrow> ustr \<Rightarrow> (ustr \<times> ustr) list" where
  "release_metadata arguments identity digest =
     [(lit ''archive'', archive_name (ri_version identity)),
      (lit ''archiveSha256'', digest),
      (lit ''commit'', ri_commit identity),
      (lit ''tag'', ra_tag arguments),
      (lit ''version'', ri_version identity)]"

definition manifest_text :: "(ustr \<times> ustr) list \<Rightarrow> ustr" where
  "manifest_text metadata =
     [123] @ join [44] (map (\<lambda>(key, value). ascii_quote key @ [58] @ ascii_quote value) (sort_key fst metadata)) @ [125] @ [10]"

definition write_manifest ::
    "Surroundings \<Rightarrow> Arguments \<Rightarrow> ReleaseIdentity \<Rightarrow> ustr \<Rightarrow> outputs \<Rightarrow> (release_exn + unit) \<times> outputs" where
  "write_manifest env arguments identity digest files =
     (let name = manifest_name (ri_version identity)
      in if \<not> rl_opens env name then (Inl (Uncaught ''OSError''), files)
         else (Inr (), files(name \<mapsto> utf8_encode (manifest_text (release_metadata arguments identity digest)))))"

text \<open>\<open>main\<close>: what is printed is the commit and the digest.\<close>

definition release_main :: "Surroundings \<Rightarrow> ustr list \<Rightarrow> outputs \<Rightarrow> (release_exn + ReleaseIdentity \<times> ustr) \<times> outputs" where
  "release_main env argv files =
     (case bindE (release_arguments env argv) (\<lambda>arguments.
           thenE (require_clean_tree env) (
           thenE (require_regular_archive_tree env) (
           bindE (release_identity env (ra_tag arguments)) (\<lambda>identity.
           thenE (run_local_gates env) (Inr (arguments, identity)))))) of
        Inl raised \<Rightarrow> (Inl raised, files)
      | Inr (arguments, identity) \<Rightarrow>
          (case archive_release env identity files of
             (Inl raised, archived) \<Rightarrow> (Inl raised, archived)
           | (Inr digest, archived) \<Rightarrow>
               (case write_manifest env arguments identity digest archived of
                  (Inl raised, finished) \<Rightarrow> (Inl raised, finished)
                | (Inr _, finished) \<Rightarrow> (Inr (identity, digest), finished))))"

section \<open>The manifest read back\<close>

definition metadata_value :: "(ustr \<times> ustr) list \<Rightarrow> JsonValue" where
  "metadata_value metadata = JObj (map (map_prod id JStr) metadata)"

lemma ascii_quote_quote: "list_all (\<lambda>c. c < 127) s \<Longrightarrow> ascii_quote s = quote s"
proof -
  assume "list_all (\<lambda>c. c < 127) s"
  then have "concat (map escape_ascii s) = concat (map escape_json_char s)"
    by (induction s) (auto simp: escape_ascii_def)
  then show ?thesis by (simp only: ascii_quote_def quote_def)
qed

lemma manifest_text_json:
  assumes "\<forall>(key, value) \<in> set metadata. list_all (\<lambda>c. c < 127) (key @ value)"
  shows "manifest_text metadata = json_text (metadata_value metadata) @ [10]"
proof -
  have printed: "map (map_prod id json_text) (map (map_prod id JStr) metadata) = map (map_prod id quote) metadata"
    by (induction metadata) auto
  have "map (\<lambda>(key, value). ascii_quote key @ [58] @ ascii_quote value) (sort_key fst metadata) =
    map (\<lambda>(key, item). quote key @ [58] @ item) (map (map_prod id quote) (sort_key fst metadata))"
    using assms by (auto simp: ascii_quote_quote)
  then show ?thesis
    unfolding manifest_text_def metadata_value_def json_text.simps(7) printed sort_items by (simp del: map_map)
qed

lemma manifest_reads_back:
  assumes ascii: "\<forall>(key, value) \<in> set metadata. list_all (\<lambda>c. c < 127) (key @ value)"
    and "distinct (map fst metadata)" and "sorted (map fst metadata)"
  shows "decode_json (manifest_text metadata) = Inr (metadata_value metadata)"
proof -
  have scalars: "list_all scalar_value (key @ v)" if "(key, v) \<in> set metadata" for key v
    using bspec [OF ascii that] by (auto simp: list_all_iff ball_Un intro!: scalar_ascii)
  have "can_print 100 (metadata_value metadata)"
    using assms scalars by (auto simp: metadata_value_def printable_JObj)
  moreover have "canon (metadata_value metadata) = metadata_value metadata"
  proof -
    have "map (map_prod id canon) (map (map_prod id JStr) metadata) = map (map_prod id JStr) metadata" by auto
    moreover have "sorted (map fst (map (map_prod id JStr) metadata))" using assms(3) by (simp add: comp_def)
    ultimately show ?thesis by (simp add: metadata_value_def canon_object_def sort_key_id_if_sorted del: map_map)
  qed
  ultimately show ?thesis
    using decode_json_printed [of "metadata_value metadata"] manifest_text_json [OF ascii] by (simp add: can_print_def)
qed

lemma hexdigest_ascii: "list_all (\<lambda>c. c < 127) (sha256_hexdigest m)"
  using hexdigest_lower_hex [of m] by (auto simp: list_all_iff is_lower_hex_def)

lemma release_metadata_keys:
  "distinct (map fst (release_metadata arguments identity digest))"
  "sorted (map fst (release_metadata arguments identity digest))"
  by (simp_all add: release_metadata_def lit_def)

section \<open>A ready release\<close>

text \<open>What the checks before the archive establish.\<close>

definition git_gives :: "Surroundings \<Rightarrow> string list \<Rightarrow> ustr \<Rightarrow> bool" where
  "git_gives env arguments text \<longleftrightarrow> (\<exists>result. rl_git env (map lit arguments) = Inr result \<and> co_returncode result = 0 \<and> co_stdout result = text)"

definition worktree_clean :: "Surroundings \<Rightarrow> bool" where
  "worktree_clean env \<longleftrightarrow>
     (\<exists>a b untracked. git_gives env [''diff'', ''--quiet''] a \<and> git_gives env [''diff'', ''--cached'', ''--quiet''] b \<and>
        rl_git env (map lit [''ls-files'', ''--others'', ''--exclude-standard'']) = Inr untracked \<and>
        (\<forall>entry \<in> set (splitlines (co_stdout untracked)). \<exists>allowed \<in> set ALLOWED_UNTRACKED. prefix allowed entry))"

definition no_tracked_links :: "Surroundings \<Rightarrow> bool" where
  "no_tracked_links env \<longleftrightarrow> (\<exists>entries. git_gives env [''ls-files'', ''-s''] entries \<and>
     (\<forall>entry \<in> set (splitlines (strip entries)). \<not> prefix (lit ''120000 '') entry))"

definition versions_agree :: "Surroundings \<Rightarrow> ustr \<Rightarrow> bool" where
  "versions_agree env version \<longleftrightarrow> (\<exists>manifest_text project_text changelog.
     read_text env ''manifest.json'' = Inr manifest_text \<and> search_lines manifest_version_at True manifest_text = Some version \<and>
     read_text env ''pyproject.toml'' = Inr project_text \<and> search_lines project_version_at True project_text = Some version \<and>
     read_text env ''CHANGELOG.md'' = Inr changelog \<and> contains (lit ''## ['' @ version @ lit '']'') changelog)"

definition release_checked :: "Surroundings \<Rightarrow> ustr \<Rightarrow> ReleaseIdentity \<Rightarrow> bool" where
  "release_checked env tag identity \<longleftrightarrow>
     worktree_clean env \<and> no_tracked_links env \<and> tag = lit ''v'' @ ri_version identity \<and> ri_version identity \<noteq> [] \<and>
     versions_agree env (ri_version identity) \<and>
     (\<exists>head. git_gives env [''rev-parse'', ''HEAD''] head \<and> ri_commit identity = strip head) \<and>
     length (ri_commit identity) = 40 \<and> rl_validate env = Inr 0"

lemma release_arguments_tag:
  "release_arguments env argv = Inr arguments \<Longrightarrow> prefix (lit ''v'') (ra_tag arguments) \<and> length (ra_tag arguments) \<noteq> 1"
  by (auto simp: release_arguments_def Let_def RELEASE_PREFIX_def split: if_splits)

lemma require_clean_tree_ok: "require_clean_tree env = Inr () \<Longrightarrow> worktree_clean env"
  unfolding require_clean_tree_def worktree_clean_def git_gives_def product_entries_def
  by (auto simp: bindE_eq_Inr list_ex_iff filter_empty_conv split: if_splits)

lemma git_output_ok: "git_output env (map lit arguments) = Inr text \<Longrightarrow> \<exists>raw. git_gives env arguments raw \<and> text = strip raw"
  by (auto simp: git_output_def git_gives_def split: if_splits)

lemma require_regular_archive_tree_ok: "require_regular_archive_tree env = Inr () \<Longrightarrow> no_tracked_links env"
  unfolding require_regular_archive_tree_def no_tracked_links_def
  by (force simp: list_ex_iff simp del: list.map dest!: git_output_ok split: if_splits)

lemma matched_version_ok: "matched_version at s = version \<Longrightarrow> version \<noteq> [] \<Longrightarrow> search_lines at True s = Some version"
  by (auto simp: matched_version_def split: option.splits)

lemma release_identity_ok:
  assumes id: "release_identity env tag = Inr identity" and tag: "prefix (lit ''v'') tag" "length tag \<noteq> 1"
  shows "tag = lit ''v'' @ ri_version identity \<and> ri_version identity \<noteq> [] \<and> versions_agree env (ri_version identity) \<and>
    (\<exists>head. git_gives env [''rev-parse'', ''HEAD''] head \<and> ri_commit identity = strip head) \<and> length (ri_commit identity) = 40"
proof -
  from tag(1) obtain version where v1: "tag = lit ''v'' @ version" by (rule prefixE)
  with tag(2) have v: "tag = lit ''v'' @ version" "version \<noteq> []" by (auto simp: lit_def)
  then have drop: "drop (length RELEASE_PREFIX) tag = version" by (simp add: RELEASE_PREFIX_def lit_def)
  from id obtain manifest project changelog where read: "read_text env ''manifest.json'' = Inr manifest"
      "read_text env ''pyproject.toml'' = Inr project" "read_text env ''CHANGELOG.md'' = Inr changelog"
    and agree: "matched_version manifest_version_at manifest = version" "matched_version project_version_at project = version"
      "contains (lit ''## ['' @ version @ lit '']'') changelog"
    and commit: "git_output env (map lit [''rev-parse'', ''HEAD'']) = Inr (ri_commit identity)"
      "length (ri_commit identity) = 40" "ri_version identity = version"
    by (auto simp only: release_identity_def Let_def drop bindE_eq_Inr sum.inject sum.distinct de_Morgan_disj simp_thms
        ReleaseIdentity.simps split: if_splits) blast
  with v have "versions_agree env version" unfolding versions_agree_def by (blast intro: matched_version_ok)
  with v commit git_output_ok [OF commit(1)] show ?thesis by auto
qed

lemma release_checks_ok:
  assumes "thenE (require_clean_tree env) (thenE (require_regular_archive_tree env)
      (bindE (release_identity env (ra_tag arguments)) (\<lambda>identity. thenE (run_local_gates env) (Inr (arguments, identity))))) =
      Inr (arguments', identity)"
    and "release_arguments env argv = Inr arguments"
  shows "arguments' = arguments \<and> release_checked env (ra_tag arguments) identity"
  using assms release_arguments_tag [OF assms(2)]
  by (auto simp: release_checked_def run_local_gates_def dest: require_clean_tree_ok require_regular_archive_tree_ok
      release_identity_ok split: if_splits)

text \<open>The archive of a checked release, without links.\<close>

definition archived :: "Surroundings \<Rightarrow> ReleaseIdentity \<Rightarrow> bytes \<Rightarrow> bool" where
  "archived env identity content \<longleftrightarrow> rl_archive env (archive_arguments identity) = Inr (content, 0) \<and>
     (\<exists>links. rl_members env content = Some links \<and> True \<notin> set links)"

lemma archive_release_ok:
  assumes "archive_release env identity files = (result, after)"
  shows "(\<forall>digest. result = Inr digest \<longrightarrow> (\<exists>content. archived env identity content \<and> digest = sha256_hexdigest content \<and>
      after = files(archive_name (ri_version identity) \<mapsto> content))) \<and>
    (after = files \<or> (\<exists>content. after = files(archive_name (ri_version identity) \<mapsto> content)))"
  using assms
  by (auto simp: archive_release_def archived_def Let_def list_ex_iff split: if_splits sum.splits prod.splits option.splits)

text \<open>
  C39: A release manifest stands only for a checked release. If the tool succeeds, the worktree had no changes and no
  foreign untracked files, no tracked symbolic link, the same version in the manifest, the project file, the
  change log and the tag, and a passing validation; the archive it leaves is what git archives of the full commit at
  the head, without links; and the only files it writes are that archive and a manifest which records the digest of
  the archive, the commit, the tag and the version, and which decodes to them when they are ASCII. If it fails
  in any way before the manifest is opened, it has written nothing or only the archive of a checked release.
\<close>

theorem release_ready:
  assumes "release_main env argv files = (result, finished)"
  shows "(\<forall>identity digest. result = Inr (identity, digest) \<longrightarrow> (\<exists>arguments content metadata.
      release_arguments env argv = Inr arguments \<and> release_checked env (ra_tag arguments) identity \<and>
      archived env identity content \<and> digest = sha256_hexdigest content \<and>
      metadata = release_metadata arguments identity digest \<and>
      finished = files(archive_name (ri_version identity) \<mapsto> content,
        manifest_name (ri_version identity) \<mapsto> utf8_encode (manifest_text metadata)) \<and>
      (list_all (\<lambda>c. c < 127) (ri_version identity @ ri_commit identity) \<longrightarrow>
        decode_json (manifest_text metadata) = Inr (metadata_value metadata)))) \<and>
    (\<forall>raised. result = Inl raised \<longrightarrow> finished = files \<or> (\<exists>identity tag content.
      release_checked env tag identity \<and> finished = files(archive_name (ri_version identity) \<mapsto> content)))"
proof -
  let ?checks = "bindE (release_arguments env argv) (\<lambda>arguments. thenE (require_clean_tree env)
    (thenE (require_regular_archive_tree env) (bindE (release_identity env (ra_tag arguments))
      (\<lambda>identity. thenE (run_local_gates env) (Inr (arguments, identity))))))"
  show ?thesis
  proof (cases ?checks)
    case (Inl raised)
    with assms have "result = Inl raised" "finished = files" by (simp_all add: release_main_def)
    then show ?thesis by simp
  next
    case (Inr checks)
    obtain arguments identity where c: "checks = (arguments, identity)" by fastforce
    with Inr have args: "release_arguments env argv = Inr arguments" and ok: "release_checked env (ra_tag arguments) identity"
      using release_checks_ok by (fastforce simp del: bindE_eq_Inr simp: bindE_eq_Inr [of "release_arguments env argv"])+
    obtain digest stored where a: "archive_release env identity files = (digest, stored)" by fastforce
    show ?thesis
    proof (cases digest)
      case (Inl raised)
      with assms Inr c a ok archive_release_ok [OF a] show ?thesis by (auto simp: release_main_def simp del: bindE_eq_Inr)
    next
      case ready: (Inr sum)
      with archive_release_ok [OF a] obtain content where content: "archived env identity content"
        "sum = sha256_hexdigest content" "stored = files(archive_name (ri_version identity) \<mapsto> content)" by blast
      have ascii: "\<forall>(key, v) \<in> set (release_metadata arguments identity sum). list_all (\<lambda>c. c < 127) (key @ v)"
        if "list_all (\<lambda>c. c < 127) (ri_version identity @ ri_commit identity)"
        using that ok hexdigest_ascii content(2)
        by (auto simp: release_metadata_def release_checked_def archive_name_def lit_def)
      show ?thesis
      proof (cases "rl_opens env (manifest_name (ri_version identity))")
        case True
        with assms Inr c a ready content(3) have "result = Inr (identity, sum)"
          and "finished = files(archive_name (ri_version identity) \<mapsto> content, manifest_name (ri_version identity) \<mapsto>
            utf8_encode (manifest_text (release_metadata arguments identity sum)))"
          by (simp_all add: release_main_def write_manifest_def Let_def del: bindE_eq_Inr)
        then show ?thesis
          using args ok content(1,2) manifest_reads_back [OF ascii release_metadata_keys] by blast
      next
        case False
        with assms Inr c a ready content(3) have "result = Inl (Uncaught ''OSError'')"
          and "finished = files(archive_name (ri_version identity) \<mapsto> content)"
          by (simp_all add: release_main_def write_manifest_def Let_def del: bindE_eq_Inr)
        then show ?thesis using ok by blast
      qed
    qed
  qed
qed

text \<open>A release 1 with a manifest, a project file and a change log, of a commit at the head, and an archive of two files.\<close>

definition sample_head :: ustr where
  "sample_head = replicate 40 97"

definition sample_release :: Surroundings where
  "sample_release =
     \<lparr>rl_resolve = \<lambda>p. p, rl_is_dir = \<lambda>_. True,
      rl_git = \<lambda>arguments. Inr \<lparr>co_returncode = 0,
        co_stdout = if arguments = map lit [''rev-parse'', ''HEAD''] then sample_head @ [10] else []\<rparr>,
      rl_file = map_of
        [(lit ''manifest.json'', utf8_encode (10 # 34 # lit ''version'' @ 34 # 58 # 32 # 34 # 49 # [34])),
         (lit ''pyproject.toml'', utf8_encode (lit ''a'' @ 10 # lit ''version = '' @ [34, 49, 34])),
         (lit ''CHANGELOG.md'', utf8_encode (lit ''## [1]''))],
      rl_validate = Inr 0, rl_makes_directory = True, rl_opens = \<lambda>_. True,
      rl_archive = \<lambda>_. Inr ([1, 2], 0), rl_members = \<lambda>_. Some [False, False]\<rparr>"

definition sample_argv :: "ustr list" where
  "sample_argv = map lit [''--repository'', ''/r'', ''--tag'', ''v1'', ''--dry-run'', ''--output-directory'', ''/o'']"

lemma sample_texts:
  "read_text sample_release ''manifest.json'' = Inr (10 # 34 # lit ''version'' @ 34 # 58 # 32 # 34 # 49 # [34])"
  "read_text sample_release ''pyproject.toml'' = Inr (lit ''a'' @ 10 # lit ''version = '' @ [34, 49, 34])"
  "read_text sample_release ''CHANGELOG.md'' = Inr (lit ''## [1]'')"
  by (simp_all add: read_text_def sample_release_def utf8_decode_encode scalar_lit scalar_value_def list_all_append)
    (simp_all add: lit_def)

lemma sample_versions:
  "matched_version manifest_version_at (10 # 34 # lit ''version'' @ 34 # 58 # 32 # 34 # 49 # [34]) = [49]"
  "matched_version project_version_at (lit ''a'' @ 10 # lit ''version = '' @ [34, 49, 34]) = [49]"
  "contains (lit ''## ['' @ [49] @ lit '']'') (lit ''## [1]'')"
  by (simp_all add: matched_version_def manifest_version_at_def project_version_at_def assigned_def is_space_def lit_def)

lemma sample_release_identity:
  "release_identity sample_release (lit ''v1'') = Inr \<lparr>ri_version = [49], ri_commit = sample_head\<rparr>"
proof -
  have "git_output sample_release (map lit [''rev-parse'', ''HEAD'']) = Inr sample_head" by code_simp
  moreover have "filter (\<lambda>name. rl_file sample_release name = None) PROJECT_FILES = []"
    by (simp add: sample_release_def PROJECT_FILES_def lit_def)
  moreover have "drop (length RELEASE_PREFIX) (lit ''v1'') = [49]" by (simp add: RELEASE_PREFIX_def lit_def)
  moreover have "length sample_head = 40" by (simp add: sample_head_def)
  ultimately show ?thesis
    using sample_versions by (simp add: release_identity_def sample_texts)
qed

lemma sample_release_main:
  "release_main sample_release sample_argv (\<lambda>_. None) =
     (Inr (\<lparr>ri_version = [49], ri_commit = sample_head\<rparr>, sha256_hexdigest [1, 2]),
      [archive_name [49] \<mapsto> [1, 2], manifest_name [49] \<mapsto> utf8_encode (manifest_text (release_metadata
        \<lparr>ra_repository = lit ''/r'', ra_tag = lit ''v1'', ra_output_directory = lit ''/o''\<rparr>
        \<lparr>ri_version = [49], ri_commit = sample_head\<rparr> (sha256_hexdigest [1, 2])))])"
proof -
  have "release_arguments sample_release sample_argv =
      Inr \<lparr>ra_repository = lit ''/r'', ra_tag = lit ''v1'', ra_output_directory = lit ''/o''\<rparr>" by code_simp
  moreover have "require_clean_tree sample_release = Inr ()" by code_simp
  moreover have "require_regular_archive_tree sample_release = Inr ()" by code_simp
  moreover have "run_local_gates sample_release = Inr ()" by code_simp
  moreover have "archive_release sample_release \<lparr>ri_version = [49], ri_commit = sample_head\<rparr> (\<lambda>_. None) =
      (Inr (sha256_hexdigest [1, 2]), [archive_name [49] \<mapsto> [1, 2]])"
    by (simp add: archive_release_def sample_release_def)
  moreover have "rl_opens sample_release name" for name by (simp add: sample_release_def)
  ultimately show ?thesis using sample_release_identity by (simp add: release_main_def write_manifest_def)
qed

theorem release_ready_witness:
  "\<exists>arguments identity. release_arguments sample_release sample_argv = Inr arguments \<and>
     release_checked sample_release (ra_tag arguments) identity \<and> archived sample_release identity [1, 2] \<and>
     ri_commit identity = sample_head"
proof -
  have "content = [1, 2]" if "archived sample_release identity content" for identity content
    using that by (simp add: archived_def sample_release_def)
  then show ?thesis using release_ready [OF sample_release_main] by fastforce
qed

end
