(* ===== verification/Spec2Isabelle.thy ===== *)
theory Spec2Isabelle
  imports Cli_Facts Runtime_Scan Atomic_Write Supervisor Publication Release Ci_Policy
begin

text \<open>
  Verification of the Opatchy helper, the Python program under \<open>src/helper/opatchy_helper/\<close>
  (file names below are relative to that directory), and of the tools that check and publish it under
  \<open>src/scripts/\<close>.

  \<^bold>\<open>The program.\<close> Opatchy is a desktop widget that shows pending updates and security findings of an
  Omarchy system. The helper is a process that the widget starts for one command: \<open>scan\<close>, \<open>inventory\<close>,
  \<open>star\<close> or \<open>condition\<close> (\<open>cli_requests.py\<close>, \<open>cli_operations.py\<close>, \<open>cli.py\<close>). A scan
  (\<open>scan.py\<close>) asks the adapters that are due (\<open>adapters/\<close>) for their updates, each of which runs
  commands of a closed registry (\<open>runner*.py\<close>, each command under \<open>command_supervisor.py\<close>) or fetches a
  feed (\<open>runner.py\<close>, \<open>cache_metadata.py\<close>); it maps their results to outcomes
  (\<open>scan_outcomes.py\<close>, \<open>scan_command_outcomes.py\<close>, \<open>scan_normalize.py\<close>), falls back to the last good
  evidence of a failing source (\<open>scan_resolution.py\<close>), assembles a snapshot, the inventories and the
  retry schedule (\<open>scan_assembly.py\<close>, \<open>scan_generation.py\<close>), publishes them as one generation in
  the storage (\<open>storage*.py\<close>), and then notifies about watched items and findings
  (\<open>notification_policy.py\<close>, \<open>conditional_security_policy.py\<close>, \<open>notifications.py\<close>,
  \<open>notification_batch.py\<close>). Stars are watches of the user on items (\<open>stars.py\<close>). Every answer is a JSON
  document of the protocol (\<open>models.py\<close>, \<open>validation.py\<close>, \<open>wire.py\<close>, \<open>parser*.py\<close>,
  \<open>payload_parser.py\<close>, \<open>protocol.py\<close>, \<open>json_value.py\<close>). The maintainer's tools check the workflows
  (\<open>ci_policy.py\<close>) and a release (\<open>release_readiness.py\<close>), seed the issues of the roadmap (\<open>publish_repository.py\<close>, \<open>publication_model.py\<close>) and
  verify the repository before and after its publication (\<open>publication_verifier*.py\<close>).

  \<^bold>\<open>Conventions.\<close> A \<open>str\<close> is a list of code points (\<open>ustr\<close>), \<open>bytes\<close> a list of \<open>8 word\<close>, an \<open>int\<close>
  an \<open>int\<close>, a datetime an instant in microseconds. A dataclass is a record whose fields carry a short
  prefix, a StrEnum a datatype with its values (\<open>str_enum\<close> is their interface), a tagged union a
  datatype. An operation that may raise returns \<open>exn + 'a\<close>, composed by \<open>bindE\<close>; an operation on the
  files is an \<open>act\<close>, a function from the files (\<open>disk\<close>) to a result and the files after it, composed
  by \<open>bindA\<close>. Loops are structural recursion, or recursion with a measure on the text that is left;
  no operation of the model runs on fuel. What a process reads from its clock is a sequence of
  instants, and each operation takes its own positions of it.

  \<^bold>\<open>Parameters.\<close> \<open>fromisoformat\<close> (the parser of ISO timestamps of the standard library; the
  proofs use only that it inverts \<open>isoformat\<close>, \<open>reads_isoformat\<close>, and \<open>canonical_fromisoformat\<close> shows
  that this can be met), \<open>casefold\<close> and \<open>isprintable\<close> (Unicode data), the results of
  child processes (\<open>runner\<close>, \<open>Spawn\<close>, \<open>Child\<close>), clocks and lease tokens; what the network answers and how
  \<open>urllib\<close> joins and checks URLs (\<open>Network\<close>); the dates of feeds with a time zone; the home directory; which
  system call of a write fails (\<open>Io\<close>); \<open>int\<close> on the arguments of the supervisor; the replies of \<open>git\<close>,
  \<open>gh\<close> and \<open>make\<close>, \<open>tarfile\<close>, \<open>json.loads\<close> and the YAML composer, which the maintainer's tools use.

  \<^bold>\<open>Theories.\<close>

  \<^item> \<open>Prelude\<close>, \<open>Digest\<close>, \<open>Python_Text\<close>, \<open>Timestamp\<close>: texts, results that may raise, dictionaries
    and sorted lists; UTF-8 and SHA-256; decoding, splitting and stripping; calendar and ISO timestamps.
  \<^item> \<open>Models\<close>, \<open>Validation\<close>: the data of \<open>models.py\<close> and the checks of \<open>validation.py\<close>, with the
    predicates they decide.
  \<^item> \<open>Json\<close>, \<open>Protocol\<close>: \<open>json_value.py\<close> with a scanner and printer for JSON; the wire codec.
    What is decoded is bounded in depth and has no duplicate keys; decoding inverts encoding.
  \<^item> \<open>Storage_State\<close>, \<open>State_Codec\<close>, \<open>Generation_Codec\<close>: the durable state with its invariant and
    pruning, the state file with its migrations, the generation file. Both codecs are inverse up to
    pruning and never read back an invalid state.
  \<^item> \<open>Storage\<close>, \<open>Storage_Refinement\<close>: the operations on the files, and an abstract store (one state, the
    newest generation) that they implement over any sequence of operations.
  \<^item> \<open>Stars\<close>: the state machine of watches as functions and as a step relation over events; validity
    of every reachable state, the cycle of clicks, what a fresh scan arms and clears.
  \<^item> \<open>Runner_Types\<close>, \<open>Runner\<close>: the registries, the redaction of diagnostics, and the supervision of a
    child with its deadline and output limits. Every run returns within its limits, success means the
    whole output, nothing outside the registry is started, and no credential survives redaction.
  \<^item> \<open>Adapter_Arch\<close>, \<open>Adapter_Flatpak\<close>: the parsers and collectors of pacman, the AUR helpers and
    Flatpak. Collected items have distinct, well-formed ids and name installed packages.
  \<^item> \<open>Adapter_Mise\<close>, \<open>Adapter_Omarchy\<close>: the reports of mise and of the Omarchy updater. A printed mise
    report is read back tool by tool.
  \<^item> \<open>Cache_Metadata\<close>, \<open>Endpoint\<close>: the validators of a cached feed and the fetcher with its redirects. Every
    request goes to an allowed URL, the body is bounded, and a reply 304 is only believed when the cache
    has the body the validators are of.
  \<^item> \<open>Adapter_Security\<close>, \<open>Security_Facts\<close>: the parsers of the security feeds and the correlation with the
    installed packages; the findings are exactly those that the advisories call for.
  \<^item> \<open>Scan_Outcomes\<close>, \<open>Scan_Generation\<close>, \<open>Scan_Facts\<close>: from adapter results to a generation. A built
    generation is valid, a failing source keeps its last good items, the retry schedule is bounded, the
    reported state of a scan is truthful, and watches and ledger are left alone.
  \<^item> \<open>Notification_Batch\<close>, \<open>Notification_Policy\<close>, \<open>Notification_Dispatch\<close>: the lease protocol in the
    ledger under interleavings of several processes, which notifications a snapshot calls for, and their
    delivery, exactly once for a dispatcher that runs alone.
  \<^item> \<open>Scan_Coordinator\<close>, \<open>Runtime_Scan\<close>: the scan on the files, and that it publishes all or nothing; the
    production collector, which puts adapters, runner and fetcher together, and that what it gathers
    can always be published.
  \<^item> \<open>Atomic_Write\<close>: the system calls of a write. Whatever fails, the file is the old or the whole new one.
  \<^item> \<open>Supervisor\<close>: the process that runs a command, as a step relation with the death of the helper at any
    moment; no command outlives the helper.
  \<^item> \<open>Cli_Requests\<close>, \<open>Cli_Operations\<close>, \<open>Cli_Facts\<close>: the command line, its operations and the
    entry point; the parser is within its bounds, the pages of an inventory partition its matches, a star
    click moves one watch one step.
  \<^item> \<open>Publication\<close>, \<open>Release\<close>, \<open>Ci_Policy\<close>: the tools of the maintainer; what a passed verification, a release
    manifest and a passed policy check mean, and that seeding completes the roadmap.

  \<^bold>\<open>Interfaces.\<close> \<open>str_enum\<close> (Prelude) is the contract of a StrEnum, interpreted for each of them;
  \<open>ledger_update\<close> (Scan_Coordinator) is what dispatching asks of an update of the ledger, interpreted for
  claims and for completions; \<open>guarded_runner\<close> (Notification_Dispatch) is what delivery asks of a command runner,
  interpreted for the closed registry.

  \<^bold>\<open>Bounds.\<close> The theorems on the production scan assume that the versions and names that an adapter passes on
  are within the 128 characters of an identifier (\<open>scan_bounded\<close>); the mise adapter does not check it, and a
  longer one makes the scan fail.

  \<^bold>\<open>Not modelled.\<close> The file lock itself: an operation under the lock is one step. Failing system calls within the
  operations of the storage: \<open>Atomic_Write\<close> shows what one write leaves behind when a call fails, and that a
  write can raise after the replacement, when the mode or the directory cannot be synchronised; the
  refinement of the storage assumes that no call fails. The signalling of process groups by the runner.
  The scripts \<open>security_check.py\<close> and \<open>security_qml.py\<close>, which search the sources of the repository with the syntax
  trees of Python and with regular expressions over Unicode tables. The widget itself is QML and shell.
\<close>

end
